(* ===== verification/Prelude.thy ===== *)
theory Prelude
  imports Main "HOL-Library.Word"
begin

text \<open>
  Shared vocabulary of the development: results of fallible operations as values of a sum type
  (\<open>Inl\<close> the error, \<open>Inr\<close> the value), their sequencing, guards, and the generic facts on
  results, options and lists that the components rewrite with.

  Two collections carry the automation. \<open>result_simps\<close> inverts sequenced results;
  \<open>list_split_simps\<close> handles the prefix and suffix arithmetic of the parsers.
\<close>

named_theorems result_simps "inversion of sequenced results"
named_theorems list_split_simps "take, drop and append facts for parsers"

section \<open>Results\<close>

text \<open>Sequencing of a Go call \<open>x, err := m\<close> followed by \<open>if err != nil { return err }\<close>.\<close>

definition bindR :: "'e + 'a \<Rightarrow> ('a \<Rightarrow> 'e + 'b) \<Rightarrow> 'e + 'b" where
  "bindR m f = (case m of Inl e \<Rightarrow> Inl e | Inr x \<Rightarrow> f x)"

text \<open>The early return \<open>if !ok { return e }\<close>.\<close>

definition guardR :: "bool \<Rightarrow> 'e \<Rightarrow> 'e + unit" where
  "guardR ok e = (if ok then Inr () else Inl e)"

text \<open>Wrapping of an error on its way out, as \<open>fmt.Errorf("...: %w", err)\<close> does.\<close>

definition wrapR :: "('e \<Rightarrow> 'f) \<Rightarrow> 'e + 'a \<Rightarrow> 'f + 'a" where
  "wrapR f m = (case m of Inl e \<Rightarrow> Inl (f e) | Inr x \<Rightarrow> Inr x)"

text \<open>A loop that stops at the first error: \<open>for _, x := range xs { y, err := f(x); ... }\<close>.\<close>

fun mapR :: "('a \<Rightarrow> 'e + 'b) \<Rightarrow> 'a list \<Rightarrow> 'e + 'b list" where
  "mapR f [] = Inr []"
| "mapR f (x # xs) = bindR (f x) (\<lambda>y. bindR (mapR f xs) (\<lambda>ys. Inr (y # ys)))"

lemma bindR_simps [simp]:
  "bindR (Inl e) f = Inl e"
  "bindR (Inr x) f = f x"
  by (simp_all add: bindR_def)

lemma bindR_cong [fundef_cong]:
  "m = m' \<Longrightarrow> (\<And>x. m' = Inr x \<Longrightarrow> f x = g x) \<Longrightarrow> bindR m f = bindR m' g"
  by (cases m') simp_all

lemma bindR_eq_Inr [result_simps]:
  "bindR m f = Inr y \<longleftrightarrow> (\<exists>x. m = Inr x \<and> f x = Inr y)"
  by (cases m) simp_all

lemma bindR_eq_Inl [result_simps]:
  "bindR m f = Inl e \<longleftrightarrow> m = Inl e \<or> (\<exists>x. m = Inr x \<and> f x = Inl e)"
  by (cases m) simp_all

lemma guardR_simps [simp]:
  "ok \<Longrightarrow> guardR ok e = Inr ()"
  "\<not> ok \<Longrightarrow> guardR ok e = Inl e"
  by (simp_all add: guardR_def)

lemma guardR_eq [result_simps]:
  "guardR ok e = Inr u \<longleftrightarrow> ok"
  "guardR ok e = Inl e' \<longleftrightarrow> \<not> ok \<and> e' = e"
  by (auto simp: guardR_def)

lemma wrapR_simps [simp]:
  "wrapR f (Inl e) = Inl (f e)"
  "wrapR f (Inr x) = Inr x"
  by (simp_all add: wrapR_def)

lemma wrapR_eq [result_simps]:
  "wrapR f m = Inr x \<longleftrightarrow> m = Inr x"
  "wrapR f m = Inl e' \<longleftrightarrow> (\<exists>e. m = Inl e \<and> e' = f e)"
  by (cases m; auto)+

lemma mapR_Inr_iff: "mapR f xs = Inr ys \<longleftrightarrow> list_all2 (\<lambda>x y. f x = Inr y) xs ys"
  by (induction xs arbitrary: ys) (auto simp: result_simps list_all2_Cons1)

section \<open>Options\<close>

text \<open>The second result of a Go function \<open>(value, ok)\<close> whose pair is modelled as an option.\<close>

definition is_some :: "'a option \<Rightarrow> bool" where
  "is_some x = (case x of None \<Rightarrow> False | Some _ \<Rightarrow> True)"

lemma is_some_simps [simp]: "is_some (Some x)" "\<not> is_some None"
  by (simp_all add: is_some_def)

lemma is_some_iff: "is_some x \<longleftrightarrow> (\<exists>y. x = Some y)"
  by (cases x) simp_all

section \<open>Lists\<close>

lemma take_length_append [simp, list_split_simps]: "take (length xs) (xs @ ys) = xs"
  by simp

lemma drop_length_append [simp, list_split_simps]: "drop (length xs) (xs @ ys) = ys"
  by simp

lemma take_append_eq [list_split_simps]: "length xs = n \<Longrightarrow> take n (xs @ ys) = xs"
  by simp

lemma drop_append_eq [list_split_simps]: "length xs = n \<Longrightarrow> drop n (xs @ ys) = ys"
  by simp

lemma length_eq_numeral_Cons:
  "length xs = numeral n \<longleftrightarrow> (\<exists>y ys. xs = y # ys \<and> length ys = pred_numeral n)"
  by (auto simp: numeral_eq_Suc length_Suc_conv)

lemma takeWhile_append_stop:
  "\<forall>x \<in> set xs. P x \<Longrightarrow> \<not> P y \<Longrightarrow> takeWhile P (xs @ y # ys) = xs"
  by (induction xs) auto

lemma dropWhile_append_stop:
  "\<forall>x \<in> set xs. P x \<Longrightarrow> \<not> P y \<Longrightarrow> dropWhile P (xs @ y # ys) = y # ys"
  by (induction xs) auto

text \<open>The first position satisfying a predicate, as the \<open>strings.Index\<close> family returns it.\<close>

fun find_index_opt :: "('a \<Rightarrow> bool) \<Rightarrow> 'a list \<Rightarrow> nat option" where
  "find_index_opt P [] = None"
| "find_index_opt P (x # xs) = (if P x then Some 0 else map_option Suc (find_index_opt P xs))"

lemma find_index_opt_None: "find_index_opt P xs = None \<longleftrightarrow> (\<forall>x \<in> set xs. \<not> P x)"
  by (induction xs) auto

lemma find_index_opt_Some:
  "find_index_opt P xs = Some i \<Longrightarrow>
     i < length xs \<and> P (xs ! i) \<and> (\<forall>x \<in> set (take i xs). \<not> P x)"
  by (induction xs arbitrary: i) (auto split: if_splits)

lemma find_index_opt_append:
  "\<forall>x \<in> set xs. \<not> P x \<Longrightarrow> P y \<Longrightarrow> find_index_opt P (xs @ y # ys) = Some (length xs)"
  by (induction xs) auto

section \<open>64-bit flag words\<close>

text \<open>Whether two masks share a bit, the Go test \<open>flags & mask != 0\<close>.\<close>

definition flag_set :: "'w::len word \<Rightarrow> 'w word \<Rightarrow> bool" where
  "flag_set flags m \<longleftrightarrow> and flags m \<noteq> 0"


section \<open>Canonical codecs\<close>

text \<open>
  The contract of an encoder and a decoder that share one canonical form. \<open>norm\<close> is the value the
  decoder gives inp for an encoded one, on the inputs \<open>ok\<close> for which the encoder is used;
  \<open>inp\<close> reads a decoded value as an input of the encoder. The decoder accepts nothing but what
  the encoder writes.
\<close>

locale canonical_codec =
  fixes enc :: "'x \<Rightarrow> 'e + string"
    and dec :: "string \<Rightarrow> 'f + 'y"
    and ok :: "'x \<Rightarrow> bool"
    and norm :: "'x \<Rightarrow> 'y"
    and inp :: "'y \<Rightarrow> 'x"
  assumes dec_enc: "ok x \<Longrightarrow> enc x = Inr s \<Longrightarrow> dec s = Inr (norm x)"
    and enc_dec: "dec s = Inr y \<Longrightarrow> enc (inp y) = Inr s"
begin

lemma dec_injective: "dec s = Inr y \<Longrightarrow> dec t = Inr y \<Longrightarrow> s = t"
  using enc_dec [of s y] enc_dec [of t y] by simp

lemma enc_injective: "ok x \<Longrightarrow> ok x' \<Longrightarrow> enc x = Inr s \<Longrightarrow> enc x' = Inr s \<Longrightarrow> norm x = norm x'"
  using dec_enc [of x s] dec_enc [of x' s] by simp

lemma dec_iff_enc: "ok x \<Longrightarrow> enc x = Inr s \<Longrightarrow> dec t = Inr (norm x) \<longleftrightarrow> t = s"
  using dec_enc [of x s] dec_injective [of t "norm x" s] by auto

lemma norm_inp: "dec s = Inr y \<Longrightarrow> ok (inp y) \<Longrightarrow> norm (inp y) = y"
  using enc_dec [of s y] dec_enc [of "inp y" s] by simp

end

end
