(* ===== verification/Go_Strings.thy ===== *)
theory Go_Strings
  imports Prelude
begin

text \<open>
  The parts of Go's \<open>strings\<close> and \<open>strconv\<close> packages that the program uses and that work byte
  by byte. A Go \<open>string\<close> and a Go \<open>[]byte\<close> are both a list of bytes, an Isabelle \<open>string\<close>
  whose characters stand for the byte values 0 to 255. The rune-wise operations (trimming of
  Unicode space, field splitting, case folding) are in \<open>Go_Utf8\<close>.
\<close>

section \<open>Bytes\<close>

abbreviation byte_val :: "char \<Rightarrow> nat" where
  "byte_val \<equiv> of_char"

abbreviation byte_of :: "nat \<Rightarrow> char" where
  "byte_of \<equiv> char_of"

lemma byte_val_less [simp]: "byte_val c < 256"
proof -
  have "byte_val c = byte_val c mod 256"
    by (metis char_of_char of_char_of)
  then show ?thesis by (metis mod_less_divisor zero_less_numeral)
qed

lemma byte_val_inject [simp]: "byte_val c = byte_val d \<longleftrightarrow> c = d"
  by (rule of_char_eq_iff)

lemma byte_val_byte_of: "n < 256 \<Longrightarrow> byte_val (byte_of n) = n"
  by simp

definition is_digit :: "char \<Rightarrow> bool" where
  "is_digit c \<longleftrightarrow> 48 \<le> byte_val c \<and> byte_val c \<le> 57"

definition is_upper :: "char \<Rightarrow> bool" where
  "is_upper c \<longleftrightarrow> 65 \<le> byte_val c \<and> byte_val c \<le> 90"

definition is_lower :: "char \<Rightarrow> bool" where
  "is_lower c \<longleftrightarrow> 97 \<le> byte_val c \<and> byte_val c \<le> 122"

definition is_ascii :: "char \<Rightarrow> bool" where
  "is_ascii c \<longleftrightarrow> byte_val c < 128"

definition upper_byte :: "char \<Rightarrow> char" where
  "upper_byte c = (if is_lower c then byte_of (byte_val c - 32) else c)"

definition lower_byte :: "char \<Rightarrow> char" where
  "lower_byte c = (if is_upper c then byte_of (byte_val c + 32) else c)"

section \<open>Prefixes, suffixes, searching\<close>

definition has_prefix :: "string \<Rightarrow> string \<Rightarrow> bool" where
  "has_prefix s p \<longleftrightarrow> take (length p) s = p"

definition has_suffix :: "string \<Rightarrow> string \<Rightarrow> bool" where
  "has_suffix s p \<longleftrightarrow> length p \<le> length s \<and> drop (length s - length p) s = p"

definition trim_prefix :: "string \<Rightarrow> string \<Rightarrow> string" where
  "trim_prefix s p = (if has_prefix s p then drop (length p) s else s)"

definition trim_suffix :: "string \<Rightarrow> string \<Rightarrow> string" where
  "trim_suffix s p = (if has_suffix s p then take (length s - length p) s else s)"

definition index_byte :: "string \<Rightarrow> char \<Rightarrow> nat option" where
  "index_byte s c = find_index_opt (\<lambda>x. x = c) s"

definition last_index_byte :: "string \<Rightarrow> char \<Rightarrow> nat option" where
  "last_index_byte s c = map_option (\<lambda>i. length s - 1 - i) (index_byte (rev s) c)"

definition contains_any :: "string \<Rightarrow> string \<Rightarrow> bool" where
  "contains_any s cs \<longleftrightarrow> (\<exists>c \<in> set s. c \<in> set cs)"

text \<open>\<open>strings.Cut\<close> at a one-byte separator.\<close>

definition cut_byte :: "string \<Rightarrow> char \<Rightarrow> string \<times> string \<times> bool" where
  "cut_byte s c = (case index_byte s c of
      None \<Rightarrow> (s, [], False)
    | Some i \<Rightarrow> (take i s, drop (Suc i) s, True))"

text \<open>\<open>strings.Index\<close>, and \<open>strings.Split\<close> for a non-empty separator.\<close>

fun index_string :: "string \<Rightarrow> string \<Rightarrow> nat option" where
  "index_string [] p = (if p = [] then Some 0 else None)"
| "index_string (c # s) p =
     (if has_prefix (c # s) p then Some 0 else map_option Suc (index_string s p))"

function split_string :: "string \<Rightarrow> string \<Rightarrow> string \<Rightarrow> string list" where
  "split_string sep cur [] = [cur]"
| "split_string sep cur (c # s) =
     (if sep \<noteq> [] \<and> has_prefix (c # s) sep
      then cur # split_string sep [] (drop (length sep) (c # s))
      else split_string sep (cur @ [c]) s)"
  by pat_completeness auto
termination by (relation "measure (\<lambda>(sep, cur, s). length s)") (auto simp: less_Suc_eq_le neq_Nil_conv)

fun join_with :: "string \<Rightarrow> string list \<Rightarrow> string" where
  "join_with sep [] = []"
| "join_with sep [x] = x"
| "join_with sep (x # y # xs) = x @ sep @ join_with sep (y # xs)"

lemma has_prefix_iff: "has_prefix s p \<longleftrightarrow> (\<exists>r. s = p @ r)"
  by (metis append_take_drop_id has_prefix_def take_length_append)

lemma has_prefix_append [simp]: "has_prefix (p @ r) p"
  by (simp add: has_prefix_def)

lemma has_suffix_append [simp]: "has_suffix (r @ p) p"
  by (simp add: has_suffix_def)

lemma has_suffix_iff: "has_suffix s p \<longleftrightarrow> (\<exists>r. s = r @ p)"
  by (metis append_take_drop_id has_suffix_append has_suffix_def)

lemma trim_prefix_append [simp]: "trim_prefix (p @ r) p = r"
  by (simp add: trim_prefix_def)

section \<open>Decimal numbers\<close>

text \<open>
  \<open>strconv.FormatUint(n, 10)\<close> and \<open>strconv.ParseUint(s, 10, bits)\<close>. The parser accepts one
  or more ASCII digits (no sign, no underscore) whose value fits the width.
\<close>

fun format_uint :: "nat \<Rightarrow> string" where
  "format_uint n = (if n < 10 then [byte_of (48 + n)]
     else format_uint (n div 10) @ [byte_of (48 + n mod 10)])"

declare format_uint.simps [simp del]

definition decimal_value :: "string \<Rightarrow> nat" where
  "decimal_value s = foldl (\<lambda>v c. v * 10 + (byte_val c - 48)) 0 s"

definition parse_uint :: "nat \<Rightarrow> string \<Rightarrow> nat option" where
  "parse_uint bits s =
     (if s \<noteq> [] \<and> list_all is_digit s \<and> decimal_value s < 2 ^ bits
      then Some (decimal_value s) else None)"

lemma format_uint_digits: "list_all is_digit (format_uint n)"
proof (induction n rule: format_uint.induct)
  case (1 n)
  have "is_digit (byte_of (48 + k))" if "k < 10" for k
    using that by (simp add: is_digit_def)
  with 1 show ?case
    by (subst format_uint.simps) (simp add: list_all_append)
qed

lemma format_uint_nonempty [simp]: "format_uint n \<noteq> []"
  by (subst format_uint.simps) simp

lemma decimal_value_snoc: "decimal_value (s @ [c]) = decimal_value s * 10 + (byte_val c - 48)"
  by (simp add: decimal_value_def)

lemma decimal_value_format [simp]: "decimal_value (format_uint n) = n"
proof (induction n rule: format_uint.induct)
  case (1 n)
  show ?case
  proof (cases "n < 10")
    case True
    then show ?thesis by (subst format_uint.simps) (simp add: decimal_value_def)
  next
    case False
    with 1 have "decimal_value (format_uint (n div 10)) = n div 10" by blast
    with False show ?thesis
      by (subst format_uint.simps) (simp add: decimal_value_snoc)
  qed
qed

lemma parse_format_uint: "n < 2 ^ bits \<Longrightarrow> parse_uint bits (format_uint n) = Some n"
  by (simp add: parse_uint_def format_uint_digits)

lemma parse_uint_bound: "parse_uint bits s = Some n \<Longrightarrow> n < 2 ^ bits"
  by (auto simp: parse_uint_def split: if_splits)

end
