(* ===== verification/Go_Utf8.thy ===== *)
theory Go_Utf8
  imports Go_Strings
begin

text \<open>
  Go's \<open>unicode/utf8\<close> and \<open>unicode/utf16\<close> as the program uses them: decoding of the first rune
  of a byte string with Go's accept ranges, encoding of a rune, validity, and the rune-wise
  operations of the \<open>strings\<close> package (\<open>TrimSpace\<close>, \<open>Fields\<close>, \<open>EqualFold\<close> against ASCII).
  The lemmas show that encoding is inverted by decoding, that decoding splits a string into
  consecutive chunks, and that the valid strings are exactly the encodings of scalar values.
\<close>

section \<open>Runes\<close>

abbreviation rune_error :: nat where
  "rune_error \<equiv> 65533"

definition is_scalar :: "nat \<Rightarrow> bool" where
  "is_scalar r \<longleftrightarrow> r < 55296 \<or> (57344 \<le> r \<and> r \<le> 1114111)"

definition byte_in :: "nat \<Rightarrow> nat \<Rightarrow> char \<Rightarrow> bool" where
  "byte_in lo hi c \<longleftrightarrow> lo \<le> byte_val c \<and> byte_val c \<le> hi"

text \<open>
  \<open>utf8.DecodeRune\<close>: the first rune and its width. A malformed sequence is \<open>RuneError\<close> with
  width 1; the empty string is \<open>RuneError\<close> with width 0.
\<close>

fun decode_rune :: "string \<Rightarrow> nat \<times> nat" where
  "decode_rune [] = (rune_error, 0)"
| "decode_rune (c0 # s) = (let b0 = byte_val c0 in
     if b0 < 128 then (b0, 1)
     else if 194 \<le> b0 \<and> b0 \<le> 223 then
       (case s of c1 # _ \<Rightarrow>
          if byte_in 128 191 c1 then ((b0 - 192) * 64 + (byte_val c1 - 128), 2) else (rune_error, 1)
        | _ \<Rightarrow> (rune_error, 1))
     else if 224 \<le> b0 \<and> b0 \<le> 239 then
       (case s of c1 # c2 # _ \<Rightarrow>
          if byte_in (if b0 = 224 then 160 else 128) (if b0 = 237 then 159 else 191) c1
             \<and> byte_in 128 191 c2
          then ((b0 - 224) * 4096 + (byte_val c1 - 128) * 64 + (byte_val c2 - 128), 3)
          else (rune_error, 1)
        | _ \<Rightarrow> (rune_error, 1))
     else if 240 \<le> b0 \<and> b0 \<le> 244 then
       (case s of c1 # c2 # c3 # _ \<Rightarrow>
          if byte_in (if b0 = 240 then 144 else 128) (if b0 = 244 then 143 else 191) c1
             \<and> byte_in 128 191 c2 \<and> byte_in 128 191 c3
          then ((b0 - 240) * 262144 + (byte_val c1 - 128) * 4096 + (byte_val c2 - 128) * 64
                + (byte_val c3 - 128), 4)
          else (rune_error, 1)
        | _ \<Rightarrow> (rune_error, 1))
     else (rune_error, 1))"

text \<open>\<open>utf8.AppendRune\<close>: a value that is no scalar is encoded as \<open>RuneError\<close>.\<close>

definition encode_scalar :: "nat \<Rightarrow> string" where
  "encode_scalar r =
     (if r < 128 then [byte_of r]
      else if r < 2048 then [byte_of (192 + r div 64), byte_of (128 + r mod 64)]
      else if r < 65536 then
        [byte_of (224 + r div 4096), byte_of (128 + r div 64 mod 64), byte_of (128 + r mod 64)]
      else
        [byte_of (240 + r div 262144), byte_of (128 + r div 4096 mod 64),
         byte_of (128 + r div 64 mod 64), byte_of (128 + r mod 64)])"

definition encode_rune :: "nat \<Rightarrow> string" where
  "encode_rune r = encode_scalar (if is_scalar r then r else rune_error)"

lemma encode_scalar_nonempty [simp]: "encode_scalar r \<noteq> []"
  by (simp add: encode_scalar_def)

lemma encode_rune_nonempty [simp]: "encode_rune r \<noteq> []"
  by (simp add: encode_rune_def)

lemma decode_rune_width: "s \<noteq> [] \<Longrightarrow> 1 \<le> snd (decode_rune s) \<and> snd (decode_rune s) \<le> length s"
  by (cases s) (auto simp: Let_def split: list.splits)

lemma decode_rune_positive [simp]: "decode_rune (c # s) = (r, n) \<Longrightarrow> 0 < n"
  using decode_rune_width [of "c # s"] by simp

lemma decode_rune_2:
  assumes "2 \<le> a" "a \<le> 31" "b \<le> 63"
  shows "decode_rune (byte_of (192 + a) # byte_of (128 + b) # rest) = (a * 64 + b, 2)"
  using assms by (simp add: byte_in_def Let_def)

lemma decode_rune_3:
  assumes "a \<le> 15" "b \<le> 63" "c \<le> 63" "a = 0 \<Longrightarrow> 32 \<le> b" "a = 13 \<Longrightarrow> b \<le> 31"
  shows "decode_rune (byte_of (224 + a) # byte_of (128 + b) # byte_of (128 + c) # rest)
    = (a * 4096 + b * 64 + c, 3)"
proof -
  have "byte_val (byte_of (224 + a)) = 224 + a" "byte_val (byte_of (128 + b)) = 128 + b"
    "byte_val (byte_of (128 + c)) = 128 + c"
    using assms by simp_all
  with assms show ?thesis
    by (simp add: byte_in_def del: of_char_of)
qed

lemma decode_rune_4:
  assumes "a \<le> 4" "b \<le> 63" "c \<le> 63" "d \<le> 63" "a = 0 \<Longrightarrow> 16 \<le> b" "a = 4 \<Longrightarrow> b \<le> 15"
  shows "decode_rune (byte_of (240 + a) # byte_of (128 + b) # byte_of (128 + c) # byte_of (128 + d) # rest)
    = (a * 262144 + b * 4096 + c * 64 + d, 4)"
proof -
  have "byte_val (byte_of (240 + a)) = 240 + a" "byte_val (byte_of (128 + b)) = 128 + b"
    "byte_val (byte_of (128 + c)) = 128 + c" "byte_val (byte_of (128 + d)) = 128 + d"
    using assms by simp_all
  with assms show ?thesis
    by (simp add: byte_in_def del: of_char_of)
qed

lemma split_64:
  fixes r :: nat
  shows "r = r div 64 * 64 + r mod 64" "r mod 64 \<le> 63"
  by auto

lemma split_4096:
  fixes r :: nat
  shows "r = r div 4096 * 4096 + r div 64 mod 64 * 64 + r mod 64" "r div 64 mod 64 \<le> 63"
proof -
  have "r div 4096 = r div 64 div 64" by (simp add: div_mult2_eq [symmetric])
  with split_64(1) [of r] split_64(1) [of "r div 64"]
  show "r = r div 4096 * 4096 + r div 64 mod 64 * 64 + r mod 64" by linarith
qed (rule split_64)

lemma split_262144:
  fixes r :: nat
  shows "r = r div 262144 * 262144 + r div 4096 mod 64 * 4096 + r div 64 mod 64 * 64 + r mod 64"
    "r div 4096 mod 64 \<le> 63"
proof -
  have "r div 262144 = r div 4096 div 64" by (simp add: div_mult2_eq [symmetric])
  with split_4096(1) [of r] split_64(1) [of "r div 4096"]
  show "r = r div 262144 * 262144 + r div 4096 mod 64 * 4096 + r div 64 mod 64 * 64 + r mod 64"
    by linarith
qed (rule split_64)

lemma decode_encode_scalar:
  assumes "is_scalar r"
  shows "decode_rune (encode_scalar r @ rest) = (r, length (encode_scalar r))"
proof -
  note s1 = split_64 [of r] and s2 = split_4096 [of r] and s3 = split_262144 [of r]
  consider "r < 128" | "128 \<le> r" "r < 2048" | "2048 \<le> r" "r < 65536" | "65536 \<le> r" by linarith
  then show ?thesis
  proof cases
    case 1
    then show ?thesis by (simp add: encode_scalar_def)
  next
    case 2
    with s1 have "2 \<le> r div 64" "r div 64 \<le> 31" by linarith+
    then show ?thesis using 2 s1 decode_rune_2 [of "r div 64" "r mod 64" rest]
      by (simp add: encode_scalar_def del: decode_rune.simps)
  next
    case 3
    define a b c where abc: "a = r div 4096" "b = r div 64 mod 64" "c = r mod 64"
    have r: "r = a * 4096 + b * 64 + c" and "b \<le> 63" "c \<le> 63" using s1 s2 by (simp_all only: abc)
    moreover from this 3 have "a \<le> 15" "a = 0 \<Longrightarrow> 32 \<le> b" by linarith+
    moreover have "a = 13 \<Longrightarrow> b \<le> 31" using r 3 assms \<open>b \<le> 63\<close> \<open>c \<le> 63\<close>
      unfolding is_scalar_def by linarith
    ultimately have "decode_rune (byte_of (224 + a) # byte_of (128 + b) # byte_of (128 + c) # rest) = (r, 3)"
      by (simp add: decode_rune_3 del: decode_rune.simps)
    then show ?thesis using 3 by (simp add: encode_scalar_def abc del: decode_rune.simps)
  next
    case 4
    define a b c d
      where abc: "a = r div 262144" "b = r div 4096 mod 64" "c = r div 64 mod 64" "d = r mod 64"
    have top: "r \<le> 1114111" using assms by (auto simp: is_scalar_def)
    have r: "r = a * 262144 + b * 4096 + c * 64 + d" and "b \<le> 63" "c \<le> 63" "d \<le> 63"
      using s1 s2 s3 by (simp_all only: abc)
    moreover from this 4 top have "a \<le> 4" "a = 0 \<Longrightarrow> 16 \<le> b" "a = 4 \<Longrightarrow> b \<le> 15" by linarith+
    ultimately have "decode_rune (byte_of (240 + a) # byte_of (128 + b) # byte_of (128 + c) # byte_of (128 + d) # rest) = (r, 4)"
      by (simp add: decode_rune_4 del: decode_rune.simps)
    then show ?thesis using 4 by (simp add: encode_scalar_def abc del: decode_rune.simps)
  qed
qed

lemma decode_encode_rune:
  "is_scalar r \<Longrightarrow> decode_rune (encode_rune r @ rest) = (r, length (encode_rune r))"
  by (simp add: encode_rune_def decode_encode_scalar)

lemma char_from_val: "byte_val c = n \<Longrightarrow> c = byte_of n"
  by (metis char_of_char)

lemma encode_scalar_2:
  "2 \<le> a \<Longrightarrow> a \<le> 31 \<Longrightarrow> b \<le> 63 \<Longrightarrow>
   encode_scalar (a * 64 + b) = [byte_of (192 + a), byte_of (128 + b)]"
  by (simp add: encode_scalar_def)

lemma encode_scalar_3:
  assumes "a \<le> 15" "b \<le> 63" "c \<le> 63" "a = 0 \<Longrightarrow> 32 \<le> b"
  shows "encode_scalar (a * 4096 + b * 64 + c) = [byte_of (224 + a), byte_of (128 + b), byte_of (128 + c)]"
proof -
  have lo: "2048 \<le> a * 4096 + b * 64 + c" "a * 4096 + b * 64 + c < 65536"
    using assms by (cases a; simp)+
  have q: "(a * 4096 + b * 64 + c) div 64 = a * 64 + b"
    by (rule div_nat_eqI) (use assms in \<open>simp_all\<close>)
  have "(a * 4096 + b * 64 + c) mod 64 = c"
    using split_64(1) [of "a * 4096 + b * 64 + c"] q by linarith
  moreover have "(a * 4096 + b * 64 + c) div 4096 = a" by (rule div_nat_eqI) (use assms in \<open>simp_all\<close>)
  moreover have "(a * 64 + b) mod 64 = b" using assms by simp
  ultimately show ?thesis using lo q by (simp add: encode_scalar_def)
qed

lemma encode_scalar_4:
  assumes "a \<le> 4" "b \<le> 63" "c \<le> 63" "d \<le> 63" "a = 0 \<Longrightarrow> 16 \<le> b"
  shows "encode_scalar (a * 262144 + b * 4096 + c * 64 + d)
    = [byte_of (240 + a), byte_of (128 + b), byte_of (128 + c), byte_of (128 + d)]"
proof -
  let ?r = "a * 262144 + b * 4096 + c * 64 + d"
  have lo: "65536 \<le> ?r" using assms by (cases a; simp)
  have q: "?r div 64 = a * 4096 + b * 64 + c" by (rule div_nat_eqI) (use assms in \<open>simp_all\<close>)
  have q2: "?r div 4096 = a * 64 + b" by (rule div_nat_eqI) (use assms in \<open>simp_all\<close>)
  have "?r mod 64 = d" using split_64(1) [of ?r] q by linarith
  moreover have "?r div 262144 = a" by (rule div_nat_eqI) (use assms in \<open>simp_all\<close>)
  moreover have "(a * 64 + b) mod 64 = b" using assms by simp
  moreover have "(a * 4096 + b * 64 + c) mod 64 = c"
  proof -
    have "(a * 4096 + b * 64 + c) div 64 = a * 64 + b" by (rule div_nat_eqI) (use assms in \<open>simp_all\<close>)
    then show ?thesis using split_64(1) [of "a * 4096 + b * 64 + c"] by linarith
  qed
  ultimately show ?thesis using lo q q2 by (simp add: encode_scalar_def)
qed

lemma decode_rune_sound:
  assumes "decode_rune s = (r, n)" "\<not> (r = rune_error \<and> n \<le> 1)"
  shows "is_scalar r \<and> n = length (encode_scalar r) \<and> take n s = encode_scalar r"
proof (cases s)
  case Nil
  with assms show ?thesis by simp
next
  case (Cons c0 t)
  note d = assms(1) [unfolded Cons, simplified, unfolded Let_def]
  consider "byte_val c0 < 128" | "194 \<le> byte_val c0" "byte_val c0 \<le> 223"
    | "224 \<le> byte_val c0" "byte_val c0 \<le> 239" | "240 \<le> byte_val c0" "byte_val c0 \<le> 244"
    | "\<not> byte_val c0 < 128" "\<not> (194 \<le> byte_val c0 \<and> byte_val c0 \<le> 244)"
    by linarith
  then show ?thesis
  proof cases
    case 1
    with d have "r = byte_val c0" "n = 1" by auto
    with 1 Cons show ?thesis by (simp add: is_scalar_def encode_scalar_def)
  next
    case 2
    with d assms(2) obtain c1 u where t: "t = c1 # u" and b1: "byte_in 128 191 c1"
      and r: "r = (byte_val c0 - 192) * 64 + (byte_val c1 - 128)" and n: "n = 2"
      by (auto split: list.splits if_splits)
    define a b where ab: "a = byte_val c0 - 192" "b = byte_val c1 - 128"
    from 2 b1 have v: "byte_val c0 = 192 + a" "byte_val c1 = 128 + b" "2 \<le> a" "a \<le> 31" "b \<le> 63"
      by (auto simp: ab byte_in_def)
    have "c0 = byte_of (192 + a)" "c1 = byte_of (128 + b)" using v by (auto intro: char_from_val)
    with v r n t Cons show ?thesis by (simp add: ab [symmetric] encode_scalar_2 is_scalar_def)
  next
    case 3
    with d assms(2) obtain c1 c2 u where t: "t = c1 # c2 # u"
      and b1: "byte_in (if byte_val c0 = 224 then 160 else 128) (if byte_val c0 = 237 then 159 else 191) c1"
      and b2: "byte_in 128 191 c2"
      and r: "r = (byte_val c0 - 224) * 4096 + (byte_val c1 - 128) * 64 + (byte_val c2 - 128)"
      and n: "n = 3"
      by (auto simp del: byte_val_inject split: list.split_asm if_split_asm)
    define a b c where ab: "a = byte_val c0 - 224" "b = byte_val c1 - 128" "c = byte_val c2 - 128"
    from 3 b1 b2 have v: "byte_val c0 = 224 + a" "byte_val c1 = 128 + b" "byte_val c2 = 128 + c"
      "a \<le> 15" "b \<le> 63" "c \<le> 63" "a = 0 \<Longrightarrow> 32 \<le> b" "a = 13 \<Longrightarrow> b \<le> 31"
      by (auto simp: ab byte_in_def split: if_split_asm)
    have "c0 = byte_of (224 + a)" "c1 = byte_of (128 + b)" "c2 = byte_of (128 + c)"
      using v by (auto intro: char_from_val)
    moreover have "is_scalar (a * 4096 + b * 64 + c)"
    proof -
      consider "a \<le> 12" | "a = 13" | "14 \<le> a" by linarith
      then show ?thesis using v(4-8) by cases (simp_all add: is_scalar_def)
    qed
    ultimately show ?thesis using v r n t Cons by (simp add: ab [symmetric] encode_scalar_3)
  next
    case 4
    with d assms(2) obtain c1 c2 c3 u where t: "t = c1 # c2 # c3 # u"
      and b1: "byte_in (if byte_val c0 = 240 then 144 else 128) (if byte_val c0 = 244 then 143 else 191) c1"
      and b2: "byte_in 128 191 c2" and b3: "byte_in 128 191 c3"
      and r: "r = (byte_val c0 - 240) * 262144 + (byte_val c1 - 128) * 4096 + (byte_val c2 - 128) * 64
        + (byte_val c3 - 128)"
      and n: "n = 4"
      by (auto simp del: byte_val_inject split: list.split_asm if_split_asm)
    define a b c e where ab: "a = byte_val c0 - 240" "b = byte_val c1 - 128" "c = byte_val c2 - 128"
      "e = byte_val c3 - 128"
    from 4 b1 b2 b3 have v: "byte_val c0 = 240 + a" "byte_val c1 = 128 + b" "byte_val c2 = 128 + c"
      "byte_val c3 = 128 + e"
      "a \<le> 4" "b \<le> 63" "c \<le> 63" "e \<le> 63" "a = 0 \<Longrightarrow> 16 \<le> b" "a = 4 \<Longrightarrow> b \<le> 15"
      by (auto simp: ab byte_in_def split: if_split_asm)
    have "c0 = byte_of (240 + a)" "c1 = byte_of (128 + b)" "c2 = byte_of (128 + c)"
      "c3 = byte_of (128 + e)"
      using v by (auto intro: char_from_val)
    moreover have "is_scalar (a * 262144 + b * 4096 + c * 64 + e)"
      using v(5-10) unfolding is_scalar_def by linarith
    ultimately show ?thesis using v r n t Cons by (simp add: ab [symmetric] encode_scalar_4)
  next
    case 5
    with d have "r = rune_error" "n = 1" by (auto split: if_split_asm)
    with assms(2) show ?thesis by simp
  qed
qed

section \<open>Whole strings\<close>

text \<open>The runes of a string in order, each with the bytes it was decoded from.\<close>

function utf8_chunks :: "string \<Rightarrow> (nat \<times> string) list" where
  "utf8_chunks s = (if s = [] then []
     else let (r, n) = decode_rune s in (r, take n s) # utf8_chunks (drop n s))"
  by auto
termination
proof (relation "measure length")
  fix s :: string and x r n
  assume "s \<noteq> []" "x = decode_rune s" "(r, n) = x"
  with decode_rune_width [of s] show "(drop n s, s) \<in> measure length"
    by (metis One_nat_def Suc_le_lessD drop_eq_Nil in_measure length_drop
        length_greater_0_conv diff_less snd_conv)
qed simp

declare utf8_chunks.simps [simp del]

definition runes :: "string \<Rightarrow> nat list" where
  "runes s = map fst (utf8_chunks s)"

definition valid_utf8 :: "string \<Rightarrow> bool" where
  "valid_utf8 s \<longleftrightarrow> list_all (\<lambda>(r, b). \<not> (r = rune_error \<and> length b \<le> 1)) (utf8_chunks s)"

definition encode_runes :: "nat list \<Rightarrow> string" where
  "encode_runes rs = concat (map encode_rune rs)"

definition rune_count :: "string \<Rightarrow> nat" where
  "rune_count s = length (utf8_chunks s)"

lemma utf8_chunks_Nil [simp]: "utf8_chunks [] = []"
  by (subst utf8_chunks.simps) simp

lemma utf8_chunks_concat: "concat (map snd (utf8_chunks s)) = s"
proof (induction s rule: utf8_chunks.induct)
  case (1 s)
  then show ?case by (subst utf8_chunks.simps) (auto split: prod.split)
qed

lemma utf8_chunks_encode:
  "is_scalar r \<Longrightarrow> utf8_chunks (encode_rune r @ s) = (r, encode_rune r) # utf8_chunks s"
  by (subst utf8_chunks.simps) (simp add: decode_encode_rune)

lemma utf8_chunks_ascii:
  "byte_val c < 128 \<Longrightarrow> utf8_chunks (c # s) = (byte_val c, [c]) # utf8_chunks s"
  by (subst utf8_chunks.simps) (simp add: Let_def)

lemma encode_runes_simps [simp]:
  "encode_runes [] = []"
  "encode_runes (r # rs) = encode_rune r @ encode_runes rs"
  "encode_runes (rs @ rs') = encode_runes rs @ encode_runes rs'"
  by (simp_all add: encode_runes_def)

lemma utf8_chunks_encode_runes:
  "list_all is_scalar rs \<Longrightarrow> utf8_chunks (encode_runes rs) = map (\<lambda>r. (r, encode_rune r)) rs"
  by (induction rs) (simp_all add: utf8_chunks_encode)

lemma runes_encode_runes: "list_all is_scalar rs \<Longrightarrow> runes (encode_runes rs) = rs"
  by (simp add: runes_def utf8_chunks_encode_runes o_def)

lemma rune_error_width: "1 < length (encode_rune rune_error)"
  by (simp add: encode_rune_def encode_scalar_def is_scalar_def)

lemma valid_encode_runes: "list_all is_scalar rs \<Longrightarrow> valid_utf8 (encode_runes rs)"
  using rune_error_width
  by (auto simp: valid_utf8_def utf8_chunks_encode_runes list_all_iff)

lemma valid_utf8_chunks:
  "valid_utf8 s \<Longrightarrow> list_all (\<lambda>(r, b). is_scalar r \<and> b = encode_rune r) (utf8_chunks s)"
proof (induction s rule: utf8_chunks.induct)
  case (1 s)
  show ?case
  proof (cases "s = []")
    case False
    obtain r n where d: "decode_rune s = (r, n)" by fastforce
    have "n \<le> length s" using decode_rune_width [OF False] d by simp
    moreover have ch: "utf8_chunks s = (r, take n s) # utf8_chunks (drop n s)"
      using False d by (subst utf8_chunks.simps) simp
    moreover have v: "valid_utf8 (drop n s)" "\<not> (r = rune_error \<and> length (take n s) \<le> 1)"
      using "1.prems" ch by (simp_all add: valid_utf8_def)
    ultimately show ?thesis
      using decode_rune_sound [OF d] "1.IH" [OF False d [symmetric] refl v(1)]
      by (auto simp: encode_rune_def)
  qed simp
qed

lemma valid_utf8_iff: "valid_utf8 s \<longleftrightarrow> (\<exists>rs. list_all is_scalar rs \<and> s = encode_runes rs)"
proof
  assume v: "valid_utf8 s"
  have "s = concat (map snd (utf8_chunks s))" by (simp add: utf8_chunks_concat)
  also have "\<dots> = encode_runes (runes s)"
    using valid_utf8_chunks [OF v] unfolding encode_runes_def runes_def map_map
    by (intro arg_cong [where f = concat] map_cong refl) (auto simp: list_all_iff)
  finally have "s = encode_runes (runes s)" .
  moreover have "list_all is_scalar (runes s)"
    using valid_utf8_chunks [OF v] by (auto simp: list_all_iff runes_def)
  ultimately show "\<exists>rs. list_all is_scalar rs \<and> s = encode_runes rs" by blast
qed (auto intro: valid_encode_runes)

lemma valid_utf8_runes: "valid_utf8 s \<Longrightarrow> encode_runes (runes s) = s"
  by (auto simp: valid_utf8_iff runes_encode_runes)

lemma valid_utf8_append: "valid_utf8 s \<Longrightarrow> valid_utf8 t \<Longrightarrow> valid_utf8 (s @ t)"
  unfolding valid_utf8_iff by (metis encode_runes_simps(3) list_all_append)

lemma valid_utf8_ascii: "list_all is_ascii s \<Longrightarrow> valid_utf8 s"
  by (induction s) (auto simp: valid_utf8_def is_ascii_def utf8_chunks_ascii)

lemma runes_ascii: "list_all is_ascii s \<Longrightarrow> runes s = map byte_val s"
  by (induction s) (auto simp: runes_def is_ascii_def utf8_chunks_ascii)

section \<open>Rune-wise string operations\<close>

text \<open>\<open>unicode.IsSpace\<close>.\<close>

definition is_space_rune :: "nat \<Rightarrow> bool" where
  "is_space_rune r \<longleftrightarrow> (9 \<le> r \<and> r \<le> 13) \<or> r = 32 \<or> r = 133 \<or> r = 160 \<or> r = 5760
     \<or> (8192 \<le> r \<and> r \<le> 8202) \<or> r = 8232 \<or> r = 8233 \<or> r = 8239 \<or> r = 8287 \<or> r = 12288"

definition trim_left_func :: "(nat \<Rightarrow> bool) \<Rightarrow> string \<Rightarrow> string" where
  "trim_left_func f s = concat (map snd (dropWhile (f \<circ> fst) (utf8_chunks s)))"

text \<open>
  Trimming on both sides. A malformed byte is a rune of its own from either direction, and a
  well-formed sequence is one rune from either direction, so the chunks read from the left are
  the runes read from the right.
\<close>

definition trim_func :: "(nat \<Rightarrow> bool) \<Rightarrow> string \<Rightarrow> string" where
  "trim_func f s = concat (map snd (rev (dropWhile (f \<circ> fst) (rev (dropWhile (f \<circ> fst) (utf8_chunks s))))))"

definition trim_space :: "string \<Rightarrow> string" where
  "trim_space s = trim_func is_space_rune s"

fun str_fields_loop :: "string \<Rightarrow> (nat \<times> string) list \<Rightarrow> string list" where
  "str_fields_loop cur [] = (if cur = [] then [] else [cur])"
| "str_fields_loop cur ((r, b) # cs) =
     (if is_space_rune r then (if cur = [] then [] else [cur]) @ str_fields_loop [] cs
      else str_fields_loop (cur @ b) cs)"

definition str_fields :: "string \<Rightarrow> string list" where
  "str_fields s = str_fields_loop [] (utf8_chunks s)"

text \<open>
  \<open>strings.ToUpper\<close> as far as a comparison with ASCII texts can see it: the two non-ASCII letters
  with an ASCII capital are mapped to it, every other non-ASCII rune stays outside ASCII.
\<close>

definition upper_rune :: "nat \<Rightarrow> nat" where
  "upper_rune r = (if 97 \<le> r \<and> r \<le> 122 then r - 32
     else if r = 305 then 73 else if r = 383 then 83 else r)"

definition to_upper :: "string \<Rightarrow> string" where
  "to_upper s = encode_runes (map upper_rune (runes s))"

text \<open>
  \<open>strings.EqualFold\<close> against an ASCII text: the Kelvin sign and the long s fold to ASCII letters,
  no other non-ASCII rune does.
\<close>

definition fold_rune :: "nat \<Rightarrow> nat" where
  "fold_rune r = (if 65 \<le> r \<and> r \<le> 90 then r + 32
     else if r = 8490 then 107 else if r = 383 then 115 else r)"

definition equal_fold_ascii :: "string \<Rightarrow> string \<Rightarrow> bool" where
  "equal_fold_ascii s t \<longleftrightarrow> map fold_rune (runes s) = map fold_rune (runes t)"

lemma equal_fold_ascii_refl [simp]: "equal_fold_ascii s s"
  by (simp add: equal_fold_ascii_def)

lemma str_fields_nonempty: "f \<in> set (str_fields_loop cur cs) \<Longrightarrow> \<forall>c \<in> set cs. snd c \<noteq> [] \<Longrightarrow> f \<noteq> []"
  by (induction cur cs rule: str_fields_loop.induct) (auto split: if_splits)

lemma trim_space_printable: "\<forall>c \<in> set s. 33 \<le> byte_val c \<and> byte_val c < 127 \<Longrightarrow> trim_space s = s"
proof -
  assume s: "\<forall>c \<in> set s. 33 \<le> byte_val c \<and> byte_val c < 127"
  then have "utf8_chunks s = map (\<lambda>c. (byte_val c, [c])) s" by (induction s) (simp_all add: utf8_chunks_ascii)
  moreover have "\<not> is_space_rune (byte_val c)" if "c \<in> set s" for c
    using s that by (force simp: is_space_rune_def)
  ultimately have "dropWhile (is_space_rune \<circ> fst) (utf8_chunks s) = utf8_chunks s"
      "dropWhile (is_space_rune \<circ> fst) (rev (utf8_chunks s)) = rev (utf8_chunks s)"
    by (auto simp: dropWhile_eq_self_iff hd_rev last_map hd_map)
  then show ?thesis by (simp add: trim_space_def trim_func_def utf8_chunks_concat)
qed

section \<open>UTF-16\<close>

text \<open>\<open>utf16.Encode\<close> on one rune, and \<open>utf16.Decode\<close> of a surrogate pair.\<close>

definition utf16_units :: "nat \<Rightarrow> nat list" where
  "utf16_units r =
     (if \<not> is_scalar r then [rune_error]
      else if r < 65536 then [r]
      else [55296 + (r - 65536) div 1024, 56320 + (r - 65536) mod 1024])"

definition utf16_pair :: "nat \<Rightarrow> nat \<Rightarrow> nat" where
  "utf16_pair hi lo = (hi - 55296) * 1024 + (lo - 56320) + 65536"

definition utf16_be_bytes :: "nat list \<Rightarrow> string" where
  "utf16_be_bytes units = concat (map (\<lambda>u. [byte_of (u div 256), byte_of (u mod 256)]) units)"

fun utf16_be_units :: "string \<Rightarrow> nat list" where
  "utf16_be_units (a # b # s) = (byte_val a * 256 + byte_val b) # utf16_be_units s"
| "utf16_be_units _ = []"

lemma utf16_units_bound: "\<forall>u \<in> set (utf16_units r). u < 65536"
  by (auto simp: utf16_units_def is_scalar_def)

lemma utf16_be_units_bytes:
  "\<forall>u \<in> set us. u < 65536 \<Longrightarrow> utf16_be_units (utf16_be_bytes us) = us"
  by (induction us) (auto simp: utf16_be_bytes_def)

lemma even_utf16_be_bytes: "even (length (utf16_be_bytes us))"
  by (induction us) (simp_all add: utf16_be_bytes_def)

section \<open>Fields\<close>

lemma decode_rune_before_ascii:
  assumes "s \<noteq> []" "byte_val c < 128"
  shows "decode_rune (s @ c # t) = decode_rune s"
proof -
  obtain c0 s1 where s: "s = c0 # s1" using assms(1) by (cases s) auto
  consider "s1 = []" | c1 where "s1 = [c1]" | c1 c2 where "s1 = [c1, c2]" | c1 c2 c3 s2 where "s1 = c1 # c2 # c3 # s2"
    by (metis list.exhaust)
  then show ?thesis using assms(2) by cases (auto simp: s byte_in_def Let_def split: list.split)
qed

lemma utf8_chunks_before_ascii:
  assumes "byte_val c < 128"
  shows "utf8_chunks (s @ c # t) = utf8_chunks s @ (byte_val c, [c]) # utf8_chunks t"
proof (induction s rule: utf8_chunks.induct)
  case (1 s)
  show ?case
  proof (cases "s = []")
    case True
    then show ?thesis using utf8_chunks_ascii [OF assms] by simp
  next
    case False
    obtain r n where d: "decode_rune s = (r, n)" by fastforce
    have n: "1 \<le> n" "n \<le> length s" using decode_rune_width [OF False] d by auto
    have "utf8_chunks (s @ c # t) = (r, take n s) # utf8_chunks (drop n s @ c # t)"
      using decode_rune_before_ascii [OF False assms] d n by (subst utf8_chunks.simps) simp
    moreover have "utf8_chunks s = (r, take n s) # utf8_chunks (drop n s)"
      using d False by (subst utf8_chunks.simps) simp
    ultimately show ?thesis using "1.IH" [OF False refl d [symmetric]] by simp
  qed
qed

lemma str_fields_loop_space:
  "is_space_rune r \<Longrightarrow> str_fields_loop cur (xs @ (r, b) # ys) = str_fields_loop cur xs @ str_fields_loop [] ys"
  by (induction cur xs rule: str_fields_loop.induct) auto

lemma str_fields_space: "str_fields (s @ CHR '' '' # t) = str_fields s @ str_fields t"
  unfolding str_fields_def by (subst utf8_chunks_before_ascii) (simp_all add: str_fields_loop_space is_space_rune_def)

lemma decode_rune_take:
  assumes "snd (decode_rune s) \<le> m" "0 < m"
  shows "decode_rune (take m s) = decode_rune s"
proof (cases s)
  case (Cons c0 s1)
  have m: "m = 1 \<or> m = 2 \<or> m = 3 \<or> 4 \<le> m" using assms(2) by arith
  consider "s1 = []" | c1 where "s1 = [c1]" | c1 c2 where "s1 = [c1, c2]" | c1 c2 c3 s2 where "s1 = c1 # c2 # c3 # s2"
    by (metis list.exhaust)
  then show ?thesis
  proof cases
    case 1
    then show ?thesis using assms(2) by (simp add: Cons)
  next
    case 2
    then show ?thesis using assms(1) m by (auto simp: Cons 2 Let_def split: if_splits)
  next
    case 3
    then show ?thesis using assms(1) m by (auto simp: Cons 3 Let_def numeral_3_eq_3 split: if_splits)
  next
    case 4
    have "take m s = c0 # c1 # c2 # c3 # take (m - 4) s2" if "4 \<le> m"
      using that by (simp add: Cons 4 take_Cons' numeral_eq_Suc)
    moreover have "snd (decode_rune s) \<le> 1 \<Longrightarrow> decode_rune [c0] = decode_rune s"
      unfolding Cons 4 by (auto simp: Let_def split: if_splits)
    moreover have "snd (decode_rune s) \<le> 2 \<Longrightarrow> decode_rune [c0, c1] = decode_rune s"
      unfolding Cons 4 by (auto simp: Let_def split: if_splits)
    moreover have "snd (decode_rune s) \<le> 3 \<Longrightarrow> decode_rune [c0, c1, c2] = decode_rune s"
      unfolding Cons 4 by (auto simp: Let_def split: if_splits)
    moreover have "decode_rune (c0 # c1 # c2 # c3 # r) = decode_rune (c0 # c1 # c2 # c3 # r')" for r r'
      by (simp add: Let_def)
    moreover have "take 1 s = [c0]" "take 2 s = [c0, c1]" "take 3 s = [c0, c1, c2]"
      by (simp_all add: Cons 4 numeral_2_eq_2 numeral_3_eq_3)
    ultimately show ?thesis using m assms(1) Cons 4 by metis
  qed
qed simp

definition chunks_ok :: "(nat \<times> string) list \<Rightarrow> bool" where
  "chunks_ok cs \<longleftrightarrow> utf8_chunks (concat (map snd cs)) = cs"

lemma chunks_ok_whole: "chunks_ok (utf8_chunks s)"
  by (simp add: chunks_ok_def utf8_chunks_concat)

lemma utf8_chunks_step:
  assumes "utf8_chunks s = (r, b) # cs"
  shows "s \<noteq> []" "decode_rune s = (r, length b)" "b \<noteq> []" "take (length b) s = b" "utf8_chunks (drop (length b) s) = cs"
proof -
  show ne: "s \<noteq> []" using assms by fastforce
  obtain r' n where d: "decode_rune s = (r', n)" by fastforce
  have n: "1 \<le> n" "n \<le> length s" using decode_rune_width [OF ne] d by auto
  have "utf8_chunks s = (r', take n s) # utf8_chunks (drop n s)" using d ne by (subst utf8_chunks.simps) simp
  with assms have e: "r' = r" "take n s = b" "utf8_chunks (drop n s) = cs" by simp_all
  then have "n = length b" using n by (metis length_take min.absorb2)
  then show "decode_rune s = (r, length b)" "b \<noteq> []" "take (length b) s = b" "utf8_chunks (drop (length b) s) = cs"
    using d e n by auto
qed

lemma chunks_ok_append: "chunks_ok (xs @ ys) \<Longrightarrow> chunks_ok xs \<and> chunks_ok ys"
proof (induction xs)
  case (Cons x xs)
  obtain r b where x: "x = (r, b)" by fastforce
  define u where "u = concat (map snd xs)"
  define v where "v = concat (map snd ys)"
  have eq: "utf8_chunks (b @ u @ v) = (r, b) # xs @ ys" using Cons.prems by (simp add: chunks_ok_def x u_def v_def)
  note step = utf8_chunks_step [OF eq]
  have "chunks_ok (xs @ ys)" using step(5) by (simp add: chunks_ok_def u_def v_def)
  then have ok: "utf8_chunks u = xs" "chunks_ok ys" using Cons.IH by (simp_all add: chunks_ok_def u_def)
  have "decode_rune (take (length (b @ u)) (b @ u @ v)) = (r, length b)"
    using decode_rune_take [of "b @ u @ v" "length (b @ u)"] step(2,3) by simp
  then have "decode_rune (b @ u) = (r, length b)" by simp
  then have "utf8_chunks (b @ u) = (r, b) # utf8_chunks u" using step(3) by (subst utf8_chunks.simps) simp
  then show ?case using ok by (simp add: chunks_ok_def x u_def)
qed (simp add: chunks_ok_def)

lemma str_fields_loop_fields:
  assumes "chunks_ok (done_chunks @ cs)" "\<forall>c \<in> set done_chunks. \<not> is_space_rune (fst c)" "cur = concat (map snd done_chunks)"
    "f \<in> set (str_fields_loop cur cs)"
  shows "str_fields f = [f]"
  using assms
proof (induction cs arbitrary: done_chunks cur)
  have one: "str_fields (concat (map snd ds)) = [concat (map snd ds)]"
    if "chunks_ok ds" "\<forall>c \<in> set ds. \<not> is_space_rune (fst c)" "concat (map snd ds) \<noteq> []" for ds
  proof -
    have "str_fields_loop cur ds = str_fields_loop (cur @ concat (map snd ds)) []" for cur
      using that(2) by (induction ds arbitrary: cur) (auto simp del: str_fields_loop.simps(1))
    from this [of "[]"] show ?thesis using that by (simp add: str_fields_def chunks_ok_def)
  qed
  {
    case Nil
    then show ?case using one [of done_chunks] by (auto split: if_splits)
  next
    case (Cons c cs)
    obtain r b where c: "c = (r, b)" by fastforce
    have ok: "chunks_ok done_chunks" "chunks_ok ([c] @ cs)" "chunks_ok cs"
      using chunks_ok_append [OF Cons.prems(1)] chunks_ok_append [of "[c]" cs] by simp_all
    show ?case
    proof (cases "is_space_rune r")
      case True
      with Cons.prems(4) have "f \<in> set (if cur = [] then [] else [cur]) \<or> f \<in> set (str_fields_loop [] cs)"
        by (simp add: c)
      then show ?thesis
        using Cons.IH [of "[]" "[]"] ok one [of done_chunks] Cons.prems(2,3) by (auto split: if_splits)
    next
      case False
      then show ?thesis
        using Cons.IH [of "done_chunks @ [c]" "cur @ b"] Cons.prems by (auto simp: c)
    qed
  }
qed

lemma str_fields_field: "f \<in> set (str_fields s) \<Longrightarrow> str_fields f = [f]"
  using str_fields_loop_fields [of "[]" "utf8_chunks s" "[]" f] chunks_ok_whole by (simp add: str_fields_def)

end
