(* ===== verification/Go_Encoding.thy ===== *)
theory Go_Encoding
  imports Go_Utf8
begin

text \<open>
  Go's \<open>encoding/binary\<close>, \<open>encoding/hex\<close> and \<open>encoding/base64\<close> as the program uses them, with
  the round trips its codecs rest on. Every decoder here is prefix-tolerant in the way Go's is:
  it reports how many bytes it consumed, so that a reader can continue after it.
\<close>

section \<open>Varints\<close>

text \<open>\<open>binary.AppendUvarint\<close>: seven bits per byte, least significant first.\<close>

fun uvarint_bytes :: "nat \<Rightarrow> string" where
  "uvarint_bytes n = (if n < 128 then [byte_of n]
     else byte_of (128 + n mod 128) # uvarint_bytes (n div 128))"

declare uvarint_bytes.simps [simp del]

definition put_uvarint :: "64 word \<Rightarrow> string" where
  "put_uvarint v = uvarint_bytes (unat v)"

text \<open>
  \<open>binary.Uvarint\<close>: the loop over the bytes, with the index \<open>i\<close> of the byte and the value \<open>x\<close>
  read so far. The result is the value and the number of bytes read; 0 stands for a buffer
  that ends too early and a negative count for an overflow. The partial value keeps its
  mathematical value; the source's \<open>uint64\<close> holds it exactly, because byte number nine is
  accepted only when it is at most one.
\<close>

fun uvarint_loop :: "nat \<Rightarrow> nat \<Rightarrow> string \<Rightarrow> 64 word \<times> int" where
  "uvarint_loop i x [] = (0, 0)"
| "uvarint_loop i x (b # bs) =
     (if i = 10 then (0, - int (i + 1))
      else if byte_val b < 128 then
        (if i = 9 \<and> 1 < byte_val b then (0, - int (i + 1))
         else (word_of_nat (x + byte_val b * 128 ^ i), int (i + 1)))
      else uvarint_loop (i + 1) (x + (byte_val b - 128) * 128 ^ i) bs)"

definition get_uvarint :: "string \<Rightarrow> 64 word \<times> int" where
  "get_uvarint s = uvarint_loop 0 0 s"

text \<open>The zigzag mapping of \<open>binary.AppendVarint\<close> and \<open>binary.Varint\<close>.\<close>

definition zigzag :: "64 word \<Rightarrow> 64 word" where
  "zigzag x = (if x <s 0 then not (push_bit 1 x) else push_bit 1 x)"

definition unzigzag :: "64 word \<Rightarrow> 64 word" where
  "unzigzag u = (if and u 1 \<noteq> 0 then not (drop_bit 1 u) else drop_bit 1 u)"

definition put_varint :: "64 word \<Rightarrow> string" where
  "put_varint x = put_uvarint (zigzag x)"

definition get_varint :: "string \<Rightarrow> 64 word \<times> int" where
  "get_varint s = (case get_uvarint s of (u, n) \<Rightarrow> (unzigzag u, n))"

lemma uvarint_bytes_length_pos [simp]: "uvarint_bytes n \<noteq> []"
  by (subst uvarint_bytes.simps) simp

lemma uvarint_loop_bytes:
  assumes "i \<le> 9" "n * 128 ^ i < 2 ^ 64"
  shows "uvarint_loop i x (uvarint_bytes n @ rest)
    = (word_of_nat (x + n * 128 ^ i), int (i + length (uvarint_bytes n)))"
  using assms
proof (induction n arbitrary: i x rule: uvarint_bytes.induct)
  case (1 n)
  show ?case
  proof (cases "n < 128")
    case True
    moreover have "i = 9 \<Longrightarrow> n \<le> 1" using "1.prems" by simp
    ultimately show ?thesis using "1.prems"
      by (subst (1 2) uvarint_bytes.simps) auto
  next
    case False
    have "i \<noteq> 9" using False "1.prems" by (intro notI) simp
    then have i: "i + 1 \<le> 9" using "1.prems" by simp
    have low: "n div 128 * 128 + n mod 128 = n" by simp
    have "n div 128 * 128 ^ (i + 1) \<le> n * 128 ^ i" using low by (simp add: mult.assoc [symmetric])
    then have bound: "n div 128 * 128 ^ (i + 1) < 2 ^ 64" using "1.prems" by linarith
    have val: "x + n mod 128 * 128 ^ i + n div 128 * 128 ^ (i + 1) = x + n * 128 ^ i"
    proof -
      define q m where qm: "q = n div 128" "m = n mod 128"
      have "m * 128 ^ i + q * 128 ^ (i + 1) = (q * 128 + m) * (128 ^ i :: nat)"
        by (simp add: algebra_simps)
      then show ?thesis by (simp only: low qm add.assoc)
    qed
    have "uvarint_bytes n = byte_of (128 + n mod 128) # uvarint_bytes (n div 128)"
      using False by (subst uvarint_bytes.simps) simp
    then show ?thesis
      using "1.IH" [OF False i bound, of "x + n mod 128 * 128 ^ i", unfolded val] i
      by (simp del: of_nat_add of_nat_mult)
  qed
qed

lemma get_put_uvarint [simp]:
  "get_uvarint (put_uvarint v @ rest) = (v, int (length (put_uvarint v)))"
  unfolding get_uvarint_def put_uvarint_def
  using unsigned_less [of v] by (subst uvarint_loop_bytes) simp_all

lemma put_uvarint_nonempty [simp]: "put_uvarint v \<noteq> []"
  by (simp add: put_uvarint_def)

lemma uvarint_loop_consumed:
  "uvarint_loop i x s = (v, n) \<Longrightarrow> 0 < n \<Longrightarrow> int i < n \<and> n \<le> int (i + length s)"
  by (induction i x s rule: uvarint_loop.induct) (auto split: if_splits)

lemma get_uvarint_consumed:
  "get_uvarint s = (v, n) \<Longrightarrow> 0 < n \<Longrightarrow> n \<le> int (length s)"
  using uvarint_loop_consumed [of 0 0 s v n] by (simp add: get_uvarint_def)

lemma sless_0_iff_bit: "x <s 0 \<longleftrightarrow> bit x 63" for x :: "64 word"
  using bit_last_iff [of x] by (simp add: word_sless_alt)

lemma and_1_iff_bit: "and u 1 \<noteq> 0 \<longleftrightarrow> bit u 0" for u :: "64 word"
  by (simp add: and_one_eq odd_iff_mod_2_eq_one bit_0)

lemma bit_zigzag:
  "n < 64 \<Longrightarrow> bit (zigzag x) n \<longleftrightarrow> (if n = 0 then False else bit x (n - 1)) \<noteq> bit x 63"
  unfolding zigzag_def sless_0_iff_bit
  by (cases "bit x 63"; cases n)
    (simp_all only: if_True if_False bit_not_iff bit_push_bit_iff possible_bit_word, simp_all)

lemma bit_unzigzag:
  "n < 64 \<Longrightarrow> bit (unzigzag u) n \<longleftrightarrow> (n < 63 \<and> bit u (n + 1)) \<noteq> bit u 0"
  unfolding unzigzag_def and_1_iff_bit
  by (cases "bit u 0")
    (simp_all only: if_True if_False bit_not_iff bit_drop_bit_eq possible_bit_word o_def,
     auto dest: bit_imp_le_length)

lemma unzigzag_zigzag [simp]: "unzigzag (zigzag x) = x"
proof (rule bit_word_eqI)
  fix n
  assume "n < LENGTH(64)"
  then have "n < 63 \<or> n = 63" by auto
  then show "bit (unzigzag (zigzag x)) n = bit x n"
    by (elim disjE) (auto simp: bit_unzigzag bit_zigzag)
qed

lemma get_put_varint [simp]:
  "get_varint (put_varint x @ rest) = (x, int (length (put_varint x)))"
  by (simp add: get_varint_def put_varint_def)

lemma put_varint_nonempty [simp]: "put_varint v \<noteq> []"
  by (simp add: put_varint_def)

section \<open>Fixed-width big-endian integers\<close>

fun be_bytes :: "nat \<Rightarrow> nat \<Rightarrow> string" where
  "be_bytes 0 n = []"
| "be_bytes (Suc k) n = byte_of (n div 256 ^ k mod 256) # be_bytes k n"

definition be_value :: "string \<Rightarrow> nat" where
  "be_value s = foldl (\<lambda>v c. v * 256 + byte_val c) 0 s"

lemma length_be_bytes [simp]: "length (be_bytes k n) = k"
  by (induction k) simp_all

lemma foldl_be_bytes:
  "foldl (\<lambda>v c. v * 256 + byte_val c) a (be_bytes k n) = a * 256 ^ k + n mod 256 ^ k"
proof (induction k arbitrary: a)
  case (Suc k)
  have "n mod 256 ^ Suc k = n div 256 ^ k mod 256 * 256 ^ k + n mod 256 ^ k"
    using mod_mult2_eq' [of n "256 ^ k" 256] by (simp add: mult.commute)
  with Suc [of "a * 256 + n div 256 ^ k mod 256"] show ?case
    by (simp add: algebra_simps)
qed simp

lemma be_value_bytes [simp]: "n < 256 ^ k \<Longrightarrow> be_value (be_bytes k n) = n"
  by (simp add: be_value_def foldl_be_bytes)

section \<open>Hexadecimal\<close>

definition hex_digit :: "nat \<Rightarrow> char" where
  "hex_digit n = byte_of (if n < 10 then 48 + n else 87 + n)"

definition hex_value :: "char \<Rightarrow> nat option" where
  "hex_value c = (let v = byte_val c in
     if 48 \<le> v \<and> v \<le> 57 then Some (v - 48)
     else if 97 \<le> v \<and> v \<le> 102 then Some (v - 87)
     else if 65 \<le> v \<and> v \<le> 70 then Some (v - 55)
     else None)"

fun encode_hex :: "string \<Rightarrow> string" where
  "encode_hex [] = []"
| "encode_hex (b # bs) = hex_digit (byte_val b div 16) # hex_digit (byte_val b mod 16) # encode_hex bs"

text \<open>\<open>hex.DecodeString\<close>; \<open>None\<close> is its error.\<close>

fun decode_hex :: "string \<Rightarrow> string option" where
  "decode_hex [] = Some []"
| "decode_hex [c] = None"
| "decode_hex (c # d # s) = (case (hex_value c, hex_value d, decode_hex s) of
     (Some h, Some l, Some r) \<Rightarrow> Some (byte_of (h * 16 + l) # r)
   | _ \<Rightarrow> None)"

lemma hex_value_less: "hex_value c = Some v \<Longrightarrow> v < 16"
  by (auto simp: hex_value_def Let_def split: if_splits)

lemma length_encode_hex [simp]: "length (encode_hex s) = 2 * length s"
  by (induction s) simp_all

lemma length_decode_hex: "decode_hex s = Some b \<Longrightarrow> length s = 2 * length b"
  by (induction s arbitrary: b rule: decode_hex.induct) (auto split: option.splits)

text \<open>The two cases of a digit: an upper-cased digit keeps its value and is its own upper case.\<close>

definition upper_hex :: "string \<Rightarrow> string" where
  "upper_hex s = map upper_byte s"

lemma hex_value_upper_digit:
  "n < 16 \<Longrightarrow> hex_value (upper_byte (hex_digit n)) = Some n"
  by (auto simp: hex_value_def hex_digit_def upper_byte_def is_lower_def Let_def)

lemma upper_digit_of_value:
  assumes "hex_value c = Some v" "upper_byte c = c"
  shows "upper_byte (hex_digit v) = c"
proof -
  have "\<not> is_lower c" using assms(2) 
    by (auto simp: upper_byte_def is_lower_def dest!: arg_cong [where f = "of_char :: char \<Rightarrow> nat"] split: if_splits)
  with assms(1) have "byte_val (upper_byte (hex_digit v)) = byte_val c"
    by (auto simp: hex_value_def hex_digit_def upper_byte_def is_lower_def Let_def split: if_splits)
  then show ?thesis by simp
qed

lemma upper_byte_idem [simp]: "upper_byte (upper_byte c) = upper_byte c"
  by (auto simp: upper_byte_def is_lower_def)

lemma decode_upper_encode_hex [simp]: "decode_hex (upper_hex (encode_hex b)) = Some b"
proof (induction b)
  case (Cons x xs)
  have "byte_val x div 16 < 16" using byte_val_less [of x] by linarith
  moreover have "byte_val x mod 16 < 16" by simp
  moreover have "byte_of (byte_val x div 16 * 16 + byte_val x mod 16) = x" by simp
  ultimately show ?case using Cons by (simp add: upper_hex_def hex_value_upper_digit)
qed (simp add: upper_hex_def)

lemma upper_encode_decode_hex:
  "decode_hex s = Some b \<Longrightarrow> upper_hex s = s \<Longrightarrow> upper_hex (encode_hex b) = s"
proof (induction s arbitrary: b rule: decode_hex.induct)
  case (3 c d s)
  then obtain h l r where v: "hex_value c = Some h" "hex_value d = Some l" "decode_hex s = Some r"
    and b: "b = byte_of (h * 16 + l) # r"
    by (auto split: option.splits)
  have "h < 16" "l < 16" using v hex_value_less by auto
  then have "byte_val (byte_of (h * 16 + l)) = h * 16 + l" by simp
  with \<open>l < 16\<close> have "byte_val (byte_of (h * 16 + l)) div 16 = h" "byte_val (byte_of (h * 16 + l)) mod 16 = l"
    by (simp_all del: of_char_of)
  with 3 v b show ?case by (simp add: upper_hex_def upper_digit_of_value del: of_char_of)
qed (auto simp: upper_hex_def)


section \<open>Base64\<close>

text \<open>
  An alphabet is its two last characters: \<open>+/\<close> for \<open>base64.StdEncoding\<close> and \<open>-_\<close> for
  \<open>base64.RawURLEncoding\<close>.
\<close>

type_synonym b64_alphabet = "char \<times> char"

definition b64_std :: b64_alphabet where
  "b64_std = (CHR ''+'', CHR ''/'')"

definition b64_url :: b64_alphabet where
  "b64_url = (CHR ''-'', CHR ''_'')"

definition b64_char :: "b64_alphabet \<Rightarrow> nat \<Rightarrow> char" where
  "b64_char al n = (if n < 26 then byte_of (65 + n) else if n < 52 then byte_of (71 + n)
     else if n < 62 then byte_of (n - 4) else if n = 62 then fst al else snd al)"

definition b64_value :: "b64_alphabet \<Rightarrow> char \<Rightarrow> nat option" where
  "b64_value al c = (
     if is_upper c then Some (byte_val c - 65)
     else if is_lower c then Some (byte_val c - 71)
     else if is_digit c then Some (byte_val c + 4)
     else if c = fst al then Some 62 else if c = snd al then Some 63 else None)"

definition b64_alphabet_ok :: "b64_alphabet \<Rightarrow> bool" where
  "b64_alphabet_ok al \<longleftrightarrow> fst al \<noteq> snd al
     \<and> (\<forall>c \<in> {fst al, snd al}. \<not> is_upper c \<and> \<not> is_lower c \<and> \<not> is_digit c \<and> c \<noteq> CHR 0x0D \<and> c \<noteq> CHR 0x0A \<and> c \<noteq> CHR ''='')"

lemma b64_std_ok [simp]: "b64_alphabet_ok b64_std"
  by (simp add: b64_alphabet_ok_def b64_std_def is_upper_def is_lower_def is_digit_def)

lemma b64_url_ok [simp]: "b64_alphabet_ok b64_url"
  by (simp add: b64_alphabet_ok_def b64_url_def is_upper_def is_lower_def is_digit_def)

fun b64_sextets :: "string \<Rightarrow> nat list" where
  "b64_sextets [] = []"
| "b64_sextets [a] = [byte_val a div 4, byte_val a mod 4 * 16]"
| "b64_sextets [a, b] =
     [byte_val a div 4, byte_val a mod 4 * 16 + byte_val b div 16, byte_val b mod 16 * 4]"
| "b64_sextets (a # b # c # s) =
     byte_val a div 4 # (byte_val a mod 4 * 16 + byte_val b div 16)
     # (byte_val b mod 16 * 4 + byte_val c div 64) # byte_val c mod 64 # b64_sextets s"

text \<open>The bytes of a list of sextets. In strict mode the unused low bits must be zero.\<close>

fun b64_bytes :: "bool \<Rightarrow> nat list \<Rightarrow> string option" where
  "b64_bytes strict [] = Some []"
| "b64_bytes strict [p] = None"
| "b64_bytes strict [p, q] =
     (if strict \<and> q mod 16 \<noteq> 0 then None else Some [byte_of (p * 4 + q div 16)])"
| "b64_bytes strict [p, q, r] =
     (if strict \<and> r mod 4 \<noteq> 0 then None
      else Some [byte_of (p * 4 + q div 16), byte_of (q mod 16 * 16 + r div 4)])"
| "b64_bytes strict (p # q # r # t # s) = map_option
     (\<lambda>u. byte_of (p * 4 + q div 16) # byte_of (q mod 16 * 16 + r div 4) # byte_of (r mod 4 * 64 + t) # u)
     (b64_bytes strict s)"

definition b64_encode_raw :: "b64_alphabet \<Rightarrow> string \<Rightarrow> string" where
  "b64_encode_raw al s = map (b64_char al) (b64_sextets s)"

text \<open>The padded form of \<open>StdEncoding.EncodeToString\<close>, and \<open>strings.TrimRight(s, "=")\<close>.\<close>

definition b64_encode_padded :: "b64_alphabet \<Rightarrow> string \<Rightarrow> string" where
  "b64_encode_padded al s = (let r = b64_encode_raw al s in
     r @ replicate ((4 - length r mod 4) mod 4) (CHR ''=''))"

definition trim_right_byte :: "char \<Rightarrow> string \<Rightarrow> string" where
  "trim_right_byte c s = rev (dropWhile (\<lambda>x. x = c) (rev s))"

fun all_some :: "'a option list \<Rightarrow> 'a list option" where
  "all_some [] = Some []"
| "all_some (None # xs) = None"
| "all_some (Some x # xs) = map_option ((#) x) (all_some xs)"

text \<open>The unpadded decoder: carriage returns and line feeds are skipped, as Go's decoder does.\<close>

definition b64_decode_raw :: "b64_alphabet \<Rightarrow> bool \<Rightarrow> string \<Rightarrow> string option" where
  "b64_decode_raw al strict s =
     (case all_some (map (b64_value al) (filter (\<lambda>c. c \<noteq> CHR 0x0D \<and> c \<noteq> CHR 0x0A) s)) of
        None \<Rightarrow> None
      | Some vs \<Rightarrow> b64_bytes strict vs)"

lemma b64_alphabet_okD:
  assumes "b64_alphabet_ok al"
  shows "fst al \<noteq> snd al" "snd al \<noteq> fst al"
    "\<not> is_upper (fst al)" "\<not> is_lower (fst al)" "\<not> is_digit (fst al)"
    "\<not> is_upper (snd al)" "\<not> is_lower (snd al)" "\<not> is_digit (snd al)"
    "fst al \<notin> {CHR 0x0D, CHR 0x0A, CHR ''=''}" "snd al \<notin> {CHR 0x0D, CHR 0x0A, CHR ''=''}"
  using assms by (simp_all only: b64_alphabet_ok_def ball_simps insert_iff empty_iff simp_thms) auto

lemma b64_value_char:
  assumes "b64_alphabet_ok al" "n < 64"
  shows "b64_value al (b64_char al n) = Some n"
proof -
  note ok = b64_alphabet_okD [OF assms(1)]
  have u: "is_upper (byte_of (65 + n))" if "n < 26" using that by (simp add: is_upper_def)
  have l: "is_lower (byte_of (71 + n))" "\<not> is_upper (byte_of (71 + n))" if "26 \<le> n" "n < 52"
    using that by (simp_all add: is_lower_def is_upper_def)
  have d: "is_digit (byte_of (n - 4))" "\<not> is_upper (byte_of (n - 4))" "\<not> is_lower (byte_of (n - 4))"
    if "52 \<le> n" "n < 62"
  proof -
    from that have "byte_val (byte_of (n - 4)) = n - 4" by simp
    with that show "is_digit (byte_of (n - 4))" "\<not> is_upper (byte_of (n - 4))" "\<not> is_lower (byte_of (n - 4))"
      unfolding is_lower_def is_upper_def is_digit_def by linarith+
  qed
  consider "n < 26" | "26 \<le> n" "n < 52" | "52 \<le> n" "n < 62" | "n = 62" | "n = 63"
    using assms(2) by linarith
  then show ?thesis
    by cases (simp_all add: b64_value_def b64_char_def ok u l d)
qed

lemma b64_char_neq:
  assumes "b64_alphabet_ok al" "n < 64"
  shows "b64_char al n \<noteq> CHR 0x0D" "b64_char al n \<noteq> CHR 0x0A" "b64_char al n \<noteq> CHR ''=''"
proof -
  have "b64_value al (b64_char al n) = Some n" using assms by (rule b64_value_char)
  moreover have "b64_value al (CHR 0x0D) = None" "b64_value al (CHR 0x0A) = None"
    "b64_value al (CHR ''='') = None"
    using b64_alphabet_okD(9,10) [OF assms(1)]
    by (auto simp: b64_value_def is_upper_def is_lower_def is_digit_def)
  ultimately show "b64_char al n \<noteq> CHR 0x0D" "b64_char al n \<noteq> CHR 0x0A" "b64_char al n \<noteq> CHR ''=''"
    by (metis option.distinct(1))+
qed

lemma byte_div_less: "byte_val a div 4 < 64" "byte_val a div 16 < 16" "byte_val a div 64 < 4"
  using byte_val_less [of a] by linarith+

lemma byte_mod_less:
  "x < 16 \<Longrightarrow> byte_val a mod 4 * 16 + x < 64" "x < 4 \<Longrightarrow> byte_val a mod 16 * 4 + x < 64"
  using mod_less_divisor [of 4 "byte_val a"] mod_less_divisor [of 16 "byte_val a"] by linarith+

lemma b64_sextets_less: "list_all (\<lambda>n. n < 64) (b64_sextets s)"
proof (induction s rule: b64_sextets.induct)
  case (4 a b c s)
  then show ?case by (simp add: byte_div_less byte_mod_less)
next
  case (3 a b)
  then show ?case using byte_mod_less(2) [of 0 b] by (simp add: byte_div_less byte_mod_less)
next
  case (2 a)
  then show ?case using byte_mod_less(1) [of 0 a] by (simp add: byte_div_less)
qed simp

lemma all_some_Some: "all_some (map Some xs) = Some xs"
  by (induction xs) simp_all

lemma all_some_eq_Some: "all_some os = Some xs \<longleftrightarrow> os = map Some xs"
  by (induction os arbitrary: xs rule: all_some.induct) auto

lemma byte_recombine:
  "byte_val a div 4 * 4 + (byte_val a mod 4 * 16 + byte_val b div 16) div 16 = byte_val a"
  "(byte_val a mod 4 * 16 + byte_val b div 16) mod 16 * 16
     + (byte_val b mod 16 * 4 + byte_val c div 64) div 4 = byte_val b"
  "(byte_val b mod 16 * 4 + byte_val c div 64) mod 4 * 64 + byte_val c mod 64 = byte_val c"
  using byte_div_less [of b] byte_div_less [of c] by simp_all

lemma b64_bytes_sextets: "b64_bytes strict (b64_sextets s) = Some s"
proof (induction s rule: b64_sextets.induct)
  case (3 a b)
  then show ?case using byte_recombine(1) [of a b] byte_recombine(2) [of a b "CHR 0x00"] by simp
next
  case (2 a)
  then show ?case using byte_recombine(1) [of a "CHR 0x00"] by simp
next
  case (4 a b c s)
  then show ?case
    by (simp only: b64_sextets.simps b64_bytes.simps byte_recombine char_of_char option.map)
qed simp

lemma b64_decode_encode_raw:
  assumes "b64_alphabet_ok al"
  shows "b64_decode_raw al strict (b64_encode_raw al s) = Some s"
proof -
  let ?e = "map (b64_char al) (b64_sextets s)"
  have small: "\<forall>n \<in> set (b64_sextets s). n < 64" using b64_sextets_less [of s] by (simp add: list_all_iff)
  have "filter (\<lambda>c. c \<noteq> CHR 0x0D \<and> c \<noteq> CHR 0x0A) ?e = ?e"
    using small b64_char_neq [OF assms] by (intro filter_True) auto
  moreover have "map (b64_value al) ?e = map Some (b64_sextets s)"
    using small by (auto simp: b64_value_char assms)
  ultimately show ?thesis
    by (simp add: b64_decode_raw_def b64_encode_raw_def all_some_Some b64_bytes_sextets del: map_map)
qed

lemma b64_encode_raw_chars:
  assumes "b64_alphabet_ok al" "c \<in> set (b64_encode_raw al s)"
  shows "\<exists>n < 64. c = b64_char al n"
  using assms b64_sextets_less [of s] by (auto simp: b64_encode_raw_def list_all_iff)

lemma trim_encode_padded:
  assumes "b64_alphabet_ok al"
  shows "trim_right_byte (CHR ''='') (b64_encode_padded al s) = b64_encode_raw al s"
proof -
  have drop: "dropWhile (\<lambda>x. x = d) (replicate k d @ t) = dropWhile (\<lambda>x. x = d) t" for k d and t :: string
    by (induction k) simp_all
  have "dropWhile (\<lambda>x. x = CHR ''='') (rev (b64_encode_raw al s)) = rev (b64_encode_raw al s)"
  proof (cases "rev (b64_encode_raw al s)")
    case (Cons c t)
    then have "c \<in> set (b64_encode_raw al s)" by (metis list.set_intros(1) set_rev)
    then have "c \<noteq> CHR ''=''" using b64_encode_raw_chars [OF assms] b64_char_neq(3) [OF assms] by metis
    with Cons show ?thesis by simp
  qed simp
  then show ?thesis
    by (simp add: trim_right_byte_def b64_encode_padded_def Let_def drop)
qed

lemma b64_encode_raw_length_mod: "length (b64_encode_raw al s) mod 4 \<noteq> 1"
  unfolding b64_encode_raw_def length_map by (induction s rule: b64_sextets.induct) simp_all

lemma b64_encode_raw_length: "length (b64_encode_raw al s) = (length s * 4 + 2) div 3"
  unfolding b64_encode_raw_def length_map by (induction s rule: b64_sextets.induct) simp_all

end
