(* ===== verification/Modified_UTF7.thy ===== *)
theory Modified_UTF7
  imports Go_Encoding
begin

text \<open>
  \<open>src/internal/transport/imapclient/modified_utf7.go\<close>: IMAP mailbox names on the wire. A display
  name is encoded rune by rune, with runs of runes outside printable ASCII shifted into base64 of
  UTF-16; the decoder works on the rest of the wire name. A loop over an index is recursion on
  the remaining bytes.
\<close>

datatype mailbox_encoding = EncodingUnset | EncodingModifiedUTF7 | EncodingUTF8 | EncodingOther

datatype utf7_error =
    NonAsciiByte
  | UnterminatedShift
  | InvalidBase64Byte
  | UndecodableShift
  | NoncanonicalBase64
  | OddUtf16
  | UnpairedHighSurrogate
  | UnpairedLowSurrogate
  | InvalidDisplayName
  | InvalidUtf8Name
  | UnsupportedEncoding
  | InvalidDelimiter
  | AmpersandDelimiter
  | EmptyComponent

section \<open>Capabilities\<close>

definition normalized_mailbox_encoding :: "mailbox_encoding \<Rightarrow> mailbox_encoding" where
  "normalized_mailbox_encoding e = (if e = EncodingUTF8 then EncodingUTF8 else EncodingModifiedUTF7)"

definition capability_line_tokens :: "string \<Rightarrow> string list" where
  "capability_line_tokens line = (
     let upper = to_upper line;
         capability = (case index_string upper ''[CAPABILITY '' of
             Some start \<Rightarrow>
               (let tail = drop (start + length ''[CAPABILITY '') upper in
                case index_byte tail (CHR '']'') of Some e \<Rightarrow> take e tail | None \<Rightarrow> [])
           | None \<Rightarrow> if has_prefix upper ''* CAPABILITY ''
                     then trim_prefix upper ''* CAPABILITY '' else [])
     in str_fields capability)"

definition capability_line_advertises_utf8 :: "string \<Rightarrow> bool" where
  "capability_line_advertises_utf8 line \<longleftrightarrow>
     list_ex (\<lambda>t. t = ''UTF8=ACCEPT'' \<or> t = ''UTF8=ONLY'') (capability_line_tokens line)"

definition capability_line_requires_utf8 :: "string \<Rightarrow> bool" where
  "capability_line_requires_utf8 line \<longleftrightarrow> list_ex (\<lambda>t. t = ''UTF8=ONLY'') (capability_line_tokens line)"

section \<open>Decoding\<close>

definition is_modified_base64_byte :: "char \<Rightarrow> bool" where
  "is_modified_base64_byte c \<longleftrightarrow> is_upper c \<or> is_lower c \<or> is_digit c \<or> c = CHR ''+'' \<or> c = CHR '',''"

text \<open>The loop of \<open>decodeUTF16BE\<close> over the units.\<close>

fun decode_utf16_units :: "nat list \<Rightarrow> utf7_error + nat list" where
  "decode_utf16_units [] = Inr []"
| "decode_utf16_units (u # us) =
     (if 55296 \<le> u \<and> u \<le> 56319 then
        (case us of
           [] \<Rightarrow> Inl UnpairedHighSurrogate
         | v # vs \<Rightarrow> if v < 56320 \<or> 57343 < v then Inl UnpairedHighSurrogate
             else bindR (decode_utf16_units vs) (\<lambda>rs. Inr (utf16_pair u v # rs)))
      else if 56320 \<le> u \<and> u \<le> 57343 then Inl UnpairedLowSurrogate
      else bindR (decode_utf16_units us) (\<lambda>rs. Inr (u # rs)))"

definition decode_utf16be :: "string \<Rightarrow> utf7_error + string" where
  "decode_utf16be v = bindR (decode_utf16_units (utf16_be_units v)) (\<lambda>rs. Inr (encode_runes rs))"

definition replace_byte :: "char \<Rightarrow> char \<Rightarrow> string \<Rightarrow> string" where
  "replace_byte a b s = map (\<lambda>c. if c = a then b else c) s"

text \<open>The text of one shift, between \<open>&\<close> and \<open>-\<close>.\<close>

definition decode_shift :: "string \<Rightarrow> utf7_error + string" where
  "decode_shift encoded =
     (if encoded = [] then Inr ''&''
      else if list_ex (\<lambda>c. c = CHR ''='' \<or> \<not> is_modified_base64_byte c) encoded
        then Inl InvalidBase64Byte
      else let base64_value = replace_byte (CHR '','') (CHR ''/'') encoded in
        case b64_decode_raw b64_std False base64_value of
          None \<Rightarrow> Inl UndecodableShift
        | Some bytes \<Rightarrow>
            let canonical = trim_right_byte (CHR ''='') (b64_encode_padded b64_std bytes) in
              if canonical \<noteq> base64_value then Inl NoncanonicalBase64
              else if length bytes mod 2 \<noteq> 0 then Inl OddUtf16
              else decode_utf16be bytes)"

function decode_modified_utf7 :: "string \<Rightarrow> utf7_error + string" where
  "decode_modified_utf7 [] = Inr []"
| "decode_modified_utf7 (c # s) =
     (if c \<noteq> CHR ''&'' then
        (if byte_val c < 32 \<or> 126 < byte_val c then Inl NonAsciiByte
         else bindR (decode_modified_utf7 s) (\<lambda>t. Inr (c # t)))
      else (case index_byte s (CHR ''-'') of
          None \<Rightarrow> Inl UnterminatedShift
        | Some e \<Rightarrow> bindR (decode_shift (take e s)) (\<lambda>shift.
            bindR (decode_modified_utf7 (drop (e + 1) s)) (\<lambda>t. Inr (shift @ t)))))"
  by pat_completeness auto
termination by (relation "measure length") auto

definition decode_mailbox_component :: "mailbox_encoding \<Rightarrow> string \<Rightarrow> utf7_error + string" where
  "decode_mailbox_component e v = (case e of
      EncodingModifiedUTF7 \<Rightarrow> decode_modified_utf7 v
    | EncodingUTF8 \<Rightarrow> if \<not> valid_utf8 v then Inl InvalidUtf8Name else Inr v
    | _ \<Rightarrow> Inl UnsupportedEncoding)"

text \<open>
  The loop of \<open>splitMailboxWireName\<close>; \<open>cur\<close> holds the bytes of the current component. The caller
  has checked that the delimiter is one character.
\<close>

function split_wire_loop :: "string \<Rightarrow> string \<Rightarrow> string \<Rightarrow> utf7_error + string list" where
  "split_wire_loop d cur [] = Inr [cur]"
| "split_wire_loop d cur (c # s) =
     (if c = CHR ''&'' then
        (case index_byte s (CHR ''-'') of
           None \<Rightarrow> Inl UnterminatedShift
         | Some e \<Rightarrow> split_wire_loop d (cur @ c # take (e + 1) s) (drop (e + 1) s))
      else if d \<noteq> [] \<and> has_prefix (c # s) d then
        bindR (split_wire_loop d [] (drop (length d) (c # s))) (\<lambda>parts. Inr (cur # parts))
      else split_wire_loop d (cur @ [c]) s)"
  by pat_completeness auto
termination by (relation "measure (\<lambda>(d, cur, s). length s)") (auto simp: less_Suc_eq_le neq_Nil_conv)

definition split_mailbox_wire_name ::
    "string \<Rightarrow> string \<Rightarrow> mailbox_encoding \<Rightarrow> utf7_error + string list" where
  "split_mailbox_wire_name wire d e =
     (if e \<noteq> EncodingModifiedUTF7 then Inr (split_string d [] wire)
      else if 38 \<in> set (runes d) then Inl AmpersandDelimiter
      else split_wire_loop d [] wire)"

text \<open>
  The components are decoded in order; the first error ends the loop. The source rejects an empty
  component inside the same loop.
\<close>

definition decode_wire_component :: "mailbox_encoding \<Rightarrow> string \<Rightarrow> utf7_error + string" where
  "decode_wire_component e part = (if part = [] then Inl EmptyComponent else decode_mailbox_component e part)"

definition decode_mailbox_wire_name ::
    "string \<Rightarrow> string \<Rightarrow> mailbox_encoding \<Rightarrow> utf7_error + (string \<times> string list)" where
  "decode_mailbox_wire_name wire d e = (let e = (if e = EncodingUnset then EncodingModifiedUTF7 else e) in
     if wire = [] then Inr ([], [])
     else if d = [] then bindR (decode_mailbox_component e wire) (\<lambda>name. Inr (name, [name]))
     else if rune_count d \<noteq> 1 \<or> \<not> valid_utf8 d then Inl InvalidDelimiter
     else bindR (split_mailbox_wire_name wire d e) (\<lambda>parts.
       bindR (mapR (decode_wire_component e) parts) (\<lambda>path. Inr (join_with d path, path))))"

section \<open>Encoding\<close>

definition printable_rune :: "nat \<Rightarrow> bool" where
  "printable_rune r \<longleftrightarrow> 32 \<le> r \<and> r \<le> 126"

definition utf7_flush :: "nat list \<Rightarrow> string" where
  "utf7_flush shift = (if shift = [] then [] else
     let bytes = utf16_be_bytes (concat (map utf16_units shift));
         base64_value = trim_right_byte (CHR ''='') (b64_encode_padded b64_std bytes)
     in ''&'' @ replace_byte (CHR ''/'') (CHR '','') base64_value @ ''-'')"

fun utf7_encode_loop :: "nat list \<Rightarrow> nat list \<Rightarrow> string" where
  "utf7_encode_loop shift [] = utf7_flush shift"
| "utf7_encode_loop shift (r # rs) =
     (if printable_rune r \<and> r \<noteq> 38 then utf7_flush shift @ encode_rune r @ utf7_encode_loop [] rs
      else if r = 38 then utf7_flush shift @ ''&-'' @ utf7_encode_loop [] rs
      else utf7_encode_loop (shift @ [r]) rs)"

definition encode_modified_utf7 :: "string \<Rightarrow> utf7_error + string" where
  "encode_modified_utf7 v =
     (if \<not> valid_utf8 v then Inl InvalidDisplayName else Inr (utf7_encode_loop [] (runes v)))"

section \<open>Round trip\<close>

lemma decode_utf16_units_encode:
  "list_all is_scalar rs \<Longrightarrow> decode_utf16_units (concat (map utf16_units rs)) = Inr rs"
proof (induction rs)
  case (Cons r rs)
  show ?case
  proof (cases "r < 65536")
    case True
    with Cons show ?thesis by (auto simp: utf16_units_def is_scalar_def)
  next
    case False
    with Cons.prems have r: "65536 \<le> r" "r \<le> 1114111" by (auto simp: is_scalar_def)
    then have "(r - 65536) div 1024 \<le> 1023" by linarith
    moreover have "(r - 65536) mod 1024 \<le> 1023" by simp
    moreover have "utf16_pair (55296 + (r - 65536) div 1024) (56320 + (r - 65536) mod 1024) = r"
      using r by (simp add: utf16_pair_def)
    ultimately show ?thesis using Cons False by (simp add: utf16_units_def)
  qed
qed simp

lemma decode_utf16be_bytes:
  assumes "list_all is_scalar rs"
  shows "decode_utf16be (utf16_be_bytes (concat (map utf16_units rs))) = Inr (encode_runes rs)"
proof -
  have "\<forall>u \<in> set (concat (map utf16_units rs)). u < 65536" using utf16_units_bound by auto
  then show ?thesis
    using decode_utf16_units_encode [OF assms] by (simp add: decode_utf16be_def utf16_be_units_bytes)
qed

lemma b64_std_char_modified:
  assumes "n < 64"
  shows "is_modified_base64_byte (if b64_char b64_std n = CHR ''/'' then CHR '','' else b64_char b64_std n)"
    "b64_char b64_std n \<noteq> CHR '',''" "b64_char b64_std n \<noteq> CHR ''-''"
proof -
  let ?c = "b64_char b64_std n"
  have v: "b64_value b64_std ?c = Some n" using assms by (simp add: b64_value_char)
  have no: "b64_value b64_std (CHR '','') = None" "b64_value b64_std (CHR ''-'') = None"
    by (simp_all add: b64_value_def b64_std_def is_upper_def is_lower_def is_digit_def)
  show "is_modified_base64_byte (if ?c = CHR ''/'' then CHR '','' else ?c)"
    using v by (auto simp: b64_value_def b64_std_def is_modified_base64_byte_def split: if_splits)
  show "?c \<noteq> CHR '',''" "?c \<noteq> CHR ''-''" using v no by (metis option.distinct(1))+
qed

lemma b64_encode_raw_all:
  "list_all (\<lambda>c. \<exists>n<64. c = b64_char b64_std n) (b64_encode_raw b64_std bytes)"
  using b64_encode_raw_chars [OF b64_std_ok] by (auto simp: list_all_iff)

lemma decode_shift_encode:
  assumes "list_all is_scalar rs" "rs \<noteq> []"
  defines "body \<equiv> replace_byte (CHR ''/'') (CHR '','')
    (b64_encode_raw b64_std (utf16_be_bytes (concat (map utf16_units rs))))"
  shows "decode_shift body = Inr (encode_runes rs)" "CHR ''-'' \<notin> set body"
    "list_all is_modified_base64_byte body"
proof -
  let ?bytes = "utf16_be_bytes (concat (map utf16_units rs))"
  let ?raw = "b64_encode_raw b64_std ?bytes"
  have chars: "\<forall>c \<in> set ?raw. \<exists>n<64. c = b64_char b64_std n"
    using b64_encode_raw_all by (simp add: list_all_iff)
  have "CHR '','' \<notin> set ?raw" using chars b64_std_char_modified(2) by metis
  then have undo: "replace_byte (CHR '','') (CHR ''/'') body = ?raw"
    unfolding body_def replace_byte_def map_map by (intro map_idI) auto
  have ok: "\<forall>c \<in> set body. is_modified_base64_byte c"
  proof
    fix c assume "c \<in> set body"
    then obtain d where d: "d \<in> set ?raw" "c = (if d = CHR ''/'' then CHR '','' else d)"
      by (auto simp: body_def replace_byte_def)
    with chars obtain n where "n < 64" "d = b64_char b64_std n" by blast
    with d(2) show "is_modified_base64_byte c" using b64_std_char_modified(1) by metis
  qed
  show "CHR ''-'' \<notin> set body"
    using ok by (auto simp: is_modified_base64_byte_def is_upper_def is_lower_def is_digit_def)
  show "list_all is_modified_base64_byte body" using ok by (simp add: list_all_iff)
  have "CHR ''='' \<notin> set body"
    using ok by (auto simp: is_modified_base64_byte_def is_upper_def is_lower_def is_digit_def)
  moreover have "?raw \<noteq> []"
  proof -
    have "length ?bytes \<noteq> 0"
      using assms(2) by (cases rs) (auto simp: utf16_be_bytes_def utf16_units_def)
    then have "1 \<le> (length ?bytes * 4 + 2) div 3" by linarith
    then have "length ?raw \<noteq> 0" by (simp add: b64_encode_raw_length)
    then show ?thesis by (metis list.size(3))
  qed
  then have "body \<noteq> []" by (simp add: body_def replace_byte_def)
  ultimately show "decode_shift body = Inr (encode_runes rs)"
    using ok even_utf16_be_bytes [of "concat (map utf16_units rs)"]
    by (simp add: decode_shift_def undo Let_def b64_decode_encode_raw trim_encode_padded
        decode_utf16be_bytes [OF assms(1)] list_ex_iff)
qed


lemma utf7_flush_body:
  assumes "list_all is_scalar shift" "shift \<noteq> []"
  obtains body where "utf7_flush shift = CHR ''&'' # body @ ''-''"
    "decode_shift body = Inr (encode_runes shift)" "CHR ''-'' \<notin> set body"
    "list_all is_modified_base64_byte body"
proof
  let ?raw = "b64_encode_raw b64_std (utf16_be_bytes (concat (map utf16_units shift)))"
  show "utf7_flush shift = CHR ''&'' # replace_byte (CHR ''/'') (CHR '','') ?raw @ ''-''"
    using assms(2) by (simp add: utf7_flush_def Let_def trim_encode_padded)
qed (use decode_shift_encode [OF assms] in blast)+

lemma decode_utf7_flush:
  assumes "list_all is_scalar shift"
  shows "decode_modified_utf7 (utf7_flush shift @ s)
    = bindR (decode_modified_utf7 s) (\<lambda>t. Inr (encode_runes shift @ t))"
proof (cases "shift = []")
  case True
  then show ?thesis by (cases "decode_modified_utf7 s") (simp_all add: utf7_flush_def)
next
  case False
  then obtain body where b: "utf7_flush shift = CHR ''&'' # body @ ''-''"
    "decode_shift body = Inr (encode_runes shift)" "CHR ''-'' \<notin> set body"
    "list_all is_modified_base64_byte body"
    using assms by (elim utf7_flush_body)
  then have "index_byte (body @ CHR ''-'' # s) (CHR ''-'') = Some (length body)"
    unfolding index_byte_def by (intro find_index_opt_append) auto
  with b show ?thesis by simp
qed

lemma printable_encode_rune: "printable_rune r \<Longrightarrow> encode_rune r = [byte_of r]"
  by (simp add: printable_rune_def encode_rune_def encode_scalar_def is_scalar_def)

lemma byte_of_printable:
  assumes "printable_rune r" "r \<noteq> 38"
  shows "byte_of r \<noteq> CHR ''&''" "32 \<le> byte_val (byte_of r)" "byte_val (byte_of r) \<le> 126"
proof -
  have v: "byte_val (byte_of r) = r" using assms by (simp add: printable_rune_def)
  have "byte_val (CHR ''&'') = 38" by simp
  with v assms(2) show "byte_of r \<noteq> CHR ''&''" by metis
  show "32 \<le> byte_val (byte_of r)" "byte_val (byte_of r) \<le> 126"
    using v assms(1) by (simp_all add: printable_rune_def)
qed

lemma decode_printable:
  assumes "printable_rune r" "r \<noteq> 38"
  shows "decode_modified_utf7 (byte_of r # s) = bindR (decode_modified_utf7 s) (\<lambda>t. Inr (byte_of r # t))"
  using byte_of_printable [OF assms] by (simp del: of_char_of)

lemma decode_ampersand:
  "decode_modified_utf7 (''&-'' @ s) = bindR (decode_modified_utf7 s) (\<lambda>t. Inr (''&'' @ t))"
  by (simp add: index_byte_def decode_shift_def)

lemma encode_rune_38: "encode_rune 38 = ''&''"
  using char_from_val [of "CHR ''&''" 38] by (simp add: encode_rune_def encode_scalar_def is_scalar_def)

lemma decode_encode_loop:
  assumes "list_all is_scalar shift" "list_all is_scalar rs"
  shows "decode_modified_utf7 (utf7_encode_loop shift rs) = Inr (encode_runes (shift @ rs))"
  using assms
proof (induction shift rs rule: utf7_encode_loop.induct)
  case (1 shift)
  then show ?case using decode_utf7_flush [of shift "[]"] by simp
next
  case (2 shift r rs)
  consider "printable_rune r \<and> r \<noteq> 38" | "r = 38" | "\<not> printable_rune r" "r \<noteq> 38" by blast
  then show ?case
  proof cases
    case 1
    with 2 show ?thesis
      by (simp add: decode_utf7_flush printable_encode_rune decode_printable
          del: decode_modified_utf7.simps(2))
  next
    case r: 2
    with 2 show ?thesis
      using decode_ampersand [of "utf7_encode_loop [] rs"]
      by (simp add: decode_utf7_flush encode_rune_38 del: decode_modified_utf7.simps(2))
  next
    case 3
    with 2 show ?thesis by simp
  qed
qed

lemma runes_valid_scalar: "valid_utf8 s \<Longrightarrow> list_all is_scalar (runes s)"
  using valid_utf8_chunks [of s] by (auto simp: runes_def list_all_iff)

lemma decode_encode_utf7:
  "encode_modified_utf7 v = Inr w \<Longrightarrow> decode_modified_utf7 w = Inr v"
  using decode_encode_loop [of "[]" "runes v"] runes_valid_scalar [of v] valid_utf8_runes [of v]
  by (auto simp: encode_modified_utf7_def split: if_splits)


section \<open>Hierarchies\<close>

lemma split_utf7_flush:
  assumes "list_all is_scalar shift"
  shows "split_wire_loop d cur (utf7_flush shift @ s) = split_wire_loop d (cur @ utf7_flush shift) s"
proof (cases "shift = []")
  case True
  then show ?thesis by (simp add: utf7_flush_def)
next
  case False
  then obtain body where b: "utf7_flush shift = CHR ''&'' # body @ ''-''"
    "decode_shift body = Inr (encode_runes shift)" "CHR ''-'' \<notin> set body"
    "list_all is_modified_base64_byte body"
    using assms by (elim utf7_flush_body)
  then have "index_byte (body @ CHR ''-'' # s) (CHR ''-'') = Some (length body)"
    unfolding index_byte_def by (intro find_index_opt_append) auto
  with b show ?thesis by simp
qed

lemma split_ampersand:
  "split_wire_loop d cur (''&-'' @ s) = split_wire_loop d (cur @ ''&-'') s"
  by (simp add: index_byte_def)

lemma split_printable:
  assumes "printable_rune r" "r \<noteq> 38" "byte_val dc \<noteq> r"
  shows "split_wire_loop [dc] cur (byte_of r # s) = split_wire_loop [dc] (cur @ [byte_of r]) s"
proof -
  have "byte_val (byte_of r) = r" using assms(1) by (simp add: printable_rune_def)
  then have "byte_of r \<noteq> dc" using assms(3) by metis
  then show ?thesis using byte_of_printable(1) [OF assms(1,2)] by (simp add: has_prefix_def)
qed

lemma split_encode_loop:
  assumes "list_all is_scalar shift" "list_all is_scalar rs" "byte_val dc \<notin> set rs"
  shows "split_wire_loop [dc] cur (utf7_encode_loop shift rs @ s)
    = split_wire_loop [dc] (cur @ utf7_encode_loop shift rs) s"
  using assms
proof (induction shift rs arbitrary: cur rule: utf7_encode_loop.induct)
  case (1 shift)
  then show ?case using split_utf7_flush by simp
next
  case (2 shift r rs)
  consider "printable_rune r \<and> r \<noteq> 38" | "r = 38" | "\<not> printable_rune r" "r \<noteq> 38" by blast
  then show ?case
  proof cases
    case 1
    with 2 show ?thesis
      by (simp add: split_utf7_flush printable_encode_rune split_printable
          del: split_wire_loop.simps(2))
  next
    case r: 2
    with 2 show ?thesis
      using split_ampersand [of "[dc]" _ "utf7_encode_loop [] rs @ s"]
      by (simp add: split_utf7_flush del: split_wire_loop.simps(2))
  next
    case 3
    with 2 show ?thesis by simp
  qed
qed

lemma split_join_wires:
  assumes "dc \<noteq> CHR ''&''" "path \<noteq> []"
    and "\<forall>rs \<in> set path. list_all is_scalar rs \<and> byte_val dc \<notin> set rs"
  shows "split_wire_loop [dc] [] (join_with [dc] (map (utf7_encode_loop []) path))
    = Inr (map (utf7_encode_loop []) path)"
  using assms(2,3)
proof (induction path rule: induct_list012)
  case (2 rs)
  then show ?case using split_encode_loop [of "[]" rs dc "[]" "[]"] by simp
next
  case (3 rs rs' path)
  then have "split_wire_loop [dc] [] (utf7_encode_loop [] rs @ dc # join_with [dc] (map (utf7_encode_loop []) (rs' # path)))
      = split_wire_loop [dc] (utf7_encode_loop [] rs) (dc # join_with [dc] (map (utf7_encode_loop []) (rs' # path)))"
    using split_encode_loop [of "[]" rs dc "[]"] by simp
  then show ?case using 3 assms(1) by (simp add: has_prefix_def)
qed simp

lemma rune_in_bytes:
  assumes "valid_utf8 p" "byte_val dc \<in> set (runes p)" "printable_rune (byte_val dc)"
  shows "dc \<in> set p"
proof -
  have "encode_rune (byte_val dc) = [dc]" using assms(3) by (simp add: printable_encode_rune)
  then have "dc \<in> set (encode_runes (runes p))" using assms(2) by (force simp: encode_runes_def)
  then show ?thesis using valid_utf8_runes [OF assms(1)] by simp
qed

lemma encode_loop_nonempty:
  "rs \<noteq> [] \<or> shift \<noteq> [] \<Longrightarrow> utf7_encode_loop shift rs \<noteq> []"
  by (induction shift rs rule: utf7_encode_loop.induct) (auto simp: utf7_flush_def Let_def)

lemma mapR_encode_modified:
  "mapR encode_modified_utf7 path = Inr wires \<Longrightarrow>
     (\<forall>p \<in> set path. valid_utf8 p) \<and> wires = map (utf7_encode_loop []) (map runes path)"
  by (induction path arbitrary: wires)
    (auto simp: result_simps encode_modified_utf7_def split: if_splits)

lemma mapR_Inr_map: "\<forall>x \<in> set xs. f (g x) = Inr x \<Longrightarrow> mapR f (map g xs) = Inr xs"
  by (induction xs) auto

lemma ascii_rune_count: "byte_val c < 128 \<Longrightarrow> rune_count [c] = 1 \<and> valid_utf8 [c] \<and> runes [c] = [byte_val c]"
  by (simp add: rune_count_def utf8_chunks_ascii valid_utf8_def runes_def)

definition printable_wire :: "string \<Rightarrow> bool" where
  "printable_wire s \<longleftrightarrow> list_all (\<lambda>c. 32 \<le> byte_val c \<and> byte_val c \<le> 126) s"

lemma printable_wire_simps [simp]:
  "printable_wire []"
  "printable_wire (c # s) \<longleftrightarrow> 32 \<le> byte_val c \<and> byte_val c \<le> 126 \<and> printable_wire s"
  "printable_wire (s @ t) \<longleftrightarrow> printable_wire s \<and> printable_wire t"
  by (simp_all add: printable_wire_def)

lemma modified_base64_printable: "list_all is_modified_base64_byte s \<Longrightarrow> printable_wire s"
  by (induction s)
    (auto simp: is_modified_base64_byte_def is_upper_def is_lower_def is_digit_def)

lemma printable_flush:
  assumes "list_all is_scalar shift"
  shows "printable_wire (utf7_flush shift)"
proof (cases "shift = []")
  case False
  then obtain body where b: "utf7_flush shift = CHR ''&'' # body @ ''-''"
    "decode_shift body = Inr (encode_runes shift)" "CHR ''-'' \<notin> set body"
    "list_all is_modified_base64_byte body"
    using assms by (elim utf7_flush_body)
  then show ?thesis using modified_base64_printable by simp
qed (simp add: utf7_flush_def)

lemma encode_loop_printable:
  "list_all is_scalar shift \<Longrightarrow> list_all is_scalar rs \<Longrightarrow> printable_wire (utf7_encode_loop shift rs)"
proof (induction shift rs rule: utf7_encode_loop.induct)
  case (2 shift r rs)
  then show ?case
    using printable_flush [of shift] byte_of_printable(2,3) [of r]
    by (auto simp: printable_encode_rune simp del: of_char_of)
qed (simp add: printable_flush)

section \<open>Properties of wire names\<close>

text \<open>
  C37. Encoding a valid UTF-8 display name to modified UTF-7 always succeeds, the wire name is
  printable ASCII, and decoding it gives the name back; an invalid name is refused.
\<close>

theorem modified_utf7_roundtrip:
  "case encode_modified_utf7 v of
     Inl e \<Rightarrow> \<not> valid_utf8 v \<and> e = InvalidDisplayName
   | Inr w \<Rightarrow> valid_utf8 v \<and> printable_wire w \<and> decode_modified_utf7 w = Inr v"
  using decode_encode_utf7 [of v] encode_loop_printable [of "[]" "runes v"] runes_valid_scalar [of v]
  by (simp add: encode_modified_utf7_def)

text \<open>
  C36. A hierarchy survives the wire: when every component of a mailbox path is a non-empty valid
  UTF-8 name without the delimiter, joining the encoded components with the server's delimiter and
  decoding the wire name gives back exactly the components. No base64 text inside a shift is taken
  for a delimiter.
\<close>

theorem wire_name_roundtrip:
  assumes "printable_rune (byte_val dc)" "dc \<noteq> CHR ''&''"
    and "path \<noteq> []" "\<forall>p \<in> set path. p \<noteq> [] \<and> dc \<notin> set p"
    and "mapR encode_modified_utf7 path = Inr wires"
  shows "decode_mailbox_wire_name (join_with [dc] wires) [dc] EncodingModifiedUTF7
    = Inr (join_with [dc] path, path)"
proof -
  from mapR_encode_modified [OF assms(5)] have valid: "\<forall>p \<in> set path. valid_utf8 p"
    and wires: "wires = map (utf7_encode_loop []) (map runes path)" by simp_all
  have split: "split_wire_loop [dc] [] (join_with [dc] wires) = Inr wires"
    unfolding wires
  proof (rule split_join_wires)
    show "\<forall>rs \<in> set (map runes path). list_all is_scalar rs \<and> byte_val dc \<notin> set rs"
      using valid assms(1,4) runes_valid_scalar rune_in_bytes by auto
  qed (use assms in auto)
  have "mapR (decode_wire_component EncodingModifiedUTF7)
      (map (\<lambda>p. utf7_encode_loop [] (runes p)) path) = Inr path"
  proof (rule mapR_Inr_map, rule ballI)
    fix p assume "p \<in> set path"
    then have p: "valid_utf8 p" "p \<noteq> []" using valid assms(4) by auto
    then have "runes p \<noteq> []" using valid_utf8_runes [of p] by auto
    then show "decode_wire_component EncodingModifiedUTF7 (utf7_encode_loop [] (runes p)) = Inr p"
      using p decode_encode_utf7 [of p] encode_loop_nonempty [of "runes p" "[]"]
      by (simp add: decode_wire_component_def decode_mailbox_component_def encode_modified_utf7_def)
  qed
  then have comps: "mapR (decode_wire_component EncodingModifiedUTF7) wires = Inr path"
    by (simp add: wires o_def)
  have dc: "rune_count [dc] = 1" "valid_utf8 [dc]" "runes [dc] = [byte_val dc]"
    using assms(1) ascii_rune_count [of dc] by (simp_all add: printable_rune_def)
  have "byte_val dc \<noteq> 38"
  proof
    assume "byte_val dc = 38"
    then have "byte_val dc = byte_val (CHR ''&'')" by simp
    with assms(2) show False by (simp only: byte_val_inject)
  qed
  moreover have "join_with [dc] wires \<noteq> []"
  proof
    assume "join_with [dc] wires = []"
    with split have "wires = [[]]" by simp
    with comps show False by (simp add: decode_wire_component_def)
  qed
  ultimately show ?thesis
    using dc split comps
    by (simp add: decode_mailbox_wire_name_def split_mailbox_wire_name_def)
qed

lemma wire_name_roundtrip_witness:
  "\<exists>wires. mapR encode_modified_utf7 [''Work'', encode_runes [69, 228, 128512]] = Inr wires
     \<and> decode_mailbox_wire_name (join_with ''/'' wires) ''/'' EncodingModifiedUTF7
       = Inr (join_with ''/'' [''Work'', encode_runes [69, 228, 128512]], [''Work'', encode_runes [69, 228, 128512]])"
proof -
  let ?p = "[''Work'', encode_runes [69, 228, 128512]]"
  have v: "valid_utf8 ''Work''" "valid_utf8 (encode_runes [69, 228, 128512])"
    by (rule valid_utf8_ascii, simp add: is_ascii_def) (rule valid_encode_runes, simp add: is_scalar_def)
  have no: "CHR ''/'' \<notin> set (encode_runes [69, 228, 128512])"
  proof -
    have "map byte_val (encode_runes [69, 228, 128512]) = [69, 195, 164, 240, 159, 152, 128]"
      by (simp add: encode_rune_def encode_scalar_def is_scalar_def)
    then have "byte_val (CHR ''/'') \<notin> byte_val ` set (encode_runes [69, 228, 128512])"
      by (simp only: set_map [symmetric]) simp
    then show ?thesis by blast
  qed
  have "mapR encode_modified_utf7 ?p = Inr (map (utf7_encode_loop [] \<circ> runes) ?p)"
    using v by (simp add: encode_modified_utf7_def)
  moreover from this have "decode_mailbox_wire_name (join_with ''/'' (map (utf7_encode_loop [] \<circ> runes) ?p)) ''/''
      EncodingModifiedUTF7 = Inr (join_with ''/'' ?p, ?p)"
    using no by (intro wire_name_roundtrip) (simp_all add: printable_rune_def)
  ultimately show ?thesis by blast
qed

end
