(* ===== verification/Imap_Values.thy ===== *)
theory Imap_Values
  imports Modified_UTF7
begin

text \<open>
  \<open>src/internal/transport/imapclient/parse.go\<close> and the quoting functions of \<open>wire.go\<close>: values of
  IMAP responses (quoted strings, literals, NIL, atoms), LIST lines, and the quoted strings the
  client writes. The position in a line is the remaining text; the parser record carries the
  literals of the response and how many of them were consumed.
\<close>

datatype value_error =
    EmptyToken
  | MissingLiteral
  | EmbeddedLiteral
  | NotQuoted
  | UnterminatedQuoted
  | NotListResponse
  | NoAttributeList
  | UnterminatedAttributes
  | TrailingListData
  | UnusedLiteral
  | WireNameError utf7_error
  | ControlCharacter nat

definition imap_literal_marker :: char where
  "imap_literal_marker = CHR 0x00"

definition is_space :: "char \<Rightarrow> bool" where
  "is_space c \<longleftrightarrow> c = CHR '' '' \<or> c = CHR 0x09"

section \<open>Quoted strings\<close>

fun parse_quoted_loop :: "string \<Rightarrow> string \<Rightarrow> value_error + (string \<times> string)" where
  "parse_quoted_loop acc [] = Inl UnterminatedQuoted"
| "parse_quoted_loop acc (c # s) =
     (if c = CHR 0x5C then
        (case s of [] \<Rightarrow> Inl UnterminatedQuoted | d # s' \<Rightarrow> parse_quoted_loop (acc @ [d]) s')
      else if c = CHR 0x22 then Inr (acc, s)
      else parse_quoted_loop (acc @ [c]) s)"

definition parse_quoted :: "string \<Rightarrow> value_error + (string \<times> string)" where
  "parse_quoted s = (case s of
      [] \<Rightarrow> Inl NotQuoted
    | c # t \<Rightarrow> if c \<noteq> CHR 0x22 then Inl NotQuoted else parse_quoted_loop [] t)"

definition quote_body :: "string \<Rightarrow> string" where
  "quote_body s = concat (map (\<lambda>c. if c = CHR 0x5C \<or> c = CHR 0x22 then [CHR 0x5C, c] else [c]) s)"

definition quote_imap :: "string \<Rightarrow> string" where
  "quote_imap s = CHR 0x22 # quote_body s @ [CHR 0x22]"

definition is_control_byte :: "char \<Rightarrow> bool" where
  "is_control_byte c \<longleftrightarrow> byte_val c < 32 \<or> byte_val c = 127"

definition safe_quote_imap :: "string \<Rightarrow> value_error + string" where
  "safe_quote_imap s = (case find_index_opt is_control_byte s of
      Some i \<Rightarrow> Inl (ControlCharacter i)
    | None \<Rightarrow> Inr (quote_imap s))"

lemma quote_body_simps [simp]:
  "quote_body [] = []"
  "quote_body (c # s) = (if c = CHR 0x5C \<or> c = CHR 0x22 then [CHR 0x5C, c] else [c]) @ quote_body s"
  by (simp_all add: quote_body_def)

lemma parse_quote_body:
  "parse_quoted_loop acc (quote_body s @ CHR 0x22 # rest) = Inr (acc @ s, rest)"
  by (induction s arbitrary: acc) auto

lemma parse_quote [simp]: "parse_quoted (quote_imap s @ rest) = Inr (s, rest)"
  using parse_quote_body [of "[]" s rest] by (simp add: parse_quoted_def quote_imap_def)

lemma parse_quoted_loop_shorter:
  "parse_quoted_loop acc s = Inr (v, rest) \<Longrightarrow> length rest < length s"
proof (induction acc s rule: parse_quoted_loop.induct)
  case (2 acc c s)
  then show ?case by (cases s) (auto split: if_splits)
qed simp

lemma parse_quoted_shorter: "parse_quoted s = Inr (v, rest) \<Longrightarrow> length rest < length s"
  by (auto simp: parse_quoted_def dest: parse_quoted_loop_shorter split: list.splits if_splits)

section \<open>Values\<close>

record value_parser =
  vp_literals :: "string list"
  vp_next :: nat

definition parse_value :: "value_parser \<Rightarrow> string \<Rightarrow> value_error + (string \<times> string \<times> value_parser)" where
  "parse_value p s0 = (let s = dropWhile is_space s0 in
     if s = [] then Inl EmptyToken
     else if has_prefix s [imap_literal_marker] then
       (if length (vp_literals p) \<le> vp_next p then Inl MissingLiteral
        else Inr (vp_literals p ! vp_next p, drop 1 s, p\<lparr>vp_next := vp_next p + 1\<rparr>))
     else if hd s = CHR 0x22 then bindR (parse_quoted s) (\<lambda>(v, rest). Inr (v, rest, p))
     else if 3 \<le> length s \<and> equal_fold_ascii (take 3 s) ''NIL'' \<and> (length s = 3 \<or> is_space (s ! 3))
       then Inr ([], drop 3 s, p)
     else let a = takeWhile (\<lambda>c. \<not> is_space c) s in
       if imap_literal_marker \<in> set a then Inl EmbeddedLiteral
       else Inr (a, drop (length a) s, p))"

lemma dropWhile_length: "length (dropWhile P s) \<le> length s"
  by (induction s) auto

lemma parse_value_shorter:
  assumes "parse_value p s = Inr (v, rest, p')"
  shows "length rest < length s"
proof -
  let ?s = "dropWhile is_space s"
  have ne: "?s \<noteq> []"
  proof
    assume "?s = []"
    then have "parse_value p s = Inl EmptyToken" by (simp only: parse_value_def Let_def if_True refl)
    with assms show False by simp
  qed
  then have hd: "\<not> is_space (hd ?s)" by (rule hd_dropWhile)
  define u where "u = ?s"
  have u: "u \<noteq> []" "0 < length (takeWhile (\<lambda>c. \<not> is_space c) u)"
    using ne hd by (cases ?s; simp add: u_def)+
  have "length rest < length u"
    using assms [unfolded parse_value_def Let_def, folded u_def] u
    by (auto simp: result_simps dest: parse_quoted_shorter split: if_splits)
  then show ?thesis using dropWhile_length [of is_space s] by (simp add: u_def)
qed

lemma trim_func_length: "length (trim_func f s) \<le> length s"
proof -
  let ?size = "\<lambda>cs :: (nat \<times> string) list. length (concat (map snd cs))"
  have drop: "?size (dropWhile P cs) \<le> ?size cs" for P cs
    by (induction cs) auto
  have rev: "?size (rev cs) = ?size cs" for cs
    by (induction cs) simp_all
  define cs where "cs = utf8_chunks s"
  define front where "front = dropWhile (f \<circ> fst) cs"
  define rear where "rear = dropWhile (f \<circ> fst) (rev front)"
  have "?size (rev rear) = ?size rear" by (rule rev)
  also have "\<dots> \<le> ?size (rev front)" unfolding rear_def by (rule drop)
  also have "\<dots> = ?size front" by (rule rev)
  also have "\<dots> \<le> ?size cs" unfolding front_def by (rule drop)
  finally have "?size (rev rear) \<le> ?size cs" .
  then show ?thesis by (simp add: trim_func_def utf8_chunks_concat rear_def front_def cs_def)
qed

lemma trim_space_length: "length (trim_space s) \<le> length s"
  unfolding trim_space_def by (rule trim_func_length)

text \<open>The loop of \<open>parseValues\<close>, entered with a trimmed text.\<close>

function parse_values_loop ::
    "value_parser \<Rightarrow> string \<Rightarrow> value_error + (string list \<times> value_parser)" where
  "parse_values_loop p s = (if s = [] then Inr ([], p)
     else case parse_value p s of
       Inl e \<Rightarrow> Inl e
     | Inr (v, rest, p') \<Rightarrow>
         bindR (parse_values_loop p' (trim_space rest)) (\<lambda>(vs, p''). Inr (v # vs, p'')))"
  by pat_completeness auto
termination
proof (relation "measure (\<lambda>(p, s). length s)")
  fix p :: value_parser and s :: string and x v rest p' y
  assume "parse_value p s = Inr x" "(v, y) = x" "(rest, p') = y"
  then have "length rest < length s" using parse_value_shorter by blast
  then show "((p', trim_space rest), (p, s)) \<in> measure (\<lambda>(p, s). length s)"
    using trim_space_length [of rest] by simp
qed simp

declare parse_values_loop.simps [simp del]

definition parse_values :: "value_parser \<Rightarrow> string \<Rightarrow> value_error + (string list \<times> value_parser)" where
  "parse_values p s = parse_values_loop p (trim_space s)"

section \<open>LIST lines\<close>

record imap_mailbox =
  mx_name :: string
  mx_wire_name :: string
  mx_display_name :: string
  mx_display_path :: "string list"
  mx_delimiter :: string
  mx_encoding :: mailbox_encoding
  mx_flags :: "string list"

text \<open>The end of the attribute list: the loop over the index \<open>i\<close>, 0 when it is not found.\<close>

fun attribute_end :: "int \<Rightarrow> nat \<Rightarrow> string \<Rightarrow> nat" where
  "attribute_end depth i [] = 0"
| "attribute_end depth i (c # s) =
     (if c = CHR 0x5C then (case s of [] \<Rightarrow> 0 | d # s' \<Rightarrow> attribute_end depth (i + 2) s')
      else if c = CHR ''('' then attribute_end (depth + 1) (i + 1) s
      else if c = CHR '')'' then
        (if depth - 1 = 0 then i + 1 else attribute_end (depth - 1) (i + 1) s)
      else attribute_end depth (i + 1) s)"

definition parse_list_mailbox ::
    "string \<Rightarrow> mailbox_encoding \<Rightarrow> string list \<Rightarrow> value_error + imap_mailbox" where
  "parse_list_mailbox line e literals =
     (if \<not> has_prefix line ''* LIST '' then Inl NotListResponse
      else let s = drop (length ''* LIST '') line in
        if \<not> has_prefix s ''('' then Inl NoAttributeList
        else let finish = attribute_end 0 0 s in
          if finish = 0 then Inl UnterminatedAttributes
          else let attrs = take (finish - 2) (drop 1 s) in
            bindR (parse_values \<lparr>vp_literals = literals, vp_next = 0\<rparr> attrs) (\<lambda>(flags, p).
            bindR (parse_value p (trim_space (drop finish s))) (\<lambda>(delimiter, rest, p).
            bindR (parse_value p rest) (\<lambda>(wire, rest, p).
              if trim_space rest \<noteq> [] then Inl TrailingListData
              else if vp_next p \<noteq> length literals then Inl UnusedLiteral
              else bindR (wrapR WireNameError (decode_mailbox_wire_name wire delimiter e))
                (\<lambda>(display_name, display_path).
                  Inr \<lparr>mx_name = wire, mx_wire_name = wire, mx_display_name = display_name,
                    mx_display_path = display_path, mx_delimiter = delimiter,
                    mx_encoding = normalized_mailbox_encoding e, mx_flags = flags\<rparr>)))))"

definition parse_list_line :: "string \<Rightarrow> string list \<Rightarrow> value_error + (string \<times> string list)" where
  "parse_list_line line literals =
     bindR (parse_list_mailbox line EncodingModifiedUTF7 literals) (\<lambda>m. Inr (mx_wire_name m, mx_flags m))"

section \<open>Properties of quoting\<close>

lemma quote_imap_controls:
  "list_all (\<lambda>c. \<not> is_control_byte c) s \<Longrightarrow> list_all (\<lambda>c. \<not> is_control_byte c) (quote_imap s)"
proof -
  have "list_all (\<lambda>c. \<not> is_control_byte c) s \<Longrightarrow> list_all (\<lambda>c. \<not> is_control_byte c) (quote_body s)"
    by (induction s) (auto simp: is_control_byte_def)
  then show "list_all (\<lambda>c. \<not> is_control_byte c) s \<Longrightarrow> ?thesis"
    by (simp add: quote_imap_def list_all_append is_control_byte_def)
qed

text \<open>
  C38. A quoted value cannot break out of its command: \<open>safeQuoteIMAP\<close> refuses exactly the texts
  with a control byte (naming the first one), and the quoted text it returns has no control byte,
  hence no line break, and is read back as the original text whatever follows it.
\<close>

theorem safe_quote_contained:
  "case safe_quote_imap s of
     Inl e \<Rightarrow> (\<exists>i. e = ControlCharacter i \<and> i < length s \<and> is_control_byte (s ! i)
        \<and> list_all (\<lambda>c. \<not> is_control_byte c) (take i s))
   | Inr q \<Rightarrow> list_all (\<lambda>c. \<not> is_control_byte c) q \<and> (\<forall>rest. parse_quoted (q @ rest) = Inr (s, rest))"
proof (cases "find_index_opt is_control_byte s")
  case None
  then show ?thesis
    using quote_imap_controls [of s] None
    by (simp add: safe_quote_imap_def find_index_opt_None [THEN iffD1, OF None] list_all_iff)
next
  case (Some i)
  then show ?thesis
    using find_index_opt_Some [OF Some] Some by (simp add: safe_quote_imap_def list_all_iff)
qed

end
