(* ===== verification/Imap_Wire.thy ===== *)
theory Imap_Wire
  imports Imap_Values
begin

text \<open>
  \<open>src/internal/transport/imapclient/wire.go\<close> and \<open>response_budget.go\<close>: reading lines and logical
  responses with literals under byte limits, tagged completions and response codes. The session
  is the record of the bytes the server has yet to deliver, the lines the client wrote or tried to
  write, and the dirty flag that retires it. The bytes run out where the connection ends. The outcomes of the
  deadline, cancellation and write calls are delivered by an explicit list of results, so a
  theorem about every such list covers every interleaving of faults.
\<close>

section \<open>Sessions and errors\<close>

datatype imap_error =
    EndOfStream
  | IoFailure
  | Canceled
  | LineTooLong
  | MalformedLiteral
  | LogicalTooLong
  | TooManyLiterals
  | LiteralTooLarge nat
  | LiteralTruncated
  | BudgetExhausted string
  | InvalidValue
  | NoStatusAtom
  | InvalidStatus
  | SessionClosed
  | MalformedCode
  | CommandFailed string
  | ResponseMalformed
  | MalformedFlags
  | MalformedUidValidity
  | UidValidityUnknown
  | UidValidityChanged
  | UidUnknown
  | FlagBudgetExceeded
  | MessageNotFound
  | MessageUidMismatch
  | AmbiguousMessageId
  | CommandRejected string string "string option"

datatype io_result = IoOk | IoFail | IoCanceled

record imap_session =
  se_in :: string
  se_out :: "string list"
  se_dirty :: bool
  se_next_tag :: nat
  se_tag_prefix :: string
  se_faults :: "io_result list"

text \<open>The result of the next deadline or write call; without an entry it succeeds.\<close>

definition next_fault :: "imap_session \<Rightarrow> io_result \<times> imap_session" where
  "next_fault s = (case se_faults s of [] \<Rightarrow> (IoOk, s) | f # fs \<Rightarrow> (f, s\<lparr>se_faults := fs\<rparr>))"

definition mark_dirty :: "imap_session \<Rightarrow> imap_session" where
  "mark_dirty s = s\<lparr>se_dirty := True\<rparr>"

definition set_deadline :: "imap_session \<Rightarrow> (imap_error + unit) \<times> imap_session" where
  "set_deadline s = (case next_fault s of
      (IoOk, s) \<Rightarrow> (Inr (), s)
    | (IoCanceled, s) \<Rightarrow> (Inl Canceled, mark_dirty s)
    | (IoFail, s) \<Rightarrow> (Inl IoFailure, mark_dirty s))"

text \<open>
  \<open>writeLine\<close>. A line with a forbidden character is refused before any byte of it is written. After
  that a failed write or flush leaves open how much of the line has left the client, so the line
  is recorded in both cases: \<open>se_out\<close> holds the lines of which bytes may have reached the server.
\<close>

definition write_line :: "imap_session \<Rightarrow> string \<Rightarrow> (imap_error + unit) \<times> imap_session" where
  "write_line s line =
     (if contains_any line [CHR 0x0D, CHR 0x0A, CHR 0x00] then (Inl InvalidValue, s)
      else case next_fault s of
        (IoOk, s) \<Rightarrow> (Inr (), s\<lparr>se_out := se_out s @ [line]\<rparr>)
      | (_, s) \<Rightarrow> (Inl IoFailure, mark_dirty (s\<lparr>se_out := se_out s @ [line]\<rparr>)))"

section \<open>Lines\<close>

definition max_response_line_bytes :: nat where
  "max_response_line_bytes = 1048576"

definition max_flag_response_count :: nat where
  "max_flag_response_count = 1024"

definition max_flag_response_bytes :: nat where
  "max_flag_response_bytes = 4194304"

definition trim_crlf :: "string \<Rightarrow> string" where
  "trim_crlf s = rev (dropWhile (\<lambda>c. c = CHR 0x0D \<or> c = CHR 0x0A) (rev s))"

text \<open>
  \<open>readLineWithWireByteBudget\<close>. The buffered reader hands out the line in fragments; the limit is
  checked before the end of the stream is, so a line that exceeds it is refused even when the
  stream ends in it.
\<close>

definition read_line :: "nat \<Rightarrow> imap_session \<Rightarrow> (imap_error + (string \<times> nat)) \<times> imap_session" where
  "read_line limit s = (case index_byte (se_in s) (CHR 0x0A) of
      Some i \<Rightarrow>
        (if limit < i + 1 then (Inl LineTooLong, mark_dirty s)
         else (Inr (trim_crlf (take (i + 1) (se_in s)), i + 1), s\<lparr>se_in := drop (i + 1) (se_in s)\<rparr>))
    | None \<Rightarrow>
        (if limit < length (se_in s) then (Inl LineTooLong, mark_dirty s)
         else (Inl EndOfStream, mark_dirty (s\<lparr>se_in := []\<rparr>))))"

section \<open>Literals\<close>

fun quoted_at :: "bool \<Rightarrow> string \<Rightarrow> bool" where
  "quoted_at quoted [] = quoted"
| "quoted_at quoted (c # s) =
     (if c = CHR 0x5C then
        (if quoted then (case s of [] \<Rightarrow> quoted | d # s' \<Rightarrow> quoted_at quoted s') else quoted_at quoted s)
      else if c = CHR 0x22 then quoted_at (\<not> quoted) s
      else quoted_at quoted s)"

text \<open>
  \<open>parseLiteralSuffix\<close>: the text before the length and the length, \<open>None\<close> for a line without a
  literal. \<open>strconv.Atoi\<close> accepts values below \<open>2^63\<close>.
\<close>

definition parse_literal_suffix :: "string \<Rightarrow> imap_error + (string \<times> nat) option" where
  "parse_literal_suffix line =
     (if \<not> has_suffix line ''}'' then Inr None
      else case last_index_byte line (CHR ''{'') of
        None \<Rightarrow> Inr None
      | Some start \<Rightarrow>
          if (0 < start \<and> \<not> is_space (line ! (start - 1))) \<or> quoted_at False (take start line) then Inr None
          else let digits = take (length line - 1 - (start + 1)) (drop (start + 1) line) in
            if digits = [] then Inl MalformedLiteral
            else if \<not> list_all is_digit digits then Inl MalformedLiteral
            else case parse_uint 63 digits of
                None \<Rightarrow> Inl MalformedLiteral
              | Some k \<Rightarrow> Inr (Some (take start line, k)))"

record response_budget =
  rb_metadata :: nat
  rb_payload :: nat
  rb_payload_limit :: nat

text \<open>\<open>responseBudget.consume\<close>; a nil budget has no limit.\<close>

definition budget_consume ::
    "response_budget option \<Rightarrow> nat \<Rightarrow> bool \<Rightarrow> imap_error + response_budget option" where
  "budget_consume b n literal = (case b of
      None \<Rightarrow> Inr None
    | Some r \<Rightarrow>
        if literal \<and> 0 < rb_payload_limit r then
          (if rb_payload_limit r - rb_payload r < n
           then Inl (BudgetExhausted ''command response payload bytes'')
           else Inr (Some (r\<lparr>rb_payload := rb_payload r + n\<rparr>)))
        else
          (if max_flag_response_bytes - rb_metadata r < n
           then Inl (BudgetExhausted ''command response metadata bytes'')
           else Inr (Some (r\<lparr>rb_metadata := rb_metadata r + n\<rparr>))))"

record read_limits =
  rl_literal :: nat
  rl_response :: nat
  rl_count :: nat

record logical_line =
  ll_text :: string
  ll_literals :: "string list"
  ll_wire_bytes :: nat
  ll_budget :: "response_budget option"

text \<open>
  \<open>readLogicalLineWithLiteralReaderCounted\<close> with the default literal reader. Each literal stands as
  the marker byte in the text and is kept apart.
\<close>

lemma read_line_consumes:
  assumes "read_line limit s = (Inr (line, n), s')"
  shows "0 < n" "length (se_in s') + n = length (se_in s)" "n \<le> limit" "length line \<le> n"
proof -
  obtain i where i: "index_byte (se_in s) (CHR 0x0A) = Some i"
    using assms by (cases "index_byte (se_in s) (CHR 0x0A)") (auto simp: read_line_def split: if_splits)
  then have "i < length (se_in s)" using find_index_opt_Some by (auto simp: index_byte_def)
  moreover have "length (trim_crlf t) \<le> length t" for t
    using length_dropWhile_le [of _ "rev t"] by (simp add: trim_crlf_def)
  then have "length (trim_crlf (take (Suc i) (se_in s))) \<le> Suc i"
    by (rule le_trans) simp
  ultimately show "0 < n" "length (se_in s') + n = length (se_in s)" "n \<le> limit" "length line \<le> n"
    using assms i by (auto simp: read_line_def intro: le_trans split: if_splits)
qed

function read_logical_loop ::
    "read_limits \<Rightarrow> response_budget option \<Rightarrow> string \<Rightarrow> string list \<Rightarrow> nat \<Rightarrow> nat \<Rightarrow> imap_session
     \<Rightarrow> (imap_error + logical_line) \<times> imap_session" where
  "read_logical_loop lim b text lits literal_bytes wire_bytes s =
     (case read_line max_response_line_bytes s of
        (Inl e, s) \<Rightarrow> (Inl e, s)
      | (Inr (line, n), s') \<Rightarrow>
        (case budget_consume b n False of
           Inl e \<Rightarrow> (Inl e, mark_dirty s')
         | Inr b \<Rightarrow>
           (case parse_literal_suffix line of
              Inl e \<Rightarrow> (Inl e, mark_dirty s')
            | Inr None \<Rightarrow>
                (if rl_response lim - literal_bytes < length text + length line
                 then (Inl LogicalTooLong, mark_dirty s')
                 else (Inr \<lparr>ll_text = text @ line, ll_literals = lits, ll_wire_bytes = wire_bytes + n,
                         ll_budget = b\<rparr>, s'))
            | Inr (Some (prefix, k)) \<Rightarrow>
                (if rl_count lim \<le> length lits then (Inl TooManyLiterals, mark_dirty s')
                 else if rl_literal lim < k \<or> rl_response lim - literal_bytes < k
                   then (Inl (LiteralTooLarge k), mark_dirty s')
                 else if rl_response lim - literal_bytes - k < length text + length prefix + 1
                   then (Inl LogicalTooLong, mark_dirty s')
                 else case budget_consume b k True of
                     Inl e \<Rightarrow> (Inl e, mark_dirty s')
                   | Inr b \<Rightarrow>
                       (if length (se_in s') < k
                        then (Inl LiteralTruncated, mark_dirty (s'\<lparr>se_in := []\<rparr>))
                        else read_logical_loop lim b (text @ prefix @ [imap_literal_marker])
                          (lits @ [take k (se_in s')]) (literal_bytes + k) (wire_bytes + n + k)
                          (s'\<lparr>se_in := drop k (se_in s')\<rparr>))))))"
  by pat_completeness auto
termination
proof (relation "measure (\<lambda>(lim, b, text, lits, lb, wb, s). length (se_in s))", goal_cases)
  case prems: (2 lim b acc lits lb wb s r s' q line n)
  then have "read_line max_response_line_bytes s = (Inr (line, n), s')" by simp
  from read_line_consumes(1,2) [OF this] show ?case by simp
qed simp

declare read_logical_loop.simps [simp del]

definition read_logical_line ::
    "read_limits \<Rightarrow> response_budget option \<Rightarrow> imap_session \<Rightarrow> (imap_error + logical_line) \<times> imap_session" where
  "read_logical_line lim b s = read_logical_loop lim b [] [] 0 0 s"

section \<open>Response codes and completions\<close>

definition bracketed_response_code :: "string \<Rightarrow> string option" where
  "bracketed_response_code line = (case index_byte line (CHR ''['') of
      None \<Rightarrow> None
    | Some start \<Rightarrow>
        (case index_byte (drop (start + 1) line) (CHR '']'') of
           None \<Rightarrow> None
         | Some e \<Rightarrow> let v = trim_space (take e (drop (start + 1) line)) in
             if v = [] then None else Some v))"

text \<open>
  \<open>flagResponseCode\<close>: only the bracketed code right after a status is a code; \<open>[]\<close> stands for
  the empty text the source returns when there is none.
\<close>

definition flag_response_code :: "string \<Rightarrow> string \<Rightarrow> imap_error + string" where
  "flag_response_code line tag = (case cut_byte line (CHR '' '') of (prefix, rest, found) \<Rightarrow>
     if \<not> found \<or> (prefix \<noteq> ''*'' \<and> prefix \<noteq> tag) then Inr []
     else case cut_byte (trim_space rest) (CHR '' '') of (status, rest, _) \<Rightarrow>
       if equal_fold_ascii status ''BYE'' then Inl SessionClosed
       else if \<not> equal_fold_ascii status ''OK'' \<and> \<not> equal_fold_ascii status ''NO''
            \<and> \<not> equal_fold_ascii status ''BAD'' then Inr []
       else let rest = trim_space rest in
         if \<not> has_prefix rest ''['' then Inr []
         else case bracketed_response_code rest of None \<Rightarrow> Inl MalformedCode | Some code \<Rightarrow> Inr code)"

definition parse_tagged_completion_status :: "string \<Rightarrow> string \<Rightarrow> imap_error + string" where
  "parse_tagged_completion_status line tag = (let fs = str_fields line in
     if length fs < 2 \<or> fs ! 0 \<noteq> tag then Inl NoStatusAtom
     else let status = to_upper (fs ! 1) in
       if status \<in> {''OK'', ''NO'', ''BAD''} then Inr status else Inl InvalidStatus)"

definition tagged_completion_text :: "string \<Rightarrow> string \<Rightarrow> string" where
  "tagged_completion_text line tag =
     (if has_prefix line (tag @ '' '') then
        (case cut_byte (drop (length tag + 1) line) (CHR '' '') of (_, txt, found) \<Rightarrow>
           if found then txt else [])
      else [])"

definition is_control_rune :: "nat \<Rightarrow> bool" where
  "is_control_rune r \<longleftrightarrow> r < 32 \<or> (127 \<le> r \<and> r < 160)"

definition code_rune_ok :: "nat \<Rightarrow> bool" where
  "code_rune_ok r \<longleftrightarrow> \<not> is_control_rune r \<and> \<not> is_space_rune r
     \<and> r \<notin> set (map byte_val ([CHR ''('', CHR '')'', CHR ''{'', CHR ''}'', CHR ''%'', CHR ''*'',
          CHR 0x5C, CHR 0x22, CHR ''['', CHR '']'']))"

definition leading_tagged_response_code :: "string \<Rightarrow> string option" where
  "leading_tagged_response_code t =
     (if \<not> has_prefix t ''['' then None
      else case index_byte (drop 1 t) (CHR '']'') of
        None \<Rightarrow> None
      | Some e \<Rightarrow>
          if e < 1 then None
          else if e + 2 < length t \<and> t ! (e + 2) \<noteq> CHR '' '' then None
          else let code_atom = fst (cut_byte (take e (drop 1 t)) (CHR '' '')) in
            if code_atom = [] \<or> \<not> list_all code_rune_ok (runes code_atom) then None
            else Some (to_upper code_atom))"

fun bounded_text_loop :: "string \<Rightarrow> nat list \<Rightarrow> string" where
  "bounded_text_loop acc [] = acc"
| "bounded_text_loop acc (r # rs) =
     (if is_control_rune r then bounded_text_loop acc rs
      else if 512 < length acc + length (encode_rune r) then acc
      else bounded_text_loop (acc @ encode_rune r) rs)"

definition bounded_tagged_response_text :: "string \<Rightarrow> string" where
  "bounded_tagged_response_text t = bounded_text_loop [] (runes t)"

datatype rejection_code =
    RejectedCommand | AuthFailed | MailboxNotFound | QuotaExceeded

record rejection =
  rj_code :: rejection_code
  rj_command :: string
  rj_status :: string
  rj_response_code :: "string option"
  rj_text :: string

definition tagged_command_rejection :: "string \<Rightarrow> string \<Rightarrow> string \<Rightarrow> rejection" where
  "tagged_command_rejection command status response_text = (
     let code = leading_tagged_response_code response_text;
         kind = (if command = ''LOGIN'' \<and> status = ''NO'' then AuthFailed else RejectedCommand);
         kind = (if status = ''NO'' \<and> code = Some ''NONEXISTENT''
                   \<and> command \<in> {''STATUS'', ''SELECT'', ''APPEND''} then MailboxNotFound
                 else if status = ''NO'' \<and> code = Some ''OVERQUOTA'' \<and> command = ''APPEND'' then QuotaExceeded
                 else kind)
     in \<lparr>rj_code = kind, rj_command = command, rj_status = status, rj_response_code = code,
          rj_text = bounded_tagged_response_text response_text\<rparr>)"

text \<open>
  \<open>readFinal\<close> and \<open>readFinalWithCodes\<close>: at most 1024 lines and 4 MiB are read for the tagged
  completion. The plain variant is the one without codes.
\<close>

fun read_final_loop ::
    "bool \<Rightarrow> nat \<Rightarrow> nat \<Rightarrow> string list \<Rightarrow> string \<Rightarrow> imap_session
     \<Rightarrow> ((imap_error + (string \<times> string)) \<times> string list) \<times> imap_session" where
  "read_final_loop with_codes 0 bytes codes tag s =
     ((Inl (BudgetExhausted ''command completion response lines''), codes), mark_dirty s)"
| "read_final_loop with_codes (Suc k) bytes codes tag s =
     (case read_line max_response_line_bytes s of
        (Inl e, s) \<Rightarrow> ((Inl e, codes), s)
      | (Inr (line, n), s) \<Rightarrow>
          if max_flag_response_bytes < bytes + n
          then ((Inl (BudgetExhausted ''command completion response bytes''), codes), mark_dirty s)
          else case (if with_codes then flag_response_code line tag else Inr []) of
            Inl e \<Rightarrow> ((Inl ResponseMalformed, codes), mark_dirty s)
          | Inr code \<Rightarrow>
              let codes = (if code \<noteq> [] then codes @ [code] else codes) in
              if \<not> has_prefix line (tag @ '' '') then read_final_loop with_codes k (bytes + n) codes tag s
              else case parse_tagged_completion_status line tag of
                Inl e \<Rightarrow> ((Inl ResponseMalformed, codes), mark_dirty s)
              | Inr status \<Rightarrow> ((Inr (status, tagged_completion_text line tag), codes), s))"

definition read_final :: "string \<Rightarrow> imap_session \<Rightarrow> (imap_error + (string \<times> string)) \<times> imap_session" where
  "read_final tag s = (case read_final_loop False max_flag_response_count 0 [] tag s of
     ((r, _), s) \<Rightarrow> (r, s))"

definition read_final_with_codes ::
    "string \<Rightarrow> imap_session \<Rightarrow> ((imap_error + (string \<times> string)) \<times> string list) \<times> imap_session" where
  "read_final_with_codes tag s = read_final_loop True max_flag_response_count 0 [] tag s"

section \<open>Reader bounds\<close>

definition within_limits :: "read_limits \<Rightarrow> string \<Rightarrow> string list \<Rightarrow> bool" where
  "within_limits lim txt lits \<longleftrightarrow> length txt + sum_list (map length lits) \<le> rl_response lim
     \<and> length lits \<le> rl_count lim \<and> list_all (\<lambda>l. length l \<le> rl_literal lim) lits"

lemma read_logical_loop_bounds:
  assumes "read_logical_loop lim b acc lits lb wb s = (Inr ll, s')"
    and "lb = sum_list (map length lits)" "length acc + lb \<le> rl_response lim"
    and "length lits \<le> rl_count lim" "list_all (\<lambda>l. length l \<le> rl_literal lim) lits"
  shows "within_limits lim (ll_text ll) (ll_literals ll)
    \<and> ll_wire_bytes ll + length (se_in s') = wb + length (se_in s)"
  using assms
proof (induction lim b acc lits lb wb s rule: read_logical_loop.induct)
  case (1 lim b acc lits lb wb s)
  from "1.prems"(1) obtain line n s1 b1 where rl: "read_line max_response_line_bytes s = (Inr (line, n), s1)"
    and bc: "budget_consume b n False = Inr b1"
    by (subst (asm) read_logical_loop.simps) (auto split: prod.splits sum.splits)
  note cons = read_line_consumes [OF rl]
  obtain o1 where lit: "parse_literal_suffix line = Inr o1"
    using "1.prems"(1) rl bc by (subst (asm) read_logical_loop.simps) (auto split: sum.splits)
  show ?case
  proof (cases o1)
    case None
    then show ?thesis
      using "1.prems" rl bc lit cons
      by (subst (asm) read_logical_loop.simps) (auto simp: within_limits_def split: if_splits)
  next
    case (Some pk)
    obtain p k where pk: "pk = (p, k)" by fastforce
    from "1.prems"(1) rl bc lit Some pk obtain b2 where
      guards: "\<not> rl_count lim \<le> length lits" "\<not> (rl_literal lim < k \<or> rl_response lim - lb < k)"
        "\<not> rl_response lim - lb - k < length acc + length p + 1" "\<not> length (se_in s1) < k"
      and b2: "budget_consume b1 k True = Inr b2"
      and rec: "read_logical_loop lim b2 (acc @ p @ [imap_literal_marker]) (lits @ [take k (se_in s1)])
        (lb + k) (wb + n + k) (s1\<lparr>se_in := drop k (se_in s1)\<rparr>) = (Inr ll, s')"
      by (subst (asm) read_logical_loop.simps) (auto split: sum.splits if_splits)
    have pre: "lb + k = sum_list (map length (lits @ [take k (se_in s1)]))"
      "length (acc @ p @ [imap_literal_marker]) + (lb + k) \<le> rl_response lim"
      "length (lits @ [take k (se_in s1)]) \<le> rl_count lim"
      "list_all (\<lambda>l. length l \<le> rl_literal lim) (lits @ [take k (se_in s1)])"
      using guards "1.prems" by auto
    show ?thesis
      using "1.IH" [OF rl [symmetric] refl refl bc lit Some pk [symmetric] guards(1-3) b2 guards(4) rec pre]
        cons guards(4) by auto
  qed
qed

lemma read_logical_line_bounds:
  "read_logical_line lim b s = (Inr ll, s') \<Longrightarrow> within_limits lim (ll_text ll) (ll_literals ll)
    \<and> ll_wire_bytes ll + length (se_in s') = length (se_in s)"
  unfolding read_logical_line_def by (drule read_logical_loop_bounds) simp_all

lemma read_line_error_dirty: "read_line limit s = (Inl e, s') \<Longrightarrow> se_dirty s'"
  by (auto simp: read_line_def mark_dirty_def split: option.splits if_splits)

lemma read_line_session: "read_line limit s = (Inr x, s') \<Longrightarrow> \<exists>i. s' = s\<lparr>se_in := i\<rparr>"
  by (auto simp: read_line_def split: option.splits if_splits)

lemma mark_dirty_dirty [simp]: "se_dirty (mark_dirty s)"
  by (simp add: mark_dirty_def)

lemma read_logical_loop_session:
  "read_logical_loop lim b acc lits lb wb s = (r, s') \<Longrightarrow>
     (case r of Inl _ \<Rightarrow> se_dirty s' | Inr _ \<Rightarrow> (\<exists>i. s' = s\<lparr>se_in := i\<rparr>))"
proof (induction lim b acc lits lb wb s arbitrary: r s' rule: read_logical_loop.induct)
  case (1 lim b acc lits lb wb s)
  note step = "1.prems" [unfolded read_logical_loop.simps [of lim b acc lits lb wb s]]
  show ?case
  proof (cases "\<exists>line n s1 b1 p k b2. read_line max_response_line_bytes s = (Inr (line, n), s1)
      \<and> budget_consume b n False = Inr b1 \<and> parse_literal_suffix line = Inr (Some (p, k))
      \<and> \<not> rl_count lim \<le> length lits \<and> \<not> (rl_literal lim < k \<or> rl_response lim - lb < k)
      \<and> \<not> rl_response lim - lb - k < length acc + length p + 1
      \<and> budget_consume b1 k True = Inr b2 \<and> \<not> length (se_in s1) < k")
    case True
    then obtain line n s1 b1 p k b2 where rl: "read_line max_response_line_bytes s = (Inr (line, n), s1)"
      and c: "budget_consume b n False = Inr b1" "parse_literal_suffix line = Inr (Some (p, k))"
        "\<not> rl_count lim \<le> length lits" "\<not> (rl_literal lim < k \<or> rl_response lim - lb < k)"
        "\<not> rl_response lim - lb - k < length acc + length p + 1"
        "budget_consume b1 k True = Inr b2" "\<not> length (se_in s1) < k" by blast
    have "read_logical_loop lim b2 (acc @ p @ [imap_literal_marker]) (lits @ [take k (se_in s1)])
        (lb + k) (wb + n + k) (s1\<lparr>se_in := drop k (se_in s1)\<rparr>) = (r, s')"
      using step rl c by simp
    from "1.IH" [OF rl [symmetric] refl refl c(1,2) refl refl c(3-7) this] read_line_session [OF rl]
    show ?thesis by (auto split: sum.splits)
  next
    case False
    obtain r1 s1 where rl: "read_line max_response_line_bytes s = (r1, s1)" by fastforce
    show ?thesis
    proof (cases r1)
      case (Inl e)
      with step rl read_line_error_dirty [of _ s e s1] show ?thesis by auto
    next
      case (Inr ln)
      obtain line n where ln: "ln = (line, n)" by fastforce
      note rl' = rl [unfolded Inr ln]
      show ?thesis
      proof (cases "budget_consume b n False")
        case (Inr b1)
        show ?thesis
        proof (cases "parse_literal_suffix line")
          case lit: (Inr o1)
          show ?thesis
          proof (cases o1)
            case None
            then show ?thesis
              using step read_line_session [OF rl'] by (auto simp: rl' Inr lit split: if_splits)
          next
            case (Some pk)
            obtain p k where pk: "pk = (p, k)" by fastforce
            have no: "\<not> (\<not> rl_count lim \<le> length lits \<and> \<not> (rl_literal lim < k \<or> rl_response lim - lb < k)
              \<and> \<not> rl_response lim - lb - k < length acc + length p + 1
              \<and> (\<exists>b2. budget_consume b1 k True = Inr b2) \<and> \<not> length (se_in s1) < k)"
              using False rl' Inr lit Some pk by blast
            show ?thesis
              using step no by (cases "budget_consume b1 k True") (auto simp: rl' Inr lit Some pk split: if_splits)
          qed
        qed (use step in \<open>auto simp: rl' Inr\<close>)
      qed (use step in \<open>auto simp: rl'\<close>)
    qed
  qed
qed

section \<open>Framing\<close>

abbreviation crlf :: string where
  "crlf \<equiv> [CHR 0x0D, CHR 0x0A]"

lemma trim_crlf_line:
  assumes "t = [] \<or> last t \<noteq> CHR 0x0D" "CHR 0x0A \<notin> set t"
  shows "trim_crlf (t @ crlf) = t"
proof (cases t rule: rev_cases)
  case (snoc u c)
  with assms show ?thesis by (auto simp: trim_crlf_def)
qed (simp add: trim_crlf_def)

lemma read_line_crlf:
  assumes "t = [] \<or> last t \<noteq> CHR 0x0D" "CHR 0x0A \<notin> set t" "length t + 2 \<le> limit"
  shows "read_line limit (s\<lparr>se_in := t @ crlf @ rest\<rparr>) = (Inr (t, length t + 2), s\<lparr>se_in := rest\<rparr>)"
proof -
  have "index_byte ((t @ [CHR 0x0D]) @ CHR 0x0A # rest) (CHR 0x0A) = Some (length (t @ [CHR 0x0D]))"
    unfolding index_byte_def using assms(2) by (intro find_index_opt_append) auto
  then have "index_byte (t @ crlf @ rest) (CHR 0x0A) = Some (length t + 1)" by simp
  moreover have "take (length t + 2) (t @ crlf @ rest) = t @ crlf" "drop (length t + 2) (t @ crlf @ rest) = rest"
    by simp_all
  ultimately show ?thesis
    using assms(3) trim_crlf_line [OF assms(1,2)] by (simp add: read_line_def)
qed

definition literal_suffix :: "nat \<Rightarrow> string" where
  "literal_suffix n = ''{'' @ format_uint n @ ''}''"

lemma format_uint_no_brace: "CHR ''{'' \<notin> set (format_uint n)" "CHR ''}'' \<notin> set (format_uint n)"
  "CHR 0x0A \<notin> set (format_uint n)"
  using format_uint_digits [of n] by (auto simp: list_all_iff is_digit_def)

lemma parse_literal_suffix_written:
  assumes "n < 2 ^ 63" "p = [] \<or> is_space (last p)" "\<not> quoted_at False p"
  shows "parse_literal_suffix (p @ literal_suffix n) = Inr (Some (p, n))"
proof -
  let ?line = "p @ literal_suffix n"
  have "index_byte (rev ?line) (CHR ''{'') = Some (length (CHR ''}'' # rev (format_uint n)))"
    unfolding index_byte_def literal_suffix_def
    using format_uint_no_brace(1) [of n]
      find_index_opt_append [of "CHR ''}'' # rev (format_uint n)" "\<lambda>x. x = CHR ''{''" "CHR ''{''" "rev p"]
    by fastforce
  then have start: "last_index_byte ?line (CHR ''{'') = Some (length p)"
    by (simp add: last_index_byte_def literal_suffix_def)
  have "0 < length p \<and> \<not> is_space (?line ! (length p - 1)) \<longleftrightarrow> False"
    using assms(2) by (cases p rule: rev_cases) (auto simp: nth_append)
  moreover have "has_suffix ?line ''}''" by (simp add: has_suffix_iff literal_suffix_def)
  moreover have "take (length ?line - 1 - (length p + 1)) (drop (length p + 1) ?line) = format_uint n"
    by (simp add: literal_suffix_def)
  ultimately show ?thesis
    using start assms(1,3) format_uint_digits [of n] parse_format_uint [of n 63]
    by (simp add: parse_literal_suffix_def Let_def)
qed

text \<open>
  C39. Reading a logical response is safe for every stream of bytes a server can send: a result
  stays within the limits of the caller (total size, number and size of literals), the wire bytes
  it reports are exactly the bytes it consumed, and nothing of the session but its input changes;
  every refusal retires the session, so a stream that lost its framing is never reused.
\<close>

theorem logical_line_contract:
  "case read_logical_line lim b s of
     (Inl e, s') \<Rightarrow> se_dirty s'
   | (Inr ll, s') \<Rightarrow> within_limits lim (ll_text ll) (ll_literals ll)
       \<and> ll_wire_bytes ll + length (se_in s') = length (se_in s) \<and> (\<exists>i. s' = s\<lparr>se_in := i\<rparr>)"
proof -
  obtain r s' where r: "read_logical_line lim b s = (r, s')" by fastforce
  show ?thesis
    using read_logical_loop_session [OF r [unfolded read_logical_line_def]] read_logical_line_bounds [of lim b s] r
    by (cases r) auto
qed

text \<open>
  C40. A literal is framed by its length alone: whatever its bytes are, line breaks, quotes and tags
  included, the reader takes exactly them, puts one marker in their place, and continues with the
  text after them.
\<close>

theorem literal_framing:
  assumes "p = [] \<or> is_space (last p)" "\<not> quoted_at False p" "CHR 0x0A \<notin> set p"
    and "CHR 0x0A \<notin> set q" "q = [] \<or> last q \<noteq> CHR 0x0D" "\<not> has_suffix q ''}''"
    and "length l < 2 ^ 63" "length (p @ literal_suffix (length l)) + 2 \<le> max_response_line_bytes"
    and "length q + 2 \<le> max_response_line_bytes"
    and "length l \<le> rl_literal lim" "0 < rl_count lim"
    and "length p + 1 + length l + length q \<le> rl_response lim"
  shows "read_logical_line lim None (s\<lparr>se_in := (p @ literal_suffix (length l)) @ crlf @ l @ q @ crlf @ rest\<rparr>)
    = (Inr \<lparr>ll_text = p @ imap_literal_marker # q, ll_literals = [l],
         ll_wire_bytes = length (p @ literal_suffix (length l)) + 2 + length l + length q + 2,
         ll_budget = None\<rparr>, s\<lparr>se_in := rest\<rparr>)"
proof -
  let ?h = "p @ literal_suffix (length l)"
  have "CHR 0x0A \<notin> set ?h" using assms(3) format_uint_no_brace(3) by (simp add: literal_suffix_def)
  moreover have "last ?h \<noteq> CHR 0x0D" by (simp add: literal_suffix_def)
  ultimately have first: "read_line max_response_line_bytes (s\<lparr>se_in := ?h @ crlf @ l @ q @ crlf @ rest\<rparr>)
      = (Inr (?h, length ?h + 2), s\<lparr>se_in := l @ q @ crlf @ rest\<rparr>)"
    using assms(8) by (intro read_line_crlf) auto
  have second: "read_line max_response_line_bytes (s\<lparr>se_in := q @ crlf @ rest\<rparr>)
      = (Inr (q, length q + 2), s\<lparr>se_in := rest\<rparr>)"
    using assms(4,5,9) by (intro read_line_crlf) auto
  have last: "read_logical_loop lim None (p @ [imap_literal_marker]) [l] (length l) w (s\<lparr>se_in := q @ crlf @ rest\<rparr>)
      = (Inr \<lparr>ll_text = p @ imap_literal_marker # q, ll_literals = [l],
           ll_wire_bytes = w + (length q + 2), ll_budget = None\<rparr>, s\<lparr>se_in := rest\<rparr>)" for w
    using assms(6,12) second
    by (subst read_logical_loop.simps) (simp add: budget_consume_def parse_literal_suffix_def)
  show ?thesis
    unfolding read_logical_line_def
    using first parse_literal_suffix_written [OF assms(7,1,2)] assms(10-12) last
    by (subst read_logical_loop.simps) (simp add: budget_consume_def)
qed

definition sample_session :: imap_session where
  "sample_session = \<lparr>se_in = [], se_out = [], se_dirty = False, se_next_tag = 1,
     se_tag_prefix = ''A'', se_faults = []\<rparr>"

lemma literal_framing_witness:
  "read_logical_line \<lparr>rl_literal = 100, rl_response = 100, rl_count = 1\<rparr> None
     (sample_session\<lparr>se_in := (''* 1 FETCH (BODY[] '' @ literal_suffix (length (''a}'' @ crlf)))
        @ crlf @ (''a}'' @ crlf) @ '')'' @ crlf @ ''next''\<rparr>)
   = (Inr \<lparr>ll_text = ''* 1 FETCH (BODY[] '' @ imap_literal_marker # '')'', ll_literals = [''a}'' @ crlf],
        ll_wire_bytes = 30, ll_budget = None\<rparr>, sample_session\<lparr>se_in := ''next''\<rparr>)"
proof -
  have four: "length (literal_suffix (length (''a}'' @ crlf))) = 3"
    by (simp add: literal_suffix_def format_uint.simps)
  show ?thesis
    using four
    by (subst literal_framing)
      (simp_all add: is_space_def has_suffix_def max_response_line_bytes_def)
qed

lemma completion_fields:
  assumes "parse_tagged_completion_status line tag = Inr status"
  shows "str_fields tag = [tag] \<and> status \<in> {''OK'', ''NO'', ''BAD''}"
proof -
  from assms have "2 \<le> length (str_fields line)" "str_fields line ! 0 = tag" "status \<in> {''OK'', ''NO'', ''BAD''}"
    by (auto simp: parse_tagged_completion_status_def Let_def split: if_splits)
  then show ?thesis using str_fields_field [of tag line] by (metis Suc_le_lessD nth_mem numeral_2_eq_2 less_Suc_eq_0_disj Suc_lessD zero_less_Suc order_less_le_trans)
qed

end
