(* ===== verification/Imap_Fetch.thy ===== *)
theory Imap_Fetch
  imports Imap_Wire
begin

text \<open>
  The FETCH response parser of \<open>src/internal/transport/imapclient/fetch.go\<close>, with the flag list
  parser of \<open>flags.go\<close> it uses. The position in the line is the remaining text. Nested lists are
  parsed by the two mutually recursive functions of the source; their recursion ends because a
  value consumes at least one byte, which the list loop checks before it continues and the
  lemmas show to hold always.
\<close>

datatype fetch_error =
    NotUntagged
  | BadSequence
  | NotFetch
  | NoCommandSpace
  | NoFetchList
  | UnterminatedList
  | TrailingFetchData
  | UnusedFetchLiteral
  | KeyMissing
  | UnterminatedSection
  | BadPartial
  | NoValueSpace
  | NoValueSeparator
  | ValueMissing
  | NestingTooDeep
  | FetchLiteralMissing
  | FetchValueError value_error
  | UnexpectedParenthesis
  | EmbeddedFetchLiteral
  | EmptyAtom
  | DuplicateFlags
  | BadFlagList
  | DuplicateUid
  | BadUid
  | DuplicateBody
  | BodyNotNstring

section \<open>Flag lists\<close>

definition max_flag_count :: nat where
  "max_flag_count = 1024"

definition valid_flag_atom :: "string \<Rightarrow> bool" where
  "valid_flag_atom flag = (let f = trim_prefix flag [CHR 0x5C] in
     f \<noteq> [] \<and> list_all (\<lambda>c. 32 < byte_val c \<and> byte_val c < 127
       \<and> c \<notin> set [CHR ''('', CHR '')'', CHR ''{'', CHR ''%'', CHR ''*'', CHR 0x22, CHR 0x5C, CHR '']'']) f)"

definition parse_flag_list_value :: "string \<Rightarrow> bool \<Rightarrow> string list option" where
  "parse_flag_list_value value wildcard = (let v = trim_space value in
     if length v < 2 \<or> hd v \<noteq> CHR ''('' \<or> last v \<noteq> CHR '')'' then None
     else let flags = str_fields (take (length v - 2) (drop 1 v)) in
       if max_flag_count < length flags then None
       else if list_all (\<lambda>f. valid_flag_atom f \<or> (wildcard \<and> f = [CHR 0x5C, CHR ''*''])) flags
         then Some flags else None)"

section \<open>Parser state and values\<close>

datatype fetch_value =
    FetchAtom string
  | FetchQuoted string
  | FetchNil
  | FetchLiteral string nat
  | FetchList

record fetch_parser =
  fp_rest :: string
  fp_literals :: "string list"
  fp_next :: nat

record fetch_response =
  fr_sequence :: "32 word"
  fr_uid :: "32 word"
  fr_uid_present :: bool
  fr_flags :: "string list"
  fr_flags_present :: bool
  fr_body :: string
  fr_body_present :: bool
  fr_body_literal :: bool
  fr_body_index :: int
  fr_sections :: "(string \<times> string) list"

definition skip_space :: "fetch_parser \<Rightarrow> fetch_parser" where
  "skip_space p = p\<lparr>fp_rest := dropWhile is_space (fp_rest p)\<rparr>"

definition atom_byte :: "char \<Rightarrow> bool" where
  "atom_byte c \<longleftrightarrow> \<not> is_space c \<and> c \<noteq> CHR ''('' \<and> c \<noteq> CHR '')''"

definition parse_fetch_atom :: "fetch_parser \<Rightarrow> fetch_error + (string \<times> fetch_parser)" where
  "parse_fetch_atom p = (let a = takeWhile atom_byte (fp_rest p) in
     if imap_literal_marker \<in> set a then Inl EmbeddedFetchLiteral
     else if a = [] then Inl EmptyAtom
     else Inr (a, p\<lparr>fp_rest := drop (length a) (fp_rest p)\<rparr>))"

definition parse_positive_uid :: "string \<Rightarrow> 32 word option" where
  "parse_positive_uid v = (case parse_uint 32 v of
      None \<Rightarrow> None
    | Some n \<Rightarrow> if n = 0 then None else Some (word_of_nat n))"

definition separated :: "fetch_parser \<Rightarrow> bool" where
  "separated p \<longleftrightarrow> fp_rest p = [] \<or> is_space (hd (fp_rest p)) \<or> hd (fp_rest p) = CHR '')''"

definition max_fetch_nesting_depth :: nat where
  "max_fetch_nesting_depth = 128"

function parse_fetch_value :: "nat \<Rightarrow> fetch_parser \<Rightarrow> fetch_error + (fetch_value \<times> fetch_parser)"
  and parse_fetch_list :: "nat \<Rightarrow> fetch_parser \<Rightarrow> fetch_error + (fetch_value \<times> fetch_parser)" where
  "parse_fetch_value depth p = (let s = dropWhile is_space (fp_rest p) in
     if s = [] then Inl ValueMissing
     else if max_fetch_nesting_depth < depth then Inl NestingTooDeep
     else if hd s = imap_literal_marker then
       (if length (fp_literals p) \<le> fp_next p then Inl FetchLiteralMissing
        else Inr (FetchLiteral (fp_literals p ! fp_next p) (fp_next p),
          p\<lparr>fp_rest := tl s, fp_next := fp_next p + 1\<rparr>))
     else if hd s = CHR 0x22 then
       bindR (wrapR FetchValueError (parse_quoted s)) (\<lambda>(v, rest). Inr (FetchQuoted v, p\<lparr>fp_rest := rest\<rparr>))
     else if hd s = CHR ''('' then parse_fetch_list depth (p\<lparr>fp_rest := tl s\<rparr>)
     else if hd s = CHR '')'' then Inl UnexpectedParenthesis
     else bindR (parse_fetch_atom (p\<lparr>fp_rest := s\<rparr>)) (\<lambda>(a, p).
       Inr (if equal_fold_ascii a ''NIL'' then FetchNil else FetchAtom a, p)))"
| "parse_fetch_list depth p = (let s = dropWhile is_space (fp_rest p) in
     if s = [] then Inl UnterminatedList
     else if hd s = CHR '')'' then Inr (FetchList, p\<lparr>fp_rest := tl s\<rparr>)
     else case parse_fetch_value (depth + 1) (p\<lparr>fp_rest := s\<rparr>) of
         Inl e \<Rightarrow> Inl e
       | Inr (_, p') \<Rightarrow>
           if \<not> separated p' then Inl NoValueSeparator
           else if length (fp_rest p') < length s then parse_fetch_list depth p'
           else Inl UnterminatedList)"
  by pat_completeness auto
termination
proof (relation "measure (\<lambda>x. case x of Inl (_, p) \<Rightarrow> 2 * length (fp_rest p)
    | Inr (_, p) \<Rightarrow> 2 * length (fp_rest p) + 1)", goal_cases)
  case (2 depth p s)
  then have "length s \<noteq> 0" "length s \<le> length (fp_rest p)"
    using length_dropWhile_le [of is_space "fp_rest p"] by (simp_all only: length_0_conv not_False_eq_True)
  then show ?case by (cases s) auto
next
  case (3 depth p s)
  then show ?case using length_dropWhile_le [of is_space "fp_rest p"] by auto
next
  case (4 depth p s)
  then show ?case using length_dropWhile_le [of is_space "fp_rest p"] by auto
qed simp

declare parse_fetch_value.simps [simp del] parse_fetch_list.simps [simp del]


lemma parse_fetch_atom_shorter:
  "parse_fetch_atom p = Inr (a, p') \<Longrightarrow> length (fp_rest p') < length (fp_rest p)"
proof -
  have "takeWhile atom_byte t \<noteq> [] \<Longrightarrow> t \<noteq> []" for t by auto
  then show "parse_fetch_atom p = Inr (a, p') \<Longrightarrow> ?thesis"
    by (auto simp: parse_fetch_atom_def Let_def split: if_splits)
qed

lemma skip_shorter:
  "length t < length (dropWhile P s) \<Longrightarrow> length t < length s"
  "dropWhile P s \<noteq> [] \<Longrightarrow> length (tl (dropWhile P s)) < length s"
proof -
  show "length t < length (dropWhile P s) \<Longrightarrow> length t < length s"
    using length_dropWhile_le [of P s] by simp
  assume "dropWhile P s \<noteq> []"
  then show "length (tl (dropWhile P s)) < length s"
    using length_dropWhile_le [of P s] by (cases "dropWhile P s") auto
qed

lemma parse_fetch_shorter:
  "parse_fetch_value depth p = Inr (v, p') \<Longrightarrow> length (fp_rest p') < length (fp_rest p)"
  "parse_fetch_list depth p = Inr (v, p') \<Longrightarrow> length (fp_rest p') < length (fp_rest p)"
proof (induction depth p and depth p arbitrary: v p' and v p' rule: parse_fetch_value_parse_fetch_list.induct)
  case (1 depth p)
  define s where "s = dropWhile is_space (fp_rest p)"
  note step = "1.prems" [unfolded parse_fetch_value.simps [of depth p] Let_def, folded s_def]
  have ne: "s \<noteq> []" using step by (cases "s = []") simp_all
  have tl: "length (tl s) < length (fp_rest p)" using skip_shorter(2) [OF ne [unfolded s_def]] s_def by simp
  have sub: "length t < length s \<Longrightarrow> length t < length (fp_rest p)" for t :: string
    unfolding s_def by (rule skip_shorter(1))
  show ?case
  proof (cases "hd s = CHR ''('' \<and> \<not> max_fetch_nesting_depth < depth \<and> hd s \<noteq> imap_literal_marker \<and> hd s \<noteq> CHR 0x22")
    case True
    then have "parse_fetch_list depth (p\<lparr>fp_rest := tl s\<rparr>) = Inr (v, p')" using step ne
      by (simp add: imap_literal_marker_def)
    then have "length (fp_rest p') < length (tl s)"
      using "1.IH" [OF s_def ne] True by fastforce
    then show ?thesis using tl by simp
  next
    case False
    then show ?thesis
      using step ne tl
      by (auto simp: result_simps dest!: parse_quoted_shorter parse_fetch_atom_shorter intro!: sub
          split: if_splits)
  qed
next
  case (2 depth p)
  define s where "s = dropWhile is_space (fp_rest p)"
  note step = "2.prems" [unfolded parse_fetch_list.simps [of depth p] Let_def, folded s_def]
  have ne: "s \<noteq> []" using step by (cases "s = []") simp_all
  show ?case
  proof (cases "hd s = CHR '')''")
    case True
    moreover have "length (tl s) < length (fp_rest p)"
      using skip_shorter(2) [OF ne [unfolded s_def]] s_def by simp
    ultimately show ?thesis using step ne by auto
  next
    case False
    then obtain u q where val: "parse_fetch_value (depth + 1) (p\<lparr>fp_rest := s\<rparr>) = Inr (u, q)"
      and sep: "separated q" and shorter: "length (fp_rest q) < length s"
      and rec: "parse_fetch_list depth q = Inr (v, p')"
      using step ne by (auto split: sum.splits if_splits)
    have "length (fp_rest p') < length (fp_rest q)"
      using "2.IH"(2) [OF s_def ne False val refl] sep shorter rec by simp
    then have "length (fp_rest p') < length s" using shorter by simp
    then show ?thesis unfolding s_def by (rule skip_shorter(1))
  qed
qed


section \<open>Attribute names\<close>

text \<open>\<open>consumeBracketSection\<close>: the consumed text and the rest.\<close>

fun consume_bracket :: "nat \<Rightarrow> string \<Rightarrow> string \<Rightarrow> fetch_error + (string \<times> string)" where
  "consume_bracket depth acc [] = Inl UnterminatedSection"
| "consume_bracket depth acc (c # s) =
     (if c = CHR ''['' then consume_bracket (depth + 1) (acc @ [c]) s
      else if c = CHR '']'' then
        (if depth - 1 = 0 then Inr (acc @ [c], s) else consume_bracket (depth - 1) (acc @ [c]) s)
      else if c = CHR 0x5C then
        (case s of [] \<Rightarrow> Inl UnterminatedSection | d # s' \<Rightarrow> consume_bracket depth (acc @ [c, d]) s')
      else consume_bracket depth (acc @ [c]) s)"

text \<open>\<open>consumeAngleSection\<close>, entered behind the opening bracket.\<close>

fun consume_angle :: "string \<Rightarrow> string \<Rightarrow> fetch_error + (string \<times> string)" where
  "consume_angle acc [] = Inl BadPartial"
| "consume_angle acc (c # s) =
     (if c = CHR ''>'' then (if acc = [] then Inl BadPartial else Inr (acc @ [c], s))
      else if is_digit c then consume_angle (acc @ [c]) s
      else Inl BadPartial)"

fun key_loop :: "string \<Rightarrow> string \<Rightarrow> fetch_error + (string \<times> string)" where
  "key_loop acc [] = Inr (acc, [])"
| "key_loop acc (c # s) =
     (if is_space c \<or> c = CHR ''('' \<or> c = CHR '')'' then Inr (acc, c # s)
      else if c = CHR ''['' then
        bindR (consume_bracket 1 [] s) (\<lambda>(section_text, rest).
          let key = acc @ [c] @ section_text in
            if has_prefix rest ''<''
            then bindR (consume_angle [] (drop 1 rest)) (\<lambda>(angle, rest). Inr (key @ ''<'' @ angle, rest))
            else Inr (key, rest))
      else key_loop (acc @ [c]) s)"

definition parse_attribute_key :: "fetch_parser \<Rightarrow> fetch_error + (string \<times> fetch_parser)" where
  "parse_attribute_key p = (let s = dropWhile is_space (fp_rest p) in
     if s = [] \<or> hd s = CHR ''('' \<or> hd s = CHR '')'' \<or> hd s = imap_literal_marker then Inl KeyMissing
     else bindR (key_loop [] s) (\<lambda>(key, rest).
       if key = [] then Inl KeyMissing else Inr (key, p\<lparr>fp_rest := rest\<rparr>)))"

lemma consume_bracket_length:
  "consume_bracket depth acc s = Inr (t, rest) \<Longrightarrow> length rest \<le> length s"
proof (induction depth acc s rule: consume_bracket.induct)
  case (2 depth acc c s)
  then show ?case by (cases s) (auto split: if_splits)
qed simp

lemma consume_angle_length: "consume_angle acc s = Inr (t, rest) \<Longrightarrow> length rest \<le> length s"
  by (induction acc s rule: consume_angle.induct) (auto split: if_splits)

lemma key_loop_length: "key_loop acc s = Inr (t, rest) \<Longrightarrow> length rest \<le> length s"
  by (induction acc s rule: key_loop.induct)
    (auto simp: result_simps Let_def dest!: consume_bracket_length consume_angle_length split: if_splits)

lemma parse_attribute_key_length:
  "parse_attribute_key p = Inr (key, p') \<Longrightarrow> length (fp_rest p') \<le> length (fp_rest p)"
  by (auto simp: parse_attribute_key_def Let_def result_simps
      intro: order_trans [OF _ length_dropWhile_le] dest!: key_loop_length split: if_splits)

section \<open>Responses\<close>

definition parse_fetch_uid_value :: "fetch_value \<Rightarrow> 32 word option" where
  "parse_fetch_uid_value v = (case v of FetchAtom t \<Rightarrow> parse_positive_uid t | _ \<Rightarrow> None)"

definition is_fetch_body_attribute :: "string \<Rightarrow> bool" where
  "is_fetch_body_attribute key = (let upper = to_upper key in
     has_prefix upper ''BODY['' \<or> has_prefix upper ''BODY.PEEK['')"

definition replace_first :: "string \<Rightarrow> string \<Rightarrow> string \<Rightarrow> string" where
  "replace_first s old new = (case index_string s old of
      None \<Rightarrow> s | Some i \<Rightarrow> take i s @ new @ drop (i + length old) s)"

text \<open>One attribute of the loop in \<open>parseFetchResponse\<close>, with the text its value spans.\<close>

definition add_attribute ::
    "fetch_response \<Rightarrow> string \<Rightarrow> fetch_value \<Rightarrow> string \<Rightarrow> fetch_error + fetch_response" where
  "add_attribute r key value span =
     (if equal_fold_ascii key ''FLAGS'' then
        (if fr_flags_present r then Inl DuplicateFlags
         else case parse_flag_list_value span False of
             None \<Rightarrow> Inl BadFlagList
           | Some flags \<Rightarrow> Inr (r\<lparr>fr_flags := flags, fr_flags_present := True\<rparr>))
      else if equal_fold_ascii key ''UID'' then
        (if fr_uid_present r then Inl DuplicateUid
         else case parse_fetch_uid_value value of
             None \<Rightarrow> Inl BadUid
           | Some uid \<Rightarrow> Inr (r\<lparr>fr_uid := uid, fr_uid_present := True\<rparr>))
      else if is_fetch_body_attribute key then
        (let name = replace_first (to_upper key) ''BODY.PEEK['' ''BODY['' in
           if list_ex (\<lambda>s. fst s = name) (fr_sections r) then Inl DuplicateBody
           else case value of
               FetchLiteral l i \<Rightarrow>
                 (let r' = r\<lparr>fr_sections := fr_sections r @ [(name, l)]\<rparr> in
                  Inr (if fr_body_present r then r'
                       else r'\<lparr>fr_body_present := True, fr_body := l, fr_body_index := int i,
                              fr_body_literal := True\<rparr>))
             | FetchQuoted t \<Rightarrow>
                 (let r' = r\<lparr>fr_sections := fr_sections r @ [(name, t)]\<rparr> in
                  Inr (if fr_body_present r then r'
                       else r'\<lparr>fr_body_present := True, fr_body := t, fr_body_literal := True\<rparr>))
             | FetchNil \<Rightarrow>
                 (let r' = r\<lparr>fr_sections := fr_sections r @ [(name, [])]\<rparr> in
                  Inr (if fr_body_present r then r' else r'\<lparr>fr_body_present := True\<rparr>))
             | _ \<Rightarrow> Inl BodyNotNstring)
      else Inr r)"

function parse_attributes :: "fetch_parser \<Rightarrow> fetch_response \<Rightarrow> fetch_error + fetch_response" where
  "parse_attributes p r = (let s = dropWhile is_space (fp_rest p) in
     if s = [] then Inl UnterminatedList
     else if hd s = CHR '')'' then
       (if dropWhile is_space (tl s) \<noteq> [] then Inl TrailingFetchData
        else if fp_next p \<noteq> length (fp_literals p) then Inl UnusedFetchLiteral
        else Inr r)
     else case parse_attribute_key (p\<lparr>fp_rest := s\<rparr>) of
         Inl e \<Rightarrow> Inl e
       | Inr (key, q) \<Rightarrow>
           if fp_rest q = [] \<or> \<not> is_space (hd (fp_rest q)) then Inl NoValueSpace
           else case parse_fetch_value 0 q of
               Inl e \<Rightarrow> Inl e
             | Inr (value, q') \<Rightarrow>
                 if \<not> separated q' then Inl NoValueSeparator
                 else case add_attribute r key value
                        (take (length (fp_rest q) - length (fp_rest q')) (fp_rest q)) of
                     Inl e \<Rightarrow> Inl e
                   | Inr r' \<Rightarrow> parse_attributes q' r')"
  by pat_completeness auto
termination
proof (relation "measure (\<lambda>(p, r). length (fp_rest p))", goal_cases)
  case (2 p r s x key q y v q' r')
  then have "length (fp_rest q) \<le> length s" using parse_attribute_key_length by fastforce
  moreover have "length (fp_rest q') < length (fp_rest q)" using 2 parse_fetch_shorter(1) by blast
  ultimately have "length (fp_rest q') < length (fp_rest p)" using skip_shorter(1) 2(1) by (metis le_trans not_le)
  then show ?case by simp
qed simp

declare parse_attributes.simps [simp del]

definition parse_fetch_prefix :: "fetch_parser \<Rightarrow> fetch_error + (32 word \<times> fetch_parser)" where
  "parse_fetch_prefix p =
     (if length (fp_rest p) < 2 \<or> fp_rest p ! 0 \<noteq> CHR ''*'' \<or> \<not> is_space (fp_rest p ! 1) then Inl NotUntagged
      else bindR (parse_fetch_atom (p\<lparr>fp_rest := drop 2 (fp_rest p)\<rparr>)) (\<lambda>(sequence, p).
        case parse_positive_uid sequence of
          None \<Rightarrow> Inl BadSequence
        | Some n \<Rightarrow>
            (case parse_fetch_atom (skip_space p) of
               Inl e \<Rightarrow> Inl NotFetch
             | Inr (command, p) \<Rightarrow>
                 if \<not> equal_fold_ascii command ''FETCH'' then Inl NotFetch
                 else if fp_rest p = [] \<or> \<not> is_space (hd (fp_rest p)) then Inl NoCommandSpace
                 else let p = skip_space p in
                   if fp_rest p = [] \<or> hd (fp_rest p) \<noteq> CHR ''('' then Inl NoFetchList
                   else Inr (n, p\<lparr>fp_rest := tl (fp_rest p)\<rparr>))))"

definition parse_fetch_response :: "string \<Rightarrow> string list \<Rightarrow> fetch_error + fetch_response" where
  "parse_fetch_response line literals =
     bindR (parse_fetch_prefix \<lparr>fp_rest = line, fp_literals = literals, fp_next = 0\<rparr>) (\<lambda>(n, p).
       parse_attributes p \<lparr>fr_sequence = n, fr_uid = 0, fr_uid_present = False, fr_flags = [],
         fr_flags_present = False, fr_body = [], fr_body_present = False, fr_body_literal = False,
         fr_body_index = -1, fr_sections = []\<rparr>)"

definition parse_fetch_uid :: "string \<Rightarrow> 32 word option" where
  "parse_fetch_uid line = (case parse_fetch_response line [] of
      Inl e \<Rightarrow> None | Inr r \<Rightarrow> if fr_uid_present r then Some (fr_uid r) else None)"

definition is_fetch_response_candidate :: "string \<Rightarrow> bool" where
  "is_fetch_response_candidate line =
     (if length line < 3 \<or> line ! 0 \<noteq> CHR ''*'' \<or> \<not> is_space (line ! 1) then False
      else let rest = dropWhile (\<lambda>c. \<not> is_space c) (drop 2 line) in
        if rest = [] then False
        else let word_text = takeWhile atom_byte (dropWhile is_space rest) in
          word_text \<noteq> [] \<and> equal_fold_ascii word_text ''FETCH'')"

end
