(* ===== verification/Imap_Flags.thy ===== *)
theory Imap_Flags
  imports Imap_Fetch
begin

text \<open>
  \<open>src/internal/transport/imapclient/flags.go\<close> and \<open>flag_permissions.go\<close>: changing the flags of one
  message with at most one STORE per phase, and the observation that proves the result. The
  server is every possible stream of bytes, and the connection every possible list of call
  results, so the theorems hold for all of them. The session, the permanent flags and the
  evidence are threaded explicitly where the Go code mutates them.
\<close>

section \<open>Evidence\<close>

datatype mutation_outcome =
    NotStarted | Attempted | Completed | Partial | Rejected | Unknown | Observed

datatype flag_observation_state = FlagsObserved | FlagsMissing | FlagsUnverified

record mutation_evidence =
  ev_outcome :: mutation_outcome
  ev_command :: string
  ev_mailbox :: string
  ev_target_mailbox :: string
  ev_uid :: "32 word"
  ev_uid_validity :: "32 word"
  ev_expected_uid_validity :: "32 word"
  ev_flags_state :: flag_observation_state
  ev_actual_flags :: "string list"
  ev_flags_source :: string
  ev_server_response :: string
  ev_copy_uid_response :: string
  ev_copy_uid_validity :: "32 word"
  ev_copy_source_uid :: "32 word"
  ev_copy_destination_uid :: "32 word"
  ev_destination_uid :: "32 word"
  ev_destination_uid_validity :: "32 word"
  ev_completed_effects :: "string list"
  ev_expunge_branch :: string
  ev_foreign_deleted :: nat

datatype flag_error =
    ChangeCount
  | InvalidFlag
  | ContradictoryFlag
  | PlainError imap_error
  | PreflightFailed imap_error
  | FlagsUnsupported string
  | FlagsPartial imap_error
  | StoreRejected imap_error
  | FlagsOutcomeUnknown imap_error
  | FlagsMismatch
  | MissingAfterStore

section \<open>Changes and permissions\<close>

record flag_changes =
  fc_add :: "string list"
  fc_remove :: "string list"

record flag_permissions =
  pm_present :: bool
  pm_flags :: "string list"

definition contains_flag :: "string list \<Rightarrow> string \<Rightarrow> bool" where
  "contains_flag flags wanted \<longleftrightarrow> list_ex (\<lambda>f. equal_fold_ascii f wanted) flags"

definition flags_match_changes :: "string list \<Rightarrow> string list \<Rightarrow> string list \<Rightarrow> bool" where
  "flags_match_changes flags add remove \<longleftrightarrow>
     list_all (contains_flag flags) add \<and> list_all (\<lambda>f. \<not> contains_flag flags f) remove"

definition validate_flag_changes :: "string list \<Rightarrow> string list \<Rightarrow> flag_error + unit" where
  "validate_flag_changes add remove =
     (if length add + length remove = 0 \<or> max_flag_count < length add + length remove then Inl ChangeCount
      else if list_ex (\<lambda>f. \<not> valid_flag_atom f \<or> equal_fold_ascii f (CHR 0x5C # ''Recent'')) (add @ remove)
        then Inl InvalidFlag
      else if list_ex (contains_flag remove) add then Inl ContradictoryFlag
      else Inr ())"

definition touches_junk :: "flag_changes \<Rightarrow> bool" where
  "touches_junk ch \<longleftrightarrow> list_ex (\<lambda>fs. contains_flag fs ''$Junk'' \<or> contains_flag fs ''$NotJunk'')
     [fc_add ch, fc_remove ch]"

definition pending_changes :: "flag_changes \<Rightarrow> string list \<Rightarrow> flag_changes" where
  "pending_changes ch actual =
     \<lparr>fc_add = filter (\<lambda>f. \<not> contains_flag actual f) (fc_add ch),
      fc_remove = filter (contains_flag actual) (fc_remove ch)\<rparr>"

definition permitted_flag :: "flag_permissions \<Rightarrow> string \<Rightarrow> bool" where
  "permitted_flag pm f \<longleftrightarrow> contains_flag (pm_flags pm) f
     \<or> (\<not> has_prefix f [CHR 0x5C] \<and> contains_flag (pm_flags pm) [CHR 0x5C, CHR ''*''])"

text \<open>The first flag that cannot be changed permanently; \<open>[]\<close> when there is none.\<close>

definition unsupported_flag :: "flag_permissions \<Rightarrow> flag_changes \<Rightarrow> string" where
  "unsupported_flag pm ch =
     (if \<not> pm_present pm then []
      else case find_index_opt (\<lambda>f. \<not> permitted_flag pm f) (fc_add ch @ fc_remove ch) of
        None \<Rightarrow> [] | Some i \<Rightarrow> (fc_add ch @ fc_remove ch) ! i)"

definition observe_code :: "flag_permissions \<Rightarrow> string \<Rightarrow> imap_error + flag_permissions" where
  "observe_code pm code =
     (if contains_any code [CHR 0x09, CHR 0x0D, CHR 0x0A] then Inl MalformedCode
      else case cut_byte code (CHR '' '') of (name, value, _) \<Rightarrow>
        if \<not> equal_fold_ascii name ''PERMANENTFLAGS'' then Inr pm
        else case parse_flag_list_value value True of
            None \<Rightarrow> Inl MalformedFlags
          | Some flags \<Rightarrow> Inr (pm\<lparr>pm_present := True, pm_flags := flags\<rparr>))"

definition check_uid_validity :: "32 word \<Rightarrow> 32 word \<Rightarrow> imap_error + unit" where
  "check_uid_validity expected observed =
     (if expected = 0 \<or> observed = 0 then Inl UidValidityUnknown
      else if expected \<noteq> observed then Inl UidValidityChanged
      else Inr ())"

definition validate_message_uid :: "32 word \<Rightarrow> imap_error + unit" where
  "validate_message_uid uid = (if uid \<noteq> 0 then Inr () else Inl UidUnknown)"

text \<open>\<open>flagResponseValidity\<close>; the permissions it updated are kept even when it then fails.\<close>

definition flag_response_validity ::
    "string \<Rightarrow> string \<Rightarrow> 32 word \<Rightarrow> flag_permissions \<Rightarrow> imap_error option \<times> flag_permissions" where
  "flag_response_validity line tag expected pm =
     (case flag_response_code line tag of
        Inl e \<Rightarrow> (Some e, pm)
      | Inr code \<Rightarrow>
          (case observe_code pm code of
             Inl e \<Rightarrow> (Some e, pm)
           | Inr pm \<Rightarrow>
               let values = str_fields code in
                 if values = [] \<or> \<not> equal_fold_ascii (hd values) ''UIDVALIDITY'' then (None, pm)
                 else if length values \<noteq> 2 then (Some MalformedUidValidity, pm)
                 else case parse_positive_uid (values ! 1) of
                     None \<Rightarrow> (Some MalformedUidValidity, pm)
                   | Some observed \<Rightarrow>
                       (case check_uid_validity expected observed of
                          Inl e \<Rightarrow> (Some e, pm) | Inr _ \<Rightarrow> (None, pm))))"

section \<open>Observation\<close>

record flag_observation =
  ob_sequence :: "32 word"
  ob_flags :: "string list"
  ob_seen_uid :: bool
  ob_observed :: bool
  ob_missing :: bool

definition empty_observation :: flag_observation where
  "empty_observation = \<lparr>ob_sequence = 0, ob_flags = [], ob_seen_uid = False, ob_observed = False,
     ob_missing = False\<rparr>"

definition consume_fetch ::
    "flag_observation \<Rightarrow> fetch_response \<Rightarrow> 32 word \<Rightarrow> imap_error + flag_observation" where
  "consume_fetch ob r uid =
     (if fr_uid_present r \<and> fr_uid r = uid then
        (if ob_missing ob then Inl ResponseMalformed
         else if ob_seen_uid ob \<and> fr_sequence r \<noteq> ob_sequence ob then Inl ResponseMalformed
         else let ob = ob\<lparr>ob_sequence := fr_sequence r, ob_seen_uid := True\<rparr> in
           Inr (if fr_flags_present r then ob\<lparr>ob_flags := fr_flags r, ob_observed := True\<rparr> else ob))
      else if fr_uid_present r \<and> fr_sequence r = ob_sequence ob \<and> \<not> ob_missing ob then Inl ResponseMalformed
      else Inr (if fr_sequence r = ob_sequence ob \<and> fr_flags_present r
                then ob\<lparr>ob_observed := False\<rparr> else ob))"

definition consume_expunge :: "flag_observation \<Rightarrow> 32 word \<Rightarrow> flag_observation" where
  "consume_expunge ob sequence =
     (if sequence = ob_sequence ob then ob\<lparr>ob_missing := True, ob_observed := False\<rparr>
      else if sequence < ob_sequence ob then ob\<lparr>ob_sequence := ob_sequence ob - 1\<rparr>
      else ob)"

definition consume_line ::
    "flag_observation \<Rightarrow> string \<Rightarrow> string list \<Rightarrow> 32 word \<Rightarrow> imap_error + flag_observation" where
  "consume_line ob line literals uid =
     (if is_fetch_response_candidate line then
        (case parse_fetch_response line literals of
           Inl e \<Rightarrow> Inl ResponseMalformed
         | Inr r \<Rightarrow> consume_fetch ob r uid)
      else let fs = str_fields line in
        if length fs < 3 \<or> fs ! 0 \<noteq> ''*'' \<or> \<not> equal_fold_ascii (fs ! 2) ''EXPUNGE'' then Inr ob
        else case parse_positive_uid (fs ! 1) of
            None \<Rightarrow> Inl ResponseMalformed
          | Some sequence \<Rightarrow>
              if length fs \<noteq> 3 then Inl ResponseMalformed else Inr (consume_expunge ob sequence))"

section \<open>Reading the result of a command\<close>

record flag_result =
  fl_status :: string
  fl_response :: string
  fl_observation :: flag_observation

definition empty_result :: flag_result where
  "empty_result = \<lparr>fl_status = [], fl_response = [], fl_observation = empty_observation\<rparr>"

text \<open>The check of the context before each read.\<close>

definition check_context :: "imap_session \<Rightarrow> bool \<times> imap_session" where
  "check_context s = (case next_fault s of (IoOk, s) \<Rightarrow> (True, s) | (_, s) \<Rightarrow> (False, mark_dirty s))"

type_synonym 'a flag_io = "('a \<times> flag_permissions) \<times> imap_session"

fun read_flag_loop ::
    "nat \<Rightarrow> nat \<Rightarrow> flag_result \<Rightarrow> string \<Rightarrow> 32 word \<Rightarrow> 32 word \<Rightarrow> flag_permissions \<Rightarrow> imap_session
     \<Rightarrow> (flag_result \<times> imap_error option) flag_io" where
  "read_flag_loop 0 remaining res tag uid uidvalidity pm s =
     (((res, Some FlagBudgetExceeded), pm), mark_dirty s)"
| "read_flag_loop (Suc k) remaining res tag uid uidvalidity pm s =
     (case check_context s of
        (False, s) \<Rightarrow> (((res, Some Canceled), pm), s)
      | (True, s) \<Rightarrow>
        (case read_logical_line \<lparr>rl_literal = max_response_line_bytes, rl_response = remaining, rl_count = 128\<rparr>
             None s of
           (Inl e, s) \<Rightarrow> (((res, Some e), pm), s)
         | (Inr ll, s) \<Rightarrow>
             let line = ll_text ll; used = length line + 2 + sum_list (map length (ll_literals ll)) in
             if remaining < used then (((res, Some FlagBudgetExceeded), pm), mark_dirty s)
             else case flag_response_validity line tag uidvalidity pm of
                 (Some e, pm) \<Rightarrow> (((res, Some e), pm), mark_dirty s)
               | (None, pm) \<Rightarrow>
                   if line = tag \<or> has_prefix line (tag @ '' '') then
                     (case parse_tagged_completion_status line tag of
                        Inl e \<Rightarrow> (((res, Some ResponseMalformed), pm), mark_dirty s)
                      | Inr status \<Rightarrow>
                          let res = res\<lparr>fl_status := status, fl_response := trim_prefix line (tag @ '' '')\<rparr> in
                          (((res, if status = ''OK'' then None else Some (CommandFailed status)), pm), s))
                   else case consume_line (fl_observation res) line (ll_literals ll) uid of
                       Inl e \<Rightarrow> (((res, Some ResponseMalformed), pm), mark_dirty s)
                     | Inr ob \<Rightarrow>
                         read_flag_loop k (remaining - used) (res\<lparr>fl_observation := ob\<rparr>) tag uid uidvalidity pm s))"

definition read_flag_result ::
    "string \<Rightarrow> 32 word \<Rightarrow> 32 word \<Rightarrow> flag_permissions \<Rightarrow> imap_session \<Rightarrow> (flag_result \<times> imap_error option) flag_io" where
  "read_flag_result tag uid uidvalidity pm s =
     read_flag_loop max_flag_response_count max_flag_response_bytes empty_result tag uid uidvalidity pm s"

text \<open>\<open>sess.nextTag\<close>: the prefix and the command number, at least four digits wide.\<close>

definition pad4 :: "string \<Rightarrow> string" where
  "pad4 d = replicate (4 - length d) (CHR ''0'') @ d"

definition next_tag :: "imap_session \<Rightarrow> string \<times> imap_session" where
  "next_tag s = (se_tag_prefix s @ pad4 (format_uint (se_next_tag s)), s\<lparr>se_next_tag := se_next_tag s + 1\<rparr>)"

definition fetch_command :: "32 word \<Rightarrow> string" where
  "fetch_command uid = '' UID FETCH '' @ format_uint (unat uid) @ '' (UID FLAGS)''"

definition store_command :: "32 word \<Rightarrow> flag_changes \<Rightarrow> string" where
  "store_command uid phase =
     '' UID STORE '' @ format_uint (unat uid)
     @ (if fc_remove phase \<noteq> [] then '' -FLAGS ('' @ join_with '' '' (fc_remove phase)
        else '' +FLAGS ('' @ join_with '' '' (fc_add phase)) @ '')''"

definition fetch_flag_result ::
    "32 word \<Rightarrow> 32 word \<Rightarrow> flag_permissions \<Rightarrow> imap_session \<Rightarrow> (flag_result \<times> imap_error option) flag_io" where
  "fetch_flag_result uid uidvalidity pm s =
     (case set_deadline s of
        (Inl e, s) \<Rightarrow> (((empty_result, Some e), pm), s)
      | (Inr _, s) \<Rightarrow>
        (case next_tag s of (tag, s) \<Rightarrow>
         (case write_line s (tag @ fetch_command uid) of
            (Inl e, s) \<Rightarrow> (((empty_result, Some e), pm), s)
          | (Inr _, s) \<Rightarrow> read_flag_result tag uid uidvalidity pm s)))"

section \<open>The change and its verification\<close>

type_synonym flag_outcome = "mutation_evidence \<times> flag_error option"

definition with_flag_observation :: "mutation_evidence \<Rightarrow> flag_observation \<Rightarrow> mutation_evidence" where
  "with_flag_observation ev ob =
     (if ob_missing ob \<or> \<not> ob_seen_uid ob then ev\<lparr>ev_actual_flags := [], ev_flags_state := FlagsMissing\<rparr>
      else if ob_observed ob then ev\<lparr>ev_actual_flags := ob_flags ob, ev_flags_state := FlagsObserved\<rparr>
      else ev\<lparr>ev_actual_flags := [], ev_flags_state := FlagsUnverified\<rparr>)"

definition unknown_flag_result :: "mutation_evidence \<Rightarrow> imap_error \<Rightarrow> flag_outcome" where
  "unknown_flag_result ev cause =
     (ev\<lparr>ev_outcome := Unknown, ev_flags_state := FlagsUnverified, ev_actual_flags := []\<rparr>,
      Some (FlagsOutcomeUnknown cause))"

definition missing_flag_result :: "mutation_evidence \<Rightarrow> flag_outcome" where
  "missing_flag_result ev =
     (ev\<lparr>ev_outcome := Unknown, ev_flags_state := FlagsMissing, ev_actual_flags := []\<rparr>, Some MissingAfterStore)"

definition complete_flag_result :: "mutation_evidence \<Rightarrow> string list \<Rightarrow> string list \<Rightarrow> flag_outcome" where
  "complete_flag_result ev add remove =
     (if \<not> flags_match_changes (ev_actual_flags ev) add remove
      then (ev\<lparr>ev_outcome := Observed\<rparr>, Some FlagsMismatch)
      else (ev\<lparr>ev_outcome := Completed\<rparr>, None))"

definition prepare_flag_changes ::
    "mutation_evidence \<Rightarrow> flag_changes \<Rightarrow> flag_permissions \<Rightarrow> imap_session
     \<Rightarrow> (mutation_evidence \<times> flag_changes \<times> flag_error option) flag_io" where
  "prepare_flag_changes ev requested pm s =
     (let finish = (\<lambda>ev pm s.
            let needed = (if ev_flags_state ev = FlagsObserved
                          then pending_changes requested (ev_actual_flags ev) else requested);
                bad = unsupported_flag pm needed
            in (((ev, needed, if bad \<noteq> [] then Some (FlagsUnsupported bad) else None), pm), s))
      in if ev_flags_state ev \<noteq> FlagsObserved
            \<and> (touches_junk requested \<or> unsupported_flag pm requested \<noteq> []) then
          (case fetch_flag_result (ev_uid ev) (ev_uid_validity ev) pm s of
             (((result, err), pm), s) \<Rightarrow>
               let ev = ev\<lparr>ev_flags_source := ''FETCH'', ev_server_response := fl_response result\<rparr> in
               (case err of
                  Some e \<Rightarrow> (((ev, requested, Some (PreflightFailed e)), pm), s)
                | None \<Rightarrow>
                    let ev = with_flag_observation ev (fl_observation result) in
                    if ev_flags_state ev \<noteq> FlagsObserved then
                      (((ev, requested, Some (PreflightFailed
                          (if ev_flags_state ev = FlagsMissing then MessageNotFound else ResponseMalformed))), pm), s)
                    else finish ev pm s))
         else finish ev pm s)"

definition store_flag_change ::
    "mutation_evidence \<Rightarrow> flag_changes \<Rightarrow> flag_permissions \<Rightarrow> imap_session
     \<Rightarrow> (mutation_evidence \<times> flag_result \<times> imap_error option) flag_io" where
  "store_flag_change ev phase pm s =
     (case set_deadline s of
        (Inl e, s) \<Rightarrow> (((ev, empty_result, Some e), pm), s)
      | (Inr _, s) \<Rightarrow>
        (case next_tag s of (tag, s) \<Rightarrow>
         let ev = ev\<lparr>ev_outcome := Attempted, ev_flags_source := ''STORE'',
                ev_flags_state := FlagsUnverified, ev_actual_flags := []\<rparr> in
         (case write_line s (tag @ store_command (ev_uid ev) phase) of
            (Inl e, s) \<Rightarrow> (((ev, empty_result, Some e), pm), s)
          | (Inr _, s) \<Rightarrow>
              (case read_flag_result tag (ev_uid ev) (ev_uid_validity ev) pm s of
                 (((result, err), pm), s) \<Rightarrow>
                   (((ev\<lparr>ev_server_response := fl_response result\<rparr>, result, err), pm), s)))))"

definition rejected_flag_result ::
    "mutation_evidence \<Rightarrow> bool \<Rightarrow> flag_permissions \<Rightarrow> imap_error \<Rightarrow> imap_session \<Rightarrow> flag_outcome flag_io" where
  "rejected_flag_result ev previously_completed pm cause s =
     (let ev = ev\<lparr>ev_outcome := (if previously_completed then Partial else Rejected),
            ev_flags_source := ''FETCH''\<rparr> in
      case fetch_flag_result (ev_uid ev) (ev_uid_validity ev) pm s of
        (((result, err), pm), s) \<Rightarrow>
          let ev = (if err = None then with_flag_observation ev (fl_observation result) else ev) in
          (((ev, Some (if previously_completed then FlagsPartial cause else StoreRejected cause)), pm), s))"

definition verify_flag_result ::
    "mutation_evidence \<Rightarrow> flag_observation \<Rightarrow> flag_changes \<Rightarrow> flag_permissions \<Rightarrow> imap_session
     \<Rightarrow> flag_outcome flag_io" where
  "verify_flag_result ev0 ob phase pm s =
     (let ev = ev0\<lparr>ev_flags_source := ''STORE''\<rparr>;
          conclude = (\<lambda>ev ob pm s. let ev = with_flag_observation ev ob in
            ((if ev_flags_state ev = FlagsMissing then missing_flag_result ev
              else if ev_flags_state ev \<noteq> FlagsObserved then unknown_flag_result ev ResponseMalformed
              else complete_flag_result ev (fc_add phase) (fc_remove phase), pm), s))
      in if ob_missing ob then ((missing_flag_result ev, pm), s)
         else if \<not> ob_observed ob then
           (let ev = ev\<lparr>ev_flags_source := ''FETCH''\<rparr> in
            case fetch_flag_result (ev_uid ev) (ev_uid_validity ev) pm s of
              (((result, Some e), pm), s) \<Rightarrow> ((unknown_flag_result ev e, pm), s)
            | (((result, None), pm), s) \<Rightarrow> conclude ev (fl_observation result) pm s)
         else conclude ev ob pm s)"

definition perform_flag_change ::
    "mutation_evidence \<Rightarrow> flag_changes \<Rightarrow> flag_permissions \<Rightarrow> imap_session \<Rightarrow> flag_outcome flag_io" where
  "perform_flag_change ev0 phase pm s =
     (let previously_completed = (ev_outcome ev0 = Partial) in
      case store_flag_change ev0 phase pm s of
        (((ev, result, Some e), pm), s) \<Rightarrow>
          if fl_status result = ''NO'' \<or> fl_status result = ''BAD''
          then rejected_flag_result ev previously_completed pm e s
          else if ev_outcome ev = NotStarted then (((ev, Some (PreflightFailed e)), pm), s)
          else if ev_outcome ev = Partial then (((ev, Some (FlagsPartial e)), pm), s)
          else ((unknown_flag_result ev e, pm), s)
      | (((ev, result, None), pm), s) \<Rightarrow>
          (case verify_flag_result ev (fl_observation result) phase pm s of
             (((ev, Some e), pm), s) \<Rightarrow> (((ev, Some e), pm), s)
           | (((ev, None), pm), s) \<Rightarrow>
               let bad = unsupported_flag pm phase in
               if bad \<noteq> [] then (((ev\<lparr>ev_outcome := Unknown\<rparr>, Some (FlagsUnsupported bad)), pm), s)
               else (((ev\<lparr>ev_outcome := Partial\<rparr>, None), pm), s)))"

text \<open>The loop over the phases; a phase without flags is skipped.\<close>

fun perform_phases ::
    "mutation_evidence \<Rightarrow> flag_changes list \<Rightarrow> flag_permissions \<Rightarrow> imap_session \<Rightarrow> flag_outcome flag_io" where
  "perform_phases ev [] pm s = (((ev, None), pm), s)"
| "perform_phases ev (phase # phases) pm s =
     (if length (fc_add phase) + length (fc_remove phase) = 0 then perform_phases ev phases pm s
      else let bad = unsupported_flag pm phase in
        if bad \<noteq> [] then (((ev, Some (FlagsUnsupported bad)), pm), s)
        else case perform_flag_change ev phase pm s of
            (((ev, Some e), pm), s) \<Rightarrow> (((ev, Some e), pm), s)
          | (((ev, None), pm), s) \<Rightarrow> perform_phases ev phases pm s)"

definition flag_phases :: "flag_changes \<Rightarrow> flag_changes \<Rightarrow> flag_changes list" where
  "flag_phases requested needed =
     (let a = \<lparr>fc_add = fc_add needed, fc_remove = []\<rparr>; r = \<lparr>fc_add = [], fc_remove = fc_remove needed\<rparr>
      in if touches_junk requested then [r, a] else [a, r])"

definition set_flags_and_verify ::
    "mutation_evidence \<Rightarrow> string list \<Rightarrow> string list \<Rightarrow> flag_permissions \<Rightarrow> imap_session \<Rightarrow> flag_outcome flag_io" where
  "set_flags_and_verify ev add remove pm s =
     (let requested = \<lparr>fc_add = add, fc_remove = remove\<rparr> in
      case prepare_flag_changes ev requested pm s of
        (((ev, needed, Some e), pm), s) \<Rightarrow> (((ev, Some e), pm), s)
      | (((ev, needed, None), pm), s) \<Rightarrow>
          (case perform_phases ev (flag_phases requested needed) pm s of
             (((ev, Some e), pm), s) \<Rightarrow> (((ev, Some e), pm), s)
           | (((ev, None), pm), s) \<Rightarrow> ((complete_flag_result ev add remove, pm), s)))"

record flag_state_result =
  fs_uid_validity :: "32 word"
  fs_flags :: "string list"
  fs_missing :: bool

text \<open>\<open>FetchFlags\<close> on a selected mailbox, after the session was acquired and the mailbox selected.\<close>

definition fetch_flags_selected ::
    "32 word \<Rightarrow> 32 word \<Rightarrow> 32 word \<Rightarrow> flag_permissions \<Rightarrow> imap_session
     \<Rightarrow> (imap_error + flag_state_result) \<times> imap_session" where
  "fetch_flags_selected uid expected selected_validity pm s =
     (case check_uid_validity expected selected_validity of
        Inl e \<Rightarrow> (Inl e, s)
      | Inr _ \<Rightarrow>
        (case fetch_flag_result uid selected_validity pm s of
           (((result, Some e), pm), s) \<Rightarrow> (Inl e, s)
         | (((result, None), pm), s) \<Rightarrow>
             let ob = fl_observation result in
             (if ob_missing ob \<or> \<not> ob_seen_uid ob
              then Inr \<lparr>fs_uid_validity = selected_validity, fs_flags = [], fs_missing = True\<rparr>
              else if \<not> ob_observed ob then Inl ResponseMalformed
              else Inr \<lparr>fs_uid_validity = selected_validity, fs_flags = ob_flags ob, fs_missing = False\<rparr>, s)))"

end
