(* ===== verification/Mailbox_Resolution.thy ===== *)
theory Mailbox_Resolution
  imports Go_Strings Go_Utf8 "HOL-Library.List_Lexorder" "HOL-Library.Char_ord" "HOL-Library.Multiset"
begin

text \<open>
  The choice of one server mailbox for an account-relative path or a role
  (\<open>src/internal/transport/mailbox_resolution.go\<close>). Exact matches come before canonically equal ones,
  these before roles and leaf names, and more than one candidate is an error at every stage.

  \<open>nfc\<close> is \<open>norm.NFC.String\<close> of \<open>golang.org/x/text\<close>, and \<open>ef\<close> is \<open>strings.EqualFold\<close>, whose Unicode
  tables are left abstract where neither side is an ASCII constant; strings are ordered by their bytes.
\<close>

section \<open>Mailboxes\<close>

record mailbox_info =
  mi_name :: string
  mi_wire :: string
  mi_display :: string
  mi_path :: "string list"
  mi_delimiter :: string
  mi_encoding :: string
  mi_flags :: "string list"

datatype resolution_error =
    InvalidPath
  | NoMailbox string
  | Ambiguous "string list"

datatype mailbox_role = RoleSent | RoleTrash | RoleJunk | RoleDrafts | RoleArchive

definition mailbox_role_order :: "mailbox_role list" where
  "mailbox_role_order = [RoleSent, RoleTrash, RoleJunk, RoleDrafts, RoleArchive]"

definition u_umlaut :: string where "u_umlaut = [CHR 0xC3, CHR 0xBC]"
definition o_umlaut :: string where "o_umlaut = [CHR 0xC3, CHR 0xB6]"

fun mailbox_role_aliases :: "mailbox_role \<Rightarrow> string list" where
  "mailbox_role_aliases RoleSent = [''sent'', ''sent mail'', ''sent messages'', ''gesendet'', ''gesendete elemente'']"
| "mailbox_role_aliases RoleTrash = [''trash'', ''bin'', ''deleted'', ''deleted messages'', ''papierkorb'',
     ''gel'' @ o_umlaut @ ''schte elemente'']"
| "mailbox_role_aliases RoleJunk = [''junk'', ''spam'']"
| "mailbox_role_aliases RoleDrafts = [''drafts'', ''entw'' @ u_umlaut @ ''rfe'']"
| "mailbox_role_aliases RoleArchive = [''archive'', ''archiv'']"

fun mailbox_role_flag :: "mailbox_role \<Rightarrow> string" where
  "mailbox_role_flag RoleSent = CHR 0x5C # ''Sent''"
| "mailbox_role_flag RoleTrash = CHR 0x5C # ''Trash''"
| "mailbox_role_flag RoleJunk = CHR 0x5C # ''Junk''"
| "mailbox_role_flag RoleDrafts = CHR 0x5C # ''Drafts''"
| "mailbox_role_flag RoleArchive = CHR 0x5C # ''Archive''"

fun mailbox_role_fallbacks :: "mailbox_role \<Rightarrow> string list" where
  "mailbox_role_fallbacks RoleSent = [''Sent'', ''Sent Mail'', ''Sent Messages'', ''Gesendet'', ''Gesendete Elemente'',
     ''[Gmail]/Sent Mail'']"
| "mailbox_role_fallbacks RoleTrash = [''Trash'', ''Bin'', ''Deleted'', ''Deleted Messages'', ''[Gmail]/Trash'',
     ''[Gmail]/Papierkorb'', ''Papierkorb'', ''Gel'' @ o_umlaut @ ''schte Elemente'', ''INBOX.Trash'']"
| "mailbox_role_fallbacks RoleJunk = [''Junk'', ''Spam'', ''[Gmail]/Spam'']"
| "mailbox_role_fallbacks RoleDrafts = [''Drafts'', ''Entw'' @ u_umlaut @ ''rfe'', ''[Gmail]/Drafts'']"
| "mailbox_role_fallbacks RoleArchive = [''Archive'', ''Archiv'', ''[Gmail]/All Mail'']"

definition mailbox_wire_name :: "mailbox_info \<Rightarrow> string" where
  "mailbox_wire_name m = (if mi_wire m \<noteq> [] then mi_wire m else mi_name m)"

definition mailbox_display_name :: "mailbox_info \<Rightarrow> string" where
  "mailbox_display_name m = (if mi_display m \<noteq> [] then mi_display m else mailbox_wire_name m)"

definition mailbox_legacy :: "mailbox_info \<Rightarrow> bool" where
  "mailbox_legacy m \<longleftrightarrow> mi_wire m = [] \<and> mi_display m = [] \<and> mi_path m = [] \<and> mi_delimiter m = [] \<and> mi_encoding m = []"

definition mailbox_display_paths :: "mailbox_info \<Rightarrow> string list list" where
  "mailbox_display_paths m = (let path = (if mi_path m = [] then [mailbox_display_name m] else mi_path m) in
     if 1 < length path \<and> hd path = ''[Gmail]'' then [path, tl path] else [path])"

definition has_mailbox_flag :: "mailbox_info \<Rightarrow> string \<Rightarrow> bool" where
  "has_mailbox_flag m want \<longleftrightarrow> list_ex (\<lambda>f. equal_fold_ascii f want) (mi_flags m)"

definition mailbox_leaf :: "string \<Rightarrow> string" where
  "mailbox_leaf name = rev (takeWhile (\<lambda>c. c \<noteq> CHR ''/'' \<and> c \<noteq> CHR ''.'') (rev name))"

section \<open>Matching\<close>

type_synonym normal_form = "string \<Rightarrow> string"
type_synonym folding = "string \<Rightarrow> string \<Rightarrow> bool"

definition equal_canonical_path :: "normal_form \<Rightarrow> string list \<Rightarrow> string list \<Rightarrow> bool" where
  "equal_canonical_path nfc l r \<longleftrightarrow> length l = length r \<and> list_all2 (\<lambda>x y. nfc x = nfc y) l r"

definition equal_folded_name :: "normal_form \<Rightarrow> folding \<Rightarrow> string \<Rightarrow> string \<Rightarrow> bool" where
  "equal_folded_name nfc ef l r \<longleftrightarrow> ef (nfc l) (nfc r)"

definition contains_mailbox_name :: "normal_form \<Rightarrow> folding \<Rightarrow> string list \<Rightarrow> mailbox_info \<Rightarrow> bool" where
  "contains_mailbox_name nfc ef names m \<longleftrightarrow> (let candidate = nfc (mailbox_display_name m) in
     list_ex (\<lambda>name. candidate = nfc name \<or> mailbox_legacy m \<and> ef (nfc name) candidate) names)"

definition matching_mailbox_names :: "mailbox_info list \<Rightarrow> (mailbox_info \<Rightarrow> bool) \<Rightarrow> string list" where
  "matching_mailbox_names ms p = sort (map mailbox_wire_name (filter (\<lambda>m. mailbox_wire_name m \<noteq> [] \<and> p m) ms))"

definition legacy_names :: "string list \<Rightarrow> string list" where
  "legacy_names path = join_with ''/'' path # (if 1 < length path then [join_with ''.'' path] else [])"

definition exact_match :: "string list \<Rightarrow> mailbox_info \<Rightarrow> bool" where
  "exact_match path m \<longleftrightarrow> list_ex (\<lambda>candidate. candidate = path) (mailbox_display_paths m)
     \<or> mailbox_legacy m \<and> list_ex (\<lambda>name. mailbox_wire_name m = name) (legacy_names path)"

definition canonical_match :: "normal_form \<Rightarrow> folding \<Rightarrow> string list \<Rightarrow> mailbox_info \<Rightarrow> bool" where
  "canonical_match nfc ef path m \<longleftrightarrow> list_ex (\<lambda>candidate. equal_canonical_path nfc candidate path) (mailbox_display_paths m)
     \<or> mailbox_legacy m \<and> list_ex (\<lambda>name. equal_folded_name nfc ef (mailbox_wire_name m) name) (legacy_names path)"

definition exact_path_matches :: "mailbox_info list \<Rightarrow> string list \<Rightarrow> string list" where
  "exact_path_matches ms path = matching_mailbox_names ms (exact_match path)"

definition canonical_path_matches :: "normal_form \<Rightarrow> folding \<Rightarrow> mailbox_info list \<Rightarrow> string list \<Rightarrow> string list" where
  "canonical_path_matches nfc ef ms path = matching_mailbox_names ms (canonical_match nfc ef path)"

definition choose_mailbox :: "string list \<Rightarrow> string \<Rightarrow> resolution_error + string" where
  "choose_mailbox candidates missing = (case candidates of
      [c] \<Rightarrow> Inr c | [] \<Rightarrow> Inl (NoMailbox missing) | _ \<Rightarrow> Inl (Ambiguous candidates))"

definition mailbox_role_for_path :: "normal_form \<Rightarrow> folding \<Rightarrow> string list \<Rightarrow> mailbox_role option" where
  "mailbox_role_for_path nfc ef path = (case path of
      [name] \<Rightarrow> find (\<lambda>role. list_ex (equal_folded_name nfc ef name) (mailbox_role_aliases role)) mailbox_role_order
    | _ \<Rightarrow> None)"

section \<open>Resolution\<close>

definition mailbox_not_found :: string where "mailbox_not_found = ''imap_mailbox_not_found''"
definition sent_mailbox_not_found :: string where "sent_mailbox_not_found = ''imap_sent_mailbox_not_found''"

definition resolve_inbox :: "mailbox_info list \<Rightarrow> resolution_error + string" where
  "resolve_inbox ms = (let candidates = matching_mailbox_names ms (\<lambda>m. equal_fold_ascii (mailbox_wire_name m) ''INBOX'') in
     if candidates = [] \<or> ''INBOX'' \<in> set candidates then Inr ''INBOX''
     else choose_mailbox candidates mailbox_not_found)"

text \<open>The stages of \<open>ResolveMailboxPath\<close> after the inbox, in order; the first that has candidates decides.\<close>

definition resolution_stages :: "normal_form \<Rightarrow> folding \<Rightarrow> mailbox_info list \<Rightarrow> string list \<Rightarrow> string list list" where
  "resolution_stages nfc ef ms path =
     [exact_path_matches ms path, canonical_path_matches nfc ef ms path]
     @ (case mailbox_role_for_path nfc ef path of None \<Rightarrow> []
        | Some role \<Rightarrow> [matching_mailbox_names ms (\<lambda>m. has_mailbox_flag m (mailbox_role_flag role)),
            matching_mailbox_names ms (contains_mailbox_name nfc ef (mailbox_role_fallbacks role))])
     @ (case path of
          [leaf] \<Rightarrow> [matching_mailbox_names ms
            (\<lambda>m. mailbox_legacy m \<and> equal_folded_name nfc ef (mailbox_leaf (mailbox_wire_name m)) leaf)]
        | _ \<Rightarrow> [])"

fun first_stage :: "string list list \<Rightarrow> resolution_error + string" where
  "first_stage [] = Inl (NoMailbox mailbox_not_found)"
| "first_stage (c # cs) = (if c \<noteq> [] then choose_mailbox c mailbox_not_found else first_stage cs)"

definition resolve_mailbox_path :: "normal_form \<Rightarrow> folding \<Rightarrow> mailbox_info list \<Rightarrow> string list \<Rightarrow> resolution_error + string" where
  "resolve_mailbox_path nfc ef ms path =
     (if path = [] \<or> (length path = 1 \<and> equal_fold_ascii (hd path) ''INBOX'') then resolve_inbox ms
      else if [] \<in> set path then Inl InvalidPath
      else first_stage (resolution_stages nfc ef ms path))"

text \<open>\<open>rejectCanonicalMailboxCollision\<close>: the first listed mailbox of the selected name that collides.\<close>

fun reject_collision ::
    "normal_form \<Rightarrow> folding \<Rightarrow> mailbox_info list \<Rightarrow> string list list \<Rightarrow> string \<Rightarrow> mailbox_info list \<Rightarrow> resolution_error + string" where
  "reject_collision nfc ef ms requested selected [] = Inr selected"
| "reject_collision nfc ef ms requested selected (m # rest) =
     (if mailbox_wire_name m \<noteq> selected then reject_collision nfc ef ms requested selected rest
      else let candidates = sort (concat (map (canonical_path_matches nfc ef ms) (mailbox_display_paths m @ requested)));
               unique = remdups_adj candidates
           in if 1 < length unique then Inl (Ambiguous unique)
              else reject_collision nfc ef ms requested selected rest)"

definition resolve_mailbox_path_for_mutation ::
    "normal_form \<Rightarrow> folding \<Rightarrow> mailbox_info list \<Rightarrow> string list \<Rightarrow> resolution_error + string" where
  "resolve_mailbox_path_for_mutation nfc ef ms path = (case resolve_mailbox_path nfc ef ms path of
      Inl e \<Rightarrow> Inl e
    | Inr selected \<Rightarrow> reject_collision nfc ef ms [path] selected ms)"

definition resolve_role_mailbox ::
    "normal_form \<Rightarrow> folding \<Rightarrow> mailbox_info list \<Rightarrow> mailbox_role \<Rightarrow> string \<Rightarrow> resolution_error + string" where
  "resolve_role_mailbox nfc ef ms role missing =
     (let flagged = matching_mailbox_names ms (\<lambda>m. has_mailbox_flag m (mailbox_role_flag role)) in
      if flagged \<noteq> [] then choose_mailbox flagged missing
      else choose_mailbox (matching_mailbox_names ms (contains_mailbox_name nfc ef (mailbox_role_fallbacks role))) missing)"

definition resolve_sent_mailbox :: "normal_form \<Rightarrow> folding \<Rightarrow> mailbox_info list \<Rightarrow> resolution_error + string" where
  "resolve_sent_mailbox nfc ef ms = resolve_role_mailbox nfc ef ms RoleSent sent_mailbox_not_found"

definition resolve_trash_mailbox :: "normal_form \<Rightarrow> folding \<Rightarrow> mailbox_info list \<Rightarrow> resolution_error + string" where
  "resolve_trash_mailbox nfc ef ms = (case resolve_role_mailbox nfc ef ms RoleTrash mailbox_not_found of
      Inl e \<Rightarrow> Inl e
    | Inr selected \<Rightarrow> reject_collision nfc ef ms [] selected ms)"

definition pick_sent_mailbox :: "normal_form \<Rightarrow> folding \<Rightarrow> mailbox_info list \<Rightarrow> string" where
  "pick_sent_mailbox nfc ef ms = (case resolve_sent_mailbox nfc ef ms of Inl _ \<Rightarrow> [] | Inr m \<Rightarrow> m)"

definition pick_trash_mailbox :: "normal_form \<Rightarrow> folding \<Rightarrow> mailbox_info list \<Rightarrow> string" where
  "pick_trash_mailbox nfc ef ms = (case resolve_trash_mailbox nfc ef ms of Inl _ \<Rightarrow> [] | Inr m \<Rightarrow> m)"

section \<open>What a resolution guarantees\<close>

lemma matching_mset: "mset ms = mset ms' \<Longrightarrow> matching_mailbox_names ms p = matching_mailbox_names ms' p"
  unfolding matching_mailbox_names_def
  by (rule arg_cong [where f = sorted_list_of_multiset, of "mset xs" "mset ys" for xs ys, unfolded sorted_list_of_multiset_mset]) (simp add: mset_filter)

lemma set_matching: "set (matching_mailbox_names ms p) = {mailbox_wire_name m |m. m \<in> set ms \<and> mailbox_wire_name m \<noteq> [] \<and> p m}"
  by (auto simp: matching_mailbox_names_def)

lemma own_path_matches: "p \<in> set (mailbox_display_paths m) \<Longrightarrow> canonical_match nfc ef p m"
  by (auto simp: canonical_match_def list_ex_iff equal_canonical_path_def list_all2_refl)

lemma display_paths_nonempty: "mailbox_display_paths m \<noteq> []"
  by (simp add: mailbox_display_paths_def Let_def)

lemma remdups_adj_sorted_single:
  assumes "\<not> 1 < length (remdups_adj xs)" "x \<in> set xs" "y \<in> set xs"
  shows "x = y"
proof -
  have "set (remdups_adj xs) = set xs" by simp
  moreover obtain a where "set (remdups_adj xs) \<subseteq> {a}"
    using assms(1) by (cases "remdups_adj xs"; cases "tl (remdups_adj xs)") auto
  ultimately show ?thesis using assms(2,3) by auto
qed

lemma reject_collision_unique:
  assumes "reject_collision nfc ef ms requested selected rest = Inr n" "m \<in> set rest" "mailbox_wire_name m = selected"
    "p \<in> set (mailbox_display_paths m @ requested)" "m' \<in> set ms" "mailbox_wire_name m' \<noteq> []" "canonical_match nfc ef p m'"
    "set rest \<subseteq> set ms" "selected \<noteq> []"
  shows "mailbox_wire_name m' = selected"
  using assms
proof (induction rest)
  case (Cons k rest)
  show ?case
  proof (cases "k = m")
    case True
    let ?c = "concat (map (canonical_path_matches nfc ef ms) (mailbox_display_paths m @ requested))"
    have single: "\<not> 1 < length (remdups_adj (sort ?c))" using Cons.prems True by (auto simp: Let_def split: if_splits)
    obtain q where q: "q \<in> set (mailbox_display_paths m)" using display_paths_nonempty [of m] by (cases "mailbox_display_paths m") auto
    have "m \<in> set ms" using Cons.prems by auto
    then have "selected \<in> set ?c"
      using q own_path_matches [OF q] Cons.prems(3,9) by (auto simp: canonical_path_matches_def set_matching)
    moreover have "mailbox_wire_name m' \<in> set ?c"
      using Cons.prems(4-7) by (auto simp: canonical_path_matches_def set_matching)
    ultimately show ?thesis using remdups_adj_sorted_single [OF single] by simp
  next
    case False
    have "reject_collision nfc ef ms requested selected rest = Inr n"
      using Cons.prems(1) by (auto simp: Let_def split: if_splits)
    then show ?thesis using Cons False by auto
  qed
qed simp

lemma reject_collision_same: "reject_collision nfc ef ms requested selected rest = Inr n \<Longrightarrow> n = selected"
  by (induction rest) (auto simp: Let_def split: if_splits)

text \<open>C13. The mailbox chosen for a mutation has no canonical twin: every listed mailbox that matches the
  requested path, or a display path of the chosen mailbox, up to normalisation, is the chosen one.\<close>

theorem mutation_mailbox_unambiguous:
  assumes "resolve_mailbox_path_for_mutation nfc ef ms path = Inr n" "m \<in> set ms" "mailbox_wire_name m = n" "n \<noteq> []"
    "m' \<in> set ms" "mailbox_wire_name m' \<noteq> []" "canonical_match nfc ef p m'" "p \<in> set (path # mailbox_display_paths m)"
  shows "mailbox_wire_name m' = n"
proof -
  obtain s where s: "reject_collision nfc ef ms [path] s ms = Inr n"
    using assms(1) by (auto simp: resolve_mailbox_path_for_mutation_def split: sum.splits)
  have "s = n" using reject_collision_same [OF s] by simp
  then show ?thesis using reject_collision_unique [OF s, of m p m'] assms by auto
qed

definition example_mailboxes :: "mailbox_info list" where
  "example_mailboxes = map (\<lambda>n. \<lparr>mi_name = n, mi_wire = n, mi_display = n, mi_path = [n], mi_delimiter = ''/'',
     mi_encoding = ''utf-8'', mi_flags = []\<rparr>) [''INBOX'', ''Work'', ''Trash'']"

lemma work_not_inbox: "\<not> equal_fold_ascii ''Work'' ''INBOX''"
  by code_simp

lemma example_resolved: "resolve_mailbox_path_for_mutation id (=) example_mailboxes [''Work''] = Inr ''Work''"
  by (simp add: example_mailboxes_def resolve_mailbox_path_for_mutation_def resolve_mailbox_path_def resolution_stages_def
      exact_path_matches_def canonical_path_matches_def matching_mailbox_names_def exact_match_def canonical_match_def
      mailbox_wire_name_def mailbox_display_paths_def mailbox_legacy_def equal_canonical_path_def choose_mailbox_def work_not_inbox)

theorem mutation_mailbox_unambiguous_witness: "mailbox_wire_name (example_mailboxes ! 1) = ''Work''"
  by (rule mutation_mailbox_unambiguous [OF example_resolved, of "example_mailboxes ! 1" "example_mailboxes ! 1" "[''Work'']"])
    (simp_all add: example_mailboxes_def mailbox_wire_name_def canonical_match_def mailbox_display_paths_def equal_canonical_path_def)

lemma stages_mset: "mset ms = mset ms' \<Longrightarrow> resolution_stages nfc ef ms path = resolution_stages nfc ef ms' path"
proof -
  assume "mset ms = mset ms'"
  then have eq: "matching_mailbox_names ms = matching_mailbox_names ms'" using matching_mset by blast
  show ?thesis unfolding resolution_stages_def exact_path_matches_def canonical_path_matches_def eq by (rule refl)
qed

text \<open>The resolution of a path does not depend on the order in which the server lists its mailboxes,
  errors and their candidates included.\<close>

theorem resolution_order_independent:
  assumes "mset ms = mset ms'"
  shows "resolve_mailbox_path nfc ef ms path = resolve_mailbox_path nfc ef ms' path"
  unfolding resolve_mailbox_path_def resolve_inbox_def stages_mset [OF assms] matching_mset [OF assms] by (rule refl)

theorem resolution_order_independent_witness:
  "resolve_mailbox_path id (=) (rev example_mailboxes) [''Work''] = resolve_mailbox_path id (=) example_mailboxes [''Work'']"
  by (rule resolution_order_independent) simp

end
