(* ===== verification/Go_Mail_Header.thy ===== *)
theory Go_Mail_Header
  imports Go_Utf8
begin

text \<open>
  The header of a message as \<open>net/mail.ReadMessage\<close> of the standard library reads it: lines up to the
  blank line, continuation lines folded with one space, each cut at its first colon. Keys are compared
  without regard to case, so their canonical form is not needed.
\<close>

definition is_blank :: "char \<Rightarrow> bool" where
  "is_blank c \<longleftrightarrow> c = CHR '' '' \<or> c = CHR 0x09"

definition trim_blanks :: "string \<Rightarrow> string" where
  "trim_blanks s = rev (dropWhile is_blank (rev (dropWhile is_blank s)))"

text \<open>\<open>ReadLine\<close>: the line without its line end; nothing at the end of the input.\<close>

definition go_read_line :: "string \<Rightarrow> (string \<times> string) option" where
  "go_read_line s = (if s = [] then None else case index_byte s (CHR 0x0A) of
      None \<Rightarrow> Some (s, [])
    | Some i \<Rightarrow> let line = take i s in
        Some (if has_suffix line [CHR 0x0D] then butlast line else line, drop (i + 1) s))"

lemma go_read_line_shorter: "go_read_line s = Some (line, rest) \<Longrightarrow> length rest < length s"
  by (auto simp: go_read_line_def Let_def split: if_splits option.splits)

text \<open>The continuation lines of \<open>ReadContinuedLine\<close>.\<close>

function continue_line :: "string \<Rightarrow> string \<Rightarrow> string \<times> string" where
  "continue_line acc s =
     (if s = [] \<or> \<not> is_blank (hd s) then (acc, s)
      else case go_read_line (dropWhile is_blank s) of
          None \<Rightarrow> (acc @ '' '', [])
        | Some (line, rest) \<Rightarrow> continue_line (acc @ '' '' @ trim_blanks line) rest)"
  by pat_completeness auto
termination
proof (relation "measure (\<lambda>(acc, s). length s)", goal_cases)
  case (2 acc s r line rest)
  then have "length rest < length (dropWhile is_blank s)" using go_read_line_shorter by auto
  then show ?case using length_dropWhile_le [of is_blank s] by simp
qed simp

declare continue_line.simps [simp del]

lemma continue_line_length: "length (snd (continue_line acc s)) \<le> length s"
proof (induction acc s rule: continue_line.induct)
  case (1 acc s)
  show ?case
  proof (cases "s = [] \<or> \<not> is_blank (hd s)")
    case True
    then show ?thesis by (subst continue_line.simps) simp
  next
    case False
    show ?thesis
    proof (cases "go_read_line (dropWhile is_blank s)")
      case None
      with False show ?thesis by (subst continue_line.simps) simp
    next
      case (Some q)
      obtain line rest where q: "q = (line, rest)" by fastforce
      have "length rest < length (dropWhile is_blank s)" using go_read_line_shorter Some q by auto
      moreover have "length (snd (continue_line (acc @ '' '' @ trim_blanks line) rest)) \<le> length rest"
        using "1.IH" False Some q by simp
      ultimately show ?thesis
        using False Some q length_dropWhile_le [of is_blank s] by (subst continue_line.simps) simp
    qed
  qed
qed

lemma continue_line_shorter: "(kv, rest) = continue_line acc s \<Longrightarrow> length rest \<le> length s"
  using continue_line_length [of acc s] by (metis snd_conv)

function header_fields :: "(string \<times> string) list \<Rightarrow> string \<Rightarrow> (string \<times> string) list option" where
  "header_fields acc s = (case go_read_line s of
      None \<Rightarrow> if acc = [] then None else Some acc
    | Some (line, rest) \<Rightarrow>
        if line = [] then Some acc
        else (case continue_line (trim_blanks line) rest of (kv, rest') \<Rightarrow>
          if kv = [] then Some acc
          else case cut_byte kv (CHR '':'') of (key, v, found) \<Rightarrow>
            if \<not> found then None
            else header_fields (if key = [] then acc else acc @ [(key, dropWhile is_blank v)]) rest'))"
  by pat_completeness auto
termination
proof (relation "measure (\<lambda>(acc, s). length s)", goal_cases)
  case prems: 2
  from prems show ?case
    by simp (meson continue_line_shorter go_read_line_shorter le_less_trans)
qed simp

declare header_fields.simps [simp del]

text \<open>\<open>ReadMessage\<close>: the fields, or nothing when the header is malformed or missing.\<close>

definition read_message_header :: "string \<Rightarrow> (string \<times> string) list option" where
  "read_message_header s = (if s \<noteq> [] \<and> is_blank (hd s) then None else header_fields [] s)"

definition header_values :: "string \<Rightarrow> (string \<times> string) list \<Rightarrow> string list" where
  "header_values name items = map snd (filter (\<lambda>item. equal_fold_ascii (fst item) name) items)"

end
