(* ===== verification/Imap_Commands.thy ===== *)
theory Imap_Commands
  imports Imap_Flags Mailbox_Resolution Go_Mail_Header
begin

text \<open>
  The reading commands of the IMAP client: CAPABILITY, LOGIN, ENABLE and the greeting
  (\<open>src/internal/transport/imapclient/imap.go\<close>), SELECT, LIST (\<open>commands.go\<close>), SEARCH (\<open>search.go\<close>),
  STATUS (\<open>status.go\<close>) and the FETCH of one body section (\<open>fetch.go\<close>). As in \<open>Imap_Wire\<close>, the server
  is every stream of bytes and the connection every list of call results.
\<close>

section \<open>Commands as a state monad with errors\<close>

type_synonym 'a imap_io = "imap_session \<Rightarrow> (imap_error + 'a) \<times> imap_session"

definition io_return :: "'a \<Rightarrow> 'a imap_io" where
  "io_return x s = (Inr x, s)"

definition io_fail :: "imap_error \<Rightarrow> 'a imap_io" where
  "io_fail e s = (Inl e, s)"

text \<open>An answer that cannot be trusted retires the session.\<close>

definition io_malformed :: "imap_error \<Rightarrow> 'a imap_io" where
  "io_malformed e s = (Inl e, mark_dirty s)"

definition io_bind :: "'a imap_io \<Rightarrow> ('a \<Rightarrow> 'b imap_io) \<Rightarrow> 'b imap_io" where
  "io_bind m f s = (case m s of (Inl e, s') \<Rightarrow> (Inl e, s') | (Inr x, s') \<Rightarrow> f x s')"

definition io_lift :: "imap_error + 'a \<Rightarrow> 'a imap_io" where
  "io_lift r s = (r, s)"

definition io_tag :: "string imap_io" where
  "io_tag s = (case next_tag s of (tag, s') \<Rightarrow> (Inr tag, s'))"

text \<open>\<open>setDeadline\<close> and \<open>writeLine\<close>, in the order every command calls them.\<close>

definition send_command :: "string \<Rightarrow> unit imap_io" where
  "send_command line = io_bind set_deadline (\<lambda>_ s. write_line s line)"

definition rejected_completion :: "string \<Rightarrow> string \<Rightarrow> string \<Rightarrow> string \<Rightarrow> imap_error" where
  "rejected_completion line tag command status =
     (let r = tagged_command_rejection command status (tagged_completion_text line tag)
      in CommandRejected (rj_command r) (rj_status r) (rj_response_code r))"

text \<open>The errors of \<open>readLogicalLine\<close> the commands report as a malformed response.\<close>

fun is_malformed_read :: "imap_error \<Rightarrow> bool" where
  "is_malformed_read LineTooLong = True"
| "is_malformed_read MalformedLiteral = True"
| "is_malformed_read LogicalTooLong = True"
| "is_malformed_read TooManyLiterals = True"
| "is_malformed_read (LiteralTooLarge n) = True"
| "is_malformed_read LiteralTruncated = True"
| "is_malformed_read _ = False"

definition malformed_read :: "imap_error \<Rightarrow> imap_error" where
  "malformed_read e = (if is_malformed_read e then ResponseMalformed else e)"

definition response_lines_exhausted :: imap_error where
  "response_lines_exhausted = BudgetExhausted ''command response lines''"

definition fresh_budget :: "response_budget option" where
  "fresh_budget = Some \<lparr>rb_metadata = 0, rb_payload = 0, rb_payload_limit = 0\<rparr>"

section \<open>Message identifiers\<close>

text \<open>\<open>normalizeMessageID\<close>: the loop over the runes between the angle brackets, quoted and escaped or not.\<close>

fun message_id_scan :: "bool \<Rightarrow> bool \<Rightarrow> nat list \<Rightarrow> bool" where
  "message_id_scan quoted escaped [] \<longleftrightarrow> \<not> escaped \<and> \<not> quoted"
| "message_id_scan quoted escaped (r # rs) \<longleftrightarrow> \<not> is_control_rune r \<and>
     (if escaped then message_id_scan quoted False rs
      else if r = 92 then message_id_scan quoted True rs
      else if r = 34 then message_id_scan (\<not> quoted) False rs
      else r \<noteq> 60 \<and> r \<noteq> 62 \<and> (\<not> is_space_rune r \<or> quoted) \<and> message_id_scan quoted False rs)"

definition normalize_message_id :: "string \<Rightarrow> string option" where
  "normalize_message_id s = (if s = [] \<or> trim_space s \<noteq> s then None
     else let opening = has_prefix s ''<''; closing = has_suffix s ''>'' in
       if opening \<noteq> closing then None
       else if opening \<and> length s \<le> 2 then None
       else let inner = (if opening then take (length s - 2) (drop 1 s) else s) in
         if message_id_scan False False (runes inner) then Some (''<'' @ inner @ ''>'') else None)"

section \<open>SEARCH\<close>

definition max_uid_search_results :: nat where
  "max_uid_search_results = 100000"

fun search_identities :: "string list \<Rightarrow> 32 word list \<Rightarrow> 32 word list option" where
  "search_identities [] uids = Some uids"
| "search_identities (f # fs) uids = (case parse_positive_uid f of
      None \<Rightarrow> None
    | Some uid \<Rightarrow> if max_uid_search_results \<le> length uids \<or> uid \<in> set uids then None
        else search_identities fs (uids @ [uid]))"

fun read_search_loop ::
    "nat \<Rightarrow> response_budget option \<Rightarrow> 32 word list option \<Rightarrow> string \<Rightarrow> string \<Rightarrow> 32 word list imap_io" where
  "read_search_loop 0 b found tag command s = io_malformed response_lines_exhausted s"
| "read_search_loop (Suc k) b found tag command s = io_bind (read_line max_response_line_bytes) (\<lambda>(line, n).
     case budget_consume b n False of
       Inl e \<Rightarrow> io_malformed e
     | Inr b \<Rightarrow>
         if has_prefix line (tag @ '' '') then
           (case parse_tagged_completion_status line tag of
              Inl e \<Rightarrow> io_malformed ResponseMalformed
            | Inr status \<Rightarrow>
                if status = ''OK'' then io_return (case found of None \<Rightarrow> [] | Some uids \<Rightarrow> uids)
                else io_fail (rejected_completion line tag command status))
         else if has_prefix line ''* SEARCH'' then
           (if line \<noteq> ''* SEARCH'' \<and> \<not> has_prefix line ''* SEARCH '' then io_malformed ResponseMalformed
            else if found \<noteq> None then io_malformed ResponseMalformed
            else case search_identities (drop 2 (str_fields line)) [] of
                None \<Rightarrow> io_malformed ResponseMalformed
              | Some uids \<Rightarrow> read_search_loop k b (Some uids) tag command)
         else read_search_loop k b found tag command) s"

definition read_search_results :: "string \<Rightarrow> string \<Rightarrow> 32 word list imap_io" where
  "read_search_results tag command = read_search_loop max_flag_response_count fresh_budget None tag command"

definition do_uid_search_criteria :: "string \<Rightarrow> string \<Rightarrow> 32 word list imap_io" where
  "do_uid_search_criteria tag criteria = io_bind (send_command (tag @ '' UID SEARCH '' @ criteria)) (\<lambda>_.
     read_search_results tag ''UID SEARCH'')"

text \<open>\<open>doUIDSearch\<close> and \<open>doSearch\<close>: the identifier is normalised again and quoted.\<close>

definition quoted_value :: "string \<Rightarrow> string imap_io" where
  "quoted_value v = io_lift (case safe_quote_imap v of Inl _ \<Rightarrow> Inl InvalidValue | Inr q \<Rightarrow> Inr q)"

definition normalized_id :: "string \<Rightarrow> string imap_io" where
  "normalized_id message_id = io_lift (case normalize_message_id message_id of None \<Rightarrow> Inl InvalidValue | Some v \<Rightarrow> Inr v)"

definition do_uid_search :: "string \<Rightarrow> string \<Rightarrow> 32 word list imap_io" where
  "do_uid_search tag message_id = io_bind (normalized_id message_id) (\<lambda>v. io_bind (quoted_value v) (\<lambda>q.
     do_uid_search_criteria tag (''HEADER Message-ID '' @ q)))"

definition do_search :: "string \<Rightarrow> string \<Rightarrow> nat imap_io" where
  "do_search tag message_id = io_bind (normalized_id message_id) (\<lambda>v. io_bind set_deadline (\<lambda>_.
     io_bind (quoted_value v) (\<lambda>q s. io_bind (\<lambda>s. write_line s (tag @ '' SEARCH HEADER Message-ID '' @ q)) (\<lambda>_.
     io_bind (read_search_results tag ''SEARCH'') (\<lambda>uids. io_return (length uids))) s)))"

section \<open>LIST\<close>

definition max_list_literal_bytes :: nat where "max_list_literal_bytes = 1048576"
definition max_list_response_bytes :: nat where "max_list_response_bytes = 8388608"
definition max_list_literal_count :: nat where "max_list_literal_count = 128"
definition max_list_operation_response_bytes :: nat where "max_list_operation_response_bytes = 33554432"
definition max_list_operation_response_lines :: nat where "max_list_operation_response_lines = 10000"
definition max_list_operation_mailboxes :: nat where "max_list_operation_mailboxes = 10000"

definition list_limits :: read_limits where
  "list_limits = \<lparr>rl_literal = max_list_literal_bytes, rl_response = max_list_response_bytes, rl_count = max_list_literal_count\<rparr>"

text \<open>The \<open>lines\<close> argument counts the untagged lines still allowed, \<open>used\<close> the bytes read so far.\<close>

fun read_list_loop ::
    "nat \<Rightarrow> nat \<Rightarrow> imap_mailbox list \<Rightarrow> mailbox_encoding \<Rightarrow> string \<Rightarrow> imap_mailbox list imap_io" where
  "read_list_loop lines used mailboxes e tag s = (case read_logical_line list_limits None s of
      (Inl err, s) \<Rightarrow> (Inl (malformed_read err), s)
    | (Inr ll, s) \<Rightarrow>
        let line = ll_text ll in
        if max_list_operation_response_bytes - used < ll_wire_bytes ll
        then io_malformed (BudgetExhausted ''cumulative response bytes'') s
        else if has_prefix line (tag @ '' '') then
          (case parse_tagged_completion_status line tag of
             Inl _ \<Rightarrow> io_malformed ResponseMalformed s
           | Inr status \<Rightarrow> if status = ''OK'' then io_return mailboxes s
               else io_fail (rejected_completion line tag ''LIST'' status) s)
        else if has_prefix line ''* LIST '' \<and> max_list_operation_mailboxes \<le> length mailboxes
        then io_malformed (BudgetExhausted ''parsed mailboxes'') s
        else (case lines of
            0 \<Rightarrow> io_malformed (BudgetExhausted ''untagged logical response lines'') s
          | Suc k \<Rightarrow>
              if \<not> has_prefix line ''* LIST '' then read_list_loop k (used + ll_wire_bytes ll) mailboxes e tag s
              else (case parse_list_mailbox line e (ll_literals ll) of
                  Inl _ \<Rightarrow> io_malformed ResponseMalformed s
                | Inr m \<Rightarrow> read_list_loop k (used + ll_wire_bytes ll) (mailboxes @ [m]) e tag s)))"

definition do_list :: "mailbox_encoding \<Rightarrow> string \<Rightarrow> imap_mailbox list imap_io" where
  "do_list e tag = io_bind (send_command (tag @ '' LIST \"\" \"*\"'')) (\<lambda>_.
     read_list_loop max_list_operation_response_lines 0 [] e tag)"

text \<open>\<open>listMailboxes\<close> and \<open>pickSent\<close>: what the rest of the program sees of a mailbox.\<close>

definition encoding_text :: "mailbox_encoding \<Rightarrow> string" where
  "encoding_text e = (case e of EncodingUnset \<Rightarrow> [] | EncodingModifiedUTF7 \<Rightarrow> ''modified_utf7''
     | EncodingUTF8 \<Rightarrow> ''utf8'' | EncodingOther \<Rightarrow> ''other'')"

definition mailbox_info_of :: "imap_mailbox \<Rightarrow> mailbox_info" where
  "mailbox_info_of m = (let wire = (if mx_wire_name m = [] then mx_name m else mx_wire_name m) in
     \<lparr>mi_name = wire, mi_wire = wire, mi_display = mx_display_name m, mi_path = mx_display_path m,
      mi_delimiter = mx_delimiter m, mi_encoding = encoding_text (mx_encoding m), mi_flags = mx_flags m\<rparr>)"

definition list_mailboxes :: "mailbox_encoding \<Rightarrow> mailbox_info list imap_io" where
  "list_mailboxes e = io_bind io_tag (\<lambda>tag. io_bind (do_list e tag) (\<lambda>ms. io_return (map mailbox_info_of ms)))"

definition pick_sent :: "normal_form \<Rightarrow> folding \<Rightarrow> imap_mailbox list \<Rightarrow> resolution_error + string" where
  "pick_sent nfc ef ms = resolve_sent_mailbox nfc ef (map mailbox_info_of ms)"

section \<open>STATUS\<close>

text \<open>The counts are Go's 64-bit signed \<open>int\<close>.\<close>

record mailbox_status =
  ms_mailbox :: string
  ms_messages :: "64 word"
  ms_unseen :: "64 word"
  ms_uid_next :: "32 word"
  ms_uid_validity :: "32 word"

definition empty_status :: "string \<Rightarrow> mailbox_status" where
  "empty_status m = \<lparr>ms_mailbox = m, ms_messages = 0, ms_unseen = 0, ms_uid_next = 0, ms_uid_validity = 0\<rparr>"

text \<open>\<open>parseStatusInt\<close>: the value is parsed as an unsigned 64-bit number and converted.\<close>

definition parse_status_int :: "string \<Rightarrow> 64 word option" where
  "parse_status_int v = map_option word_of_nat (parse_uint 64 v)"

definition parse_status_uint32 :: "string \<Rightarrow> 32 word option" where
  "parse_status_uint32 v = parse_positive_uid v"

fun status_token_end :: "string \<Rightarrow> nat" where
  "status_token_end [] = 0"
| "status_token_end (c # s) = (if is_space c \<or> c = CHR '')'' then 0 else Suc (status_token_end s))"

definition parse_status_token :: "value_parser \<Rightarrow> string \<Rightarrow> value_error + (string \<times> string \<times> value_parser)" where
  "parse_status_token p s0 = (let s = dropWhile is_space s0 in
     if s = [] then Inl EmptyToken
     else if hd s = CHR 0x22 \<or> has_prefix s [imap_literal_marker] then parse_value p s
     else let n = status_token_end s in
       if n = 0 then Inl EmptyToken else Inr (take n s, drop n s, p))"

lemma parse_status_token_shorter:
  assumes "parse_status_token p s = Inr (v, rest, p')"
  shows "length rest < length s"
proof -
  let ?s = "dropWhile is_space s"
  have "length ?s \<le> length s" by (rule length_dropWhile_le)
  show ?thesis
  proof (cases "hd ?s = CHR 0x22 \<or> has_prefix ?s [imap_literal_marker]")
    case True
    with assms have "parse_value p ?s = Inr (v, rest, p')" by (auto simp: parse_status_token_def Let_def split: if_splits)
    then have "length rest < length ?s" by (rule parse_value_shorter)
    then show ?thesis using \<open>length ?s \<le> length s\<close> by simp
  next
    case False
    with assms have "rest = drop (status_token_end ?s) ?s" "0 < status_token_end ?s" "?s \<noteq> []"
      by (auto simp: parse_status_token_def Let_def split: if_splits)
    then have "length rest < length ?s" by (cases ?s) auto
    then show ?thesis using \<open>length ?s \<le> length s\<close> by simp
  qed
qed

function parse_status_loop ::
    "value_parser \<Rightarrow> string list \<Rightarrow> string \<Rightarrow> value_error + (string list \<times> value_parser)" where
  "parse_status_loop p items v = (let s = dropWhile is_space v in
     if s = [] then Inl UnterminatedAttributes
     else if hd s = CHR '')'' then
       (if trim_space (tl s) \<noteq> [] then Inl TrailingListData else Inr (items, p))
     else case parse_status_token p s of
         Inl e \<Rightarrow> Inl e
       | Inr (field, rest, p') \<Rightarrow> parse_status_loop p' (items @ [field]) rest)"
  by pat_completeness auto
termination
proof (relation "measure (\<lambda>(p, items, v). length v)", goal_cases)
  case (2 p items v s r field q rest p')
  then have "parse_status_token p s = Inr (field, rest, p')" by simp
  then have "length rest < length s" by (rule parse_status_token_shorter)
  then show ?case using 2(1) dropWhile_length [of is_space v] by simp
qed simp

declare parse_status_loop.simps [simp del]

definition parse_status_fields :: "value_parser \<Rightarrow> string \<Rightarrow> value_error + (string list \<times> value_parser)" where
  "parse_status_fields p v =
     (if v = [] \<or> hd v \<noteq> CHR ''('' then Inl NoAttributeList else parse_status_loop p [] (tl v))"

definition assign_status_field :: "mailbox_status \<Rightarrow> string \<Rightarrow> string \<Rightarrow> mailbox_status option" where
  "assign_status_field st key v =
     (if key = ''MESSAGES'' then map_option (\<lambda>n. st\<lparr>ms_messages := n\<rparr>) (parse_status_int v)
      else if key = ''UNSEEN'' then map_option (\<lambda>n. st\<lparr>ms_unseen := n\<rparr>) (parse_status_int v)
      else if key = ''UIDNEXT'' then map_option (\<lambda>n. st\<lparr>ms_uid_next := n\<rparr>) (parse_status_uint32 v)
      else if key = ''UIDVALIDITY'' then map_option (\<lambda>n. st\<lparr>ms_uid_validity := n\<rparr>) (parse_status_uint32 v)
      else None)"

definition status_keys :: "string list" where
  "status_keys = [''MESSAGES'', ''UNSEEN'', ''UIDNEXT'', ''UIDVALIDITY'']"

text \<open>The loop of \<open>mapStatusFields\<close> over the pairs; \<open>seen\<close> holds the keys so far.\<close>

fun map_status_pairs :: "string list \<Rightarrow> mailbox_status \<Rightarrow> string list \<Rightarrow> (mailbox_status \<times> string list) option" where
  "map_status_pairs seen st (k # v # rest) = (let key = to_upper k in
     if key \<in> set seen then None
     else case assign_status_field st key v of
         None \<Rightarrow> None
       | Some st \<Rightarrow> map_status_pairs (seen @ [key]) st rest)"
| "map_status_pairs seen st _ = Some (st, seen)"

definition map_status_fields :: "string \<Rightarrow> string list \<Rightarrow> mailbox_status option" where
  "map_status_fields mailbox items =
     (if odd (length items) then None
      else case map_status_pairs [] (empty_status mailbox) items of
          None \<Rightarrow> None
        | Some (st, seen) \<Rightarrow>
            if \<not> list_all (\<lambda>k. k \<in> set seen) status_keys then None
            else if sint (ms_messages st) < sint (ms_unseen st) then None
            else Some st)"

definition parse_status_line :: "string \<Rightarrow> string list \<Rightarrow> mailbox_status option" where
  "parse_status_line line literals =
     (if \<not> has_prefix line ''* STATUS '' then None
      else case parse_value \<lparr>vp_literals = literals, vp_next = 0\<rparr> (drop (length ''* STATUS '') line) of
          Inl _ \<Rightarrow> None
        | Inr (mailbox, rest, p) \<Rightarrow>
            if mailbox = [] then None
            else (case parse_status_fields p (dropWhile is_space rest) of
                Inl _ \<Rightarrow> None
              | Inr (items, p) \<Rightarrow> if vp_next p \<noteq> length literals then None else map_status_fields mailbox items))"

text \<open>\<open>doStatus\<close>: what it returns beside an error is the status parsed so far.\<close>

fun read_status_loop ::
    "nat \<Rightarrow> response_budget option \<Rightarrow> bool \<Rightarrow> mailbox_status \<Rightarrow> string \<Rightarrow> string \<Rightarrow> imap_session
     \<Rightarrow> (mailbox_status \<times> imap_error option) \<times> imap_session" where
  "read_status_loop 0 b seen st tag mailbox s = ((st, Some response_lines_exhausted), mark_dirty s)"
| "read_status_loop (Suc k) b seen st tag mailbox s = (case read_logical_line list_limits b s of
      (Inl e, s) \<Rightarrow> ((st, Some (malformed_read e)), s)
    | (Inr ll, s) \<Rightarrow>
        let line = ll_text ll; malformed = ((st, Some ResponseMalformed), mark_dirty s) in
        if has_prefix line (tag @ '' '') then
          (case parse_tagged_completion_status line tag of
             Inl _ \<Rightarrow> malformed
           | Inr status \<Rightarrow>
               if status = ''OK'' then (if seen then ((st, None), s) else malformed)
               else ((st, Some (rejected_completion line tag ''STATUS'' status)), s))
        else if has_prefix line ''* STATUS '' then
          (if seen then malformed
           else case parse_status_line line (ll_literals ll) of
               None \<Rightarrow> malformed
             | Some parsed \<Rightarrow>
                 if ms_mailbox parsed \<noteq> mailbox then malformed
                 else read_status_loop k (ll_budget ll) True parsed tag mailbox s)
        else read_status_loop k (ll_budget ll) seen st tag mailbox s)"

definition do_status :: "string \<Rightarrow> string \<Rightarrow> imap_session \<Rightarrow> (mailbox_status \<times> imap_error option) \<times> imap_session" where
  "do_status tag mailbox s = (case safe_quote_imap mailbox of
      Inl _ \<Rightarrow> ((empty_status mailbox, Some InvalidValue), s)
    | Inr quoted \<Rightarrow>
        (case send_command (tag @ '' STATUS '' @ quoted @ '' (MESSAGES UNSEEN UIDNEXT UIDVALIDITY)'') s of
           (Inl e, s) \<Rightarrow> ((empty_status mailbox, Some e), s)
         | (Inr _, s) \<Rightarrow>
             read_status_loop max_flag_response_count fresh_budget False (empty_status mailbox) tag mailbox s))"

section \<open>SELECT\<close>

record select_info =
  si_uid_validity :: "32 word"
  si_exists :: nat
  si_exists_known :: bool
  si_permissions :: flag_permissions

definition empty_select :: select_info where
  "empty_select = \<lparr>si_uid_validity = 0, si_exists = 0, si_exists_known = False,
     si_permissions = \<lparr>pm_present = False, pm_flags = []\<rparr>\<rparr>"

definition observe_flag_code :: "select_info \<Rightarrow> string \<Rightarrow> select_info option" where
  "observe_flag_code si code = (case observe_code (si_permissions si) code of
      Inl _ \<Rightarrow> None
    | Inr pm \<Rightarrow> let si = si\<lparr>si_permissions := pm\<rparr>; fs = str_fields code in
        if fs = [] \<or> \<not> equal_fold_ascii (hd fs) ''UIDVALIDITY'' then Some si
        else if length fs \<noteq> 2 then None
        else (case parse_positive_uid (fs ! 1) of
            None \<Rightarrow> None
          | Some v \<Rightarrow> if si_uid_validity si \<noteq> 0 \<and> si_uid_validity si \<noteq> v then None
              else Some (si\<lparr>si_uid_validity := v\<rparr>)))"

text \<open>An untagged line after its response code: an EXISTS count, or nothing.\<close>

definition observe_exists :: "select_info \<Rightarrow> string \<Rightarrow> select_info option" where
  "observe_exists si line =
     (if \<not> has_prefix line ''* '' then Some si
      else let fs = str_fields line in
        if length fs < 3 \<or> \<not> equal_fold_ascii (fs ! 2) ''EXISTS'' then Some si
        else if to_upper (fs ! 1) \<in> set [''OK'', ''NO'', ''BAD'', ''BYE'', ''PREAUTH''] then Some si
        else (case parse_uint 32 (fs ! 1) of
            None \<Rightarrow> None
          | Some n \<Rightarrow> if length fs \<noteq> 3 then None else Some (si\<lparr>si_exists := n, si_exists_known := True\<rparr>)))"

fun read_select_loop :: "nat \<Rightarrow> nat \<Rightarrow> select_info \<Rightarrow> string \<Rightarrow> select_info imap_io" where
  "read_select_loop 0 remaining si tag s = io_malformed ResponseMalformed s"
| "read_select_loop (Suc k) remaining si tag s = (case read_logical_line
       \<lparr>rl_literal = max_response_line_bytes, rl_response = remaining, rl_count = 128\<rparr> None s of
      (Inl e, s) \<Rightarrow> (Inl e, s)
    | (Inr ll, s) \<Rightarrow>
        let line = ll_text ll; used = length line + 2 + sum_list (map length (ll_literals ll));
            tagged = has_prefix line (tag @ '' '') in
        if remaining < used then io_malformed ResponseMalformed s
        else (case (if tagged then parse_tagged_completion_status line tag else Inr ''OK'') of
            Inl _ \<Rightarrow> io_malformed ResponseMalformed s
          | Inr status \<Rightarrow>
              if status \<noteq> ''OK'' then io_fail (rejected_completion line tag ''SELECT'' status) s
              else (case flag_response_code line tag of
                  Inl _ \<Rightarrow> io_malformed ResponseMalformed s
                | Inr code \<Rightarrow> (case observe_flag_code si code of
                      None \<Rightarrow> io_malformed ResponseMalformed s
                    | Some si \<Rightarrow>
                        if tagged then io_return si s
                        else (case observe_exists si line of
                            None \<Rightarrow> io_malformed ResponseMalformed s
                          | Some si \<Rightarrow> read_select_loop k (remaining - used) si tag s)))))"

definition do_select_info :: "string \<Rightarrow> string \<Rightarrow> select_info imap_io" where
  "do_select_info tag mailbox = io_bind set_deadline (\<lambda>_. io_bind (quoted_value mailbox) (\<lambda>q.
     io_bind (\<lambda>s. write_line s (tag @ '' SELECT '' @ q)) (\<lambda>_.
     read_select_loop max_flag_response_count max_flag_response_bytes empty_select tag)))"

section \<open>Greeting, capabilities and login\<close>

record capabilities =
  cp_encoding :: mailbox_encoding
  cp_utf8_accept :: bool
  cp_utf8_only :: bool
  cp_known :: bool
  cp_move :: bool

text \<open>\<open>observeCapabilities\<close> leaves the session unchanged when it refuses the tokens.\<close>

definition observe_capabilities :: "capabilities \<Rightarrow> string list \<Rightarrow> capabilities option" where
  "observe_capabilities cp tokens =
     (if list_ex (\<lambda>t. \<not> valid_flag_atom t) tokens then None
      else if \<not> (''IMAP4REV1'' \<in> set tokens \<or> ''IMAP4REV2'' \<in> set tokens) then None
      else Some (cp\<lparr>cp_known := True, cp_move := (''IMAP4REV2'' \<in> set tokens \<or> ''MOVE'' \<in> set tokens),
        cp_utf8_accept := (''UTF8=ACCEPT'' \<in> set tokens \<or> ''UTF8=ONLY'' \<in> set tokens),
        cp_utf8_only := (''UTF8=ONLY'' \<in> set tokens)\<rparr>))"

definition read_greeting :: "capabilities imap_io" where
  "read_greeting = io_bind set_deadline (\<lambda>_. io_bind (read_line max_response_line_bytes) (\<lambda>(line, n).
     if \<not> has_prefix line ''* '' then io_malformed ResponseMalformed
     else io_return \<lparr>cp_encoding = EncodingModifiedUTF7, cp_utf8_accept = capability_line_advertises_utf8 line,
       cp_utf8_only = capability_line_requires_utf8 line, cp_known = False, cp_move = False\<rparr>))"

text \<open>\<open>refreshCapabilities\<close>; \<open>seen\<close> is the one capability line read so far.\<close>

fun read_capability_loop ::
    "nat \<Rightarrow> nat \<Rightarrow> string list option \<Rightarrow> capabilities \<Rightarrow> string \<Rightarrow> capabilities imap_io" where
  "read_capability_loop 0 remaining seen cp tag s = io_malformed ResponseMalformed s"
| "read_capability_loop (Suc k) remaining seen cp tag s = io_bind (read_line max_response_line_bytes) (\<lambda>(line, n).
     if remaining < length line + 2 then io_malformed ResponseMalformed
     else let announces = has_prefix (to_upper line) ''* CAPABILITY '' in
       if announces \<and> (seen \<noteq> None \<or> contains_any line [CHR 0x09, CHR '']'']) then io_malformed ResponseMalformed
       else let seen = (if announces then Some (capability_line_tokens line) else seen) in
         if \<not> has_prefix line (tag @ '' '')
         then read_capability_loop k (remaining - (length line + 2)) seen cp tag
         else (case parse_tagged_completion_status line tag of
             Inl _ \<Rightarrow> io_malformed ResponseMalformed
           | Inr status \<Rightarrow>
               if status \<noteq> ''OK'' then
                 (let r = tagged_command_rejection ''CAPABILITY'' status (trim_prefix line (tag @ '' '' @ status @ '' ''))
                  in io_fail (CommandRejected (rj_command r) (rj_status r) (rj_response_code r)))
               else (case Option.bind seen (observe_capabilities cp) of
                   None \<Rightarrow> io_malformed ResponseMalformed
                 | Some cp \<Rightarrow> io_return cp))) s"

definition refresh_capabilities :: "capabilities \<Rightarrow> capabilities imap_io" where
  "refresh_capabilities cp = io_bind io_tag (\<lambda>tag. io_bind (send_command (tag @ '' CAPABILITY'')) (\<lambda>_.
     read_capability_loop max_flag_response_count max_flag_response_bytes None cp tag))"

text \<open>The loop of \<open>enableUTF8\<close>.\<close>

fun read_enable_loop :: "nat \<Rightarrow> response_budget option \<Rightarrow> bool \<Rightarrow> capabilities \<Rightarrow> string \<Rightarrow> capabilities imap_io" where
  "read_enable_loop 0 b enabled cp tag s = io_malformed response_lines_exhausted s"
| "read_enable_loop (Suc k) b enabled cp tag s = io_bind (read_line max_response_line_bytes) (\<lambda>(line, n).
     case budget_consume b n False of
       Inl e \<Rightarrow> io_malformed e
     | Inr b \<Rightarrow>
         if has_prefix (to_upper line) ''* ENABLED '' then
           read_enable_loop k b (enabled \<or> list_ex (\<lambda>c. equal_fold_ascii c ''UTF8=ACCEPT'')
             (str_fields (drop (length ''* ENABLED '') line))) cp tag
         else if line \<noteq> tag \<and> \<not> has_prefix line (tag @ '' '') then read_enable_loop k b enabled cp tag
         else (case parse_tagged_completion_status line tag of
             Inl _ \<Rightarrow> io_malformed ResponseMalformed
           | Inr status \<Rightarrow>
               let cp = (if status = ''OK'' \<and> enabled then cp\<lparr>cp_encoding := EncodingUTF8\<rparr> else cp) in
               if cp_utf8_only cp \<and> cp_encoding cp \<noteq> EncodingUTF8 then io_malformed ResponseMalformed
               else io_return cp)) s"

definition enable_utf8 :: "capabilities \<Rightarrow> capabilities imap_io" where
  "enable_utf8 cp = io_bind
     (if \<not> cp_utf8_accept cp \<and> \<not> cp_known cp then refresh_capabilities cp else io_return cp) (\<lambda>cp.
       if \<not> cp_utf8_accept cp then io_return cp
       else io_bind io_tag (\<lambda>tag. io_bind (send_command (tag @ '' ENABLE UTF8=ACCEPT'')) (\<lambda>_.
         read_enable_loop max_flag_response_count fresh_budget False cp tag)))"

definition do_login :: "string \<Rightarrow> string \<Rightarrow> string \<Rightarrow> capabilities \<Rightarrow> capabilities imap_io" where
  "do_login tag username password cp = io_bind set_deadline (\<lambda>_. io_bind (quoted_value username) (\<lambda>u.
     io_bind (quoted_value password) (\<lambda>p.
     io_bind (\<lambda>s. write_line s (tag @ '' LOGIN '' @ u @ '' '' @ p)) (\<lambda>_.
     io_bind (read_final tag) (\<lambda>(status, response).
       let line = tag @ '' '' @ status @ (if response = [] then [] else '' '' @ response) in
       case parse_tagged_completion_status line tag of
         Inl _ \<Rightarrow> io_malformed ResponseMalformed
       | Inr status \<Rightarrow>
           if status = ''OK'' then
             (case flag_response_code line tag of
                Inl _ \<Rightarrow> io_malformed ResponseMalformed
              | Inr code \<Rightarrow>
                  if has_prefix (to_upper code) ''CAPABILITY '' then
                    (case observe_capabilities cp (capability_line_tokens line) of
                       None \<Rightarrow> io_malformed ResponseMalformed | Some cp \<Rightarrow> io_return cp)
                  else io_return cp)
           else (let r = tagged_command_rejection ''LOGIN'' status response
                 in io_fail (CommandRejected (rj_command r) (rj_status r) (rj_response_code r))))))))"

text \<open>\<open>connect\<close>, from the dialed connection on.\<close>

definition connect_session :: "string \<Rightarrow> string \<Rightarrow> capabilities imap_io" where
  "connect_session username password = io_bind read_greeting (\<lambda>cp. io_bind io_tag (\<lambda>tag.
     io_bind (do_login tag username password cp) enable_utf8))"

section \<open>FETCH of one body section\<close>

definition max_message_id_header_bytes :: nat where
  "max_message_id_header_bytes = 1048576"

definition fetch_response_limit :: "nat \<Rightarrow> nat" where
  "fetch_response_limit n = (if 2 ^ 63 - 1 - max_response_line_bytes < n then n else n + max_response_line_bytes)"

definition validate_fetch_response_validity :: "string \<Rightarrow> string \<Rightarrow> 32 word \<Rightarrow> imap_error option" where
  "validate_fetch_response_validity line tag expected = (case flag_response_code line tag of
      Inl _ \<Rightarrow> Some ResponseMalformed
    | Inr code \<Rightarrow> let fs = str_fields code in
        if fs = [] \<or> \<not> equal_fold_ascii (hd fs) ''UIDVALIDITY'' \<or> expected = 0 then None
        else if length fs \<noteq> 2 then Some ResponseMalformed
        else (case parse_positive_uid (fs ! 1) of
            None \<Rightarrow> Some ResponseMalformed
          | Some observed \<Rightarrow> (case check_uid_validity expected observed of Inl e \<Rightarrow> Some e | Inr _ \<Rightarrow> None)))"

text \<open>Whether the context is still alive.\<close>

definition context_alive :: "unit imap_io" where
  "context_alive s = (case next_fault s of (IoOk, s) \<Rightarrow> (Inr (), s) | (_, s) \<Rightarrow> (Inl Canceled, s))"

record fetch_progress =
  fg_found :: bool
  fg_payload :: "string option"
  fg_mismatch :: bool

text \<open>The tagged completion: the payload, if everything the request needs was seen.\<close>

definition finish_fetch :: "fetch_progress \<Rightarrow> nat \<Rightarrow> string imap_io" where
  "finish_fetch g max_bytes =
     (if \<not> fg_found g then (if fg_mismatch g then io_malformed MessageUidMismatch else io_fail MessageNotFound)
      else case fg_payload g of
          None \<Rightarrow> io_fail MessageNotFound
        | Some payload \<Rightarrow>
            if max_bytes < length payload then io_malformed (LiteralTooLarge (length payload))
            else io_bind context_alive (\<lambda>_. io_return payload))"

text \<open>One untagged response of the loop of \<open>readFetchSource\<close>.\<close>

definition consume_fetch_line ::
    "fetch_progress \<Rightarrow> string \<Rightarrow> string list \<Rightarrow> 32 word \<Rightarrow> string \<Rightarrow> fetch_progress option" where
  "consume_fetch_line g line literals uid section_name =
     (if \<not> is_fetch_response_candidate line then Some g
      else case parse_fetch_response line literals of
          Inl _ \<Rightarrow> None
        | Inr r \<Rightarrow>
            if \<not> fr_body_present r then Some g
            else if \<not> fr_uid_present r \<or> fr_uid r \<noteq> uid then Some (g\<lparr>fg_mismatch := True\<rparr>)
            else if fg_found g then None
            else if map fst (fr_sections r) \<noteq> [section_name] then None
            else Some (g\<lparr>fg_found := True, fg_payload := (if fr_body_literal r then Some (fr_body r) else None)\<rparr>))"

fun read_fetch_loop ::
    "nat \<Rightarrow> response_budget option \<Rightarrow> fetch_progress \<Rightarrow> string \<Rightarrow> 32 word \<Rightarrow> 32 word \<Rightarrow> nat \<Rightarrow> string \<Rightarrow> string imap_io" where
  "read_fetch_loop 0 b g tag uid expected max_bytes section_name s = io_malformed response_lines_exhausted s"
| "read_fetch_loop (Suc k) b g tag uid expected max_bytes section_name s = io_bind context_alive (\<lambda>_.
     io_bind (read_logical_line \<lparr>rl_literal = max_bytes, rl_response = fetch_response_limit max_bytes, rl_count = 128\<rparr> b) (\<lambda>ll.
     let line = ll_text ll in
     case validate_fetch_response_validity line tag expected of
       Some e \<Rightarrow> io_malformed e
     | None \<Rightarrow>
         if line = tag \<or> has_prefix line (tag @ '' '') then
           (case parse_tagged_completion_status line tag of
              Inl _ \<Rightarrow> io_malformed ResponseMalformed
            | Inr status \<Rightarrow> if status = ''OK'' then finish_fetch g max_bytes else io_fail (CommandFailed status))
         else (case consume_fetch_line g line (ll_literals ll) uid section_name of
             None \<Rightarrow> io_malformed ResponseMalformed
           | Some g \<Rightarrow> read_fetch_loop k (ll_budget ll) g tag uid expected max_bytes section_name))) s"

definition no_progress :: fetch_progress where
  "no_progress = \<lparr>fg_found = False, fg_payload = None, fg_mismatch = False\<rparr>"

definition read_fetch_source :: "string \<Rightarrow> 32 word \<Rightarrow> 32 word \<Rightarrow> nat \<Rightarrow> string \<Rightarrow> string imap_io" where
  "read_fetch_source tag uid expected max_bytes body_section =
     (if max_bytes = 0 then io_fail InvalidValue
      else read_fetch_loop max_flag_response_count (Some \<lparr>rb_metadata = 0, rb_payload = 0, rb_payload_limit = max_bytes\<rparr>)
        no_progress tag uid expected max_bytes (replace_first (to_upper body_section) ''BODY.PEEK['' ''BODY['')) "

section \<open>Message identity\<close>

definition message_id_section :: string where
  "message_id_section = ''BODY[HEADER.FIELDS (MESSAGE-ID)]''"

text \<open>What a header block says of the wanted identifier: a mismatch, an error, or a match.\<close>

definition header_identity :: "string \<Rightarrow> string \<Rightarrow> bool option" where
  "header_identity raw wanted = (case read_message_header raw of
      None \<Rightarrow> None
    | Some items \<Rightarrow> (case header_values ''Message-ID'' items of
        [v] \<Rightarrow> map_option (\<lambda>actual. actual = wanted) (normalize_message_id (trim_space v))
      | _ \<Rightarrow> None))"

definition check_message_id :: "32 word \<Rightarrow> string \<Rightarrow> bool imap_io" where
  "check_message_id uid wanted = io_bind (io_lift (validate_message_uid uid)) (\<lambda>_. io_bind io_tag (\<lambda>tag.
     io_bind (send_command (tag @ '' UID FETCH '' @ format_uint (unat uid)
       @ '' (BODY.PEEK[HEADER.FIELDS (MESSAGE-ID)])'')) (\<lambda>_.
     io_bind (read_fetch_source tag uid 0 max_message_id_header_bytes message_id_section) (\<lambda>raw.
       case header_identity raw wanted of None \<Rightarrow> io_fail MessageNotFound | Some b \<Rightarrow> io_return b))))"

text \<open>\<open>verifySearchCandidates\<close>: the last exact match and their number.\<close>

fun verify_search_candidates :: "32 word \<Rightarrow> nat \<Rightarrow> 32 word list \<Rightarrow> string \<Rightarrow> (32 word \<times> nat) imap_io" where
  "verify_search_candidates uid n [] wanted = (if n = 0 then io_fail MessageNotFound else io_return (uid, n))"
| "verify_search_candidates uid n (c # cs) wanted = io_bind (check_message_id c wanted) (\<lambda>matched.
     if matched then verify_search_candidates c (n + 1) cs wanted else verify_search_candidates uid n cs wanted)"

text \<open>The mailbox a pooled session has selected, and \<open>ensureSelected\<close>.\<close>

record selection =
  sl_mailbox :: string
  sl_validity :: "32 word"

definition ensure_selected :: "selection \<Rightarrow> string \<Rightarrow> imap_session \<Rightarrow> ((imap_error + 32 word) \<times> selection) \<times> imap_session" where
  "ensure_selected sel mailbox s =
     (if sl_mailbox sel = mailbox then ((Inr (sl_validity sel), sel), s)
      else case io_bind io_tag (\<lambda>tag. do_select_info tag mailbox) s of
          (Inl e, s) \<Rightarrow> ((Inl e, \<lparr>sl_mailbox = [], sl_validity = 0\<rparr>), s)
        | (Inr si, s) \<Rightarrow> ((Inr (si_uid_validity si), \<lparr>sl_mailbox = mailbox, sl_validity = si_uid_validity si\<rparr>), s))"

text \<open>\<open>searchUIDOnSession\<close>: the UID, the UIDVALIDITY and the number of exact matches, beside the error.\<close>

definition search_uid_on_session ::
    "selection \<Rightarrow> string \<Rightarrow> string \<Rightarrow> imap_session
     \<Rightarrow> (((32 word \<times> 32 word \<times> nat) \<times> imap_error option) \<times> selection) \<times> imap_session" where
  "search_uid_on_session sel mailbox wanted s = (case ensure_selected sel mailbox s of
      ((Inl e, sel), s) \<Rightarrow> ((((0, 0, 0), Some e), sel), s)
    | ((Inr validity, sel), s) \<Rightarrow>
        (case io_bind io_tag (\<lambda>tag. do_uid_search tag wanted) s of
           (Inl e, s) \<Rightarrow> ((((0, 0, 0), Some e), sel), s)
         | (Inr uids, s) \<Rightarrow>
             if uids = [] then ((((0, validity, 0), Some MessageNotFound), sel), s)
             else (case verify_search_candidates 0 0 uids wanted s of
                 (Inl e, s) \<Rightarrow> ((((0, validity, 0), Some e), sel), s)
               | (Inr (uid, n), s) \<Rightarrow> ((((uid, validity, n), None), sel), s))))"

section \<open>What a SEARCH reports\<close>

lemma io_bind_Inr: "io_bind m f s = (Inr y, s') \<longleftrightarrow> (\<exists>x s1. m s = (Inr x, s1) \<and> f x s1 = (Inr y, s'))"
  by (auto simp: io_bind_def split: prod.splits sum.splits)

lemma io_bind_Inl:
  "io_bind m f s = (Inl e, s') \<longleftrightarrow> m s = (Inl e, s') \<or> (\<exists>x s1. m s = (Inr x, s1) \<and> f x s1 = (Inl e, s'))"
  by (auto simp: io_bind_def split: prod.splits sum.splits)

lemma io_simps [simp]:
  "io_return x s = (r, s') \<longleftrightarrow> r = Inr x \<and> s' = s"
  "io_fail e s = (r, s') \<longleftrightarrow> r = Inl e \<and> s' = s"
  "io_malformed e s = (r, s') \<longleftrightarrow> r = Inl e \<and> s' = mark_dirty s"
  "io_lift v s = (r, s') \<longleftrightarrow> r = v \<and> s' = s"
  by (auto simp: io_return_def io_fail_def io_malformed_def io_lift_def)

inductive lines_read :: "imap_session \<Rightarrow> string list \<Rightarrow> imap_session \<Rightarrow> bool" where
  no_line: "lines_read s [] s"
| one_line: "read_line max_response_line_bytes s = (Inr (line, n), s1) \<Longrightarrow> lines_read s1 ls s' \<Longrightarrow> lines_read s (line # ls) s'"

lemma search_identities_spec:
  assumes "search_identities fs uids = Some result" "distinct uids" "0 \<notin> set uids" "length uids \<le> max_uid_search_results"
  shows "distinct result \<and> 0 \<notin> set result \<and> length result \<le> max_uid_search_results
    \<and> map Some result = map Some uids @ map parse_positive_uid fs"
  using assms
proof (induction fs uids rule: search_identities.induct)
  case (2 f fs uids)
  obtain uid where u: "parse_positive_uid f = Some uid" "\<not> (max_uid_search_results \<le> length uids \<or> uid \<in> set uids)"
    using "2.prems"(1) by (auto split: option.splits if_splits)
  then have "uid \<noteq> 0" 
    by (auto simp: parse_positive_uid_def parse_uint_def word_of_nat_eq_0_iff split: option.splits if_splits dest: nat_dvd_not_less)
  then show ?case using "2.IH" [OF u] "2.prems" u by simp
qed simp

definition is_search_line :: "string \<Rightarrow> bool" where
  "is_search_line line \<longleftrightarrow> has_prefix line ''* SEARCH''"

definition found_in :: "32 word list option \<Rightarrow> string list \<Rightarrow> 32 word list \<Rightarrow> bool" where
  "found_in found ls uids \<longleftrightarrow> (case found of
      Some u \<Rightarrow> ls = [] \<and> uids = u
    | None \<Rightarrow> ls = [] \<and> uids = [] \<or> (\<exists>line. ls = [line] \<and> map Some uids = map parse_positive_uid (drop 2 (str_fields line))))"

lemma search_loop_spec:
  assumes "read_search_loop k b found tag command s = (Inr uids, s')"
    "\<forall>u. found = Some u \<longrightarrow> distinct u \<and> 0 \<notin> set u \<and> length u \<le> max_uid_search_results"
  shows "\<exists>ls final. lines_read s (ls @ [final]) s' \<and> has_prefix final (tag @ '' '')
    \<and> parse_tagged_completion_status final tag = Inr ''OK'' \<and> list_all (\<lambda>l. \<not> has_prefix l (tag @ '' '')) ls
    \<and> length ls < k \<and> found_in found (filter is_search_line ls) uids
    \<and> distinct uids \<and> 0 \<notin> set uids \<and> length uids \<le> max_uid_search_results"
  using assms
proof (induction k arbitrary: b found s)
  case (Suc k)
  obtain r s1 where rs: "read_line max_response_line_bytes s = (r, s1)" by fastforce
  with Suc.prems(1) obtain line n where r: "r = Inr (line, n)" by (cases r) (auto simp: io_bind_def)
  note rl = rs [unfolded r]
  obtain b1 where b1: "budget_consume b n False = Inr b1"
    using Suc.prems(1) rl by (cases "budget_consume b n False") (auto simp: io_bind_def)
  consider (final) "has_prefix line (tag @ '' '')" | (search) "\<not> has_prefix line (tag @ '' '')" "is_search_line line"
    | (other) "\<not> has_prefix line (tag @ '' '')" "\<not> is_search_line line" by blast
  then show ?case
  proof cases
    case final
    with Suc.prems(1) rl b1 have "parse_tagged_completion_status line tag = Inr ''OK''" "s' = s1"
      "uids = (case found of None \<Rightarrow> [] | Some u \<Rightarrow> u)"
      by (auto simp: io_bind_def split: sum.splits if_splits)
    then show ?thesis using final rl Suc.prems(2)
      by (intro exI [of _ "[]"] exI [of _ line]) (auto simp: found_in_def intro: lines_read.intros split: option.splits)
  next
    case search
    with Suc.prems(1) rl b1 obtain u where u: "found = None" "search_identities (drop 2 (str_fields line)) [] = Some u"
      "read_search_loop k b1 (Some u) tag command s1 = (Inr uids, s')"
      "line = ''* SEARCH'' \<or> has_prefix line ''* SEARCH ''"
      by (auto simp: io_bind_def is_search_line_def split: option.splits if_splits)
    have spec: "distinct u \<and> 0 \<notin> set u \<and> length u \<le> max_uid_search_results \<and> map Some u = map parse_positive_uid (drop 2 (str_fields line))"
      using search_identities_spec [OF u(2)] by simp
    then obtain ls final where "lines_read s1 (ls @ [final]) s' \<and> has_prefix final (tag @ '' '')
      \<and> parse_tagged_completion_status final tag = Inr ''OK'' \<and> list_all (\<lambda>l. \<not> has_prefix l (tag @ '' '')) ls
      \<and> length ls < k \<and> found_in (Some u) (filter is_search_line ls) uids
      \<and> distinct uids \<and> 0 \<notin> set uids \<and> length uids \<le> max_uid_search_results"
      using Suc.IH [OF u(3)] spec by auto
    then show ?thesis using rl search u(1) spec
      by (intro exI [of _ "line # ls"] exI [of _ final]) (auto simp: found_in_def intro: lines_read.intros)
  next
    case other
    with Suc.prems(1) rl b1 have "read_search_loop k b1 found tag command s1 = (Inr uids, s')"
      by (auto simp: io_bind_def is_search_line_def)
    then obtain ls final where "lines_read s1 (ls @ [final]) s' \<and> has_prefix final (tag @ '' '')
      \<and> parse_tagged_completion_status final tag = Inr ''OK'' \<and> list_all (\<lambda>l. \<not> has_prefix l (tag @ '' '')) ls
      \<and> length ls < k \<and> found_in found (filter is_search_line ls) uids
      \<and> distinct uids \<and> 0 \<notin> set uids \<and> length uids \<le> max_uid_search_results"
      using Suc.IH [OF _ Suc.prems(2)] by blast
    then show ?thesis using rl other
      by (intro exI [of _ "line # ls"] exI [of _ final]) (auto intro: lines_read.intros)
  qed
qed (simp add: io_malformed_def)

text \<open>What a SEARCH returns is exactly what the server's one SEARCH line said before the tagged OK, or nothing when
  there was none: distinct positive identities within the limit, with fewer than 1024 lines read.\<close>

theorem search_reports_one_line:
  assumes "read_search_results tag command s = (Inr uids, s')"
  shows "\<exists>ls final. lines_read s (ls @ [final]) s' \<and> has_prefix final (tag @ '' '')
    \<and> parse_tagged_completion_status final tag = Inr ''OK'' \<and> list_all (\<lambda>l. \<not> has_prefix l (tag @ '' '')) ls
    \<and> length ls < max_flag_response_count \<and> found_in None (filter is_search_line ls) uids
    \<and> distinct uids \<and> 0 \<notin> set uids \<and> length uids \<le> max_uid_search_results"
  by (rule search_loop_spec [OF assms [unfolded read_search_results_def]]) simp

definition example_stream :: "string list \<Rightarrow> imap_session" where
  "example_stream lines = \<lparr>se_in = concat (map (\<lambda>l. l @ crlf) lines), se_out = [], se_dirty = False, se_next_tag = 1,
     se_tag_prefix = ''A'', se_faults = []\<rparr>"

lemma read_example_line:
  assumes "CHR 0x0A \<notin> set l" "l = [] \<or> last l \<noteq> CHR 0x0D" "length l + 2 \<le> limit"
  shows "read_line limit (example_stream (l # ls)) = (Inr (l, length l + 2), example_stream ls)"
  using read_line_crlf [where t = l and limit = limit and s = "example_stream []" and rest = "se_in (example_stream ls)"] assms
  by (simp add: example_stream_def)

lemma response_count_steps: "\<exists>k. max_flag_response_count = Suc (Suc (Suc k))"
  by (rule exI [of _ 1021]) (simp add: max_flag_response_count_def)

lemma consume_fresh_budget: "n \<le> 1000 \<Longrightarrow> budget_consume (Some \<lparr>rb_metadata = m, rb_payload = 0, rb_payload_limit = 0\<rparr>) n False
    = (if max_flag_response_bytes - m < n then Inl (BudgetExhausted ''command response metadata bytes'')
       else Inr (Some \<lparr>rb_metadata = m + n, rb_payload = 0, rb_payload_limit = 0\<rparr>))"
  by (simp add: budget_consume_def)

lemma ok_bytes: "byte_of 79 = CHR ''O''" "byte_of 75 = CHR ''K''"
  by code_simp+

lemma example_search:
  "read_search_results ''A1'' ''UID SEARCH'' (example_stream [''* SEARCH 7'', ''A1 OK done'']) = (Inr [7], example_stream [])"
proof -
  have f: "str_fields ''* SEARCH 7'' = [''*'', ''SEARCH'', ''7'']"
    by (simp add: str_fields_def utf8_chunks_ascii is_space_rune_def)
  have o: "parse_tagged_completion_status ''A1 OK done'' ''A1'' = Inr ''OK''"
    using ok_bytes by (simp add: parse_tagged_completion_status_def str_fields_def utf8_chunks_ascii is_space_rune_def to_upper_def runes_def upper_rune_def encode_runes_def encode_rune_def encode_scalar_def is_scalar_def)
  have p: "parse_positive_uid ''7'' = Some 7"
    by (simp add: parse_positive_uid_def parse_uint_def decimal_value_def is_digit_def)
  have r1: "read_line max_response_line_bytes (example_stream [''* SEARCH 7'', ''A1 OK done'']) = (Inr (''* SEARCH 7'', 12), example_stream [''A1 OK done''])"
    by (simp add: read_example_line max_response_line_bytes_def)
  have r2: "read_line max_response_line_bytes (example_stream [''A1 OK done'']) = (Inr (''A1 OK done'', 12), example_stream [])"
    by (simp add: read_example_line max_response_line_bytes_def)
  have x: "has_prefix ''* SEARCH 7'' (''A1'' @ '' '') = False" "has_prefix ''* SEARCH 7'' ''* SEARCH'' = True" "has_prefix ''* SEARCH 7'' ''* SEARCH '' = True"
    "has_prefix ''A1 OK done'' (''A1'' @ '' '') = True" by (simp_all add: has_prefix_def)
  have i: "search_identities [''7''] [] = Some [7]" by (simp add: p max_uid_search_results_def)
  have b1: "\<exists>b2. budget_consume fresh_budget 12 False = Inr b2 \<and> (\<exists>b3. budget_consume b2 12 False = Inr b3)"
    by (simp add: budget_consume_def fresh_budget_def max_flag_response_bytes_def)
  then obtain b2 b3 where b2: "budget_consume fresh_budget 12 False = Inr b2" "budget_consume b2 12 False = Inr b3" by blast
  obtain k where k: "max_flag_response_count = Suc (Suc (Suc k))" using response_count_steps by blast
  have y: "read_search_loop (Suc k') b (Some [7]) ''A1'' ''UID SEARCH'' (example_stream [''A1 OK done'']) = (Inr [7], example_stream [])"
    if "budget_consume b 12 False = Inr b3" for k' b
    unfolding read_search_loop.simps io_bind_def r2 by (simp only: prod.case sum.case that x o if_True) simp
  show ?thesis
    unfolding read_search_results_def k
    unfolding read_search_loop.simps(2) [of "Suc (Suc k)"] io_bind_def r1
    by (simp only: prod.case sum.case b2 x f o i if_True if_False option.case drop_Suc_Cons drop_0 numeral_2_eq_2 simp_thms y [OF b2(2)])
qed

theorem search_reports_one_line_witness:
  "\<exists>ls final. lines_read (example_stream [''* SEARCH 7'', ''A1 OK done'']) (ls @ [final]) (example_stream [])
    \<and> found_in None (filter is_search_line ls) [7]"
  using search_reports_one_line [OF example_search] by blast

section \<open>STATUS\<close>

text \<open>A count of STATUS is stored as a negative number exactly when the server announces \<open>2^63\<close> or more.\<close>

theorem status_count_sign:
  assumes "parse_status_int v = Some n"
  shows "(sint n < 0) = (2 ^ 63 \<le> decimal_value v)"
proof -
  from assms have n: "n = word_of_nat (decimal_value v)" and less: "decimal_value v < 2 ^ 64"
    by (auto simp: parse_status_int_def parse_uint_def split: if_splits)
  let ?k = "int (decimal_value v)"
  have s: "sint n = signed_take_bit 63 ?k" unfolding n by (simp add: signed_of_nat)
  define q where "q = ?k div 2 ^ 63"
  have "q < 2" "0 \<le> q" using less unfolding q_def by (simp_all add: div_less_iff_less_mult)
  then have q: "q = 0 \<or> q = 1" by arith
  have "bit ?k 63 = odd q" unfolding bit_iff_odd q_def by (rule refl)
  also have "\<dots> = (0 < q)" using q by auto
  also have "\<dots> = (2 ^ 63 \<le> decimal_value v)" unfolding q_def by (subst pos_imp_zdiv_pos_iff) simp_all
  finally show ?thesis unfolding s by simp
qed

lemma to_upper_capitals: "list_all is_upper s \<Longrightarrow> to_upper s = s"
proof (induction s)
  case (Cons c s)
  then have c: "65 \<le> byte_val c" "byte_val c \<le> 90" by (simp_all add: is_upper_def)
  then have "encode_rune (upper_rune (byte_val c)) = [c]"
    by (simp add: upper_rune_def encode_rune_def encode_scalar_def is_scalar_def)
  moreover have "runes (c # s) = byte_val c # runes s" using c by (simp add: runes_def utf8_chunks_ascii)
  ultimately show ?case using Cons by (simp add: to_upper_def encode_runes_def)
qed (simp add: to_upper_def runes_def encode_runes_def)

text \<open>A STATUS answer whose two counts are just below \<open>2^64\<close> is accepted, with both negative.\<close>

definition huge_status :: "string list" where
  "huge_status = [''MESSAGES'', ''18446744073709551615'', ''UNSEEN'', ''18446744073709551614'',
     ''UIDNEXT'', ''1'', ''UIDVALIDITY'', ''1'']"

lemma huge_counts: "parse_status_int ''18446744073709551615'' = Some (-1)" "parse_status_int ''18446744073709551614'' = Some (-2)"
  by (simp_all add: parse_status_int_def parse_uint_def decimal_value_def is_digit_def)

lemma huge_uids: "parse_status_uint32 ''1'' = Some 1"
  by (simp add: parse_status_uint32_def parse_positive_uid_def parse_uint_def decimal_value_def is_digit_def)

lemma status_negative_accepted:
  "\<exists>st. map_status_fields ''INBOX'' huge_status = Some st \<and> sint (ms_messages st) = -1 \<and> sint (ms_unseen st) = -2"
  by (simp add: map_status_fields_def huge_status_def assign_status_field_def huge_counts huge_uids to_upper_capitals
      is_upper_def status_keys_def empty_status_def)

theorem status_count_sign_witness: "sint (the (parse_status_int ''18446744073709551615'')) < 0"
  using status_count_sign [OF huge_counts(1)] by (simp add: huge_counts decimal_value_def)

definition status_seen :: "string \<Rightarrow> string list \<Rightarrow> mailbox_status \<Rightarrow> bool" where
  "status_seen mailbox seen st \<longleftrightarrow> ms_mailbox st = mailbox \<and> (''UIDNEXT'' \<in> set seen \<longrightarrow> ms_uid_next st \<noteq> 0)
     \<and> (''UIDVALIDITY'' \<in> set seen \<longrightarrow> ms_uid_validity st \<noteq> 0)"

lemma parse_positive_uid_nonzero: "parse_positive_uid v = Some n \<Longrightarrow> n \<noteq> 0"
  by (auto simp: parse_positive_uid_def parse_uint_def word_of_nat_eq_0_iff split: option.splits if_splits dest: nat_dvd_not_less)

lemma assign_status_seen:
  "assign_status_field st key v = Some st' \<Longrightarrow> status_seen mailbox seen st \<Longrightarrow> status_seen mailbox (seen @ [key]) st'"
  by (auto simp: assign_status_field_def status_seen_def parse_status_uint32_def dest: parse_positive_uid_nonzero split: if_splits)

lemma map_status_pairs_seen:
  "map_status_pairs seen st items = Some (st', seen') \<Longrightarrow> status_seen mailbox seen st \<Longrightarrow> status_seen mailbox seen' st'"
  by (induction seen st items rule: map_status_pairs.induct)
    (auto simp: Let_def split: if_splits option.splits dest: assign_status_seen)

lemma map_status_fields_sound:
  assumes "map_status_fields mailbox items = Some st"
  shows "ms_mailbox st = mailbox \<and> ms_uid_next st \<noteq> 0 \<and> ms_uid_validity st \<noteq> 0 \<and> sint (ms_unseen st) \<le> sint (ms_messages st)"
proof -
  from assms obtain seen where p: "map_status_pairs [] (empty_status mailbox) items = Some (st, seen)"
    and k: "list_all (\<lambda>k. k \<in> set seen) status_keys" "sint (ms_unseen st) \<le> sint (ms_messages st)"
    by (auto simp: map_status_fields_def split: if_splits option.splits)
  have "status_seen mailbox seen st"
    by (rule map_status_pairs_seen [OF p]) (simp add: status_seen_def empty_status_def)
  then show ?thesis using k by (auto simp: status_seen_def status_keys_def)
qed

text \<open>The status a reading loop starts from is sound once \<open>seen\<close>.\<close>

definition sound_status :: "string \<Rightarrow> mailbox_status \<Rightarrow> bool" where
  "sound_status mailbox st \<longleftrightarrow> ms_mailbox st = mailbox \<and> ms_uid_next st \<noteq> 0 \<and> ms_uid_validity st \<noteq> 0
     \<and> sint (ms_unseen st) \<le> sint (ms_messages st)"

lemma parse_status_line_sound: "parse_status_line line lits = Some st \<Longrightarrow> sound_status (ms_mailbox st) st"
  by (auto simp: parse_status_line_def sound_status_def dest: map_status_fields_sound split: if_splits sum.splits prod.splits)

lemma read_status_loop_sound:
  "read_status_loop k b seen st tag mailbox s = ((st', None), s') \<Longrightarrow> (seen \<longrightarrow> sound_status mailbox st) \<Longrightarrow> sound_status mailbox st'"
  by (induction k b seen st tag mailbox s rule: read_status_loop.induct)
    (auto simp: Let_def split: prod.splits sum.splits if_splits option.splits dest: parse_status_line_sound)

text \<open>A STATUS that succeeds was answered for the requested mailbox, with a positive UIDNEXT and UIDVALIDITY and
  no more unseen messages than messages.\<close>

theorem status_sound:
  "case do_status tag mailbox s of
     ((st, None), _) \<Rightarrow> ms_mailbox st = mailbox \<and> ms_uid_next st \<noteq> 0 \<and> ms_uid_validity st \<noteq> 0
       \<and> sint (ms_unseen st) \<le> sint (ms_messages st)
   | _ \<Rightarrow> True"
proof -
  have "sound_status mailbox st" if "do_status tag mailbox s = ((st, None), s')" for st s'
  proof -
    from that obtain s1 where
      "read_status_loop max_flag_response_count fresh_budget False (empty_status mailbox) tag mailbox s1 = ((st, None), s')"
      by (auto simp: do_status_def split: sum.splits prod.splits)
    from read_status_loop_sound [OF this] show ?thesis by simp
  qed
  then show ?thesis by (auto simp: sound_status_def split: prod.splits option.splits)
qed

section \<open>Postconditions of commands\<close>

text \<open>What a command that succeeds returned, whatever the server sent.\<close>

definition io_post :: "'a imap_io \<Rightarrow> ('a \<Rightarrow> bool) \<Rightarrow> bool" where
  "io_post m Q \<longleftrightarrow> (\<forall>s x s'. m s = (Inr x, s') \<longrightarrow> Q x)"

named_theorems io_post_intros

lemma io_postD: "io_post m Q \<Longrightarrow> m s = (Inr x, s') \<Longrightarrow> Q x"
  by (auto simp: io_post_def)

lemma io_post_fail [io_post_intros]: "io_post (io_fail e) Q" "io_post (io_malformed e) Q"
  by (simp_all add: io_post_def)

lemma io_post_return [io_post_intros]: "Q x \<Longrightarrow> io_post (io_return x) Q"
  by (simp add: io_post_def)

lemma io_post_bind_post: "io_post m P \<Longrightarrow> (\<And>x. P x \<Longrightarrow> io_post (f x) Q) \<Longrightarrow> io_post (io_bind m f) Q"
  by (fastforce simp: io_post_def io_bind_Inr)

lemma io_post_bind [io_post_intros]: "(\<And>x. io_post (f x) Q) \<Longrightarrow> io_post (io_bind m f) Q"
  by (rule io_post_bind_post [where P = "\<lambda>_. True"]) (simp_all add: io_post_def)

lemma io_post_if [io_post_intros]: "(b \<Longrightarrow> io_post m Q) \<Longrightarrow> (\<not> b \<Longrightarrow> io_post m' Q) \<Longrightarrow> io_post (if b then m else m') Q"
  by simp

lemma io_post_sum [io_post_intros]:
  "(\<And>e. r = Inl e \<Longrightarrow> io_post (f e) Q) \<Longrightarrow> (\<And>x. r = Inr x \<Longrightarrow> io_post (g x) Q) \<Longrightarrow>
    io_post (case r of Inl e \<Rightarrow> f e | Inr x \<Rightarrow> g x) Q"
  by (cases r) simp_all

lemma io_post_option [io_post_intros]:
  "(r = None \<Longrightarrow> io_post m Q) \<Longrightarrow> (\<And>x. r = Some x \<Longrightarrow> io_post (g x) Q) \<Longrightarrow>
    io_post (case r of None \<Rightarrow> m | Some x \<Rightarrow> g x) Q"
  by (cases r) simp_all

lemma io_post_prod [io_post_intros]: "(\<And>x y. r = (x, y) \<Longrightarrow> io_post (f x y) Q) \<Longrightarrow> io_post (case r of (x, y) \<Rightarrow> f x y) Q"
  by (cases r) simp

lemma io_post_let [io_post_intros]: "(\<And>x. x = v \<Longrightarrow> io_post (f x) Q) \<Longrightarrow> io_post (let x = v in f x) Q"
  by simp

section \<open>Encodings\<close>

definition only_implies_accept :: "capabilities \<Rightarrow> bool" where
  "only_implies_accept cp \<longleftrightarrow> (cp_utf8_only cp \<longrightarrow> cp_utf8_accept cp)"

definition only_implies_utf8 :: "capabilities \<Rightarrow> bool" where
  "only_implies_utf8 cp \<longleftrightarrow> (cp_utf8_only cp \<longrightarrow> cp_encoding cp = EncodingUTF8)"

lemma enable_loop_encoding: "io_post (read_enable_loop k b enabled cp tag) only_implies_utf8"
proof (induction k arbitrary: b enabled)
  case (Suc k)
  show ?case
    unfolding read_enable_loop.simps(2) [abs_def]
    by (intro io_post_intros Suc.IH) (auto simp: only_implies_utf8_def)
qed (simp add: io_post_def)

lemma observe_accept: "observe_capabilities cp tokens = Some cp' \<Longrightarrow> only_implies_accept cp'"
  by (auto simp: observe_capabilities_def only_implies_accept_def split: if_splits)

lemma greeting_accept: "io_post read_greeting only_implies_accept"
  unfolding read_greeting_def
  by (intro io_post_intros)
    (auto simp: only_implies_accept_def capability_line_requires_utf8_def capability_line_advertises_utf8_def list_ex_iff)

lemma capability_loop_accept: "io_post (read_capability_loop k remaining seen cp tag) only_implies_accept"
proof (induction k arbitrary: remaining seen)
  case (Suc k)
  show ?case
    unfolding read_capability_loop.simps(2) [abs_def]
    by (intro io_post_intros Suc.IH) (auto dest: observe_accept split: option.splits simp: bind_eq_Some_conv)
qed (simp add: io_post_def)

lemma login_accept: "only_implies_accept cp \<Longrightarrow> io_post (do_login tag u p cp) only_implies_accept"
  unfolding do_login_def by (intro io_post_intros) (auto dest: observe_accept)

lemma enable_encoding: "only_implies_accept cp \<Longrightarrow> io_post (enable_utf8 cp) only_implies_utf8"
  unfolding enable_utf8_def
  apply (rule io_post_bind_post [where P = only_implies_accept])
   apply (auto simp: refresh_capabilities_def intro!: io_post_intros capability_loop_accept)[1]
  apply (intro io_post_intros enable_loop_encoding)
  apply (simp add: only_implies_accept_def only_implies_utf8_def)
  done

text \<open>A server that demands UTF8=ONLY gets a session only once UTF-8 mailbox names are enabled; otherwise the
  connection is refused.\<close>

theorem utf8_only_enabled:
  "case connect_session username password s of
     (Inr cp, _) \<Rightarrow> if cp_utf8_only cp then cp_encoding cp = EncodingUTF8 else True
   | _ \<Rightarrow> True"
proof -
  have "io_post (connect_session username password) only_implies_utf8"
    unfolding connect_session_def
    by (rule io_post_bind_post [OF greeting_accept], rule io_post_bind, rule io_post_bind_post [OF login_accept])
      (auto intro: enable_encoding)
  from io_postD [OF this, of s] show ?thesis by (auto simp: only_implies_utf8_def split: prod.splits sum.splits)
qed

end
