(* ===== verification/Imap_Transfer.thy ===== *)
theory Imap_Transfer
  imports Imap_Commands
begin

text \<open>
  COPY, MOVE and DELETE of one message (\<open>src/internal/transport/imapclient/mutations.go\<close>, \<open>search.go\<close>):
  the guard on the destination, the preflight of the source, the native MOVE, the COPY fallback with
  \<open>\\Deleted\<close> and UID EXPUNGE, and the verification of every effect.

  The world holds what is true on the server: whether the destination has the message and what became
  of the source. An oracle answers every call: a command may be lost before, during or after its
  execution, its reply may say anything, and any read may fail. A completed SEARCH, FETCH or flag
  verification reports the state of the server (\<open>Matched\<close>, \<open>Flags_Read\<close>, \<open>Flag_Phase\<close>) or, from a server that
  answers wrongly, anything else (\<open>Matched_Anyway\<close>, \<open>Flags_Anyway\<close>, \<open>Flag_Phase_Anyway\<close>). Flag changes and
  message reads are the operations of \<open>Imap_Flags\<close>, seen through their results.
\<close>

section \<open>The world\<close>

datatype source_state = Source_Present | Source_Flagged | Source_Gone

text \<open>The mutating commands whose bytes may have reached the server.\<close>

datatype transfer_write = Wrote_Copy | Wrote_Move | Wrote_Store | Wrote_Expunge

datatype command_reply = Not_Sent | Lost "string list" | Replied string string "string list"

datatype transfer_answer =
    Proceed
  | Fault bool
  | Selected_With "32 word" flag_permissions
  | Matched "32 word" "32 word" nat
  | Matched_Anyway "32 word" "32 word" nat
  | Flags_Read bool "string list" flag_permissions
  | Flags_Anyway bool bool "string list" flag_permissions
  | Command_Run bool command_reply bool
  | Flag_Phase bool bool mutation_outcome string bool
  | Flag_Phase_Anyway bool bool mutation_outcome string
  | Deleted_Uids "32 word list"
  | Listed "mailbox_info list"
  | Move_Capability bool

record transfer_world =
  tw_copied :: bool
  tw_source :: source_state
  tw_writes :: "transfer_write list"
  tw_dirty :: bool
  tw_move :: "bool option"
  tw_answers :: "transfer_answer list"

datatype transfer_error =
    Transfer_Failed string
  | Not_Dispatched
  | Move_Unknown
  | Copy_Unknown
  | Copy_Guard

type_synonym 'a transfer = "transfer_world \<Rightarrow> 'a \<times> transfer_world"

definition t_return :: "'a \<Rightarrow> 'a transfer" where
  "t_return x w = (x, w)"

definition t_bind :: "'a transfer \<Rightarrow> ('a \<Rightarrow> 'b transfer) \<Rightarrow> 'b transfer" where
  "t_bind m f w = (case m w of (x, w) \<Rightarrow> f x w)"

definition t_get :: "(transfer_world \<Rightarrow> 'a) \<Rightarrow> 'a transfer" where
  "t_get f w = (f w, w)"

definition t_try :: "(transfer_error + 'a) transfer \<Rightarrow> (transfer_error \<Rightarrow> 'b transfer) \<Rightarrow> ('a \<Rightarrow> 'b transfer) \<Rightarrow> 'b transfer" where
  "t_try m h k = t_bind m (\<lambda>r. case r of Inl e \<Rightarrow> h e | Inr x \<Rightarrow> k x)"

text \<open>The next answer; a fault may leave the session dirty. Exhausted, everything proceeds.\<close>

definition t_answer :: "transfer_answer transfer" where
  "t_answer w = (case tw_answers w of [] \<Rightarrow> (Proceed, w)
     | a # as \<Rightarrow> (a, w\<lparr>tw_answers := as, tw_dirty := (tw_dirty w \<or> a = Fault True)\<rparr>))"

section \<open>Reads\<close>

definition io_failed :: transfer_error where
  "io_failed = Transfer_Failed ''imap_mutation_failed''"

definition no_permissions :: flag_permissions where
  "no_permissions = \<lparr>pm_present = False, pm_flags = []\<rparr>"

definition acquire_mutation :: "(transfer_error + unit) transfer" where
  "acquire_mutation = t_bind t_answer (\<lambda>a. t_return (case a of Fault _ \<Rightarrow> Inl io_failed | _ \<Rightarrow> Inr ()))"

text \<open>\<open>ensureSelectedFresh\<close>: the UIDVALIDITY and the permanent flags of a mailbox selected anew.\<close>

definition select_fresh :: "(transfer_error + 32 word \<times> flag_permissions) transfer" where
  "select_fresh = t_bind t_answer (\<lambda>a. t_return (case a of
      Selected_With v pm \<Rightarrow> Inr (v, pm) | Proceed \<Rightarrow> Inr (1, no_permissions) | _ \<Rightarrow> Inl io_failed))"

record destination_match =
  dm_uid :: "32 word"
  dm_validity :: "32 word"
  dm_count :: nat

text \<open>\<open>destinationMatch\<close>: a server that answers rightly finds nothing where nothing is; another may report any
  match, or none.\<close>

definition find_destination :: "string \<Rightarrow> (transfer_error + destination_match) transfer" where
  "find_destination message_id = (case normalize_message_id message_id of
      None \<Rightarrow> t_return (Inl (Transfer_Failed ''invalid_imap_value''))
    | Some _ \<Rightarrow> t_bind t_answer (\<lambda>a. t_bind (t_get tw_copied) (\<lambda>copied. t_return (case a of
          Matched uid validity n \<Rightarrow>
            (if copied \<and> 0 < n then Inr \<lparr>dm_uid = uid, dm_validity = validity, dm_count = n\<rparr>
             else Inr \<lparr>dm_uid = 0, dm_validity = validity, dm_count = 0\<rparr>)
        | Matched_Anyway uid validity n \<Rightarrow> Inr \<lparr>dm_uid = (if n = 0 then 0 else uid), dm_validity = validity, dm_count = n\<rparr>
        | Proceed \<Rightarrow> Inr (if copied then \<lparr>dm_uid = 1, dm_validity = 1, dm_count = 1\<rparr>
            else \<lparr>dm_uid = 0, dm_validity = 1, dm_count = 0\<rparr>)
        | _ \<Rightarrow> Inl io_failed))))"

text \<open>\<open>fetchFlagResult\<close> for a UID that is there or not: its observation and the permanent flags.\<close>

definition fetch_observation ::
    "(transfer_world \<Rightarrow> bool) \<Rightarrow> flag_permissions \<Rightarrow> (transfer_error + flag_observation \<times> flag_permissions) transfer" where
  "fetch_observation present pm = t_bind t_answer (\<lambda>a. t_bind (t_get present) (\<lambda>here. t_return (case a of
      Flags_Read complete flags pm' \<Rightarrow> Inr (if here
        then empty_observation\<lparr>ob_seen_uid := True, ob_observed := complete, ob_flags := flags\<rparr> else empty_observation, pm')
    | Flags_Anyway seen complete flags pm' \<Rightarrow> Inr (if seen
        then empty_observation\<lparr>ob_seen_uid := True, ob_observed := complete, ob_flags := flags\<rparr> else empty_observation, pm')
    | Proceed \<Rightarrow> Inr (if here
        then empty_observation\<lparr>ob_seen_uid := True, ob_observed := True\<rparr> else empty_observation, pm)
    | _ \<Rightarrow> Inl io_failed)))"

definition check_validity :: "32 word \<Rightarrow> 32 word \<Rightarrow> (transfer_error + unit) transfer" where
  "check_validity expected observed = t_return (case check_uid_validity expected observed of
      Inl UidValidityUnknown \<Rightarrow> Inl (Transfer_Failed ''mailbox_uidvalidity_unknown'')
    | Inl _ \<Rightarrow> Inl (Transfer_Failed ''mailbox_uidvalidity_changed'')
    | Inr _ \<Rightarrow> Inr ())"

section \<open>Commands\<close>

definition execute_write :: "transfer_write \<Rightarrow> transfer_world \<Rightarrow> transfer_world" where
  "execute_write c w = (case c of
      Wrote_Copy \<Rightarrow> if tw_source w = Source_Gone then w else w\<lparr>tw_copied := True\<rparr>
    | Wrote_Move \<Rightarrow> if tw_source w = Source_Gone then w else w\<lparr>tw_copied := True, tw_source := Source_Gone\<rparr>
    | Wrote_Store \<Rightarrow> if tw_source w = Source_Present then w\<lparr>tw_source := Source_Flagged\<rparr> else w
    | Wrote_Expunge \<Rightarrow> if tw_source w = Source_Flagged then w\<lparr>tw_source := Source_Gone\<rparr> else w)"

text \<open>A command on the wire: whether it was executed, and how it was answered.\<close>

definition write_command :: "transfer_write \<Rightarrow> command_reply transfer" where
  "write_command c = t_bind t_answer (\<lambda>a w. case a of
      Command_Run executed reply dirty \<Rightarrow>
        if reply = Not_Sent then (Not_Sent, w\<lparr>tw_dirty := (tw_dirty w \<or> dirty)\<rparr>)
        else (let w = w\<lparr>tw_writes := tw_writes w @ [c], tw_dirty := (tw_dirty w \<or> dirty)\<rparr>
              in (reply, if executed then execute_write c w else w))
    | Proceed \<Rightarrow> (Replied ''OK'' [] [], execute_write c (w\<lparr>tw_writes := tw_writes w @ [c]\<rparr>))
    | _ \<Rightarrow> (Not_Sent, w))"

text \<open>\<open>doTransferCommandResponse\<close>: status, text, response codes, dispatched, error.\<close>

record transfer_reply =
  tr_status :: string
  tr_text :: string
  tr_codes :: "string list"
  tr_dispatched :: bool
  tr_failed :: bool

definition transfer_command :: "transfer_write \<Rightarrow> transfer_reply transfer" where
  "transfer_command c = t_bind (write_command c) (\<lambda>r. t_return (case r of
      Not_Sent \<Rightarrow> \<lparr>tr_status = [], tr_text = [], tr_codes = [], tr_dispatched = False, tr_failed = True\<rparr>
    | Lost codes \<Rightarrow> \<lparr>tr_status = [], tr_text = [], tr_codes = codes, tr_dispatched = True, tr_failed = True\<rparr>
    | Replied status text codes \<Rightarrow> \<lparr>tr_status = status, tr_text = text, tr_codes = codes, tr_dispatched = True,
        tr_failed = (\<not> equal_fold_ascii status ''OK'')\<rparr>))"

definition join_imap_response :: "string \<Rightarrow> string \<Rightarrow> string" where
  "join_imap_response status text = (if text = [] then status else status @ '' '' @ text)"

definition outcome_unknown_for :: "string \<Rightarrow> transfer_error" where
  "outcome_unknown_for command = (if command = ''MOVE'' then Move_Unknown else Copy_Unknown)"

definition is_refusal :: "string \<Rightarrow> bool" where
  "is_refusal status \<longleftrightarrow> equal_fold_ascii status ''NO'' \<or> equal_fold_ascii status ''BAD''"

definition transfer_command_error :: "mutation_evidence \<Rightarrow> transfer_reply \<Rightarrow> mutation_evidence \<times> transfer_error option" where
  "transfer_command_error ev r =
     (let ev = (if tr_status r = [] then ev
                else ev\<lparr>ev_server_response := join_imap_response (tr_status r) (tr_text r)\<rparr>) in
      if tr_status r \<noteq> [] \<and> is_refusal (tr_status r) then (ev\<lparr>ev_outcome := Rejected\<rparr>, Some io_failed)
      else if \<not> tr_dispatched r then (ev\<lparr>ev_outcome := NotStarted\<rparr>, Some Not_Dispatched)
      else (ev\<lparr>ev_outcome := Unknown\<rparr>, Some (outcome_unknown_for (ev_command ev))))"

section \<open>COPYUID\<close>

definition parse_copy_uid_response :: "string \<Rightarrow> 32 word \<Rightarrow> (32 word \<times> 32 word) option" where
  "parse_copy_uid_response code source_uid = (let fs = str_fields code in
     if length fs \<noteq> 4 \<or> \<not> equal_fold_ascii (fs ! 0) ''COPYUID'' then None
     else (case (parse_positive_uid (fs ! 1), parse_positive_uid (fs ! 2), parse_positive_uid (fs ! 3)) of
         (Some validity, Some returned, Some uid) \<Rightarrow> if returned \<noteq> source_uid then None else Some (validity, uid)
       | _ \<Rightarrow> None))"

definition is_copy_uid :: "string \<Rightarrow> bool" where
  "is_copy_uid code \<longleftrightarrow> (case str_fields code of [] \<Rightarrow> False | f # _ \<Rightarrow> equal_fold_ascii f ''COPYUID'')"

text \<open>\<open>applyCopyUIDEvidence\<close>: whether it accepted the codes, and the evidence.\<close>

definition apply_copy_uid :: "mutation_evidence \<Rightarrow> string list \<Rightarrow> 32 word \<Rightarrow> bool \<times> mutation_evidence" where
  "apply_copy_uid ev codes source_uid = (case filter is_copy_uid codes of
      [] \<Rightarrow> (True, ev)
    | [code] \<Rightarrow> (let ev = ev\<lparr>ev_copy_uid_response := code\<rparr> in
        case parse_copy_uid_response code source_uid of
          None \<Rightarrow> (False, ev)
        | Some (validity, uid) \<Rightarrow> (True, ev\<lparr>ev_copy_uid_validity := validity, ev_copy_source_uid := source_uid,
            ev_copy_destination_uid := uid, ev_destination_uid_validity := validity, ev_destination_uid := uid\<rparr>))
    | _ \<Rightarrow> (False, ev))"

definition append_effect :: "string \<Rightarrow> mutation_evidence \<Rightarrow> mutation_evidence" where
  "append_effect effect ev = (if effect \<in> set (ev_completed_effects ev) then ev
     else ev\<lparr>ev_completed_effects := ev_completed_effects ev @ [effect]\<rparr>)"

definition start_evidence :: "string \<Rightarrow> string \<Rightarrow> 32 word \<Rightarrow> 32 word \<Rightarrow> string \<Rightarrow> mutation_evidence" where
  "start_evidence command source uid expected target =
     \<lparr>ev_outcome = NotStarted, ev_command = command, ev_mailbox = source, ev_target_mailbox = target, ev_uid = uid,
      ev_uid_validity = 0, ev_expected_uid_validity = expected, ev_flags_state = FlagsUnverified, ev_actual_flags = [],
      ev_flags_source = [], ev_server_response = [], ev_copy_uid_response = [], ev_copy_uid_validity = 0,
      ev_copy_source_uid = 0, ev_copy_destination_uid = 0, ev_destination_uid = 0, ev_destination_uid_validity = 0,
      ev_completed_effects = [], ev_expunge_branch = [], ev_foreign_deleted = 0\<rparr>"

section \<open>Verification\<close>

type_synonym transfer_outcome = "mutation_evidence \<times> transfer_error option"

text \<open>\<open>transferSourceAbsent\<close>, \<open>verifyTransferDestination\<close>.\<close>

definition source_absent :: "mutation_evidence \<Rightarrow> (transfer_error + unit) transfer" where
  "source_absent ev = t_try select_fresh (\<lambda>e. t_return (Inl e)) (\<lambda>(v, pm).
     t_try (check_validity (ev_uid_validity ev) v) (\<lambda>e. t_return (Inl e)) (\<lambda>_.
     t_try (fetch_observation (\<lambda>w. tw_source w \<noteq> Source_Gone) pm) (\<lambda>e. t_return (Inl e)) (\<lambda>(ob, pm).
       t_return (if ob_missing ob \<or> \<not> ob_seen_uid ob then Inr () else Inl io_failed))))"

definition verify_destination :: "mutation_evidence \<Rightarrow> string \<Rightarrow> 32 word \<Rightarrow> (transfer_error + mutation_evidence) transfer" where
  "verify_destination ev message_id expected = t_try select_fresh (\<lambda>e. t_return (Inl e)) (\<lambda>(v, pm).
     if ev_copy_uid_validity ev \<noteq> 0 then
       if expected \<noteq> 0 \<and> ev_copy_uid_validity ev \<noteq> expected then t_return (Inl io_failed)
       else t_try (check_validity (ev_copy_uid_validity ev) v) (\<lambda>e. t_return (Inl e)) (\<lambda>_.
         t_try (fetch_observation tw_copied pm) (\<lambda>e. t_return (Inl e)) (\<lambda>(ob, pm).
           t_return (if \<not> ob_seen_uid ob \<or> ob_missing ob then Inl io_failed else Inr ev)))
     else if message_id = [] then t_return (Inl io_failed)
     else t_try (check_validity expected v) (\<lambda>e. t_return (Inl e)) (\<lambda>_.
       t_try (find_destination message_id) (\<lambda>e. t_return (Inl e)) (\<lambda>found.
       if dm_count found \<noteq> 1 \<or> dm_uid found = 0 \<or> dm_validity found \<noteq> v then t_return (Inl io_failed)
       else t_try select_fresh (\<lambda>e. t_return (Inl e)) (\<lambda>(v, pm).
         t_try (check_validity (dm_validity found) v) (\<lambda>e. t_return (Inl e)) (\<lambda>_.
         t_try (fetch_observation tw_copied pm) (\<lambda>e. t_return (Inl e)) (\<lambda>(ob, pm).
           t_return (if \<not> ob_seen_uid ob \<or> ob_missing ob then Inl io_failed
             else Inr (ev\<lparr>ev_destination_uid := dm_uid found, ev_destination_uid_validity := dm_validity found\<rparr>))))))))"

section \<open>Copying\<close>

text \<open>\<open>copyMessage\<close>; \<open>guard\<close> is the Message-ID the destination must not hold, or empty.\<close>

definition copy_message ::
    "string \<Rightarrow> 32 word \<Rightarrow> 32 word \<Rightarrow> string \<Rightarrow> string \<Rightarrow> (transfer_outcome \<times> destination_match) transfer" where
  "copy_message source uid expected target guard =
     (let ev = start_evidence ''COPY'' source uid expected target;
          none = \<lparr>dm_uid = 0, dm_validity = 0, dm_count = 0\<rparr>;
          stop = (\<lambda>found e. t_return ((ev, Some e), found)) in
      if uid = 0 then stop none (Transfer_Failed ''imap_message_uid_unknown'')
      else t_try acquire_mutation (stop none) (\<lambda>_.
        t_try (if guard = [] then t_return (Inr none) else find_destination guard) (\<lambda>_. stop none Copy_Guard) (\<lambda>found.
        if 0 < dm_count found then t_return ((ev, None), found)
        else t_try select_fresh (stop found) (\<lambda>(v, pm).
          t_try (check_validity expected v) (stop found) (\<lambda>_.
          case safe_quote_imap target of
            Inl _ \<Rightarrow> t_return ((ev\<lparr>ev_uid_validity := v\<rparr>, Some (Transfer_Failed ''invalid_imap_value'')), found)
          | Inr _ \<Rightarrow> t_bind (transfer_command Wrote_Copy) (\<lambda>r.
              let ev = ev\<lparr>ev_uid_validity := v\<rparr> in
              if tr_failed r then t_return (transfer_command_error ev r, found)
              else (case apply_copy_uid (ev\<lparr>ev_server_response := join_imap_response (tr_status r) (tr_text r)\<rparr>) (tr_codes r) uid of
                  (False, ev) \<Rightarrow> t_return ((ev\<lparr>ev_outcome := Unknown\<rparr>, Some Copy_Unknown), found)
                | (True, ev) \<Rightarrow> t_return ((ev\<lparr>ev_outcome := Completed\<rparr>, None), found))))))))"

section \<open>Moving\<close>

text \<open>\<open>moveMessage\<close> where the server has MOVE: one command, and the observation of both mailboxes.\<close>

definition native_move :: "mutation_evidence \<Rightarrow> string \<Rightarrow> 32 word \<Rightarrow> transfer_outcome transfer" where
  "native_move ev message_id destination_validity = t_bind (transfer_command Wrote_Move) (\<lambda>r.
     let ev = ev\<lparr>ev_flags_state := FlagsUnverified, ev_actual_flags := []\<rparr> in
     if \<not> tr_dispatched r then t_return (transfer_command_error ev r)
     else let ev = ev\<lparr>ev_server_response := join_imap_response (tr_status r) (tr_text r), ev_outcome := Unknown\<rparr> in
       case apply_copy_uid ev (tr_codes r) (ev_uid ev) of
         (False, ev) \<Rightarrow> t_return (ev, Some Move_Unknown)
       | (True, ev) \<Rightarrow> t_bind (t_get tw_dirty) (\<lambda>dirty. if dirty then t_return (ev, Some Move_Unknown)
           else t_bind (source_absent ev) (\<lambda>removed. t_bind (t_get tw_dirty) (\<lambda>dirty.
             if dirty then t_return (ev, Some Move_Unknown)
             else t_bind (verify_destination ev message_id destination_validity) (\<lambda>verified. t_return (case verified of
                 Inl _ \<Rightarrow> (ev, Some Move_Unknown)
               | Inr ev \<Rightarrow> let ev = append_effect ''copy'' ev in
                   if removed = Inr () then
                     let ev = append_effect ''move'' ev in
                     if \<not> tr_failed r then (ev\<lparr>ev_outcome := Completed, ev_completed_effects := [''move'']\<rparr>, None)
                     else (ev\<lparr>ev_outcome := Partial\<rparr>, Some Move_Unknown)
                   else (ev\<lparr>ev_outcome := Partial\<rparr>, Some Move_Unknown)))))))"

text \<open>\<open>setFlagsAndVerify\<close> for \<open>\\Deleted\<close>, by its result: whether a STORE was written and executed, the
  outcome and the response it recorded, and whether it returned no error. It returns none only when the
  flag was observed on the message, which a server that answers wrongly may report anyway.\<close>

definition flag_deleted :: "mutation_evidence \<Rightarrow> transfer_outcome transfer" where
  "flag_deleted ev =
     (let store = (\<lambda>stored executed w. let w = (if stored then w\<lparr>tw_writes := tw_writes w @ [Wrote_Store]\<rparr> else w)
            in if stored \<and> executed then execute_write Wrote_Store w else w) in
      t_bind t_answer (\<lambda>a w. case a of
        Flag_Phase stored executed outcome response ok \<Rightarrow>
          ((ev\<lparr>ev_outcome := outcome, ev_server_response := response\<rparr>,
            if ok \<and> tw_source (store stored executed w) \<noteq> Source_Present then None else Some io_failed), store stored executed w)
      | Flag_Phase_Anyway stored executed outcome response \<Rightarrow>
          ((ev\<lparr>ev_outcome := outcome, ev_server_response := response\<rparr>, None), store stored executed w)
      | Proceed \<Rightarrow> ((ev\<lparr>ev_outcome := Completed\<rparr>, None), store True True w)
      | _ \<Rightarrow> ((ev, Some io_failed), w)))"

definition search_deleted :: "(transfer_error + 32 word list) transfer" where
  "search_deleted = t_bind t_answer (\<lambda>a. t_return (case a of
      Deleted_Uids uids \<Rightarrow> Inr uids | Proceed \<Rightarrow> Inr [] | _ \<Rightarrow> Inl io_failed))"

text \<open>The removal of the flagged source by UID EXPUNGE, or its deferral.\<close>

definition expunge_source :: "mutation_evidence \<Rightarrow> transfer_outcome transfer" where
  "expunge_source ev = t_bind (write_command Wrote_Expunge) (\<lambda>r.
     let status = (case r of Replied s _ _ \<Rightarrow> s | _ \<Rightarrow> []) in
     if status = ''OK'' then
       t_try (source_absent ev) (\<lambda>_. t_return (ev\<lparr>ev_outcome := Partial\<rparr>, Some Move_Unknown)) (\<lambda>_.
         t_return (append_effect ''uid_expunge'' (ev\<lparr>ev_outcome := Completed, ev_expunge_branch := ''uid_expunge'',
           ev_server_response := ev_server_response ev @ '' (fallback UID EXPUNGE)''\<rparr>), None))
     else if \<not> is_refusal status then t_return (ev\<lparr>ev_outcome := Unknown\<rparr>, Some Move_Unknown)
     else t_try search_deleted (\<lambda>_. t_return (ev\<lparr>ev_outcome := Unknown\<rparr>, Some Move_Unknown)) (\<lambda>uids.
       t_return (append_effect ''cleanup_deferred'' (ev\<lparr>ev_outcome := Completed, ev_expunge_branch := ''deferred'',
         ev_foreign_deleted := length (filter (\<lambda>u. u \<noteq> ev_uid ev) uids),
         ev_server_response := ev_server_response ev
           @ '' (moved + flagged deleted; expunge deferred because UID EXPUNGE is unsupported; other deleted messages present: ''
           @ format_uint (length (filter (\<lambda>u. u \<noteq> ev_uid ev) uids)) @ '')''\<rparr>), None)))"

text \<open>From a proven copy on: the source is selected again, flagged and expunged.\<close>

definition remove_copied_source :: "mutation_evidence \<Rightarrow> transfer_outcome transfer" where
  "remove_copied_source ev = (let unknown = (\<lambda>_. t_return (ev\<lparr>ev_outcome := Partial\<rparr>, Some Move_Unknown)) in
     t_try select_fresh unknown (\<lambda>(v, pm). t_try (check_validity (ev_uid_validity ev) v) unknown (\<lambda>_.
       let response = ev_server_response ev in
       t_bind (flag_deleted (ev\<lparr>ev_outcome := NotStarted, ev_flags_state := FlagsUnverified, ev_server_response := []\<rparr>)) (\<lambda>(ev, e).
         let ev = ev\<lparr>ev_outcome := Partial, ev_server_response := response @ (if ev_server_response ev = [] then []
               else ''; source flag response: '' @ ev_server_response ev)\<rparr> in
         if e \<noteq> None then t_return (ev, Some Move_Unknown)
         else expunge_source (append_effect ''source_flag'' ev)))))"

text \<open>The COPY fallback.\<close>

definition fallback_move :: "mutation_evidence \<Rightarrow> flag_permissions \<Rightarrow> string \<Rightarrow> 32 word \<Rightarrow> transfer_outcome transfer" where
  "fallback_move ev pm message_id destination_validity =
     (if unsupported_flag pm (pending_changes \<lparr>fc_add = [CHR 0x5C # ''Deleted''], fc_remove = []\<rparr> (ev_actual_flags ev)) \<noteq> []
      then t_return (ev, Some (Transfer_Failed ''imap_flags_unsupported''))
      else t_bind (transfer_command Wrote_Copy) (\<lambda>r.
        let ev = ev\<lparr>ev_server_response := join_imap_response (tr_status r) (tr_text r)\<rparr> in
        case (if tr_dispatched r then apply_copy_uid ev (tr_codes r) (ev_uid ev) else (True, ev)) of
          (False, ev) \<Rightarrow> t_return (ev\<lparr>ev_outcome := Unknown\<rparr>, Some Move_Unknown)
        | (True, ev) \<Rightarrow>
            let proven = (tr_dispatched r \<and> ev_copy_uid_validity ev \<noteq> 0 \<and> ev_copy_uid_validity ev = destination_validity);
                ev = (if proven then append_effect ''copy'' ev else ev) in
            if tr_failed r then
              t_return (if ev_completed_effects ev \<noteq> [] then (ev\<lparr>ev_outcome := Partial\<rparr>, Some Move_Unknown)
                else transfer_command_error ev r)
            else t_try
              (if ev_copy_uid_validity ev \<noteq> 0
               then t_try (check_validity destination_validity (ev_copy_uid_validity ev)) (\<lambda>e. t_return (Inl e)) (\<lambda>_. t_return (Inr ev))
               else verify_destination ev message_id destination_validity)
              (\<lambda>_. t_return (ev\<lparr>ev_outcome := Unknown\<rparr>, Some Move_Unknown))
              (\<lambda>ev. remove_copied_source (append_effect ''copy'' ev))))"

text \<open>The guard on the destination: its UIDVALIDITY, or why no transfer is dispatched.\<close>

definition guard_destination :: "mutation_evidence \<Rightarrow> string \<Rightarrow> (transfer_outcome + 32 word) transfer" where
  "guard_destination ev message_id = (if message_id = [] then t_return (Inr 0)
     else t_try select_fresh (\<lambda>_. t_return (Inl (ev, Some Move_Unknown))) (\<lambda>_.
       t_try (find_destination message_id) (\<lambda>_. t_return (Inl (ev, Some Move_Unknown))) (\<lambda>found.
         t_return (if 0 < dm_count found
           then Inl (ev\<lparr>ev_destination_uid := dm_uid found, ev_destination_uid_validity := dm_validity found\<rparr>, Some Move_Unknown)
           else if dm_validity found = 0 then Inl (ev, Some (Transfer_Failed ''mailbox_uidvalidity_unknown''))
           else Inr (dm_validity found)))))"

definition move_capability :: "(transfer_error + bool) transfer" where
  "move_capability = t_bind (t_get tw_move) (\<lambda>known. case known of
      Some b \<Rightarrow> t_return (Inr b)
    | None \<Rightarrow> t_bind t_answer (\<lambda>a w. case a of
          Move_Capability b \<Rightarrow> (Inr b, w\<lparr>tw_move := Some b\<rparr>)
        | Proceed \<Rightarrow> (Inr True, w\<lparr>tw_move := Some True\<rparr>)
        | _ \<Rightarrow> (Inl io_failed, w)))"

definition move_message :: "string \<Rightarrow> 32 word \<Rightarrow> 32 word \<Rightarrow> string \<Rightarrow> string \<Rightarrow> transfer_outcome transfer" where
  "move_message source uid expected target message_id =
     (let ev = start_evidence ''MOVE'' source uid expected target;
          stop = (\<lambda>e. t_return (ev, Some e)) in
      if uid = 0 then stop (Transfer_Failed ''imap_message_uid_unknown'')
      else if isl (safe_quote_imap target) then stop (Transfer_Failed ''invalid_imap_value'')
      else if message_id \<noteq> [] \<and> normalize_message_id message_id = None then stop (Transfer_Failed ''invalid_imap_value'')
      else t_try move_capability stop (\<lambda>native.
        if \<not> native \<and> message_id = [] then stop (Transfer_Failed ''imap_message_uid_unknown'')
        else t_bind (guard_destination ev message_id) (\<lambda>guarded. case guarded of
          Inl outcome \<Rightarrow> t_return outcome
        | Inr destination_validity \<Rightarrow>
            t_try select_fresh stop (\<lambda>(v, pm). t_try (check_validity expected v) stop (\<lambda>_.
            let ev = ev\<lparr>ev_uid_validity := v\<rparr> in
            t_try (fetch_observation (\<lambda>w. tw_source w \<noteq> Source_Gone) pm) (\<lambda>e. t_return (ev, Some e)) (\<lambda>(ob, pm).
              let ev = (with_flag_observation ev ob)\<lparr>ev_flags_source := ''FETCH''\<rparr> in
              if ev_flags_state ev = FlagsMissing then t_return (ev, Some (Transfer_Failed ''imap_message_not_found''))
              else if ev_flags_state ev \<noteq> FlagsObserved then t_return (ev, Some (Transfer_Failed ''imap_response_malformed''))
              else if native then native_move ev message_id destination_validity
              else fallback_move ev pm message_id destination_validity))))))"

text \<open>\<open>MoveMessage\<close>, under the mutation lock of the account.\<close>

definition move_message_locked :: "string \<Rightarrow> 32 word \<Rightarrow> 32 word \<Rightarrow> string \<Rightarrow> string \<Rightarrow> transfer_outcome transfer" where
  "move_message_locked source uid expected target message_id =
     (let stop = (\<lambda>e. t_return (start_evidence ''MOVE'' source uid expected target, Some e)) in
      if uid = 0 then stop (Transfer_Failed ''imap_message_uid_unknown'')
      else t_try acquire_mutation stop (\<lambda>_. move_message source uid expected target message_id))"

text \<open>\<open>DeleteMessage\<close>: a move to the Trash mailbox the server lists.\<close>

definition delete_message ::
    "normal_form \<Rightarrow> folding \<Rightarrow> string \<Rightarrow> 32 word \<Rightarrow> 32 word \<Rightarrow> string \<Rightarrow> (mutation_evidence option \<times> transfer_error option) transfer" where
  "delete_message nfc ef source uid expected message_id =
     (let stop = (\<lambda>e. t_return (None, Some e)) in
      if uid = 0 then stop (Transfer_Failed ''imap_message_uid_unknown'')
      else t_try acquire_mutation stop (\<lambda>_. t_bind t_answer (\<lambda>a.
        case (case a of Listed ms \<Rightarrow> Inr ms | Proceed \<Rightarrow> Inr [] | _ \<Rightarrow> Inl io_failed) of
          Inl e \<Rightarrow> stop e
        | Inr ms \<Rightarrow> (case resolve_trash_mailbox nfc ef ms of
            Inl _ \<Rightarrow> stop (Transfer_Failed mailbox_not_found)
          | Inr trash \<Rightarrow>
              if ef source trash then stop (Transfer_Failed ''message_already_trashed'')
              else t_bind (move_message source uid expected trash message_id) (\<lambda>(ev, e).
                t_return (Some (if e = None then ev\<lparr>ev_command := ''DELETE''\<rparr> else ev), e))))))"

end
