(* ===== verification/Go_Sha256.thy ===== *)
theory Go_Sha256
  imports Go_Encoding
begin

text \<open>
  The SHA-256 of Go's \<open>crypto/sha256\<close> on byte strings, which the message references use for the
  subject fingerprint. Words are \<open>32 word\<close>, so additions wrap as the algorithm requires.
\<close>

text \<open>The words of a hexadecimal text, eight digits each, as the standard prints its constants.\<close>

fun sha256_words :: "string \<Rightarrow> 32 word list" where
  "sha256_words (a # b # c # d # s) = word_of_nat (be_value [a, b, c, d]) # sha256_words s"
| "sha256_words _ = []"

definition hex_words :: "string \<Rightarrow> 32 word list" where
  "hex_words s = (case decode_hex s of Some b \<Rightarrow> sha256_words b | None \<Rightarrow> [])"

definition sha256_k :: "32 word list" where
  "sha256_k = hex_words (
     ''428a2f9871374491b5c0fbcfe9b5dba53956c25b59f111f1923f82a4ab1c5ed5'' @
     ''d807aa9812835b01243185be550c7dc372be5d7480deb1fe9bdc06a7c19bf174'' @
     ''e49b69c1efbe47860fc19dc6240ca1cc2de92c6f4a7484aa5cb0a9dc76f988da'' @
     ''983e5152a831c66db00327c8bf597fc7c6e00bf3d5a7914706ca635114292967'' @
     ''27b70a852e1b21384d2c6dfc53380d13650a7354766a0abb81c2c92e92722c85'' @
     ''a2bfe8a1a81a664bc24b8b70c76c51a3d192e819d6990624f40e3585106aa070'' @
     ''19a4c1161e376c082748774c34b0bcb5391c0cb34ed8aa4a5b9cca4f682e6ff3'' @
     ''748f82ee78a5636f84c878148cc7020890befffaa4506cebbef9a3f7c67178f2'')"

definition hex_word8 :: "string \<Rightarrow> 32 word" where
  "hex_word8 s = word_of_nat (foldl (\<lambda>v c. v * 16 + (case hex_value c of Some d \<Rightarrow> d | None \<Rightarrow> 0)) 0 s)"

definition sha256_init :: "32 word list" where
  "sha256_init = map hex_word8 [''6a09e667'', ''bb67ae85'', ''3c6ef372'', ''a54ff53a'', ''510e527f'', ''9b05688c'', ''1f83d9ab'', ''5be0cd19'']"

text \<open>Padding: the bit 1, zeros, and the length in bits as a 64-bit big-endian integer.\<close>

definition sha256_pad :: "string \<Rightarrow> string" where
  "sha256_pad m = m @ byte_of 128 # replicate ((119 - length m mod 64) mod 64) (byte_of 0)
     @ be_bytes 8 (8 * length m)"

text \<open>The message schedule, kept newest first while it is extended by 48 words.\<close>

fun sha256_extend :: "nat \<Rightarrow> 32 word list \<Rightarrow> 32 word list" where
  "sha256_extend 0 w = rev w"
| "sha256_extend (Suc k) w =
     (let x = w ! 14; y = w ! 1;
          s0 = xor (xor (word_rotr 7 x) (word_rotr 18 x)) (drop_bit 3 x);
          s1 = xor (xor (word_rotr 17 y) (word_rotr 19 y)) (drop_bit 10 y)
      in sha256_extend k ((w ! 15 + s0 + w ! 6 + s1) # w))"

fun sha256_round :: "32 word list \<Rightarrow> 32 word \<times> 32 word \<Rightarrow> 32 word list" where
  "sha256_round [a, b, c, d, e, f, g, h] (k, w) =
     (let s1 = xor (xor (word_rotr 6 e) (word_rotr 11 e)) (word_rotr 25 e);
          ch = xor (and e f) (and (not e) g);
          t1 = h + s1 + ch + k + w;
          s0 = xor (xor (word_rotr 2 a) (word_rotr 13 a)) (word_rotr 22 a);
          maj = xor (xor (and a b) (and a c)) (and b c)
      in [t1 + (s0 + maj), a, b, c, d + t1, e, f, g])"
| "sha256_round hs _ = hs"

definition sha256_block :: "32 word list \<Rightarrow> 32 word list \<Rightarrow> 32 word list" where
  "sha256_block hs block = map2 (+) hs
     (foldl sha256_round hs (zip sha256_k (sha256_extend 48 (rev block))))"

function sha256_blocks :: "32 word list \<Rightarrow> 32 word list \<Rightarrow> 32 word list" where
  "sha256_blocks hs ws = (if ws = [] then hs
     else sha256_blocks (sha256_block hs (take 16 ws)) (drop 16 ws))"
  by auto
termination by (relation "measure (\<lambda>(hs, ws). length ws)") auto

declare sha256_blocks.simps [simp del]

definition sha256 :: "string \<Rightarrow> string" where
  "sha256 m = concat (map (\<lambda>w. be_bytes 4 (unat w))
     (sha256_blocks sha256_init (sha256_words (sha256_pad m))))"

lemma length_sha256_round [simp]: "length (sha256_round hs kw) = length hs"
  by (induction hs kw rule: sha256_round.induct) (simp_all add: Let_def)

lemma length_sha256_rounds [simp]: "length (foldl sha256_round hs kws) = length hs"
  by (induction kws arbitrary: hs) simp_all

lemma length_sha256_blocks: "length (sha256_blocks hs ws) = length hs"
proof (induction hs ws rule: sha256_blocks.induct)
  case (1 hs ws)
  then show ?case by (subst sha256_blocks.simps) (simp add: sha256_block_def)
qed

lemma length_sha256: "length (sha256 m) = 32"
proof -
  have "length (concat (map (\<lambda>w. be_bytes 4 (unat w)) ws)) = 4 * length ws" for ws :: "32 word list"
    by (induction ws) simp_all
  then show ?thesis by (simp add: sha256_def length_sha256_blocks sha256_init_def)
qed

end
