(* ===== verification/Mailref_Binary.thy ===== *)
theory Mailref_Binary
  imports Go_Sha256 "HOL-Library.State_Monad"
begin

text \<open>
  \<open>src/internal/mailref/binary.go\<close>: the binary payload of account, mailbox and message
  references. The writer's methods are the bytes they append; the reader is the record of the
  remaining bytes and the sticky first error, threaded as a state monad the way the Go methods
  thread the receiver. \<open>int64\<close> and \<open>uint64\<close> fields are \<open>64 word\<close>, \<open>uint32\<close> fields are
  \<open>32 word\<close>. The lemmas give the round trip of every field and of the three payloads, for every
  input the encoder accepts.
\<close>

section \<open>Data\<close>

record account_ref =
  ac_version :: int
  ac_account_id :: string

record mailbox_ref =
  mb_version :: int
  mb_account_id :: string
  mb_path :: "string list"

record message_ref =
  ms_version :: int
  ms_account_id :: string
  ms_mailbox_path :: "string list"
  ms_library_id :: string
  ms_message_id :: string
  ms_imap_uid :: "32 word"
  ms_imap_uid_validity :: "32 word"
  ms_imap_mailbox_id :: "64 word"
  ms_subject :: string
  ms_subject_hash :: "32 word"
  ms_store_uuid :: string
  ms_store_mailbox_id :: "64 word"
  ms_store_message_id :: "64 word"
  ms_store_global_id :: "64 word"

datatype binary_error =
    TruncatedInteger
  | TruncatedPayload
  | StringExceedsBound
  | InvalidText
  | ListExceedsBound nat
  | TrailingBytes nat
  | IntegerExceeds32
  | IntegerExceeds63
  | UnknownFlags "64 word"
  | NoncanonicalBinary
  | EmptyServerField

definition binary_format_version :: int where
  "binary_format_version = 3"

definition binary_payload_marker :: char where
  "binary_payload_marker = CHR 0xD8"

definition max_compact_string_bytes :: nat where
  "max_compact_string_bytes = 262144"

definition max_compact_list_length :: nat where
  "max_compact_list_length = 1024"

definition flag_account_uuid :: "64 word" where "flag_account_uuid = push_bit 0 1"
definition flag_store_identity :: "64 word" where "flag_store_identity = push_bit 1 1"
definition flag_library_numeric :: "64 word" where "flag_library_numeric = push_bit 2 1"
definition flag_imap_uid :: "64 word" where "flag_imap_uid = push_bit 3 1"
definition flag_imap_mailbox :: "64 word" where "flag_imap_mailbox = push_bit 4 1"
definition flag_subject_hash :: "64 word" where "flag_subject_hash = push_bit 5 1"
definition flag_wide_store_message_id :: "64 word" where "flag_wide_store_message_id = push_bit 6 1"
definition flag_message_id :: "64 word" where "flag_message_id = push_bit 7 1"
definition flag_imap_uid_validity :: "64 word" where "flag_imap_uid_validity = push_bit 8 1"
definition flag_store_uuid_text :: "64 word" where "flag_store_uuid_text = push_bit 9 1"

definition account_flag_mask :: "64 word" where
  "account_flag_mask = flag_account_uuid"

definition mailbox_flag_mask :: "64 word" where
  "mailbox_flag_mask = flag_account_uuid"

definition message_flag_mask :: "64 word" where
  "message_flag_mask = foldr or [flag_account_uuid, flag_store_identity, flag_library_numeric,
     flag_imap_uid, flag_imap_mailbox, flag_subject_hash, flag_wide_store_message_id,
     flag_message_id, flag_imap_uid_validity, flag_store_uuid_text] 0"

definition unknown_flags :: "64 word \<Rightarrow> 64 word \<Rightarrow> bool" where
  "unknown_flags flags allowed \<longleftrightarrow> and flags (not allowed) \<noteq> 0"

section \<open>Subject fingerprint\<close>

definition subject_hash :: "string \<Rightarrow> 32 word" where
  "subject_hash subject = (let h = word_of_nat (be_value (take 4 (sha256 subject))) in
     if h = 0 then 1 else h)"

definition has_subject_check :: "message_ref \<Rightarrow> bool" where
  "has_subject_check m \<longleftrightarrow> ms_subject m \<noteq> [] \<or> ms_subject_hash m \<noteq> 0"

definition subject_matches :: "message_ref \<Rightarrow> string \<Rightarrow> bool" where
  "subject_matches m subject =
     (if ms_subject m \<noteq> [] then subject = ms_subject m
      else ms_subject_hash m = 0 \<or> subject_hash subject = ms_subject_hash m)"

definition is_binary_payload :: "string \<Rightarrow> bool" where
  "is_binary_payload payload \<longleftrightarrow> 2 \<le> length payload \<and> payload ! 0 = binary_payload_marker"

section \<open>Identifiers\<close>

text \<open>
  \<open>parseCanonicalUUID\<close>. The comparison with the upper-cased text only looks at ASCII letters:
  a text with any other letter is refused by the hexadecimal decoding that follows.
\<close>

definition parse_canonical_uuid :: "string \<Rightarrow> string option" where
  "parse_canonical_uuid v =
     (if length v \<noteq> 36 \<or> v ! 8 \<noteq> CHR ''-'' \<or> v ! 13 \<noteq> CHR ''-'' \<or> v ! 18 \<noteq> CHR ''-'' \<or> v ! 23 \<noteq> CHR ''-''
      then None
      else let compact = take 8 v @ take 4 (drop 9 v) @ take 4 (drop 14 v) @ take 4 (drop 19 v) @ drop 24 v in
        if compact \<noteq> upper_hex compact then None
        else case decode_hex compact of
            None \<Rightarrow> None
          | Some raw \<Rightarrow> if length raw \<noteq> 16 then None else Some raw)"

definition format_uuid :: "string \<Rightarrow> string" where
  "format_uuid raw = (let t = upper_hex (encode_hex raw) in
     take 8 t @ ''-'' @ take 4 (drop 8 t) @ ''-'' @ take 4 (drop 12 t) @ ''-'' @ take 4 (drop 16 t)
     @ ''-'' @ drop 20 t)"

definition sanitize_utf8 :: "string \<Rightarrow> string" where
  "sanitize_utf8 v = (if valid_utf8 v then v else encode_runes (runes v))"

definition sanitize_path :: "string list \<Rightarrow> string list" where
  "sanitize_path path = map sanitize_utf8 path"

definition validate_compact_path :: "string list \<Rightarrow> binary_error + unit" where
  "validate_compact_path path = bindR
     (guardR (length path \<le> max_compact_list_length) (ListExceedsBound (length path)))
     (\<lambda>_. guardR (list_all (\<lambda>c. length c \<le> max_compact_string_bytes) path) StringExceedsBound)"

definition validate_binary_bounds :: "string list \<Rightarrow> string list \<Rightarrow> binary_error + unit" where
  "validate_binary_bounds path texts = bindR (validate_compact_path path)
     (\<lambda>_. guardR (list_all (\<lambda>t. length t \<le> max_compact_string_bytes) texts) StringExceedsBound)"

definition canonical_decimal :: "string \<Rightarrow> 64 word option" where
  "canonical_decimal v = (case parse_uint 64 v of
      None \<Rightarrow> None
    | Some n \<Rightarrow> if format_uint n \<noteq> v then None else Some (word_of_nat n))"

definition varint_length :: "64 word \<Rightarrow> nat" where
  "varint_length v = length (put_varint v)"

section \<open>Writer\<close>

text \<open>The bytes each writer method appends to the buffer.\<close>

definition writer_new :: "64 word \<Rightarrow> string" where
  "writer_new flags = binary_payload_marker # put_uvarint flags"

definition write_text :: "string \<Rightarrow> string" where
  "write_text v = put_uvarint (word_of_nat (length v)) @ v"

definition write_identifier :: "string \<Rightarrow> string option \<Rightarrow> string" where
  "write_identifier v raw = (case raw of Some b \<Rightarrow> b | None \<Rightarrow> write_text v)"

definition write_path :: "string list \<Rightarrow> string" where
  "write_path path = put_uvarint (word_of_nat (length path)) @ concat (map write_text path)"

section \<open>Reader\<close>

record binary_reader =
  rd_data :: string
  rd_err :: "binary_error option"

type_synonym 'a rd = "(binary_reader, 'a) state"

definition rd_fail :: "binary_error \<Rightarrow> unit rd" where
  "rd_fail e = State (\<lambda>r. ((), if rd_err r = None then r\<lparr>rd_err := Some e\<rparr> else r))"

definition rd_failed :: "bool rd" where
  "rd_failed = State (\<lambda>r. (rd_err r \<noteq> None, r))"

definition rd_uvarint :: "64 word rd" where
  "rd_uvarint = State (\<lambda>r.
     if rd_err r \<noteq> None then (0, r)
     else case get_uvarint (rd_data r) of (value, n) \<Rightarrow>
       if n \<le> 0 then (0, snd (run_state (rd_fail TruncatedInteger) r))
       else (value, r\<lparr>rd_data := drop (nat n) (rd_data r)\<rparr>))"

definition rd_varint :: "64 word rd" where
  "rd_varint = State (\<lambda>r.
     if rd_err r \<noteq> None then (0, r)
     else case get_varint (rd_data r) of (value, n) \<Rightarrow>
       if n \<le> 0 then (0, snd (run_state (rd_fail TruncatedInteger) r))
       else (value, r\<lparr>rd_data := drop (nat n) (rd_data r)\<rparr>))"

definition rd_take :: "64 word \<Rightarrow> string rd" where
  "rd_take len = State (\<lambda>r.
     if rd_err r \<noteq> None then ([], r)
     else if length (rd_data r) < unat len then ([], snd (run_state (rd_fail TruncatedPayload) r))
     else (take (unat len) (rd_data r), r\<lparr>rd_data := drop (unat len) (rd_data r)\<rparr>))"

definition rd_text :: "string rd" where
  "rd_text = do {
     len \<leftarrow> rd_uvarint;
     if max_compact_string_bytes < unat len then do {
       rd_fail StringExceedsBound;
       State_Monad.return []
     } else do {
       chunk \<leftarrow> rd_take len;
       failed \<leftarrow> rd_failed;
       (if \<not> failed \<and> \<not> valid_utf8 chunk then rd_fail InvalidText else State_Monad.return ());
       State_Monad.return chunk
     }
   }"

definition rd_identifier :: "bool \<Rightarrow> string rd" where
  "rd_identifier is_uuid = (if \<not> is_uuid then rd_text else do {
     chunk \<leftarrow> rd_take 16;
     failed \<leftarrow> rd_failed;
     State_Monad.return (if failed then [] else format_uuid chunk)
   })"

fun rd_components :: "nat \<Rightarrow> string list \<Rightarrow> string list rd" where
  "rd_components 0 path = State_Monad.return path"
| "rd_components (Suc k) path = do {
     component \<leftarrow> rd_text;
     failed \<leftarrow> rd_failed;
     if failed then State_Monad.return [] else rd_components k (path @ [component])
   }"

definition rd_path :: "string list rd" where
  "rd_path = do {
     count \<leftarrow> rd_uvarint;
     if max_compact_list_length < unat count then do {
       rd_fail (ListExceedsBound (unat count));
       State_Monad.return []
     } else rd_components (unat count) []
   }"

definition rd_uint32 :: "32 word rd" where
  "rd_uint32 = do {
     value \<leftarrow> rd_uvarint;
     if 2 ^ 32 - 1 < unat value then do {
       rd_fail IntegerExceeds32;
       State_Monad.return 0
     } else State_Monad.return (ucast value)
   }"

definition rd_nonnegative_int64 :: "64 word rd" where
  "rd_nonnegative_int64 = do {
     value \<leftarrow> rd_uvarint;
     if 2 ^ 63 - 1 < unat value then do {
       rd_fail IntegerExceeds63;
       State_Monad.return 0
     } else State_Monad.return value
   }"

definition padded :: "string \<Rightarrow> nat \<Rightarrow> string" where
  "padded chunk n = (if length chunk = n then chunk else replicate n (CHR 0x00))"

definition rd_when :: "bool \<Rightarrow> 'a rd \<Rightarrow> 'a \<Rightarrow> 'a rd" where
  "rd_when c m dflt = (if c then m else State_Monad.return dflt)"

definition rd_finish :: "binary_reader \<Rightarrow> binary_error + unit" where
  "rd_finish r = (case rd_err r of
      Some e \<Rightarrow> Inl e
    | None \<Rightarrow> if rd_data r \<noteq> [] then Inl (TrailingBytes (length (rd_data r))) else Inr ())"

text \<open>\<open>newBinaryReader\<close>: the reader after the marker byte, and the flags it reads first.\<close>

definition new_binary_reader :: "string \<Rightarrow> 64 word \<times> binary_reader" where
  "new_binary_reader payload = run_state rd_uvarint \<lparr>rd_data = drop 1 payload, rd_err = None\<rparr>"


section \<open>Payloads\<close>

definition encode_binary_account :: "string \<Rightarrow> binary_error + string" where
  "encode_binary_account account_id = (let account_id = sanitize_utf8 account_id in
     bindR (validate_binary_bounds [] [account_id]) (\<lambda>_.
       let raw = parse_canonical_uuid account_id;
           flags = (if is_some raw then flag_account_uuid else 0)
       in Inr (writer_new flags @ write_identifier account_id raw)))"

definition canonical_or :: "binary_error + string \<Rightarrow> string \<Rightarrow> 'a \<Rightarrow> binary_error + 'a" where
  "canonical_or canonical payload x =
     (case canonical of
        Inl _ \<Rightarrow> Inl NoncanonicalBinary
      | Inr c \<Rightarrow> if c \<noteq> payload then Inl NoncanonicalBinary else Inr x)"

definition decode_binary_account :: "string \<Rightarrow> binary_error + account_ref" where
  "decode_binary_account payload = (case new_binary_reader payload of (flags, r) \<Rightarrow>
     if unknown_flags flags account_flag_mask then Inl (UnknownFlags flags)
     else case run_state (rd_identifier (flag_set flags flag_account_uuid)) r of (account_id, r) \<Rightarrow>
       bindR (rd_finish r) (\<lambda>_.
         canonical_or (encode_binary_account account_id) payload
           \<lparr>ac_version = binary_format_version, ac_account_id = account_id\<rparr>))"

definition encode_binary_mailbox :: "string \<Rightarrow> string list \<Rightarrow> binary_error + string" where
  "encode_binary_mailbox account_id path = (let account_id = sanitize_utf8 account_id;
       path = sanitize_path path in
     bindR (validate_binary_bounds path [account_id]) (\<lambda>_.
       let raw = parse_canonical_uuid account_id;
           flags = (if is_some raw then flag_account_uuid else 0)
       in Inr (writer_new flags @ write_identifier account_id raw @ write_path path)))"

definition decode_binary_mailbox :: "string \<Rightarrow> binary_error + mailbox_ref" where
  "decode_binary_mailbox payload = (case new_binary_reader payload of (flags, r) \<Rightarrow>
     if unknown_flags flags mailbox_flag_mask then Inl (UnknownFlags flags)
     else case run_state (rd_identifier (flag_set flags flag_account_uuid)) r of (account_id, r) \<Rightarrow>
          case run_state rd_path r of (path, r) \<Rightarrow>
       bindR (rd_finish r) (\<lambda>_.
         canonical_or (encode_binary_mailbox account_id path) payload
           \<lparr>mb_version = binary_format_version, mb_account_id = account_id, mb_path = path\<rparr>))"

definition set_if :: "bool \<Rightarrow> 64 word \<Rightarrow> 64 word \<Rightarrow> 64 word" where
  "set_if condition flag flags = (if condition then or flags flag else flags)"

definition message_flags :: "message_ref \<Rightarrow> bool \<Rightarrow> bool \<Rightarrow> bool \<Rightarrow> 32 word \<Rightarrow> 64 word" where
  "message_flags ref account_is_uuid store_is_uuid library_is_number hash =
     set_if (ms_store_uuid ref \<noteq> [] \<and> 8 < varint_length (ms_store_message_id ref))
       flag_wide_store_message_id
     (set_if (hash \<noteq> 0) flag_subject_hash
     (set_if (ms_imap_mailbox_id ref \<noteq> 0) flag_imap_mailbox
     (set_if (ms_imap_uid_validity ref \<noteq> 0) flag_imap_uid_validity
     (set_if (ms_imap_uid ref \<noteq> 0) flag_imap_uid
     (set_if (ms_message_id ref \<noteq> []) flag_message_id
     (set_if library_is_number flag_library_numeric
     (set_if (ms_store_uuid ref \<noteq> [] \<and> \<not> store_is_uuid) flag_store_uuid_text
     (set_if (ms_store_uuid ref \<noteq> []) flag_store_identity
     (set_if account_is_uuid flag_account_uuid 0)))))))))"

definition sanitize_message :: "message_ref \<Rightarrow> message_ref" where
  "sanitize_message ref = ref\<lparr>
     ms_account_id := sanitize_utf8 (ms_account_id ref),
     ms_mailbox_path := sanitize_path (ms_mailbox_path ref),
     ms_library_id := sanitize_utf8 (ms_library_id ref),
     ms_message_id := sanitize_utf8 (ms_message_id ref),
     ms_store_uuid := sanitize_utf8 (ms_store_uuid ref)\<rparr>"

definition message_subject_hash :: "message_ref \<Rightarrow> 32 word" where
  "message_subject_hash ref =
     (if ms_subject ref \<noteq> [] then subject_hash (ms_subject ref) else ms_subject_hash ref)"

definition encode_binary_message :: "message_ref \<Rightarrow> binary_error + string" where
  "encode_binary_message ref = (let ref = sanitize_message ref in
     bindR (validate_binary_bounds (ms_mailbox_path ref)
         [ms_account_id ref, ms_library_id ref, ms_message_id ref, ms_store_uuid ref]) (\<lambda>_.
       let account_raw = parse_canonical_uuid (ms_account_id ref);
           store_raw = parse_canonical_uuid (ms_store_uuid ref);
           library_number = canonical_decimal (ms_library_id ref);
           hash = message_subject_hash ref;
           flags = message_flags ref (is_some account_raw) (is_some store_raw) (is_some library_number) hash
       in Inr (writer_new flags
         @ write_identifier (ms_account_id ref) account_raw
         @ write_path (ms_mailbox_path ref)
         @ (case library_number of Some n \<Rightarrow> put_uvarint n | None \<Rightarrow> write_text (ms_library_id ref))
         @ (if flag_set flags flag_message_id then write_text (ms_message_id ref) else [])
         @ (if flag_set flags flag_imap_uid then put_uvarint (ucast (ms_imap_uid ref)) else [])
         @ (if flag_set flags flag_imap_uid_validity
            then put_uvarint (ucast (ms_imap_uid_validity ref)) else [])
         @ (if flag_set flags flag_imap_mailbox then put_uvarint (ms_imap_mailbox_id ref) else [])
         @ (if flag_set flags flag_subject_hash then be_bytes 4 (unat hash) else [])
         @ (if flag_set flags flag_store_identity then
              write_identifier (ms_store_uuid ref) store_raw
              @ put_varint (ms_store_mailbox_id ref)
              @ (if flag_set flags flag_wide_store_message_id
                 then be_bytes 8 (unat (ms_store_message_id ref))
                 else put_varint (ms_store_message_id ref))
              @ put_varint (ms_store_global_id ref)
            else []))))"

text \<open>The reads of \<open>decodeBinaryMessage\<close> after the flags, in the order of the source.\<close>

definition rd_store_identity :: "64 word \<Rightarrow> (string \<times> 64 word \<times> 64 word \<times> 64 word) rd" where
  "rd_store_identity flags = do {
     store_uuid \<leftarrow> rd_identifier (\<not> flag_set flags flag_store_uuid_text);
     store_mailbox \<leftarrow> rd_varint;
     store_message \<leftarrow> (if flag_set flags flag_wide_store_message_id
       then do { chunk \<leftarrow> rd_take 8; State_Monad.return (word_of_nat (be_value (padded chunk 8))) }
       else rd_varint);
     store_global \<leftarrow> rd_varint;
     State_Monad.return (store_uuid, store_mailbox, store_message, store_global)
   }"

definition rd_message :: "64 word \<Rightarrow> message_ref rd" where
  "rd_message flags = do {
     account_id \<leftarrow> rd_identifier (flag_set flags flag_account_uuid);
     path \<leftarrow> rd_path;
     library_id \<leftarrow> (if flag_set flags flag_library_numeric
       then do { n \<leftarrow> rd_uvarint; State_Monad.return (format_uint (unat n)) } else rd_text);
     message_id \<leftarrow> rd_when (flag_set flags flag_message_id) rd_text [];
     uid \<leftarrow> rd_when (flag_set flags flag_imap_uid) rd_uint32 0;
     uid_validity \<leftarrow> rd_when (flag_set flags flag_imap_uid_validity) rd_uint32 0;
     mailbox_id \<leftarrow> rd_when (flag_set flags flag_imap_mailbox) rd_nonnegative_int64 0;
     hash \<leftarrow> rd_when (flag_set flags flag_subject_hash)
       (do { chunk \<leftarrow> rd_take 4; State_Monad.return (word_of_nat (be_value (padded chunk 4))) }) 0;
     store \<leftarrow> rd_when (flag_set flags flag_store_identity) (rd_store_identity flags) ([], 0, 0, 0);
     State_Monad.return \<lparr>ms_version = binary_format_version, ms_account_id = account_id,
       ms_mailbox_path = path, ms_library_id = library_id, ms_message_id = message_id,
       ms_imap_uid = uid, ms_imap_uid_validity = uid_validity, ms_imap_mailbox_id = mailbox_id,
       ms_subject = [], ms_subject_hash = hash, ms_store_uuid = fst store,
       ms_store_mailbox_id = fst (snd store), ms_store_message_id = fst (snd (snd store)),
       ms_store_global_id = snd (snd (snd store))\<rparr>
   }"

definition decode_binary_message :: "string \<Rightarrow> binary_error + message_ref" where
  "decode_binary_message payload = (case new_binary_reader payload of (flags, r) \<Rightarrow>
     if unknown_flags flags message_flag_mask then Inl (UnknownFlags flags)
     else case run_state (rd_message flags) r of (message, r) \<Rightarrow>
       bindR (rd_finish r) (\<lambda>_.
         canonical_or (encode_binary_message message) payload message))"


section \<open>Field round trips\<close>

named_theorems reader_simps "reading back what the writer appended"

abbreviation rdr :: "string \<Rightarrow> binary_reader" where
  "rdr s \<equiv> \<lparr>rd_data = s, rd_err = None\<rparr>"

lemma run_bind [reader_simps]:
  "run_state (State_Monad.bind m f) r = (case run_state m r of (x, r') \<Rightarrow> run_state (f x) r')"
  by (simp add: State_Monad.bind_def Let_def split: prod.split)

lemma run_return [reader_simps]: "run_state (State_Monad.return x) r = (x, r)"
  by (simp add: State_Monad.return_def)

lemma run_failed [reader_simps]: "run_state rd_failed r = (rd_err r \<noteq> None, r)"
  by (simp add: rd_failed_def)

lemma run_uvarint [reader_simps]: "run_state rd_uvarint (rdr (put_uvarint v @ rest)) = (v, rdr rest)"
  by (simp add: rd_uvarint_def)

lemma run_varint [reader_simps]: "run_state rd_varint (rdr (put_varint v @ rest)) = (v, rdr rest)"
  by (simp add: rd_varint_def)

lemma run_take [reader_simps]:
  "unat n = length chunk \<Longrightarrow> run_state (rd_take n) (rdr (chunk @ rest)) = (chunk, rdr rest)"
  by (simp add: rd_take_def)

definition text_ok :: "string \<Rightarrow> bool" where
  "text_ok v \<longleftrightarrow> valid_utf8 v \<and> length v \<le> max_compact_string_bytes"

lemma text_ok_unat_length:
  "length v \<le> max_compact_string_bytes \<Longrightarrow> unat (word_of_nat (length v) :: 64 word) = length v"
  by (simp add: unat_of_nat max_compact_string_bytes_def)

lemma run_text [reader_simps]:
  "text_ok v \<Longrightarrow> run_state rd_text (rdr (write_text v @ rest)) = (v, rdr rest)"
  by (simp add: rd_text_def write_text_def reader_simps text_ok_def text_ok_unat_length)

lemma upper_hex_idem [simp]: "upper_hex (upper_hex s) = upper_hex s"
  by (simp add: upper_hex_def o_def)

lemma split_uuid:
  assumes "length v = 36" "v ! 8 = d" "v ! 13 = d" "v ! 18 = d" "v ! 23 = d"
  shows "v = take 8 v @ d # take 4 (drop 9 v) @ d # take 4 (drop 14 v) @ d # take 4 (drop 19 v) @ d # drop 24 v"
proof -
  have step: "drop i v = take k (drop i v) @ v ! (i + k) # drop (i + k + 1) v" if "i + k < 36" for i k
    using that assms(1) id_take_nth_drop [of k "drop i v"] by (simp add: add.commute)
  have "v = take 8 v @ d # drop 9 v" using step [of 0 8] assms by simp
  moreover have "drop 9 v = take 4 (drop 9 v) @ d # drop 14 v" using step [of 9 4] assms by simp
  moreover have "drop 14 v = take 4 (drop 14 v) @ d # drop 19 v" using step [of 14 4] assms by simp
  moreover have "drop 19 v = take 4 (drop 19 v) @ d # drop 24 v" using step [of 19 4] assms by simp
  ultimately show ?thesis by metis
qed

lemma format_parse_uuid:
  assumes "parse_canonical_uuid v = Some raw"
  shows "format_uuid raw = v" "length raw = 16"
proof -
  let ?c = "take 8 v @ take 4 (drop 9 v) @ take 4 (drop 14 v) @ take 4 (drop 19 v) @ drop 24 v"
  from assms have len: "length v = 36" and dash: "v ! 8 = CHR ''-''" "v ! 13 = CHR ''-''" "v ! 18 = CHR ''-''"
    "v ! 23 = CHR ''-''" and up: "upper_hex ?c = ?c" and dec: "decode_hex ?c = Some raw"
    and raw: "length raw = 16"
    by (auto simp: parse_canonical_uuid_def Let_def split: if_splits option.splits)
  from upper_encode_decode_hex [OF dec up] have "upper_hex (encode_hex raw) = ?c" .
  then have "format_uuid raw = take 8 v @ ''-'' @ take 4 (drop 9 v) @ ''-'' @ take 4 (drop 14 v) @ ''-''
      @ take 4 (drop 19 v) @ ''-'' @ drop 24 v"
    using len by (simp add: format_uuid_def Let_def)
  also have "\<dots> = v" using split_uuid [OF len dash] by simp
  finally show "format_uuid raw = v" .
  show "length raw = 16" by (fact raw)
qed

lemma run_identifier [reader_simps]:
  assumes "text_ok v" "raw = parse_canonical_uuid v"
  shows "run_state (rd_identifier (is_some raw)) (rdr (write_identifier v raw @ rest)) = (v, rdr rest)"
proof (cases raw)
  case None
  with assms show ?thesis by (simp add: rd_identifier_def write_identifier_def reader_simps)
next
  case (Some b)
  with assms have "format_uuid b = v" "length b = 16" using format_parse_uuid by metis+
  with Some show ?thesis by (simp add: rd_identifier_def write_identifier_def reader_simps)
qed

lemma run_components:
  "list_all text_ok path \<Longrightarrow>
   run_state (rd_components (length path) acc) (rdr (concat (map write_text path) @ rest))
     = (acc @ path, rdr rest)"
  by (induction path arbitrary: acc) (simp_all add: reader_simps)

definition path_ok :: "string list \<Rightarrow> bool" where
  "path_ok path \<longleftrightarrow> length path \<le> max_compact_list_length \<and> list_all text_ok path"

lemma run_path [reader_simps]:
  assumes "path_ok path"
  shows "run_state rd_path (rdr (write_path path @ rest)) = (path, rdr rest)"
proof -
  have "unat (word_of_nat (length path) :: 64 word) = length path"
    using assms by (simp add: path_ok_def unat_of_nat max_compact_list_length_def)
  then show ?thesis
    using assms run_components [of path "[]" rest]
    by (simp add: rd_path_def write_path_def reader_simps path_ok_def)
qed

lemma run_uint32 [reader_simps]:
  fixes v :: "32 word"
  shows "run_state rd_uint32 (rdr (put_uvarint (ucast v) @ rest)) = (v, rdr rest)"
proof -
  have "unat (ucast v :: 64 word) = unat v" by (simp add: unsigned_ucast_eq take_bit_nat_eq_self_iff less_trans [OF unsigned_less])
  moreover have "unat v < 2 ^ 32" using unsigned_less [of v] by simp
  moreover have "ucast (ucast v :: 64 word) = v" by (rule ucast_up_ucast_id) (simp add: is_up)
  ultimately show ?thesis by (simp add: rd_uint32_def reader_simps)
qed

lemma unat_nonnegative:
  fixes v :: "64 word"
  assumes "0 \<le>s v"
  shows "unat v < 2 ^ 63"
proof -
  have "\<not> bit v 63"
    using assms by (simp add: sless_0_iff_bit [symmetric] word_sle_eq word_sless_alt)
  then have "\<not> bit (unat v) 63" by (simp add: bit_unsigned_iff)
  then have "take_bit (Suc 63) (unat v) = take_bit 63 (unat v)"
    by (subst take_bit_Suc_from_most) simp
  moreover have "take_bit (Suc 63) (unat v) = unat v"
    using unsigned_less [of v] by (intro take_bit_nat_eq_self) simp
  ultimately show ?thesis by (metis take_bit_nat_less_exp)
qed

lemma run_nonnegative_int64 [reader_simps]:
  assumes "0 \<le>s v"
  shows "run_state rd_nonnegative_int64 (rdr (put_uvarint v @ rest)) = (v, rdr rest)"
  using unat_nonnegative [OF assms] by (simp add: rd_nonnegative_int64_def reader_simps)

lemma run_canonical_decimal [reader_simps]:
  assumes "canonical_decimal v = Some n"
  shows "format_uint (unat n) = v"
proof -
  from assms obtain k where k: "parse_uint 64 v = Some k" "format_uint k = v" "n = word_of_nat k"
    by (auto simp: canonical_decimal_def split: option.splits if_splits)
  then have "unat n = k" using parse_uint_bound [OF k(1)] by (simp add: unat_of_nat)
  with k show ?thesis by simp
qed

lemma run_when_absent [reader_simps]: "run_state (rd_when False m d) r = (d, r)"
  by (simp add: rd_when_def reader_simps)

lemma run_when_present [reader_simps]: "run_state (rd_when True m d) r = run_state m r"
  by (simp add: rd_when_def)


section \<open>Flags\<close>

lemma and_push_bit_1: "n < 64 \<Longrightarrow> and w (push_bit n 1) \<noteq> 0 \<longleftrightarrow> bit w n" for w :: "64 word"
  by (simp add: bit_iff_and_push_bit_not_eq_0 push_bit_eq_mult)

lemma flag_set_push_bit: "n < 64 \<Longrightarrow> flag_set w (push_bit n 1) \<longleftrightarrow> bit w n" for w :: "64 word"
  by (simp only: flag_set_def and_push_bit_1)

lemma bit_set_if:
  "n < 64 \<Longrightarrow> m < 64 \<Longrightarrow> bit (set_if c (push_bit n 1) w) m \<longleftrightarrow> (c \<and> m = n) \<or> bit w m"
  by (cases c) (auto simp only: set_if_def if_True if_False bit_or_iff bit_push_bit_iff bit_1_iff
      possible_bit_word, auto)

lemmas flag_defs = flag_account_uuid_def flag_store_identity_def flag_library_numeric_def
  flag_imap_uid_def flag_imap_mailbox_def flag_subject_hash_def flag_wide_store_message_id_def
  flag_message_id_def flag_imap_uid_validity_def flag_store_uuid_text_def

lemma bit_message_flags:
  assumes "n < 64"
  shows "bit (message_flags ref a s l h) n \<longleftrightarrow>
    (n = 0 \<and> a) \<or> (n = 1 \<and> ms_store_uuid ref \<noteq> []) \<or> (n = 2 \<and> l) \<or> (n = 3 \<and> ms_imap_uid ref \<noteq> 0)
    \<or> (n = 4 \<and> ms_imap_mailbox_id ref \<noteq> 0) \<or> (n = 5 \<and> h \<noteq> 0)
    \<or> (n = 6 \<and> ms_store_uuid ref \<noteq> [] \<and> 8 < varint_length (ms_store_message_id ref))
    \<or> (n = 7 \<and> ms_message_id ref \<noteq> []) \<or> (n = 8 \<and> ms_imap_uid_validity ref \<noteq> 0)
    \<or> (n = 9 \<and> ms_store_uuid ref \<noteq> [] \<and> \<not> s)"
  using assms by (simp only: message_flags_def flag_defs bit_set_if bit_0_eq) auto

lemma flag_set_bits:
  "flag_set w flag_account_uuid \<longleftrightarrow> bit w 0" "flag_set w flag_store_identity \<longleftrightarrow> bit w 1"
  "flag_set w flag_library_numeric \<longleftrightarrow> bit w 2" "flag_set w flag_imap_uid \<longleftrightarrow> bit w 3"
  "flag_set w flag_imap_mailbox \<longleftrightarrow> bit w 4" "flag_set w flag_subject_hash \<longleftrightarrow> bit w 5"
  "flag_set w flag_wide_store_message_id \<longleftrightarrow> bit w 6" "flag_set w flag_message_id \<longleftrightarrow> bit w 7"
  "flag_set w flag_imap_uid_validity \<longleftrightarrow> bit w 8" "flag_set w flag_store_uuid_text \<longleftrightarrow> bit w 9"
  by (unfold flag_defs, (rule flag_set_push_bit, simp)+)

lemma flag_set_message_flags [reader_simps]:
  fixes ref a s l h
  defines "f \<equiv> message_flags ref a s l h"
  shows "flag_set f flag_account_uuid \<longleftrightarrow> a"
    "flag_set f flag_store_identity \<longleftrightarrow> ms_store_uuid ref \<noteq> []"
    "flag_set f flag_library_numeric \<longleftrightarrow> l"
    "flag_set f flag_imap_uid \<longleftrightarrow> ms_imap_uid ref \<noteq> 0"
    "flag_set f flag_imap_mailbox \<longleftrightarrow> ms_imap_mailbox_id ref \<noteq> 0"
    "flag_set f flag_subject_hash \<longleftrightarrow> h \<noteq> 0"
    "flag_set f flag_wide_store_message_id \<longleftrightarrow>
       ms_store_uuid ref \<noteq> [] \<and> 8 < varint_length (ms_store_message_id ref)"
    "flag_set f flag_message_id \<longleftrightarrow> ms_message_id ref \<noteq> []"
    "flag_set f flag_imap_uid_validity \<longleftrightarrow> ms_imap_uid_validity ref \<noteq> 0"
    "flag_set f flag_store_uuid_text \<longleftrightarrow> ms_store_uuid ref \<noteq> [] \<and> \<not> s"
  by (simp_all add: f_def flag_set_bits bit_message_flags)

lemma bit_message_flag_mask: "n < 64 \<Longrightarrow> bit message_flag_mask n \<longleftrightarrow> n < 10"
proof -
  assume n: "n < 64"
  have step: "bit (or (push_bit k 1) w) n \<longleftrightarrow> n = k \<or> bit w n" if "k < 64" for k and w :: "64 word"
    using bit_set_if [of k n True w] that n by (simp only: set_if_def if_True or.commute) simp
  have "bit message_flag_mask n \<longleftrightarrow> n \<in> {0, 1, 2, 3, 4, 6, 5, 7, 8, 9}"
    unfolding message_flag_mask_def flag_defs
    by (simp only: foldr.simps comp_def id_apply) (simp only: step bit_0_eq, simp add: disj_ac)
  also have "\<dots> \<longleftrightarrow> n < 10" by (simp only: insert_iff empty_iff) arith
  finally show ?thesis .
qed

lemma known_message_flags [reader_simps]: "\<not> unknown_flags (message_flags ref a s l h) message_flag_mask"
proof -
  have "and (message_flags ref a s l h) (not message_flag_mask) = 0"
  proof (rule bit_word_eqI)
    fix n assume "n < LENGTH(64)"
    then have "n < 64" by simp
    then show "bit (and (message_flags ref a s l h) (not message_flag_mask)) n = bit (0 :: 64 word) n"
      by (auto simp: bit_and_iff bit_not_iff bit_message_flag_mask bit_message_flags)
  qed
  then show ?thesis by (simp add: unknown_flags_def)
qed

lemma account_flags [reader_simps]:
  "\<not> unknown_flags (if c then flag_account_uuid else 0) account_flag_mask"
  "\<not> unknown_flags (if c then flag_account_uuid else 0) mailbox_flag_mask"
  "flag_set (if c then flag_account_uuid else 0) flag_account_uuid \<longleftrightarrow> c"
  by (simp_all add: unknown_flags_def account_flag_mask_def mailbox_flag_mask_def flag_set_def
      flag_account_uuid_def)

section \<open>Payload round trips\<close>

lemma is_scalar_rune_error [simp]: "is_scalar rune_error"
  by (simp add: is_scalar_def)

lemma runes_scalar: "list_all is_scalar (runes s)"
proof (induction s rule: utf8_chunks.induct)
  case (1 s)
  show ?case
  proof (cases "s = []")
    case False
    obtain r n where d: "decode_rune s = (r, n)" by fastforce
    have "is_scalar r" using decode_rune_sound [OF d] by (cases "r = rune_error \<and> n \<le> 1") auto
    then show ?thesis
      using "1.IH" [OF False d [symmetric] refl] False d
      by (subst runes_def, subst utf8_chunks.simps) (simp add: runes_def)
  qed (simp add: runes_def)
qed

lemma valid_sanitize_utf8 [simp]: "valid_utf8 (sanitize_utf8 v)"
  by (simp add: sanitize_utf8_def valid_encode_runes runes_scalar)

lemma sanitize_utf8_valid [simp]: "valid_utf8 v \<Longrightarrow> sanitize_utf8 v = v"
  by (simp add: sanitize_utf8_def)

lemma sanitize_utf8_Nil [simp]: "sanitize_utf8 v = [] \<longleftrightarrow> v = []"
proof -
  have "encode_runes (runes v) = [] \<longleftrightarrow> runes v = []" by (cases "runes v") simp_all
  also have "\<dots> \<longleftrightarrow> v = []"
    using utf8_chunks_concat [of v] by (auto simp: runes_def)
  finally show ?thesis by (simp add: sanitize_utf8_def)
qed

lemma sanitize_path_idem [simp]: "sanitize_path (sanitize_path path) = sanitize_path path"
  by (simp add: sanitize_path_def)

lemma sanitize_message_idem [simp]: "sanitize_message (sanitize_message ref) = sanitize_message ref"
  by (simp add: sanitize_message_def)

lemma bounds_ok:
  assumes "validate_binary_bounds (sanitize_path path) texts = Inr ()"
  shows "path_ok (sanitize_path path)" "list_all (\<lambda>t. length t \<le> max_compact_string_bytes) texts"
  using assms
  by (auto simp: validate_binary_bounds_def validate_compact_path_def path_ok_def text_ok_def
      result_simps list_all_iff sanitize_path_def)

lemma new_reader_writer [reader_simps]:
  "new_binary_reader (writer_new flags @ rest) = (flags, rdr rest)"
  by (simp add: new_binary_reader_def writer_new_def reader_simps)

lemma rd_finish_rdr [reader_simps]: "rd_finish (rdr []) = Inr ()"
  by (simp add: rd_finish_def)

lemma canonical_or_same [reader_simps]: "canonical_or (Inr p) p x = Inr x"
  by (simp add: canonical_or_def)

lemma canonical_or_Inr: "canonical_or c p x = Inr y \<longleftrightarrow> c = Inr p \<and> x = y"
  by (cases c) (auto simp: canonical_or_def)

lemmas reader_end = run_identifier [where rest = "[]", simplified append_Nil2]
  run_path [where rest = "[]", simplified append_Nil2]
  run_varint [where rest = "[]", simplified append_Nil2]

lemma decode_encode_account:
  assumes "encode_binary_account v = Inr payload"
  shows "decode_binary_account payload
    = Inr \<lparr>ac_version = binary_format_version, ac_account_id = sanitize_utf8 v\<rparr>"
proof -
  let ?v = "sanitize_utf8 v" and ?raw = "parse_canonical_uuid (sanitize_utf8 v)"
  from assms have b: "validate_binary_bounds (sanitize_path []) [?v] = Inr ()"
    and p: "payload = writer_new (if is_some ?raw then flag_account_uuid else 0) @ write_identifier ?v ?raw"
    by (auto simp: encode_binary_account_def Let_def result_simps sanitize_path_def)
  from bounds_ok [OF b] have "text_ok ?v" by (simp add: text_ok_def)
  moreover have "encode_binary_account ?v = Inr payload"
    using assms by (simp add: encode_binary_account_def)
  ultimately show ?thesis
    unfolding decode_binary_account_def by (simp add: p reader_simps reader_end)
qed

lemma decode_encode_mailbox:
  assumes "encode_binary_mailbox v path = Inr payload"
  shows "decode_binary_mailbox payload = Inr \<lparr>mb_version = binary_format_version,
    mb_account_id = sanitize_utf8 v, mb_path = sanitize_path path\<rparr>"
proof -
  let ?v = "sanitize_utf8 v" and ?raw = "parse_canonical_uuid (sanitize_utf8 v)"
  from assms have b: "validate_binary_bounds (sanitize_path path) [?v] = Inr ()"
    and p: "payload = writer_new (if is_some ?raw then flag_account_uuid else 0)
      @ write_identifier ?v ?raw @ write_path (sanitize_path path)"
    by (auto simp: encode_binary_mailbox_def Let_def result_simps)
  from bounds_ok [OF b] have "text_ok ?v" "path_ok (sanitize_path path)" by (simp_all add: text_ok_def)
  moreover have "encode_binary_mailbox ?v (sanitize_path path) = Inr payload"
    using assms by (simp add: encode_binary_mailbox_def)
  ultimately show ?thesis
    unfolding decode_binary_mailbox_def by (simp add: p reader_simps reader_end)
qed

text \<open>The message a decoder gives back for an encoded one.\<close>

definition normal_message :: "message_ref \<Rightarrow> message_ref" where
  "normal_message ref = (sanitize_message ref)\<lparr>ms_version := binary_format_version, ms_subject := [],
     ms_subject_hash := message_subject_hash ref\<rparr>"

lemma run_when_if:
  assumes "c \<Longrightarrow> run_state m (rdr (bytes @ rest)) = (v, rdr rest)" "\<not> c \<Longrightarrow> v = d"
  shows "run_state (rd_when c m d) (rdr ((if c then bytes else []) @ rest)) = (v, rdr rest)"
  using assms by (cases c) (simp_all add: reader_simps)

lemma run_library [reader_simps]:
  assumes "text_ok v" "n = canonical_decimal v"
  shows "run_state (if is_some n
      then do { k \<leftarrow> rd_uvarint; State_Monad.return (format_uint (unat k)) } else rd_text)
    (rdr ((case n of Some k \<Rightarrow> put_uvarint k | None \<Rightarrow> write_text v) @ rest)) = (v, rdr rest)"
  using assms(1) assms(2) [symmetric] by (cases n) (simp_all add: reader_simps)

lemma unat_lt2p': "unat w < 2 ^ LENGTH('a)" for w :: "'a::len word"
  by (rule unsigned_less)

lemma run_hash4 [reader_simps]:
  fixes h :: "32 word"
  shows "run_state (do { chunk \<leftarrow> rd_take 4; State_Monad.return (word_of_nat (be_value (padded chunk 4))) })
    (rdr (be_bytes 4 (unat h) @ rest)) = (h, rdr rest)"
  using unat_lt2p' [of h] by (simp add: reader_simps padded_def)

lemma run_wide8 [reader_simps]:
  fixes v :: "64 word"
  shows "run_state (do { chunk \<leftarrow> rd_take 8; State_Monad.return (word_of_nat (be_value (padded chunk 8))) })
    (rdr (be_bytes 8 (unat v) @ rest)) = (v, rdr rest)"
  using unat_lt2p' [of v] by (simp add: reader_simps padded_def)


lemma run_store_identity:
  assumes uuid: "text_ok (ms_store_uuid ref)" "ms_store_uuid ref \<noteq> []"
    and raw: "raw = parse_canonical_uuid (ms_store_uuid ref)"
    and flags: "flag_set flags flag_store_uuid_text \<longleftrightarrow> \<not> is_some raw"
  shows "run_state (rd_store_identity flags) (rdr (
      (write_identifier (ms_store_uuid ref) raw
       @ put_varint (ms_store_mailbox_id ref)
       @ (if flag_set flags flag_wide_store_message_id
          then be_bytes 8 (unat (ms_store_message_id ref))
          else put_varint (ms_store_message_id ref))
       @ put_varint (ms_store_global_id ref)) @ rest))
    = ((ms_store_uuid ref, ms_store_mailbox_id ref, ms_store_message_id ref, ms_store_global_id ref), rdr rest)"
proof -
  have wide: "run_state (if w
        then do { chunk \<leftarrow> rd_take 8; State_Monad.return (word_of_nat (be_value (padded chunk 8))) }
        else rd_varint)
      (rdr ((if w then be_bytes 8 (unat v) else put_varint v) @ rest)) = (v, rdr rest)"
    for w rest and v :: "64 word"
    by (cases w) (simp_all only: if_True if_False run_wide8 run_varint)
  show ?thesis
    unfolding rd_store_identity_def flags append_assoc
    by (simp only: not_not run_bind run_identifier [OF uuid(1) raw] run_varint wide run_return prod.case)
qed


text \<open>The bytes \<open>encodeBinaryMessage\<close> appends after the flags.\<close>

definition message_body :: "message_ref \<Rightarrow> 64 word \<Rightarrow> 32 word \<Rightarrow> string" where
  "message_body ref flags hash =
     write_identifier (ms_account_id ref) (parse_canonical_uuid (ms_account_id ref))
     @ write_path (ms_mailbox_path ref)
     @ (case canonical_decimal (ms_library_id ref) of
          Some n \<Rightarrow> put_uvarint n | None \<Rightarrow> write_text (ms_library_id ref))
     @ (if flag_set flags flag_message_id then write_text (ms_message_id ref) else [])
     @ (if flag_set flags flag_imap_uid then put_uvarint (ucast (ms_imap_uid ref)) else [])
     @ (if flag_set flags flag_imap_uid_validity
        then put_uvarint (ucast (ms_imap_uid_validity ref)) else [])
     @ (if flag_set flags flag_imap_mailbox then put_uvarint (ms_imap_mailbox_id ref) else [])
     @ (if flag_set flags flag_subject_hash then be_bytes 4 (unat hash) else [])
     @ (if flag_set flags flag_store_identity then
          write_identifier (ms_store_uuid ref) (parse_canonical_uuid (ms_store_uuid ref))
          @ put_varint (ms_store_mailbox_id ref)
          @ (if flag_set flags flag_wide_store_message_id
             then be_bytes 8 (unat (ms_store_message_id ref))
             else put_varint (ms_store_message_id ref))
          @ put_varint (ms_store_global_id ref)
        else [])"

definition ref_flags :: "message_ref \<Rightarrow> 32 word \<Rightarrow> 64 word" where
  "ref_flags ref hash = message_flags ref (is_some (parse_canonical_uuid (ms_account_id ref)))
     (is_some (parse_canonical_uuid (ms_store_uuid ref)))
     (is_some (canonical_decimal (ms_library_id ref))) hash"

lemma encode_binary_message_body:
  "encode_binary_message ref = bindR (validate_binary_bounds (ms_mailbox_path (sanitize_message ref))
      [ms_account_id (sanitize_message ref), ms_library_id (sanitize_message ref),
       ms_message_id (sanitize_message ref), ms_store_uuid (sanitize_message ref)])
     (\<lambda>_. let hash = message_subject_hash ref; flags = ref_flags (sanitize_message ref) hash in
        Inr (writer_new flags @ message_body (sanitize_message ref) flags hash))"
proof -
  have "message_subject_hash (sanitize_message ref) = message_subject_hash ref"
    by (simp add: message_subject_hash_def sanitize_message_def)
  then show ?thesis
    unfolding encode_binary_message_def message_body_def ref_flags_def by (simp only: Let_def)
qed

definition message_ok :: "message_ref \<Rightarrow> bool" where
  "message_ok ref \<longleftrightarrow> text_ok (ms_account_id ref) \<and> path_ok (ms_mailbox_path ref)
     \<and> text_ok (ms_library_id ref) \<and> text_ok (ms_message_id ref) \<and> text_ok (ms_store_uuid ref)
     \<and> 0 \<le>s ms_imap_mailbox_id ref
     \<and> (ms_store_uuid ref = [] \<longrightarrow> ms_store_mailbox_id ref = 0 \<and> ms_store_message_id ref = 0
          \<and> ms_store_global_id ref = 0)"

lemma run_message:
  assumes ok: "message_ok ref" and flags: "flags = ref_flags ref hash"
  shows "run_state (rd_message flags) (rdr (message_body ref flags hash @ rest))
    = (ref\<lparr>ms_version := binary_format_version, ms_subject := [], ms_subject_hash := hash\<rparr>, rdr rest)"
proof -
  note fs = flag_set_message_flags [of ref "is_some (parse_canonical_uuid (ms_account_id ref))"
      "is_some (parse_canonical_uuid (ms_store_uuid ref))"
      "is_some (canonical_decimal (ms_library_id ref))" hash, folded ref_flags_def, folded flags]
  from ok have t: "text_ok (ms_account_id ref)" "path_ok (ms_mailbox_path ref)" "text_ok (ms_library_id ref)"
    "text_ok (ms_message_id ref)" "text_ok (ms_store_uuid ref)" "0 \<le>s ms_imap_mailbox_id ref"
    and none: "ms_store_uuid ref = [] \<Longrightarrow> (ms_store_uuid ref, ms_store_mailbox_id ref,
        ms_store_message_id ref, ms_store_global_id ref) = ([], 0, 0, 0)"
    by (simp_all add: message_ok_def)
  have mid: "run_state (rd_when (flag_set flags flag_message_id) rd_text [])
      (rdr ((if flag_set flags flag_message_id then write_text (ms_message_id ref) else []) @ rest))
      = (ms_message_id ref, rdr rest)" for rest
    using fs(8) run_text [OF t(4)] by (intro run_when_if) auto
  have uid: "run_state (rd_when (flag_set flags flag_imap_uid) rd_uint32 0)
      (rdr ((if flag_set flags flag_imap_uid then put_uvarint (ucast (ms_imap_uid ref)) else []) @ rest))
      = (ms_imap_uid ref, rdr rest)" for rest
    using fs(4) run_uint32 by (intro run_when_if) auto
  have val: "run_state (rd_when (flag_set flags flag_imap_uid_validity) rd_uint32 0)
      (rdr ((if flag_set flags flag_imap_uid_validity
         then put_uvarint (ucast (ms_imap_uid_validity ref)) else []) @ rest))
      = (ms_imap_uid_validity ref, rdr rest)" for rest
    using fs(9) run_uint32 by (intro run_when_if) auto
  have mbx: "run_state (rd_when (flag_set flags flag_imap_mailbox) rd_nonnegative_int64 0)
      (rdr ((if flag_set flags flag_imap_mailbox then put_uvarint (ms_imap_mailbox_id ref) else []) @ rest))
      = (ms_imap_mailbox_id ref, rdr rest)" for rest
    using fs(5) run_nonnegative_int64 [OF t(6)] by (intro run_when_if) auto
  have hsh: "run_state (rd_when (flag_set flags flag_subject_hash)
       (do { chunk \<leftarrow> rd_take 4; State_Monad.return (word_of_nat (be_value (padded chunk 4))) }) 0)
      (rdr ((if flag_set flags flag_subject_hash then be_bytes 4 (unat hash) else []) @ rest))
      = (hash, rdr rest)" for rest
    using fs(6) run_hash4 by (intro run_when_if) auto
  have store: "run_state (rd_when (flag_set flags flag_store_identity) (rd_store_identity flags) ([], 0, 0, 0))
      (rdr ((if flag_set flags flag_store_identity then
          write_identifier (ms_store_uuid ref) (parse_canonical_uuid (ms_store_uuid ref))
          @ put_varint (ms_store_mailbox_id ref)
          @ (if flag_set flags flag_wide_store_message_id
             then be_bytes 8 (unat (ms_store_message_id ref))
             else put_varint (ms_store_message_id ref))
          @ put_varint (ms_store_global_id ref) else []) @ rest))
      = ((ms_store_uuid ref, ms_store_mailbox_id ref, ms_store_message_id ref, ms_store_global_id ref), rdr rest)"
    for rest
    using fs(2) fs(10) none run_store_identity [OF t(5) _ refl] by (intro run_when_if) auto
  show ?thesis
    unfolding rd_message_def message_body_def append_assoc fs(1) fs(3)
    by (simp only: run_bind run_identifier [OF t(1) refl] run_path [OF t(2)] run_library [OF t(3) refl]
        mid uid val mbx hsh store run_return prod.case fst_conv snd_conv) simp
qed


lemma message_body_irrelevant:
  "message_body (ref\<lparr>ms_version := v, ms_subject := t, ms_subject_hash := h'\<rparr>) f h = message_body ref f h"
  by (simp add: message_body_def cong: option.case_cong)

lemma ref_flags_irrelevant:
  "ref_flags (ref\<lparr>ms_version := v, ms_subject := t, ms_subject_hash := h'\<rparr>) h = ref_flags ref h"
  by (simp add: ref_flags_def message_flags_def)

lemma decode_encode_message:
  assumes enc: "encode_binary_message ref = Inr payload"
    and mailbox: "0 \<le>s ms_imap_mailbox_id ref"
    and store: "ms_store_uuid ref = [] \<Longrightarrow> ms_store_mailbox_id ref = 0 \<and> ms_store_message_id ref = 0
      \<and> ms_store_global_id ref = 0"
  shows "decode_binary_message payload = Inr (normal_message ref)"
proof -
  let ?r = "sanitize_message ref" and ?h = "message_subject_hash ref"
  from enc have b: "validate_binary_bounds (sanitize_path (ms_mailbox_path ref))
      [ms_account_id ?r, ms_library_id ?r, ms_message_id ?r, ms_store_uuid ?r] = Inr ()"
    and p: "payload = writer_new (ref_flags ?r ?h) @ message_body ?r (ref_flags ?r ?h) ?h"
    by (auto simp: encode_binary_message_body Let_def result_simps sanitize_message_def)
  have "message_ok ?r"
    using bounds_ok [OF b] mailbox store
    by (auto simp: message_ok_def text_ok_def sanitize_message_def)
  from run_message [OF this refl, of ?h "[]"] have run:
    "run_state (rd_message (ref_flags ?r ?h)) (rdr (message_body ?r (ref_flags ?r ?h) ?h))
      = (normal_message ref, rdr [])"
    by (simp add: normal_message_def)
  have san: "sanitize_message (normal_message ref) = normal_message ref"
    by (simp add: normal_message_def sanitize_message_def)
  have "message_subject_hash (normal_message ref) = ?h"
    by (simp add: normal_message_def message_subject_hash_def)
  then have "encode_binary_message (normal_message ref) = encode_binary_message ref"
    unfolding encode_binary_message_body san
    by (simp add: normal_message_def message_body_irrelevant ref_flags_irrelevant)
  then have "encode_binary_message (normal_message ref) = Inr payload" using enc by simp
  then show ?thesis
    unfolding decode_binary_message_def
    by (simp only: p new_reader_writer prod.case run) (simp add: ref_flags_def known_message_flags reader_simps)
qed

lemma decoded_message_canonical:
  "decode_binary_message payload = Inr m \<Longrightarrow> encode_binary_message m = Inr payload"
  by (auto simp: decode_binary_message_def canonical_or_Inr result_simps split: prod.splits if_splits)

end
