(* ===== verification/Mailref_Reference.thy ===== *)
theory Mailref_Reference
  imports Mailref_Binary
begin

text \<open>
  \<open>src/internal/mailref/reference.go\<close>, \<open>server.go\<close> and \<open>identity.go\<close>: the opaque reference
  tokens (a prefix and the canonical unpadded URL base64 of a payload), the payload formats a
  token may carry, the validation of message references, server references, cursors and the
  identity keys. Go's \<open>encoding/json\<close>, which reads the legacy payloads and frames the cursors, is
  the parameter \<open>json_codec\<close>; the NFC normalisation of \<open>golang.org/x/text\<close> is a function argument.
\<close>

section \<open>Tokens\<close>

definition max_compact_payload_bytes :: nat where
  "max_compact_payload_bytes = 1048576"

definition compact_payload_marker :: char where
  "compact_payload_marker = CHR 0xD7"

datatype token_error =
    InvalidTokenPrefix
  | TokenExceedsBound
  | UndecodableToken
  | NoncanonicalToken

definition encode_token :: "string \<Rightarrow> string \<Rightarrow> token_error + string" where
  "encode_token prefix payload =
     (if max_compact_payload_bytes < length payload then Inl TokenExceedsBound
      else Inr (prefix @ b64_encode_raw b64_url payload))"

definition decode_token_payload :: "string \<Rightarrow> string \<Rightarrow> token_error + string" where
  "decode_token_payload prefix v =
     (if length v < length prefix \<or> take (length prefix) v \<noteq> prefix then Inl InvalidTokenPrefix
      else let encoded = drop (length prefix) v in
        if (max_compact_payload_bytes + 2) div 3 * 4 < length encoded then Inl TokenExceedsBound
        else case b64_decode_raw b64_url True encoded of
            None \<Rightarrow> Inl UndecodableToken
          | Some payload \<Rightarrow>
              if b64_encode_raw b64_url payload \<noteq> encoded then Inl NoncanonicalToken
              else if max_compact_payload_bytes < length payload then Inl TokenExceedsBound
              else Inr payload)"

interpretation tok: canonical_codec "encode_token prefix" "decode_token_payload prefix"
  "\<lambda>_. True" "\<lambda>x. x" "\<lambda>x. x" for prefix
proof
  fix payload s
  assume "encode_token prefix payload = Inr s"
  then have len: "length payload \<le> max_compact_payload_bytes"
    and s: "s = prefix @ b64_encode_raw b64_url payload"
    by (auto simp: encode_token_def split: if_splits)
  from len have "length (b64_encode_raw b64_url payload) \<le> (max_compact_payload_bytes + 2) div 3 * 4"
    by (simp add: b64_encode_raw_length max_compact_payload_bytes_def)
  then show "decode_token_payload prefix s = Inr payload"
    using len by (simp add: s decode_token_payload_def Let_def b64_decode_encode_raw)
next
  fix s payload
  assume a: "decode_token_payload prefix s = Inr payload"
  then have "take (length prefix) s = prefix" "b64_encode_raw b64_url payload = drop (length prefix) s"
    "length payload \<le> max_compact_payload_bytes"
    by (auto simp: decode_token_payload_def Let_def split: if_splits option.splits)
  then show "encode_token prefix payload = Inr s"
    by (simp add: encode_token_def) (metis append_take_drop_id)
qed

section \<open>Errors, cursors and the JSON parameter\<close>

record compact_payload =
  cp_account_id :: string
  cp_mailbox_path :: "string list"
  cp_library_id :: string
  cp_message_id :: string
  cp_imap_uid :: "32 word"
  cp_imap_uid_validity :: "32 word"
  cp_imap_mailbox_id :: "64 word"
  cp_subject :: string
  cp_store_uuid :: string
  cp_store_mailbox_id :: "64 word"
  cp_store_message_id :: "64 word"
  cp_store_global_id :: "64 word"
  cp_mailbox_ref :: string
  cp_offset :: "64 word"
  cp_previous_id :: string
  cp_fingerprint :: string
  cp_cursor_store_uuid :: string
  cp_index_revision :: string
  cp_received_at :: "64 word"
  cp_date_received :: "64 word"
  cp_flags :: "8 word"
  cp_row_id :: "64 word"

record list_cursor =
  lc_version :: int
  lc_mailbox_ref :: string
  lc_offset :: "64 word"
  lc_previous_id :: string

text \<open>
  What the code uses of \<open>encoding/json\<close>: reading the four legacy structures and the compact
  payload, and writing the compact payload. \<open>None\<close> is an error of the decoder.
\<close>

record json_codec =
  js_account :: "string \<Rightarrow> account_ref option"
  js_mailbox :: "string \<Rightarrow> mailbox_ref option"
  js_message :: "string \<Rightarrow> message_ref option"
  js_list_cursor :: "string \<Rightarrow> list_cursor option"
  js_compact :: "string \<Rightarrow> compact_payload option"
  js_marshal :: "compact_payload \<Rightarrow> string"

datatype reference_error =
    TokenError token_error
  | BinaryError binary_error
  | JsonError
  | UnsupportedVersion int
  | CompactExceedsBound
  | CompactTruncated
  | InvalidCompactMarker
  | UnsupportedCompactVersion nat
  | UnknownCursorFlags "8 word"
  | CursorOffsetOverflow
  | InvalidMailboxPayload
  | InvalidMessagePayload
  | InvalidStoreIdentity
  | UidValidityRequiresUid
  | MailboxIdRequiresUid
  | NegativeMailboxId
  | InvalidListCursor
  | ServerRefReadOnly
  | ServerRefIncomplete
  | ServerRefNotBinary
  | EmptyAccountId

datatype account_error =
    AccountVersionUnsupported int
  | AccountCorrupt reference_error

definition legacy_format_version :: int where
  "legacy_format_version = 1"

definition format_version :: int where
  "format_version = 2"

definition is_compact_payload :: "string \<Rightarrow> bool" where
  "is_compact_payload payload \<longleftrightarrow> 2 \<le> length payload \<and> payload ! 0 = compact_payload_marker"

definition validate_compact_payload :: "compact_payload \<Rightarrow> binary_error + unit" where
  "validate_compact_payload v = bindR (validate_compact_path (cp_mailbox_path v)) (\<lambda>_.
     guardR (list_all (\<lambda>t. length t \<le> max_compact_string_bytes)
       [cp_account_id v, cp_library_id v, cp_message_id v, cp_subject v, cp_store_uuid v,
        cp_mailbox_ref v, cp_previous_id v, cp_fingerprint v, cp_cursor_store_uuid v,
        cp_index_revision v]) StringExceedsBound)"

definition encode_compact_json ::
    "json_codec \<Rightarrow> 8 word \<Rightarrow> compact_payload \<Rightarrow> reference_error + string" where
  "encode_compact_json js version v = bindR (wrapR BinaryError (validate_compact_payload v)) (\<lambda>_.
     let payload = js_marshal js v in
       if max_compact_payload_bytes - 2 < length payload then Inl CompactExceedsBound
       else Inr (compact_payload_marker # byte_of (unat version) # payload))"

definition decode_compact_payload ::
    "json_codec \<Rightarrow> string \<Rightarrow> 8 word \<Rightarrow> reference_error + compact_payload" where
  "decode_compact_payload js payload version =
     (if max_compact_payload_bytes < length payload then Inl CompactExceedsBound
      else if length payload < 3 then Inl CompactTruncated
      else if payload ! 0 \<noteq> compact_payload_marker \<or> payload ! (length payload - 1) \<noteq> CHR ''}''
        then Inl InvalidCompactMarker
      else if byte_val (payload ! 1) \<noteq> unat version
        then Inl (UnsupportedCompactVersion (byte_val (payload ! 1)))
      else case js_compact js (drop 2 payload) of
          None \<Rightarrow> Inl JsonError
        | Some v \<Rightarrow> bindR (wrapR BinaryError (validate_compact_payload v)) (\<lambda>_. Inr v))"

definition encode_compact_token_payload ::
    "json_codec \<Rightarrow> string \<Rightarrow> compact_payload \<Rightarrow> 8 word \<Rightarrow> reference_error + string" where
  "encode_compact_token_payload js prefix v version =
     bindR (encode_compact_json js version v) (\<lambda>framed. Inr (prefix @ b64_encode_raw b64_url framed))"


section \<open>Account and mailbox references\<close>

definition encode_binary_token :: "string \<Rightarrow> string \<Rightarrow> reference_error + string" where
  "encode_binary_token prefix payload = wrapR TokenError (encode_token prefix payload)"

definition encode_account :: "string \<Rightarrow> reference_error + string" where
  "encode_account account_id = bindR (wrapR BinaryError (encode_binary_account account_id))
     (encode_binary_token ''acct_'')"

text \<open>The version that accompanies an error is what \<open>DecodeAccount\<close> classifies it by.\<close>

definition decode_account_payload ::
    "json_codec \<Rightarrow> string \<Rightarrow> (reference_error \<times> int) + account_ref" where
  "decode_account_payload js payload =
     (if is_binary_payload payload
      then wrapR (\<lambda>e. (BinaryError e, 0)) (decode_binary_account payload)
      else if \<not> is_compact_payload payload then
        (case js_account js payload of
           None \<Rightarrow> Inl (JsonError, 0)
         | Some ref \<Rightarrow>
             if ac_version ref \<noteq> legacy_format_version
             then Inl (UnsupportedVersion (ac_version ref), ac_version ref) else Inr ref)
      else (case decode_compact_payload js payload 2 of
          Inl e \<Rightarrow> Inl (e, if is_compact_payload payload then int (byte_val (payload ! 1)) else 0)
        | Inr c \<Rightarrow> Inr \<lparr>ac_version = format_version, ac_account_id = cp_account_id c\<rparr>))"

definition decode_account :: "json_codec \<Rightarrow> string \<Rightarrow> account_error + account_ref" where
  "decode_account js v = (case decode_token_payload ''acct_'' v of
      Inl e \<Rightarrow> Inl (AccountCorrupt (TokenError e))
    | Inr payload \<Rightarrow>
        (case decode_account_payload js payload of
           Inl (e, version) \<Rightarrow>
             (if version \<noteq> 0
                 \<and> (is_compact_payload payload \<and> version \<noteq> format_version
                    \<or> \<not> is_compact_payload payload \<and> version \<noteq> legacy_format_version)
              then Inl (AccountVersionUnsupported version) else Inl (AccountCorrupt e))
         | Inr ref \<Rightarrow>
             if ac_account_id ref = [] then Inl (AccountCorrupt EmptyAccountId) else Inr ref))"

definition encode_mailbox :: "string \<Rightarrow> string list \<Rightarrow> reference_error + string" where
  "encode_mailbox account_id path =
     bindR (wrapR BinaryError (encode_binary_mailbox account_id path)) (encode_binary_token ''mbx_'')"

definition decode_mailbox_payload :: "json_codec \<Rightarrow> string \<Rightarrow> reference_error + mailbox_ref" where
  "decode_mailbox_payload js payload =
     (if is_binary_payload payload then wrapR BinaryError (decode_binary_mailbox payload)
      else if \<not> is_compact_payload payload then
        (case js_mailbox js payload of
           None \<Rightarrow> Inl JsonError
         | Some ref \<Rightarrow>
             if mb_version ref \<noteq> legacy_format_version then Inl (UnsupportedVersion (mb_version ref))
             else Inr ref)
      else bindR (decode_compact_payload js payload 2) (\<lambda>c.
        Inr \<lparr>mb_version = format_version, mb_account_id = cp_account_id c, mb_path = cp_mailbox_path c\<rparr>))"

definition decode_mailbox :: "json_codec \<Rightarrow> string \<Rightarrow> reference_error + mailbox_ref" where
  "decode_mailbox js v = bindR (wrapR TokenError (decode_token_payload ''mbx_'' v)) (\<lambda>payload.
     bindR (decode_mailbox_payload js payload) (\<lambda>ref.
       if mb_account_id ref = [] \<or> mb_path ref = [] then Inl InvalidMailboxPayload else Inr ref))"

section \<open>Message references\<close>

definition is_store_bound :: "message_ref \<Rightarrow> bool" where
  "is_store_bound m \<longleftrightarrow> ms_store_uuid m \<noteq> [] \<and> 0 <s ms_store_mailbox_id m"

definition has_any_store_identity :: "message_ref \<Rightarrow> bool" where
  "has_any_store_identity m \<longleftrightarrow> ms_store_uuid m \<noteq> [] \<or> ms_store_mailbox_id m \<noteq> 0
     \<or> ms_store_message_id m \<noteq> 0 \<or> ms_store_global_id m \<noteq> 0"

definition validate_imap_identity :: "message_ref \<Rightarrow> reference_error + unit" where
  "validate_imap_identity m =
     (if ms_imap_uid m = 0 \<and> ms_imap_uid_validity m \<noteq> 0 then Inl UidValidityRequiresUid
      else if ms_imap_uid m = 0 \<and> ms_imap_mailbox_id m \<noteq> 0 then Inl MailboxIdRequiresUid
      else if ms_imap_mailbox_id m <s 0 then Inl NegativeMailboxId
      else Inr ())"

definition encode_message :: "message_ref \<Rightarrow> reference_error + string" where
  "encode_message ref =
     (if has_any_store_identity ref \<and> \<not> is_store_bound ref then Inl InvalidStoreIdentity
      else bindR (validate_imap_identity ref) (\<lambda>_.
        bindR (wrapR BinaryError (encode_binary_message ref)) (encode_binary_token ''msg_'')))"

definition is_server_ref :: "string \<Rightarrow> bool" where
  "is_server_ref v \<longleftrightarrow> has_prefix v ''srv_''"

definition decode_message_payload :: "json_codec \<Rightarrow> string \<Rightarrow> reference_error + message_ref" where
  "decode_message_payload js payload =
     (if is_binary_payload payload then wrapR BinaryError (decode_binary_message payload)
      else if \<not> is_compact_payload payload then
        (case js_message js payload of
           None \<Rightarrow> Inl JsonError
         | Some ref \<Rightarrow>
             if ms_version ref \<noteq> legacy_format_version then Inl (UnsupportedVersion (ms_version ref))
             else Inr ref)
      else bindR (decode_compact_payload js payload 2) (\<lambda>c.
        Inr \<lparr>ms_version = format_version, ms_account_id = cp_account_id c,
          ms_mailbox_path = cp_mailbox_path c, ms_library_id = cp_library_id c,
          ms_message_id = cp_message_id c, ms_imap_uid = cp_imap_uid c,
          ms_imap_uid_validity = cp_imap_uid_validity c, ms_imap_mailbox_id = cp_imap_mailbox_id c,
          ms_subject = cp_subject c, ms_subject_hash = 0, ms_store_uuid = cp_store_uuid c,
          ms_store_mailbox_id = cp_store_mailbox_id c, ms_store_message_id = cp_store_message_id c,
          ms_store_global_id = cp_store_global_id c\<rparr>))"

definition decode_message :: "json_codec \<Rightarrow> string \<Rightarrow> reference_error + message_ref" where
  "decode_message js v =
     (if is_server_ref v then Inl ServerRefReadOnly
      else bindR (wrapR TokenError (decode_token_payload ''msg_'' v)) (\<lambda>payload.
        bindR (decode_message_payload js payload) (\<lambda>ref.
          if ms_account_id ref = [] \<or> ms_mailbox_path ref = [] \<or> ms_library_id ref = []
            then Inl InvalidMessagePayload
          else if has_any_store_identity ref \<and> \<not> is_store_bound ref then Inl InvalidStoreIdentity
          else bindR (validate_imap_identity ref) (\<lambda>_. Inr ref))))"

section \<open>Server references\<close>

record server_ref =
  sv_version :: int
  sv_account_id :: string
  sv_mailbox_path :: "string list"
  sv_uid_validity :: "32 word"
  sv_uid :: "32 word"

definition encode_binary_server :: "server_ref \<Rightarrow> binary_error + string" where
  "encode_binary_server ref = (let account_id = sanitize_utf8 (sv_account_id ref);
       path = sanitize_path (sv_mailbox_path ref) in
     bindR (validate_binary_bounds path [account_id]) (\<lambda>_.
       let raw = parse_canonical_uuid account_id;
           flags = (if is_some raw then flag_account_uuid else 0)
       in Inr (writer_new flags @ write_identifier account_id raw @ write_path path
            @ put_uvarint (ucast (sv_uid_validity ref)) @ put_uvarint (ucast (sv_uid ref)))))"

definition server_incomplete :: "server_ref \<Rightarrow> bool" where
  "server_incomplete ref \<longleftrightarrow> sv_account_id ref = [] \<or> sv_mailbox_path ref = []
     \<or> sv_uid_validity ref = 0 \<or> sv_uid ref = 0"

definition decode_binary_server :: "string \<Rightarrow> binary_error + server_ref" where
  "decode_binary_server payload = (case new_binary_reader payload of (flags, r) \<Rightarrow>
     if unknown_flags flags account_flag_mask then Inl (UnknownFlags flags)
     else case run_state (rd_identifier (flag_set flags flag_account_uuid)) r of (account_id, r) \<Rightarrow>
          case run_state rd_path r of (path, r) \<Rightarrow>
          case run_state rd_uint32 r of (uid_validity, r) \<Rightarrow>
          case run_state rd_uint32 r of (uid, r) \<Rightarrow>
       bindR (rd_finish r) (\<lambda>_.
         let ref = \<lparr>sv_version = binary_format_version, sv_account_id = account_id,
               sv_mailbox_path = path, sv_uid_validity = uid_validity, sv_uid = uid\<rparr> in
           if server_incomplete ref then Inl EmptyServerField
           else canonical_or (encode_binary_server ref) payload ref))"

definition encode_server :: "server_ref \<Rightarrow> reference_error + string" where
  "encode_server ref = (if server_incomplete ref then Inl ServerRefIncomplete
     else bindR (wrapR BinaryError (encode_binary_server ref)) (encode_binary_token ''srv_''))"

definition decode_server :: "string \<Rightarrow> reference_error + server_ref" where
  "decode_server v = bindR (wrapR TokenError (decode_token_payload ''srv_'' v)) (\<lambda>payload.
     if \<not> is_binary_payload payload then Inl ServerRefNotBinary
     else wrapR BinaryError (decode_binary_server payload))"

section \<open>Cursors\<close>

definition empty_compact_payload :: compact_payload where
  "empty_compact_payload = \<lparr>cp_account_id = [], cp_mailbox_path = [], cp_library_id = [],
     cp_message_id = [], cp_imap_uid = 0, cp_imap_uid_validity = 0, cp_imap_mailbox_id = 0,
     cp_subject = [], cp_store_uuid = [], cp_store_mailbox_id = 0, cp_store_message_id = 0,
     cp_store_global_id = 0, cp_mailbox_ref = [], cp_offset = 0, cp_previous_id = [],
     cp_fingerprint = [], cp_cursor_store_uuid = [], cp_index_revision = [], cp_received_at = 0,
     cp_date_received = 0, cp_flags = 0, cp_row_id = 0\<rparr>"

definition list_cursor_compact :: "list_cursor \<Rightarrow> compact_payload" where
  "list_cursor_compact ref = empty_compact_payload\<lparr>cp_mailbox_ref := lc_mailbox_ref ref,
     cp_offset := lc_offset ref, cp_previous_id := lc_previous_id ref\<rparr>"

definition encode_list_cursor :: "json_codec \<Rightarrow> list_cursor \<Rightarrow> reference_error + string" where
  "encode_list_cursor js ref =
     encode_compact_token_payload js ''cur_'' (list_cursor_compact ref) 2"

definition decode_list_cursor_payload :: "json_codec \<Rightarrow> string \<Rightarrow> reference_error + list_cursor" where
  "decode_list_cursor_payload js payload =
     (if \<not> is_compact_payload payload then
        (case js_list_cursor js payload of
           None \<Rightarrow> Inl JsonError
         | Some cursor \<Rightarrow>
             if lc_version cursor \<noteq> legacy_format_version then Inl (UnsupportedVersion (lc_version cursor))
             else Inr cursor)
      else bindR (decode_compact_payload js payload 2) (\<lambda>c.
        if sint (cp_offset c) < - (2 ^ 63 - 1) - 1 \<or> 2 ^ 63 - 1 < sint (cp_offset c)
        then Inl CursorOffsetOverflow
        else Inr \<lparr>lc_version = format_version, lc_mailbox_ref = cp_mailbox_ref c,
          lc_offset = cp_offset c, lc_previous_id = cp_previous_id c\<rparr>))"

definition decode_list_cursor :: "json_codec \<Rightarrow> string \<Rightarrow> reference_error + list_cursor" where
  "decode_list_cursor js v = bindR (wrapR TokenError (decode_token_payload ''cur_'' v)) (\<lambda>payload.
     bindR (decode_list_cursor_payload js payload) (\<lambda>cursor.
       if lc_mailbox_ref cursor = [] \<or> sint (lc_offset cursor) < 1 \<or> lc_previous_id cursor = []
       then Inl InvalidListCursor else Inr cursor))"

record search_cursor =
  sc_fingerprint :: string
  sc_store_uuid :: string
  sc_index_revision :: string
  sc_received_at :: "64 word"
  sc_received_at_null :: bool
  sc_row_id :: "64 word"
  sc_inclusive :: bool

definition search_cursor_compact :: "search_cursor \<Rightarrow> compact_payload" where
  "search_cursor_compact c = (
     let flags = (if sc_received_at_null c then 1 else 0);
         flags = (if sc_inclusive c then or flags 2 else flags)
     in empty_compact_payload\<lparr>cp_fingerprint := sc_fingerprint c, cp_cursor_store_uuid := sc_store_uuid c,
       cp_index_revision := sc_index_revision c, cp_received_at := sc_received_at c,
       cp_flags := flags, cp_row_id := sc_row_id c\<rparr>)"

definition encode_search_cursor_payload ::
    "json_codec \<Rightarrow> search_cursor \<Rightarrow> 8 word \<Rightarrow> reference_error + string" where
  "encode_search_cursor_payload js c version = encode_compact_json js version (search_cursor_compact c)"

definition decode_search_cursor_payload ::
    "json_codec \<Rightarrow> string \<Rightarrow> 8 word \<Rightarrow> reference_error + search_cursor" where
  "decode_search_cursor_payload js payload version =
     bindR (decode_compact_payload js payload version) (\<lambda>c.
       if 3 < unat (cp_flags c) then Inl (UnknownCursorFlags (cp_flags c))
       else Inr \<lparr>sc_fingerprint = cp_fingerprint c, sc_store_uuid = cp_cursor_store_uuid c,
         sc_index_revision = cp_index_revision c, sc_received_at = cp_received_at c,
         sc_received_at_null = (and (cp_flags c) 1 \<noteq> 0), sc_row_id = cp_row_id c,
         sc_inclusive = (and (cp_flags c) 2 \<noteq> 0)\<rparr>)"

record store_list_cursor =
  sl_store_uuid :: string
  sl_mailbox_ref :: string
  sl_date_received :: "64 word"
  sl_date_received_null :: bool
  sl_row_id :: "64 word"

definition store_list_cursor_compact :: "store_list_cursor \<Rightarrow> compact_payload" where
  "store_list_cursor_compact c = empty_compact_payload\<lparr>cp_cursor_store_uuid := sl_store_uuid c,
     cp_mailbox_ref := sl_mailbox_ref c, cp_date_received := sl_date_received c,
     cp_flags := (if sl_date_received_null c then 1 else 0), cp_row_id := sl_row_id c\<rparr>"

definition encode_store_list_cursor_payload ::
    "json_codec \<Rightarrow> store_list_cursor \<Rightarrow> 8 word \<Rightarrow> reference_error + string" where
  "encode_store_list_cursor_payload js c version =
     encode_compact_json js version (store_list_cursor_compact c)"

definition decode_store_list_cursor_payload ::
    "json_codec \<Rightarrow> string \<Rightarrow> 8 word \<Rightarrow> reference_error + store_list_cursor" where
  "decode_store_list_cursor_payload js payload version =
     bindR (decode_compact_payload js payload version) (\<lambda>c.
       if 1 < unat (cp_flags c) then Inl (UnknownCursorFlags (cp_flags c))
       else Inr \<lparr>sl_store_uuid = cp_cursor_store_uuid c, sl_mailbox_ref = cp_mailbox_ref c,
         sl_date_received = cp_date_received c, sl_date_received_null = (cp_flags c \<noteq> 0),
         sl_row_id = cp_row_id c\<rparr>)"

section \<open>Identity keys\<close>

record message_identity =
  mi_account_id :: string
  mi_store_uuid :: string
  mi_mailbox_id :: "64 word"
  mi_message_id :: "64 word"
  mi_library_id :: string

definition message_identity :: "message_ref \<Rightarrow> message_identity" where
  "message_identity m = \<lparr>mi_account_id = ms_account_id m, mi_store_uuid = ms_store_uuid m,
     mi_mailbox_id = ms_store_mailbox_id m, mi_message_id = ms_store_message_id m,
     mi_library_id = (if ms_store_message_id m = 0 then ms_library_id m else [])\<rparr>"

definition message_identity_key :: "json_codec \<Rightarrow> string \<Rightarrow> reference_error + message_identity" where
  "message_identity_key js token = bindR (decode_message js token) (\<lambda>m. Inr (message_identity m))"

text \<open>The path of a mailbox identity: every component, normalised, behind its length.\<close>

definition identity_path :: "(string \<Rightarrow> string) \<Rightarrow> string list \<Rightarrow> string" where
  "identity_path nfc path =
     concat (map (\<lambda>c. format_uint (length (nfc c)) @ '':'' @ nfc c) path)"

definition mailbox_identity_key ::
    "json_codec \<Rightarrow> (string \<Rightarrow> string) \<Rightarrow> string \<Rightarrow> reference_error + (string \<times> string)" where
  "mailbox_identity_key js nfc token = bindR (decode_mailbox js token) (\<lambda>m.
     Inr (mb_account_id m, identity_path nfc (mb_path m)))"


section \<open>The codecs meet the contract\<close>

lemma decoded_account_canonical:
  "decode_binary_account payload = Inr m \<Longrightarrow> encode_binary_account (ac_account_id m) = Inr payload"
  by (auto simp: decode_binary_account_def canonical_or_Inr result_simps split: prod.splits if_splits)

lemma decoded_mailbox_canonical:
  "decode_binary_mailbox payload = Inr m \<Longrightarrow>
     encode_binary_mailbox (mb_account_id m) (mb_path m) = Inr payload"
  by (auto simp: decode_binary_mailbox_def canonical_or_Inr result_simps split: prod.splits if_splits)

interpretation acct: canonical_codec encode_binary_account decode_binary_account "\<lambda>_. True"
  "\<lambda>v. \<lparr>ac_version = binary_format_version, ac_account_id = sanitize_utf8 v\<rparr>" ac_account_id
  by unfold_locales (simp_all add: decode_encode_account decoded_account_canonical)

interpretation mbx: canonical_codec "\<lambda>(a, path). encode_binary_mailbox a path" decode_binary_mailbox
  "\<lambda>_. True"
  "\<lambda>(a, path). \<lparr>mb_version = binary_format_version, mb_account_id = sanitize_utf8 a, mb_path = sanitize_path path\<rparr>"
  "\<lambda>m. (mb_account_id m, mb_path m)"
  by unfold_locales (auto simp: decode_encode_mailbox decoded_mailbox_canonical)

text \<open>What \<open>EncodeMessage\<close> checks before it encodes.\<close>

definition message_encodable :: "message_ref \<Rightarrow> bool" where
  "message_encodable ref \<longleftrightarrow> (has_any_store_identity ref \<longrightarrow> is_store_bound ref)
     \<and> validate_imap_identity ref = Inr ()"

lemma message_encodable_fields:
  assumes "message_encodable ref"
  shows "0 \<le>s ms_imap_mailbox_id ref"
    "ms_store_uuid ref = [] \<Longrightarrow> ms_store_mailbox_id ref = 0 \<and> ms_store_message_id ref = 0
      \<and> ms_store_global_id ref = 0"
  using assms
  by (auto simp: message_encodable_def has_any_store_identity_def is_store_bound_def
      validate_imap_identity_def word_sle_eq word_sless_alt split: if_splits)

interpretation msg: canonical_codec encode_binary_message decode_binary_message message_encodable
  normal_message "\<lambda>m. m"
  using decode_encode_message message_encodable_fields decoded_message_canonical
  by unfold_locales blast+

definition normal_server :: "server_ref \<Rightarrow> server_ref" where
  "normal_server ref = ref\<lparr>sv_version := binary_format_version,
     sv_account_id := sanitize_utf8 (sv_account_id ref),
     sv_mailbox_path := sanitize_path (sv_mailbox_path ref)\<rparr>"

lemma decode_encode_server:
  assumes ok: "\<not> server_incomplete ref" and enc: "encode_binary_server ref = Inr payload"
  shows "decode_binary_server payload = Inr (normal_server ref)"
proof -
  let ?v = "sanitize_utf8 (sv_account_id ref)" and ?p = "sanitize_path (sv_mailbox_path ref)"
  let ?raw = "parse_canonical_uuid ?v"
  from enc have b: "validate_binary_bounds ?p [?v] = Inr ()"
    and p: "payload = writer_new (if is_some ?raw then flag_account_uuid else 0)
      @ write_identifier ?v ?raw @ write_path ?p
      @ put_uvarint (ucast (sv_uid_validity ref)) @ put_uvarint (ucast (sv_uid ref)) @ []"
    by (auto simp: encode_binary_server_def Let_def result_simps)
  from bounds_ok [OF b] have t: "text_ok ?v" "path_ok ?p" by (simp_all add: text_ok_def)
  have norm: "\<lparr>sv_version = binary_format_version, sv_account_id = ?v, sv_mailbox_path = ?p,
      sv_uid_validity = sv_uid_validity ref, sv_uid = sv_uid ref\<rparr> = normal_server ref"
    by (simp add: normal_server_def)
  have "encode_binary_server (normal_server ref) = Inr payload"
    using enc by (simp add: encode_binary_server_def normal_server_def)
  moreover have "\<not> server_incomplete (normal_server ref)"
    using ok by (auto simp: server_incomplete_def normal_server_def sanitize_path_def)
  ultimately show ?thesis
    unfolding decode_binary_server_def p
    by (simp only: new_reader_writer prod.case account_flags if_False run_identifier [OF t(1) refl]
        run_path [OF t(2)] run_uint32 rd_finish_rdr bindR_simps Let_def norm)
      (simp add: p canonical_or_same)
qed

lemma decoded_server_canonical:
  "decode_binary_server payload = Inr m \<Longrightarrow> encode_binary_server m = Inr payload"
  by (auto simp: decode_binary_server_def canonical_or_Inr result_simps Let_def
      split: prod.splits if_splits)

interpretation srv: canonical_codec encode_binary_server decode_binary_server
  "\<lambda>r. \<not> server_incomplete r" normal_server "\<lambda>r. r"
  using decode_encode_server decoded_server_canonical by unfold_locales blast+

lemma binary_payloads:
  "is_binary_payload (writer_new flags @ rest)"
  by (cases "put_uvarint flags") (simp_all add: is_binary_payload_def writer_new_def)

lemma encoded_is_binary:
  "encode_binary_account v = Inr p \<Longrightarrow> is_binary_payload p"
  "encode_binary_mailbox v path = Inr p \<Longrightarrow> is_binary_payload p"
  "encode_binary_message ref = Inr p \<Longrightarrow> is_binary_payload p"
  "encode_binary_server sref = Inr p \<Longrightarrow> is_binary_payload p"
  by (auto simp: encode_binary_account_def encode_binary_mailbox_def encode_binary_message_body
      encode_binary_server_def Let_def result_simps binary_payloads)

lemma encode_token_prefix: "encode_token prefix p = Inr t \<Longrightarrow> has_prefix t prefix"
  by (auto simp: encode_token_def split: if_splits)

lemma prefix_unique:
  "has_prefix t p \<Longrightarrow> has_prefix t q \<Longrightarrow> length p = length q \<Longrightarrow> p = q"
  by (simp add: has_prefix_def)

lemma normal_message_fields [simp]:
  "has_any_store_identity (normal_message ref) = has_any_store_identity ref"
  "is_store_bound (normal_message ref) = is_store_bound ref"
  "validate_imap_identity (normal_message ref) = validate_imap_identity ref"
  "ms_account_id (normal_message ref) = [] \<longleftrightarrow> ms_account_id ref = []"
  "ms_mailbox_path (normal_message ref) = [] \<longleftrightarrow> ms_mailbox_path ref = []"
  "ms_library_id (normal_message ref) = [] \<longleftrightarrow> ms_library_id ref = []"
  by (simp_all add: normal_message_def sanitize_message_def has_any_store_identity_def
      is_store_bound_def validate_imap_identity_def sanitize_path_def)

lemma encode_message_iff:
  "encode_message ref = Inr t \<longleftrightarrow> message_encodable ref
     \<and> (\<exists>p. encode_binary_message ref = Inr p \<and> encode_token ''msg_'' p = Inr t)"
  by (auto simp: encode_message_def message_encodable_def encode_binary_token_def result_simps)

lemma decode_encoded_message:
  assumes enc: "encode_message ref = Inr t"
    and nonempty: "ms_account_id ref \<noteq> []" "ms_mailbox_path ref \<noteq> []" "ms_library_id ref \<noteq> []"
  shows "decode_message js t = Inr (normal_message ref)"
proof -
  from enc obtain p where ok: "message_encodable ref" and p: "encode_binary_message ref = Inr p"
    and t: "encode_token ''msg_'' p = Inr t"
    by (auto simp: encode_message_iff)
  have "\<not> is_server_ref t"
    using encode_token_prefix [OF t] prefix_unique [of t "''msg_''" "''srv_''"] by (auto simp: is_server_ref_def)
  moreover have "decode_token_payload ''msg_'' t = Inr p" using tok.dec_enc [OF _ t] by simp
  moreover have "decode_message_payload js p = Inr (normal_message ref)"
    using msg.dec_enc [OF ok p] encoded_is_binary(3) [OF p] by (simp add: decode_message_payload_def)
  ultimately show ?thesis
    using ok nonempty by (simp add: decode_message_def message_encodable_def)
qed

lemma decoded_message_parts:
  assumes "decode_message js t = Inr m" "ms_version m = binary_format_version"
  obtains p where "decode_token_payload ''msg_'' t = Inr p" "decode_binary_message p = Inr m"
    "message_encodable m"
proof -
  from assms(1) obtain p where p: "decode_token_payload ''msg_'' t = Inr p"
    and m: "decode_message_payload js p = Inr m"
    and ok: "message_encodable m"
    by (auto simp: decode_message_def message_encodable_def result_simps split: if_splits)
  have "is_binary_payload p"
    using m assms(2)
    by (auto simp: decode_message_payload_def result_simps legacy_format_version_def format_version_def
        binary_format_version_def split: if_splits option.splits)
  with m have "decode_binary_message p = Inr m" by (simp add: decode_message_payload_def result_simps)
  then show ?thesis using p ok by (intro that)
qed

lemma identity_path_simps [simp]:
  "identity_path nfc [] = []"
  "identity_path nfc (c # path) = format_uint (length (nfc c)) @ CHR '':'' # nfc c @ identity_path nfc path"
  by (simp_all add: identity_path_def)

lemma format_uint_split:
  assumes "format_uint n @ CHR '':'' # s = format_uint m @ CHR '':'' # t"
  shows "n = m \<and> s = t"
proof -
  have colon: "\<not> is_digit (CHR '':'')" by (simp add: is_digit_def)
  have digits: "takeWhile is_digit (format_uint k @ CHR '':'' # u) = format_uint k" for k u
    using format_uint_digits [of k] colon by (intro takeWhile_append_stop) (auto simp: list_all_iff)
  have "format_uint n = format_uint m" using digits [of n s] digits [of m t] assms by simp
  moreover from this have "n = m" using decimal_value_format [of n] by simp
  ultimately show ?thesis using assms by simp
qed

lemma identity_path_inject: "identity_path nfc p = identity_path nfc q \<longleftrightarrow> map nfc p = map nfc q"
proof (induction p arbitrary: q)
  case Nil
  show ?case by (cases q) auto
next
  case (Cons c p)
  show ?case
  proof (cases q)
    case (Cons d q')
    show ?thesis
    proof
      assume "identity_path nfc (c # p) = identity_path nfc q"
      then have "length (nfc c) = length (nfc d) \<and> nfc c @ identity_path nfc p = nfc d @ identity_path nfc q'"
        by (intro format_uint_split) (simp add: Cons)
      then show "map nfc (c # p) = map nfc q" using Cons.IH [of q'] Cons by auto
    next
      assume "map nfc (c # p) = map nfc q"
      then show "identity_path nfc (c # p) = identity_path nfc q"
        using Cons.IH [of q'] Cons by simp
    qed
  qed simp
qed

section \<open>Properties of references\<close>

text \<open>
  A message reference and a JSON codec that reads nothing, for the concrete instances below.
\<close>

definition sample_message :: message_ref where
  "sample_message = \<lparr>ms_version = 0, ms_account_id = ''a'', ms_mailbox_path = [''INBOX''],
     ms_library_id = ''x7'', ms_message_id = [], ms_imap_uid = 5, ms_imap_uid_validity = 9,
     ms_imap_mailbox_id = 0, ms_subject = [], ms_subject_hash = 0, ms_store_uuid = [],
     ms_store_mailbox_id = 0, ms_store_message_id = 0, ms_store_global_id = 0\<rparr>"

definition sample_payload :: string where
  "sample_payload = [CHR 0xD8, byte_of 136, byte_of 2, byte_of 1, CHR ''a'',
      byte_of 1, byte_of 5, CHR ''I'', CHR ''N'', CHR ''B'', CHR ''O'',
      CHR ''X'', byte_of 2, CHR ''x'', CHR ''7'', byte_of 5, byte_of 9]"

definition no_json :: json_codec where
  "no_json = \<lparr>js_account = \<lambda>_. None, js_mailbox = \<lambda>_. None, js_message = \<lambda>_. None,
     js_list_cursor = \<lambda>_. None, js_compact = \<lambda>_. None, js_marshal = \<lambda>_. ''{}''\<rparr>"

lemma sanitize_ascii: "list_all is_ascii v \<Longrightarrow> sanitize_utf8 v = v"
  by (simp add: valid_utf8_ascii)

lemmas sample_eval = sanitize_path_def sanitize_ascii is_ascii_def validate_binary_bounds_def
  validate_compact_path_def max_compact_string_bytes_def max_compact_list_length_def
  parse_canonical_uuid_def writer_new_def put_uvarint_def write_path_def write_text_def
  write_identifier_def uvarint_bytes.simps binary_payload_marker_def

lemma encode_sample_payload: "encode_binary_message sample_message = Inr sample_payload"
  unfolding encode_binary_message_body sanitize_message_def sample_message_def sample_payload_def
  by (simp add: sample_eval Let_def message_body_def ref_flags_def flag_set_message_flags
      canonical_decimal_def parse_uint_def is_digit_def)
    (simp add: sample_eval message_flags_def set_if_def flag_defs message_subject_hash_def)

lemma encode_sample_message:
  "encode_message sample_message = Inr (''msg_'' @ b64_encode_raw b64_url sample_payload)"
proof -
  have "message_encodable sample_message"
    by (simp add: message_encodable_def sample_message_def has_any_store_identity_def
        validate_imap_identity_def)
  then show ?thesis
    by (simp add: encode_message_iff encode_sample_payload encode_token_def sample_payload_def
        max_compact_payload_bytes_def)
qed

text \<open>
  C34. A message reference survives its token: for every reference \<open>EncodeMessage\<close> accepts, whose
  account, mailbox path and library identifier are non-empty, \<open>DecodeMessage\<close> of the token gives
  back the same reference, up to the replacement of invalid UTF-8, the format version and the
  subject, which is replaced by its fingerprint.
\<close>

theorem decode_message_encode:
  assumes "encode_message ref = Inr t"
    and "ms_account_id ref \<noteq> []" "ms_mailbox_path ref \<noteq> []" "ms_library_id ref \<noteq> []"
  shows "decode_message js t = Inr (normal_message ref)"
  using assms by (rule decode_encoded_message)

lemma decode_message_encode_witness:
  "encode_message sample_message = Inr (''msg_'' @ b64_encode_raw b64_url sample_payload)
   \<and> decode_message no_json (''msg_'' @ b64_encode_raw b64_url sample_payload)
       = Inr (normal_message sample_message)"
  using decode_message_encode [OF encode_sample_message, of no_json] encode_sample_message
  by (simp add: sample_message_def)

text \<open>
  C35. A decoded token of the current format is the only token of its reference: when
  \<open>DecodeMessage\<close> accepts a token and reports the binary version, \<open>EncodeMessage\<close> of the result
  is that very token. So references can be compared by their tokens.
\<close>

theorem decode_message_canonical:
  assumes "decode_message js t = Inr m" "ms_version m = binary_format_version"
  shows "encode_message m = Inr t"
  using assms
  by (auto simp: encode_message_iff elim!: decoded_message_parts intro: msg.enc_dec tok.enc_dec)

lemma decode_message_canonical_witness:
  "encode_message (normal_message sample_message)
     = Inr (''msg_'' @ b64_encode_raw b64_url sample_payload)"
proof (rule decode_message_canonical)
  show "decode_message no_json (''msg_'' @ b64_encode_raw b64_url sample_payload)
      = Inr (normal_message sample_message)"
    using decode_encoded_message [OF encode_sample_message] by (simp add: sample_message_def)
  show "ms_version (normal_message sample_message) = binary_format_version"
    by (simp add: normal_message_def)
qed

text \<open>
  A server reference survives its token, and no server token is ever read as a message
  reference: commands that need the local store refuse it.
\<close>

theorem decode_server_encode:
  assumes "encode_server ref = Inr t"
  shows "decode_server t = Inr (normal_server ref) \<and> decode_message js t = Inl ServerRefReadOnly"
proof -
  from assms obtain p where ok: "\<not> server_incomplete ref" and p: "encode_binary_server ref = Inr p"
    and t: "encode_token ''srv_'' p = Inr t"
    by (auto simp: encode_server_def encode_binary_token_def result_simps split: if_splits)
  have "decode_server t = Inr (normal_server ref)"
    using tok.dec_enc [OF _ t] srv.dec_enc [OF ok p] encoded_is_binary(4) [OF p]
    by (simp add: decode_server_def)
  moreover have "is_server_ref t" using encode_token_prefix [OF t] by (simp add: is_server_ref_def)
  ultimately show ?thesis by (simp add: decode_message_def)
qed

definition sample_server :: server_ref where
  "sample_server = \<lparr>sv_version = 3, sv_account_id = ''a'', sv_mailbox_path = [''INBOX''],
     sv_uid_validity = 9, sv_uid = 300\<rparr>"

lemma encode_sample_server: "\<exists>t. encode_server sample_server = Inr t"
  by (simp add: encode_server_def sample_server_def server_incomplete_def encode_binary_server_def
      encode_binary_token_def encode_token_def sample_eval Let_def max_compact_payload_bytes_def)

lemma decode_server_encode_witness:
  "\<exists>t. encode_server sample_server = Inr t \<and> decode_server t = Inr (normal_server sample_server)
     \<and> decode_message no_json t = Inl ServerRefReadOnly"
  using encode_sample_server decode_server_encode by blast

text \<open>
  The mailbox path of an identity key is unambiguous: two paths have the same key exactly when
  they have the same components after normalisation, whatever the components contain.
\<close>

theorem identity_path_unambiguous:
  "identity_path nfc p = identity_path nfc q \<longleftrightarrow> map nfc p = map nfc q"
  by (rule identity_path_inject)

lemma decode_search_compact:
  "unat (cp_flags (search_cursor_compact c)) \<le> 3"
  "and (cp_flags (search_cursor_compact c)) 1 \<noteq> 0 \<longleftrightarrow> sc_received_at_null c"
  "and (cp_flags (search_cursor_compact c)) 2 \<noteq> 0 \<longleftrightarrow> sc_inclusive c"
  by (simp_all add: search_cursor_compact_def Let_def)

lemma decode_encode_compact:
  assumes "encode_compact_json js version v = Inr p"
    and "js_compact js (js_marshal js v) = Some v"
    and "js_marshal js v \<noteq> []" "last (js_marshal js v) = CHR ''}''"
  shows "decode_compact_payload js p version = Inr v"
    "version' \<noteq> version \<Longrightarrow> decode_compact_payload js p version' = Inl (UnsupportedCompactVersion (unat version))"
proof -
  have v: "unat w < 256" for w :: "8 word" using unsigned_less [of w] by simp
  from assms have ok: "validate_compact_payload v = Inr ()"
    and p: "p = compact_payload_marker # byte_of (unat version) # js_marshal js v"
    and len: "length p \<le> max_compact_payload_bytes"
    by (auto simp: encode_compact_json_def result_simps Let_def max_compact_payload_bytes_def
        split: if_splits)
  have l: "js_marshal js v ! (length (js_marshal js v) - 1) = CHR ''}''"
    using assms(3,4) by (simp add: last_conv_nth)
  have three: "\<not> length p < 3" using assms(3) by (cases "js_marshal js v") (simp_all add: p)
  show "decode_compact_payload js p version = Inr v"
    using assms(2,3) ok len l three v [of version]
    by (simp add: decode_compact_payload_def p nth_Cons')
  show "decode_compact_payload js p version' = Inl (UnsupportedCompactVersion (unat version))"
    if "version' \<noteq> version"
    using that assms(3) len l three v [of version]
    by (auto simp add: decode_compact_payload_def p nth_Cons' dest: word_unat_eq_iff [THEN iffD2])
qed

text \<open>
  A search cursor survives its payload, its two flags included, and a payload of one version
  is refused under any other. The hypotheses on \<open>encoding/json\<close> are that it reads back the object
  it wrote and that an object ends in a closing brace.
\<close>

theorem search_cursor_roundtrip:
  assumes "encode_search_cursor_payload js c version = Inr p"
    and "js_compact js (js_marshal js (search_cursor_compact c)) = Some (search_cursor_compact c)"
    and "js_marshal js (search_cursor_compact c) \<noteq> []"
    and "last (js_marshal js (search_cursor_compact c)) = CHR ''}''"
  shows "decode_search_cursor_payload js p version'
    = (if version' = version then Inr c else Inl (UnsupportedCompactVersion (unat version)))"
proof -
  note dec = decode_encode_compact [OF assms(1) [unfolded encode_search_cursor_payload_def] assms(2-4)]
  have "decode_search_cursor_payload js p version = Inr c"
    using decode_search_compact [of c]
    by (simp add: decode_search_cursor_payload_def dec)
      (simp add: search_cursor_compact_def empty_compact_payload_def Let_def)
  moreover have "decode_search_cursor_payload js p version' = Inl (UnsupportedCompactVersion (unat version))"
    if "version' \<noteq> version"
    by (simp add: decode_search_cursor_payload_def dec(2) [OF that])
  ultimately show ?thesis by simp
qed

definition sample_cursor :: search_cursor where
  "sample_cursor = \<lparr>sc_fingerprint = ''f'', sc_store_uuid = ''u'', sc_index_revision = ''r'',
     sc_received_at = 7, sc_received_at_null = False, sc_row_id = 3, sc_inclusive = True\<rparr>"

definition cursor_json :: json_codec where
  "cursor_json = no_json\<lparr>js_compact := \<lambda>_. Some (search_cursor_compact sample_cursor)\<rparr>"

lemma search_cursor_roundtrip_witness:
  "\<exists>p. encode_search_cursor_payload cursor_json sample_cursor 4 = Inr p
     \<and> decode_search_cursor_payload cursor_json p 4 = Inr sample_cursor"
proof -
  have "\<exists>p. encode_search_cursor_payload cursor_json sample_cursor 4 = Inr p"
    by (simp add: encode_search_cursor_payload_def encode_compact_json_def validate_compact_payload_def
        sample_eval search_cursor_compact_def empty_compact_payload_def sample_cursor_def cursor_json_def
        no_json_def max_compact_payload_bytes_def Let_def)
  then show ?thesis
    using search_cursor_roundtrip [of cursor_json sample_cursor 4 _ 4]
    by (auto simp: cursor_json_def no_json_def)
qed

end
