(* ===== verification/Mail_Target.thy ===== *)
theory Mail_Target
  imports Imap_Transfer Mailref_Reference
begin

text \<open>
  From a message reference to the message a mutation addresses
  (\<open>src/internal/mailstore/imap_resolve.go\<close>): the identity the local store proves, the one the
  server is asked for, the mailbox chosen among those it lists, and the refusals between them.

  The store, the account catalog and the server are answers: what \<open>resolveMessage\<close>, the UIDVALIDITY
  of the local mailbox and the Message-ID of the local file are for this reference, and, as functions of
  their arguments, the user of an account, LIST for a user and SEARCH for a user, a mailbox and a
  Message-ID. References are decoded and encoded by \<open>Mailref_Reference\<close>, mailboxes chosen by
  \<open>Mailbox_Resolution\<close>.
\<close>

section \<open>Data\<close>

text \<open>\<open>MutationEvidence\<close> with the fields only this layer reads.\<close>

record attempt_evidence =
  ae_operation_id :: string
  ae_account :: string
  ae_evidence :: mutation_evidence
  ae_duplicates :: nat

record mail_summary =
  sm_ref :: string
  sm_mailbox_ref :: string
  sm_message_id :: string
  sm_read :: bool
  sm_flagged :: bool
  sm_junk :: bool
  sm_deleted :: bool
  sm_truth :: "attempt_evidence option"

definition empty_summary :: mail_summary where
  "empty_summary = \<lparr>sm_ref = [], sm_mailbox_ref = [], sm_message_id = [], sm_read = False, sm_flagged = False,
     sm_junk = False, sm_deleted = False, sm_truth = None\<rparr>"

text \<open>\<open>imapTarget\<close>; of its configuration the user name, which is the account of the evidence.\<close>

record imap_target =
  it_account :: string
  it_user :: string
  it_mailbox :: string
  it_trash :: string
  it_uid :: "32 word"
  it_validity :: "32 word"
  it_duplicates :: nat
  it_message_id :: string
  it_summary :: mail_summary

record target_options =
  to_reject_trash :: bool
  to_reject_duplicate :: bool
  to_for_mutation :: bool
  to_read_identity :: bool
  to_unverified_uid :: bool

definition mutation_options :: target_options where
  "mutation_options = \<lparr>to_reject_trash = False, to_reject_duplicate = True, to_for_mutation = True,
     to_read_identity = False, to_unverified_uid = False\<rparr>"

definition transfer_options :: target_options where
  "transfer_options = mutation_options\<lparr>to_read_identity := True\<rparr>"

definition delete_options :: target_options where
  "delete_options = transfer_options\<lparr>to_reject_trash := True\<rparr>"

definition read_options :: target_options where
  "read_options = \<lparr>to_reject_trash = False, to_reject_duplicate = True, to_for_mutation = False,
     to_read_identity = False, to_unverified_uid = False\<rparr>"

definition excerpt_options :: target_options where
  "excerpt_options = read_options\<lparr>to_unverified_uid := True\<rparr>"

text \<open>\<open>resolvedMessage\<close>: the validated reference, the record of the store and where the message is kept.\<close>

record resolved_message =
  rs_reference :: message_ref
  rs_visible_path :: "string list"
  rs_scheme :: string
  rs_remote_id :: "64 word"
  rs_remote_mailbox :: "64 word"
  rs_summary :: "mail_summary option"

text \<open>What the calls return; an error is its code. The headers are absent when the operator cannot fetch them.\<close>

record target_answers =
  ta_resolved :: "string + resolved_message"
  ta_local_validity :: "string + 32 word"
  ta_local_message_id :: "string + string"
  ta_config :: "string \<Rightarrow> string + string"
  ta_mailboxes :: "string \<Rightarrow> string + mailbox_info list"
  ta_canceled :: bool
  ta_search :: "string \<Rightarrow> string \<Rightarrow> string \<Rightarrow> string + 32 word \<times> 32 word \<times> nat"
  ta_headers :: "(string + string) option"

datatype target_error = Target_Code string | Target_Path resolution_error

section \<open>The local identity\<close>

definition stale_reference :: string where "stale_reference = ''stale_reference''"

text \<open>\<open>safeTargetedFallback\<close>: the source is missing or damaged, which the server can make up for.\<close>

definition safe_targeted_fallback :: "string \<Rightarrow> bool" where
  "safe_targeted_fallback code \<longleftrightarrow> code \<in> set [''raw_source_partial'', ''message_source_missing'', ''attachment_not_downloaded'',
     ''not_found'', ''store_bound_reference_required'', ''invalid_emlx'']"

definition direct_imap_identity :: "resolved_message \<Rightarrow> string + 32 word \<Rightarrow> string + 32 word \<times> 32 word \<times> bool" where
  "direct_imap_identity r local_validity = (let ref = rs_reference r; expected = ms_imap_uid_validity ref in
     if ms_imap_uid ref = 0 then Inr (0, 0, False)
     else if rs_remote_id r \<noteq> ucast (ms_imap_uid ref) then Inl stale_reference
     else if ms_imap_mailbox_id ref \<noteq> 0 \<and> rs_remote_mailbox r \<noteq> ms_imap_mailbox_id ref then Inl stale_reference
     else (case local_validity of
         Inl e \<Rightarrow> if expected = 0 then Inl e else Inr (ms_imap_uid ref, expected, True)
       | Inr v \<Rightarrow>
           if expected \<noteq> 0 \<and> v \<noteq> 0 \<and> expected \<noteq> v then Inl stale_reference
           else let validity = (if expected = 0 then v else expected)
                in Inr (ms_imap_uid ref, validity, validity \<noteq> 0)))"

text \<open>UID, UIDVALIDITY, number of matches, Message-ID, and the error of the local evidence.\<close>

type_synonym local_identity = "32 word \<times> 32 word \<times> nat \<times> string \<times> string option"

text \<open>A label names the selected mailbox, but its UID belongs to the mailbox the message is kept in.\<close>

definition local_uid :: "target_options \<Rightarrow> target_answers \<Rightarrow> resolved_message \<Rightarrow> target_error + local_identity" where
  "local_uid opts ans r = (let ref = rs_reference r; mid = ms_message_id ref in
     if ms_imap_uid ref \<noteq> 0 \<and> rs_visible_path r = ms_mailbox_path ref then
       (case direct_imap_identity r (ta_local_validity ans) of
          Inl e \<Rightarrow> if e = stale_reference then Inl (Target_Code e) else Inr (0, 0, 0, mid, Some e)
        | Inr (uid, validity, usable) \<Rightarrow>
            if usable then Inr (uid, validity, 1, mid, None)
            else if to_unverified_uid opts then Inr (uid, 0, 1, mid, None)
            else Inr (0, 0, 0, mid, None))
     else Inr (0, 0, 0, mid, None))"

definition local_message_id :: "target_options \<Rightarrow> target_answers \<Rightarrow> local_identity \<Rightarrow> target_error + local_identity" where
  "local_message_id opts ans i = (case i of (uid, validity, n, mid, e) \<Rightarrow>
     bindR (if mid = [] \<and> (uid = 0 \<or> validity = 0 \<or> to_read_identity opts)
         then (case ta_local_message_id ans of
             Inr mid \<Rightarrow> Inr (mid, None)
           | Inl e \<Rightarrow> if safe_targeted_fallback e then Inr ([], Some e) else Inl (Target_Code e))
         else Inr (mid, e)) (\<lambda>(mid, e).
       Inr (if validity = 0 \<and> mid = [] then (0, validity, 0, mid, e) else (uid, validity, n, mid, e))))"

section \<open>The target\<close>

definition reject_already_trashed :: "folding \<Rightarrow> string \<Rightarrow> string \<Rightarrow> target_error + unit" where
  "reject_already_trashed ef mailbox trash =
     guardR (trash = [] \<or> \<not> ef mailbox trash) (Target_Code ''message_already_trashed'')"

definition uid_unknown :: target_error where
  "uid_unknown = Target_Code ''imap_message_uid_unknown''"

text \<open>The SEARCH by Message-ID in the resolved mailbox, for a message without a local UID.\<close>

definition search_identity ::
    "target_options \<Rightarrow> target_answers \<Rightarrow> string \<Rightarrow> string \<Rightarrow> local_identity \<Rightarrow> target_error + local_identity" where
  "search_identity opts ans user mailbox i = (case i of (uid, validity, n, mid, e) \<Rightarrow>
     if mid \<noteq> [] \<and> uid = 0 then
       bindR (guardR (\<not> ta_canceled ans) (Target_Code [])) (\<lambda>_.
       bindR (wrapR Target_Code (ta_search ans user mailbox mid)) (\<lambda>(uid, validity, n).
       bindR (guardR (uid \<noteq> 0) uid_unknown) (\<lambda>_.
       bindR (guardR (\<not> (to_reject_duplicate opts \<and> 1 < n)) (Target_Code ''imap_ambiguous_message_id'')) (\<lambda>_.
         Inr (uid, validity, n, mid, e)))))
     else Inr i)"

definition update_summary_identity :: "json_codec \<Rightarrow> string \<Rightarrow> string \<Rightarrow> 32 word \<Rightarrow> 32 word \<Rightarrow> string" where
  "update_summary_identity js v message_id uid validity = (case decode_message js v of
      Inl _ \<Rightarrow> v
    | Inr ref \<Rightarrow>
        (case encode_message (ref\<lparr>ms_message_id := message_id, ms_imap_uid := uid, ms_imap_uid_validity := validity,
            ms_imap_mailbox_id := (if uid = 0 then 0 else ms_imap_mailbox_id ref)\<rparr>) of
           Inl _ \<Rightarrow> v | Inr updated \<Rightarrow> updated))"

text \<open>The base summary, whose reference carries the proved identity of the mailbox the store knows.\<close>

definition target_summary :: "json_codec \<Rightarrow> resolved_message \<Rightarrow> string \<Rightarrow> 32 word \<Rightarrow> 32 word \<Rightarrow> mail_summary" where
  "target_summary js r mid uid validity = (case rs_summary r of
      None \<Rightarrow> empty_summary
    | Some s \<Rightarrow>
        (let own = (rs_visible_path r = ms_mailbox_path (rs_reference r) \<and> rs_remote_id r = ucast uid)
         in s\<lparr>sm_message_id := mid, sm_ref := (if own then update_summary_identity js (sm_ref s) mid uid validity
              else update_summary_identity js (sm_ref s) mid 0 0)\<rparr>))"

definition target_mailbox ::
    "normal_form \<Rightarrow> folding \<Rightarrow> target_options \<Rightarrow> mailbox_info list \<Rightarrow> string list \<Rightarrow> target_error + string \<times> string" where
  "target_mailbox nfc ef opts boxes path =
     bindR (if to_reject_trash opts then wrapR Target_Path (resolve_trash_mailbox nfc ef boxes) else Inr []) (\<lambda>trash.
     bindR (wrapR Target_Path (if to_for_mutation opts then resolve_mailbox_path_for_mutation nfc ef boxes path
         else resolve_mailbox_path nfc ef boxes path)) (\<lambda>mailbox.
     bindR (if to_reject_trash opts then reject_already_trashed ef mailbox trash else Inr ()) (\<lambda>_.
       Inr (mailbox, trash))))"

text \<open>The Message-ID for the evidence of a transfer, when the local source could not give it.\<close>

definition transfer_identity :: "target_options \<Rightarrow> target_answers \<Rightarrow> local_identity \<Rightarrow> target_error + local_identity" where
  "transfer_identity opts ans i = (case i of (uid, validity, n, mid, e) \<Rightarrow>
     if to_read_identity opts \<and> mid = [] \<and> e \<noteq> None then
       (case ta_headers ans of
          None \<Rightarrow> Inr i
        | Some (Inl c) \<Rightarrow> Inl (Target_Code c)
        | Some (Inr mid) \<Rightarrow> Inr (uid, validity, n, mid, e))
     else Inr i)"

definition resolve_imap_target ::
    "json_codec \<Rightarrow> normal_form \<Rightarrow> folding \<Rightarrow> target_options \<Rightarrow> target_answers \<Rightarrow> target_error + imap_target" where
  "resolve_imap_target js nfc ef opts ans =
     bindR (wrapR Target_Code (ta_resolved ans)) (\<lambda>r. let ref = rs_reference r in
     bindR (local_uid opts ans r) (\<lambda>i.
     bindR (local_message_id opts ans i) (\<lambda>i.
     bindR (guardR (rs_scheme r = ''imap'' \<and> ms_account_id ref \<noteq> ''local'') (Target_Code ''local_only_mailbox'')) (\<lambda>_.
     bindR (guardR (fst i \<noteq> 0 \<or> fst (snd (snd (snd i))) \<noteq> []) uid_unknown) (\<lambda>_.
     bindR (wrapR Target_Code (ta_config ans (ms_account_id ref))) (\<lambda>user.
     bindR (wrapR Target_Code (ta_mailboxes ans user)) (\<lambda>boxes.
     bindR (target_mailbox nfc ef opts boxes (ms_mailbox_path ref)) (\<lambda>(mailbox, trash).
     bindR (search_identity opts ans user mailbox i) (\<lambda>i.
     bindR (guardR (fst i \<noteq> 0 \<and> (fst (snd i) \<noteq> 0 \<or> to_unverified_uid opts)) uid_unknown) (\<lambda>_.
     bindR (transfer_identity opts ans i) (\<lambda>(uid, validity, n, mid, e).
       Inr \<lparr>it_account = ms_account_id ref, it_user = user, it_mailbox = mailbox, it_trash = trash, it_uid = uid,
         it_validity = validity, it_duplicates = n, it_message_id = mid,
         it_summary = target_summary js r mid uid validity\<rparr>)))))))))))"

section \<open>What a target proves\<close>

text \<open>The identity comes from a local record that agrees with the reference in everything both know.\<close>

definition local_proof :: "target_answers \<Rightarrow> resolved_message \<Rightarrow> 32 word \<Rightarrow> 32 word \<Rightarrow> bool" where
  "local_proof ans r uid validity \<longleftrightarrow> (let ref = rs_reference r in
     ms_imap_uid ref = uid \<and> rs_remote_id r = ucast uid \<and> rs_visible_path r = ms_mailbox_path ref
     \<and> (ms_imap_mailbox_id ref = 0 \<or> rs_remote_mailbox r = ms_imap_mailbox_id ref)
     \<and> ms_imap_uid_validity ref \<in> {0, validity}
     \<and> (case ta_local_validity ans of Inl _ \<Rightarrow> ms_imap_uid_validity ref = validity | Inr v \<Rightarrow> v \<in> {0, validity}))"

lemma direct_identity_proof:
  assumes "direct_imap_identity r (ta_local_validity ans) = Inr (uid, validity, True)" "rs_visible_path r = ms_mailbox_path (rs_reference r)"
  shows "uid \<noteq> 0 \<and> validity \<noteq> 0 \<and> local_proof ans r uid validity"
  using assms by (auto simp: direct_imap_identity_def local_proof_def Let_def split: if_splits sum.splits)

lemma local_uid_proof:
  assumes "local_uid opts ans r = Inr (uid, validity, n, mid, e)" "\<not> to_unverified_uid opts"
  shows "uid = 0 \<and> validity = 0 \<or> n = 1 \<and> uid \<noteq> 0 \<and> validity \<noteq> 0 \<and> local_proof ans r uid validity"
proof (cases "ms_imap_uid (rs_reference r) \<noteq> 0 \<and> rs_visible_path r = ms_mailbox_path (rs_reference r)")
  case True
  show ?thesis
  proof (cases "direct_imap_identity r (ta_local_validity ans)")
    case (Inr x)
    then obtain u v b where x: "direct_imap_identity r (ta_local_validity ans) = Inr (u, v, b)" by (cases x) auto
    show ?thesis
      using assms True x direct_identity_proof [of r ans u v] by (cases b) (simp_all add: local_uid_def Let_def)
  qed (use assms True in \<open>simp add: local_uid_def Let_def split: if_splits\<close>)
next
  case False
  then show ?thesis using assms(1) by (simp only: local_uid_def Let_def if_False) simp
qed

text \<open>The Message-ID of the reference, or that of the local file when the reference has none.\<close>

definition named_message_id :: "target_answers \<Rightarrow> resolved_message \<Rightarrow> string \<Rightarrow> bool" where
  "named_message_id ans r mid \<longleftrightarrow> mid \<noteq> [] \<and>
     (if ms_message_id (rs_reference r) = [] then ta_local_message_id ans = Inr mid
      else mid = ms_message_id (rs_reference r))"

lemma local_uid_message_id:
  "local_uid opts ans r = Inr (uid, validity, n, mid, e) \<Longrightarrow> mid = ms_message_id (rs_reference r)"
  by (auto simp: local_uid_def Let_def split: if_splits sum.splits prod.splits)

lemma local_message_id_uid:
  assumes "local_message_id opts ans (uid, validity, n, mid, e) = Inr (uid', validity', n', mid', e')"
  shows "validity' = validity \<and> (uid' = uid \<or> uid' = 0 \<and> validity = 0) \<and> (validity \<noteq> 0 \<longrightarrow> n' = n)
    \<and> (mid \<noteq> [] \<longrightarrow> mid' = mid) \<and> (mid = [] \<and> mid' \<noteq> [] \<longrightarrow> ta_local_message_id ans = Inr mid')"
  using assms by (auto simp: local_message_id_def result_simps split: if_splits sum.splits prod.splits)

lemma search_identity_proof:
  assumes "search_identity opts ans user mailbox (uid, validity, n, mid, e) = Inr (uid', validity', n', mid', e')"
    "to_reject_duplicate opts"
  shows "mid' = mid \<and> ((uid', validity', n') = (uid, validity, n)
    \<or> uid = 0 \<and> mid \<noteq> [] \<and> n' \<le> 1 \<and> ta_search ans user mailbox mid = Inr (uid', validity', n'))"
  using assms by (auto simp: search_identity_def result_simps split: if_splits prod.splits)

lemma transfer_identity_uid:
  assumes "transfer_identity opts ans (uid, validity, n, mid, e) = Inr (uid', validity', n', mid', e')"
  shows "(uid', validity', n') = (uid, validity, n) \<and> (mid \<noteq> [] \<longrightarrow> mid' = mid)"
  using assms by (auto simp: transfer_identity_def split: if_splits option.splits sum.splits)

lemma target_mailbox_proof:
  assumes "target_mailbox nfc ef opts boxes path = Inr (mailbox, trash)"
  shows "(to_for_mutation opts \<longrightarrow> resolve_mailbox_path_for_mutation nfc ef boxes path = Inr mailbox)
    \<and> (to_reject_trash opts \<longrightarrow> resolve_trash_mailbox nfc ef boxes = Inr trash \<and> (trash = [] \<or> \<not> ef mailbox trash))"
  using assms by (auto simp: target_mailbox_def reject_already_trashed_def result_simps split: if_splits)

text \<open>C14. The message a mutation addresses is proved to be the one its reference names: the account
  is that of the reference, its UID and UIDVALIDITY are known, and either the record of the local store
  agrees with the reference in the UID, the mailbox and every UIDVALIDITY that is known, or the server
  was searched in that mailbox of that user for exactly the Message-ID of the reference - of the local
  file when the reference has none - and reported this UID as the only match. A Message-ID of the
  reference is kept; the mailbox is the unambiguous one among those the server lists for the user, and
  for a deletion it is not the Trash.\<close>

theorem target_identity_proved:
  assumes "resolve_imap_target js nfc ef opts ans = Inr t" "to_reject_duplicate opts" "\<not> to_unverified_uid opts"
  shows "\<exists>r boxes. ta_resolved ans = Inr r \<and> rs_scheme r = ''imap''
    \<and> it_account t = ms_account_id (rs_reference r) \<and> ta_config ans (it_account t) = Inr (it_user t)
    \<and> ta_mailboxes ans (it_user t) = Inr boxes
    \<and> it_uid t \<noteq> 0 \<and> it_validity t \<noteq> 0
    \<and> (ms_message_id (rs_reference r) \<noteq> [] \<longrightarrow> it_message_id t = ms_message_id (rs_reference r))
    \<and> (local_proof ans r (it_uid t) (it_validity t)
       \<or> named_message_id ans r (it_message_id t) \<and> it_duplicates t \<le> 1
         \<and> ta_search ans (it_user t) (it_mailbox t) (it_message_id t) = Inr (it_uid t, it_validity t, it_duplicates t))
    \<and> (to_for_mutation opts \<longrightarrow> resolve_mailbox_path_for_mutation nfc ef boxes (ms_mailbox_path (rs_reference r)) = Inr (it_mailbox t))
    \<and> (to_reject_trash opts \<longrightarrow> it_trash t = [] \<or> \<not> ef (it_mailbox t) (it_trash t))"
proof -
  from assms(1) obtain r i1 i2 user boxes mailbox trash i3 uid validity n mid e where s:
    "ta_resolved ans = Inr r" "local_uid opts ans r = Inr i1" "local_message_id opts ans i1 = Inr i2"
    "rs_scheme r = ''imap''" "ta_config ans (ms_account_id (rs_reference r)) = Inr user" "ta_mailboxes ans user = Inr boxes"
    "target_mailbox nfc ef opts boxes (ms_mailbox_path (rs_reference r)) = Inr (mailbox, trash)"
    "search_identity opts ans user mailbox i2 = Inr i3" "fst i3 \<noteq> 0" "fst (snd i3) \<noteq> 0 \<or> to_unverified_uid opts"
    "transfer_identity opts ans i3 = Inr (uid, validity, n, mid, e)"
    "t = \<lparr>it_account = ms_account_id (rs_reference r), it_user = user, it_mailbox = mailbox, it_trash = trash, it_uid = uid,
         it_validity = validity, it_duplicates = n, it_message_id = mid, it_summary = target_summary js r mid uid validity\<rparr>"
    unfolding resolve_imap_target_def Let_def by (auto simp: result_simps split: prod.splits)
  obtain u1 v1 n1 m1 e1 where i1: "i1 = (u1, v1, n1, m1, e1)" by (metis prod.exhaust)
  obtain u2 v2 n2 m2 e2 where i2: "i2 = (u2, v2, n2, m2, e2)" by (metis prod.exhaust)
  obtain u3 v3 n3 m3 e3 where i3: "i3 = (u3, v3, n3, m3, e3)" by (metis prod.exhaust)
  note p1 = local_uid_proof [OF s(2) [unfolded i1] assms(3)]
  note p2 = local_message_id_uid [OF s(3) [unfolded i1 i2]]
  note p3 = search_identity_proof [OF s(8) [unfolded i2 i3] assms(2)]
  note p4 = transfer_identity_uid [OF s(11) [unfolded i3]]
  note p5 = target_mailbox_proof [OF s(7)]
  have m1: "m1 = ms_message_id (rs_reference r)" by (rule local_uid_message_id [OF s(2) [unfolded i1]])
  have kept: "m1 \<noteq> [] \<longrightarrow> mid = m1" using p2 p3 p4 by auto
  have named: "named_message_id ans r m2" if "m2 \<noteq> []"
    using that p2 m1 by (auto simp: named_message_id_def)
  have "local_proof ans r uid validity
      \<or> named_message_id ans r mid \<and> n \<le> 1 \<and> ta_search ans user mailbox mid = Inr (uid, validity, n)"
    using p1 p2 p3 p4 s(9,10) i3 assms(3) named by auto
  then show ?thesis using s i3 p4 p5 assms(3) m1 kept by auto
qed

text \<open>A reference with a UID the local record confirms, and one without, whose message the server is asked for.\<close>

definition example_answers :: "32 word \<Rightarrow> target_answers" where
  "example_answers uid = \<lparr>ta_resolved = Inr \<lparr>rs_reference = \<lparr>ms_version = 3, ms_account_id = ''a'', ms_mailbox_path = [''Work''],
       ms_library_id = ''l'', ms_message_id = ''<a@b>'', ms_imap_uid = uid, ms_imap_uid_validity = 0, ms_imap_mailbox_id = 0,
       ms_subject = [], ms_subject_hash = 0, ms_store_uuid = [], ms_store_mailbox_id = 0, ms_store_message_id = 0,
       ms_store_global_id = 0\<rparr>, rs_visible_path = [''Work''], rs_scheme = ''imap'', rs_remote_id = 7, rs_remote_mailbox = 0,
       rs_summary = None\<rparr>, ta_local_validity = Inr 5, ta_local_message_id = Inl [],
     ta_config = (\<lambda>a. if a = ''a'' then Inr ''u'' else Inl ''account_not_found''),
     ta_mailboxes = (\<lambda>u. Inr (if u = ''u'' then example_mailboxes else [])), ta_canceled = False,
     ta_search = (\<lambda>u b m. Inr (if u = ''u'' \<and> b = ''Work'' \<and> m = ''<a@b>'' then (9, 6, 1) else (0, 6, 0))), ta_headers = None\<rparr>"

lemma example_target_resolved:
  "\<exists>t. resolve_imap_target js id (=) mutation_options (example_answers 7) = Inr t \<and> it_uid t = 7 \<and> it_validity t = 5 \<and> it_mailbox t = ''Work''"
  "\<exists>t. resolve_imap_target js id (=) mutation_options (example_answers 0) = Inr t \<and> it_uid t = 9 \<and> it_validity t = 6 \<and> it_mailbox t = ''Work''"
  by (simp_all add: resolve_imap_target_def example_answers_def mutation_options_def local_uid_def direct_imap_identity_def
      local_message_id_def target_mailbox_def example_resolved search_identity_def transfer_identity_def Let_def)

theorem target_identity_proved_witness:
  "\<forall>js. \<exists>t. resolve_imap_target js id (=) mutation_options (example_answers 0) = Inr t \<and> it_message_id t = ''<a@b>''
     \<and> ta_search (example_answers 0) (it_user t) (it_mailbox t) ''<a@b>'' = Inr (it_uid t, it_validity t, it_duplicates t)"
proof
  fix js
  let ?ans = "example_answers 0"
  obtain t where t: "resolve_imap_target js id (=) mutation_options ?ans = Inr t" using example_target_resolved by blast
  have opts: "to_reject_duplicate mutation_options" "\<not> to_unverified_uid mutation_options" by (simp_all add: mutation_options_def)
  from target_identity_proved [OF t opts] obtain r where r: "ta_resolved ?ans = Inr r" "it_uid t \<noteq> 0"
    and mid: "ms_message_id (rs_reference r) \<noteq> [] \<longrightarrow> it_message_id t = ms_message_id (rs_reference r)"
    and proof_of: "local_proof ?ans r (it_uid t) (it_validity t)
      \<or> ta_search ?ans (it_user t) (it_mailbox t) (it_message_id t) = Inr (it_uid t, it_validity t, it_duplicates t)" by blast
  have "ms_message_id (rs_reference r) = ''<a@b>''" "ms_imap_uid (rs_reference r) = 0"
    using r(1) by (auto simp: example_answers_def)
  with r(2) mid proof_of t show "\<exists>t. resolve_imap_target js id (=) mutation_options ?ans = Inr t \<and> it_message_id t = ''<a@b>''
     \<and> ta_search ?ans (it_user t) (it_mailbox t) ''<a@b>'' = Inr (it_uid t, it_validity t, it_duplicates t)"
    by (intro exI [of _ t]) (simp add: local_proof_def Let_def)
qed

end
