(* ===== verification/Mail_Transfer.thy ===== *)
theory Mail_Transfer
  imports Mail_Target Go_Sha256
begin

text \<open>
  Moving, copying and deleting a message by its reference (\<open>src/internal/mailstore/imap_copy_move.go\<close>,
  \<open>imap_delete.go\<close>): the resolution of the target and of the destination, the attempts of copies this
  process remembers, the check of the destination before and after a COPY, and the one repetition after
  a rebuilt mailbox. The commands are those of \<open>Imap_Transfer\<close>, run in its world; the attempts are the map
  \<open>copyAttempts\<close> of the client.
\<close>

section \<open>Requests and results\<close>

record transfer_request =
  tq_copy :: bool
  tq_destination :: string
  tq_allow_draft :: bool

text \<open>What the calls before the command return: whether the message is in Drafts, the resolution of the
  target, a second one when the mailbox was rebuilt, and the mailboxes of the account.\<close>

record transfer_env =
  te_draft :: "string + bool"
  te_target :: "target_error + imap_target"
  te_again :: "target_error + imap_target"
  te_mailboxes :: "string + mailbox_info list"
  te_guarded :: bool

datatype mail_error =
    Mail_Code string
  | Mail_Target target_error
  | Mail_Path resolution_error
  | Mail_Operator transfer_error
  | Copy_Outcome_Unknown attempt_evidence

type_synonym copy_attempts = "string \<Rightarrow> attempt_evidence option"

record mail_world =
  mw_attempts :: copy_attempts
  mw_server :: transfer_world

type_synonym 'a mail_io = "mail_world \<Rightarrow> 'a \<times> mail_world"

definition m_return :: "'a \<Rightarrow> 'a mail_io" where
  "m_return x w = (x, w)"

definition m_bind :: "'a mail_io \<Rightarrow> ('a \<Rightarrow> 'b mail_io) \<Rightarrow> 'b mail_io" where
  "m_bind m f w = (case m w of (x, w) \<Rightarrow> f x w)"

definition on_server :: "'a transfer \<Rightarrow> 'a mail_io" where
  "on_server m w = (case m (mw_server w) of (x, s) \<Rightarrow> (x, w\<lparr>mw_server := s\<rparr>))"

section \<open>Remembered copies\<close>

definition copy_attempt :: "string \<Rightarrow> attempt_evidence option mail_io" where
  "copy_attempt key w = (mw_attempts w key, w)"

definition remember_copy_attempt :: "string \<Rightarrow> attempt_evidence \<Rightarrow> unit mail_io" where
  "remember_copy_attempt key ev w = ((), w\<lparr>mw_attempts := (mw_attempts w)(key := Some ev)\<rparr>)"

definition forget_copy_attempt :: "string \<Rightarrow> unit mail_io" where
  "forget_copy_attempt key w = ((), w\<lparr>mw_attempts := (mw_attempts w)(key := None)\<rparr>)"

text \<open>\<open>MutationOperationID\<close>, for a command given in upper and in lower case.\<close>

definition mutation_operation_id :: "string \<Rightarrow> string \<Rightarrow> string \<Rightarrow> string \<Rightarrow> 32 word \<Rightarrow> 32 word \<Rightarrow> string \<Rightarrow> string" where
  "mutation_operation_id upper lower account mailbox uid validity target =
     lower @ ''_'' @ encode_hex (take 12 (sha256 (join_with [CHR 0x00]
       [upper, account, mailbox, format_uint (unat uid), format_uint (unat validity), target])))"

definition copy_attempt_key :: "imap_target \<Rightarrow> string \<Rightarrow> string" where
  "copy_attempt_key t destination =
     mutation_operation_id ''COPY'' ''copy'' (it_user t) (it_mailbox t) (it_uid t) (it_validity t) destination"

definition copy_attempt_evidence :: "imap_target \<Rightarrow> string \<Rightarrow> attempt_evidence" where
  "copy_attempt_evidence t destination = \<lparr>ae_operation_id = copy_attempt_key t destination, ae_account = it_user t,
     ae_evidence = (start_evidence ''COPY'' (it_mailbox t) (it_uid t) (it_validity t) destination)
       \<lparr>ev_outcome := Attempted, ev_uid_validity := it_validity t\<rparr>, ae_duplicates = 0\<rparr>"

text \<open>The evidence of the operator, which carries the identity of its operation and the account.\<close>

definition operator_evidence :: "string \<Rightarrow> string \<Rightarrow> mutation_evidence \<Rightarrow> attempt_evidence" where
  "operator_evidence key account ev = \<lparr>ae_operation_id = key, ae_account = account, ae_evidence = ev, ae_duplicates = 0\<rparr>"

definition merge_copy_evidence :: "attempt_evidence \<Rightarrow> attempt_evidence \<Rightarrow> attempt_evidence" where
  "merge_copy_evidence base actual = (let b = ae_evidence base; a = ae_evidence actual in
     actual\<lparr>ae_operation_id := (if ae_operation_id actual = [] then ae_operation_id base else ae_operation_id actual),
       ae_account := (if ae_account actual = [] then ae_account base else ae_account actual),
       ae_evidence := a\<lparr>ev_command := (if ev_command a = [] then ev_command b else ev_command a),
         ev_mailbox := (if ev_mailbox a = [] then ev_mailbox b else ev_mailbox a),
         ev_target_mailbox := (if ev_target_mailbox a = [] then ev_target_mailbox b else ev_target_mailbox a),
         ev_uid := (if ev_uid a = 0 then ev_uid b else ev_uid a),
         ev_uid_validity := (if ev_uid_validity a = 0 then ev_uid_validity b else ev_uid_validity a),
         ev_expected_uid_validity := (if ev_expected_uid_validity a = 0 then ev_expected_uid_validity b
           else ev_expected_uid_validity a)\<rparr>\<rparr>)"

definition with_outcome :: "mutation_outcome \<Rightarrow> attempt_evidence \<Rightarrow> attempt_evidence" where
  "with_outcome o' ev = ev\<lparr>ae_evidence := (ae_evidence ev)\<lparr>ev_outcome := o'\<rparr>\<rparr>"

definition copy_outcome_unknown_error :: "attempt_evidence \<Rightarrow> mail_error" where
  "copy_outcome_unknown_error ev = Copy_Outcome_Unknown (with_outcome Unknown ev)"

definition outcome_evidence_from_error :: "mail_error \<Rightarrow> attempt_evidence \<Rightarrow> attempt_evidence" where
  "outcome_evidence_from_error e fallback = (case e of Copy_Outcome_Unknown ev \<Rightarrow> ev | _ \<Rightarrow> fallback)"

section \<open>The destination\<close>

definition evidence_with_copy_destination :: "attempt_evidence \<Rightarrow> destination_match \<Rightarrow> attempt_evidence" where
  "evidence_with_copy_destination ev ob = ev\<lparr>ae_evidence := (ae_evidence ev)
     \<lparr>ev_destination_uid := dm_uid ob, ev_destination_uid_validity := dm_validity ob\<rparr>\<rparr>"

text \<open>\<open>observeCopyDestination\<close>: \<open>SearchUID\<close> on a session of its own; nothing found is no error.\<close>

definition observe_copy_destination :: "string \<Rightarrow> (unit + destination_match) mail_io" where
  "observe_copy_destination message_id =
     (let nothing = \<lparr>dm_uid = 0, dm_validity = 0, dm_count = 0\<rparr> in
      if message_id = [] then m_return (Inl ())
      else m_bind (on_server (t_try acquire_mutation (\<lambda>e. t_return (Inl e)) (\<lambda>_. find_destination message_id))) (\<lambda>r.
        m_return (case r of
            Inl _ \<Rightarrow> Inl ()
          | Inr found \<Rightarrow>
              if dm_count found = 0 then Inr nothing
              else if dm_uid found = 0 \<or> dm_validity found = 0 then Inl ()
              else Inr found)))"

definition verify_before_dispatch :: "string \<Rightarrow> attempt_evidence \<Rightarrow> mail_error option mail_io" where
  "verify_before_dispatch message_id ev = m_bind (observe_copy_destination message_id) (\<lambda>r. m_return (case r of
      Inl _ \<Rightarrow> Some (copy_outcome_unknown_error ev)
    | Inr ob \<Rightarrow> if dm_count ob = 0 then None
        else Some (copy_outcome_unknown_error (evidence_with_copy_destination ev ob))))"

text \<open>The evidence, and the error if the destination does not prove the copy.\<close>

definition verify_after_dispatch :: "string \<Rightarrow> attempt_evidence \<Rightarrow> (attempt_evidence \<times> mail_error option) mail_io" where
  "verify_after_dispatch message_id ev = m_bind (observe_copy_destination message_id) (\<lambda>r. m_return (case r of
      Inl _ \<Rightarrow> (ev, Some (copy_outcome_unknown_error ev))
    | Inr ob \<Rightarrow>
        if dm_count ob = 0 then (ev, Some (copy_outcome_unknown_error ev))
        else let ev = evidence_with_copy_destination ev ob; m = ae_evidence ev in
          if 1 < dm_count ob \<or> ev_copy_uid_validity m \<noteq> 0 \<and> ev_copy_uid_validity m \<noteq> dm_validity ob
             \<or> ev_copy_destination_uid m \<noteq> 0 \<and> ev_copy_destination_uid m \<noteq> dm_uid ob
          then (ev, Some (copy_outcome_unknown_error ev)) else (ev, None)))"

section \<open>Dispatching a copy\<close>

text \<open>The evidence, whether no COPY was sent because of the destination, and the error.\<close>

definition dispatch_copy :: "bool \<Rightarrow> imap_target \<Rightarrow> string \<Rightarrow> string \<Rightarrow> (attempt_evidence \<times> bool \<times> mail_error option) mail_io" where
  "dispatch_copy guarded t destination key =
     (let base = copy_attempt_evidence t destination; mid = it_message_id t;
          run = (\<lambda>guard. on_server (copy_message (it_mailbox t) (it_uid t) (it_validity t) destination guard));
          own = operator_evidence (copy_attempt_key t destination) (it_user t) in
      if \<not> guarded \<or> mid = [] then
        m_bind (verify_before_dispatch mid base) (\<lambda>stopped. case stopped of
          Some e \<Rightarrow> m_return (base, True, Some e)
        | None \<Rightarrow> m_bind (remember_copy_attempt key base) (\<lambda>_. m_bind (run []) (\<lambda>((ev, e), found).
            m_return (own ev, False, map_option Mail_Operator e))))
      else m_bind (remember_copy_attempt key base) (\<lambda>_. m_bind (run mid) (\<lambda>((ev, e), found).
        if e = Some Copy_Guard then
          m_bind (forget_copy_attempt key) (\<lambda>_. m_return (own ev, True, Some (copy_outcome_unknown_error base)))
        else if e = None \<and> 0 < dm_count found then
          m_bind (forget_copy_attempt key) (\<lambda>_.
            m_return (own ev, True, Some (copy_outcome_unknown_error (evidence_with_copy_destination base found))))
        else m_return (own ev, False, map_option Mail_Operator e))))"

definition is_uid_validity_changed :: "mail_error option \<Rightarrow> bool" where
  "is_uid_validity_changed e \<longleftrightarrow> e = Some (Mail_Operator (Transfer_Failed ''mailbox_uidvalidity_changed''))"

definition duplicate_match_evidence :: "nat \<Rightarrow> nat" where
  "duplicate_match_evidence n = (if n \<le> 1 then 0 else n)"

text \<open>The result: the summary, if one is returned, and the error.\<close>

type_synonym mail_result = "mail_summary option \<times> mail_error option"

definition m_fail :: "mail_error \<Rightarrow> mail_result mail_io" where
  "m_fail e = m_return (None, Some e)"

definition summarize_transfer :: "imap_target \<Rightarrow> attempt_evidence \<Rightarrow> mail_summary" where
  "summarize_transfer t ev = (it_summary t)\<lparr>sm_truth := Some (ev\<lparr>ae_duplicates := duplicate_match_evidence (it_duplicates t)\<rparr>)\<rparr>"

text \<open>From the last dispatch of a copy to its result.\<close>

definition finish_copy :: "imap_target \<Rightarrow> string \<Rightarrow> string \<Rightarrow> attempt_evidence \<Rightarrow> mail_error option \<Rightarrow> mail_result mail_io" where
  "finish_copy t destination key ev e =
     (let ev = merge_copy_evidence (copy_attempt_evidence t destination) ev in
      case e of
        Some e \<Rightarrow>
          if ev_outcome (ae_evidence ev) = Rejected \<or> ev_outcome (ae_evidence ev) = NotStarted then
            m_bind (forget_copy_attempt key) (\<lambda>_. m_fail e)
          else m_bind (verify_after_dispatch (it_message_id t) ev) (\<lambda>(observed, unproved). case unproved of
              Some e' \<Rightarrow> m_bind (remember_copy_attempt key (outcome_evidence_from_error e' observed)) (\<lambda>_. m_fail e')
            | None \<Rightarrow> m_bind (remember_copy_attempt key (with_outcome Unknown observed)) (\<lambda>_.
                m_fail (copy_outcome_unknown_error (with_outcome Unknown observed))))
      | None \<Rightarrow> m_bind (verify_after_dispatch (it_message_id t) ev) (\<lambda>(ev, unproved). case unproved of
            Some e' \<Rightarrow> m_bind (remember_copy_attempt key (outcome_evidence_from_error e' ev)) (\<lambda>_. m_fail e')
          | None \<Rightarrow> m_bind (forget_copy_attempt key) (\<lambda>_. m_return (Some (summarize_transfer t ev), None))))"

text \<open>A copy that was attempted before and is not settled: the destination is observed, nothing is sent.\<close>

definition refuse_unsettled_copy :: "imap_target \<Rightarrow> attempt_evidence \<Rightarrow> mail_result mail_io" where
  "refuse_unsettled_copy t prior = m_bind (observe_copy_destination (it_message_id t)) (\<lambda>r. m_fail (case r of
      Inl _ \<Rightarrow> copy_outcome_unknown_error prior
    | Inr ob \<Rightarrow>
        if dm_count ob = 0 then copy_outcome_unknown_error prior
        else if ev_destination_uid_validity (ae_evidence prior) \<noteq> 0
          \<and> ev_destination_uid_validity (ae_evidence prior) \<noteq> dm_validity ob then copy_outcome_unknown_error prior
        else copy_outcome_unknown_error (evidence_with_copy_destination prior ob)))"

definition transfer_copy :: "transfer_env \<Rightarrow> imap_target \<Rightarrow> string \<Rightarrow> mail_result mail_io" where
  "transfer_copy env t destination = (let key = copy_attempt_key t destination in
     m_bind (copy_attempt key) (\<lambda>prior. case prior of
       Some prior \<Rightarrow> refuse_unsettled_copy t prior
     | None \<Rightarrow> m_bind (dispatch_copy (te_guarded env) t destination key) (\<lambda>(ev, stopped, e).
         if stopped then m_return (None, e)
         else if is_uid_validity_changed e then
           m_bind (forget_copy_attempt key) (\<lambda>_. case te_again env of
             Inl e \<Rightarrow> m_fail (Mail_Target e)
           | Inr t \<Rightarrow> (let key = copy_attempt_key t destination in
               m_bind (dispatch_copy (te_guarded env) t destination key) (\<lambda>(ev, stopped, e).
                 if stopped then m_return (None, e) else finish_copy t destination key ev e)))
         else finish_copy t destination key ev e)))"

section \<open>Moves\<close>

definition run_move :: "imap_target \<Rightarrow> string \<Rightarrow> (mutation_evidence \<times> transfer_error option) mail_io" where
  "run_move t destination = on_server (move_message_locked (it_mailbox t) (it_uid t) (it_validity t) destination (it_message_id t))"

definition finish_move :: "transfer_request \<Rightarrow> imap_target \<Rightarrow> string \<Rightarrow> mutation_evidence \<Rightarrow> transfer_error option \<Rightarrow> mail_result mail_io" where
  "finish_move rq t destination ev e =
     (if e \<noteq> None \<and> ev_command ev = [] then m_return (None, map_option Mail_Operator e)
      else let id = mutation_operation_id ''MOVE'' ''move'' (it_user t) (it_mailbox t) (it_uid t) (it_validity t) destination;
             s = summarize_transfer t (operator_evidence id (it_user t) ev)
           in m_return (Some (if e = None then s\<lparr>sm_mailbox_ref := tq_destination rq\<rparr> else s), map_option Mail_Operator e))"

definition transfer_move :: "transfer_request \<Rightarrow> transfer_env \<Rightarrow> imap_target \<Rightarrow> string \<Rightarrow> mail_result mail_io" where
  "transfer_move rq env t destination = m_bind (run_move t destination) (\<lambda>(ev, e).
     if is_uid_validity_changed (map_option Mail_Operator e) then
       (case te_again env of
          Inl e \<Rightarrow> m_fail (Mail_Target e)
        | Inr t \<Rightarrow> m_bind (run_move t destination) (\<lambda>(ev, e). finish_move rq t destination ev e))
     else finish_move rq t destination ev e)"

definition reject_unconfirmed_draft :: "bool \<Rightarrow> string + bool \<Rightarrow> mail_error + unit" where
  "reject_unconfirmed_draft allowed in_drafts = (if allowed then Inr ()
     else bindR (wrapR Mail_Code in_drafts) (\<lambda>draft. guardR (\<not> draft) (Mail_Code ''draft_mutation_confirmation_required'')))"

text \<open>\<open>TransferMessage\<close>.\<close>

definition transfer_target ::
    "json_codec \<Rightarrow> normal_form \<Rightarrow> folding \<Rightarrow> transfer_request \<Rightarrow> transfer_env \<Rightarrow> mail_error + imap_target \<times> string" where
  "transfer_target js nfc ef rq env =
     bindR (if tq_copy rq then Inr () else reject_unconfirmed_draft (tq_allow_draft rq) (te_draft env)) (\<lambda>_.
     bindR (wrapR Mail_Target (te_target env)) (\<lambda>t.
     bindR (wrapR (\<lambda>_. Mail_Code ''invalid_reference'') (decode_mailbox js (tq_destination rq))) (\<lambda>d.
     bindR (guardR (mb_account_id d = it_account t) (Mail_Code ''imap_mutation_failed'')) (\<lambda>_.
     bindR (wrapR Mail_Code (te_mailboxes env)) (\<lambda>boxes.
     bindR (wrapR Mail_Path (resolve_mailbox_path_for_mutation nfc ef boxes (mb_path d))) (\<lambda>destination.
       Inr (t, destination)))))))"

definition transfer_message ::
    "json_codec \<Rightarrow> normal_form \<Rightarrow> folding \<Rightarrow> transfer_request \<Rightarrow> transfer_env \<Rightarrow> mail_result mail_io" where
  "transfer_message js nfc ef rq env = (case transfer_target js nfc ef rq env of
      Inl e \<Rightarrow> m_fail e
    | Inr (t, destination) \<Rightarrow> if tq_copy rq then transfer_copy env t destination else transfer_move rq env t destination)"

section \<open>Deletions\<close>

record delete_result =
  dr_deleted :: bool
  dr_truth :: attempt_evidence

definition run_delete :: "normal_form \<Rightarrow> folding \<Rightarrow> imap_target \<Rightarrow> (mutation_evidence option \<times> transfer_error option) mail_io" where
  "run_delete nfc ef t = on_server (delete_message nfc ef (it_mailbox t) (it_uid t) (it_validity t) (it_message_id t))"

text \<open>The evidence of a deletion is that of its move to the Trash; without one no result is returned.\<close>

definition finish_delete ::
    "imap_target \<Rightarrow> nat \<Rightarrow> mutation_evidence option \<Rightarrow> transfer_error option \<Rightarrow> (delete_result option \<times> mail_error option) mail_io" where
  "finish_delete t duplicates ev e = m_return (case ev of
      None \<Rightarrow> (None, map_option Mail_Operator e)
    | Some ev \<Rightarrow> (let id = mutation_operation_id ''MOVE'' ''move'' (it_user t) (it_mailbox t) (it_uid t) (it_validity t) (ev_target_mailbox ev)
        in (Some \<lparr>dr_deleted = (e = None), dr_truth = (operator_evidence id (it_user t) ev)
             \<lparr>ae_duplicates := duplicate_match_evidence duplicates\<rparr>\<rparr>, map_option Mail_Operator e)))"

definition delete_by_reference ::
    "normal_form \<Rightarrow> folding \<Rightarrow> bool \<Rightarrow> transfer_env \<Rightarrow> (delete_result option \<times> mail_error option) mail_io" where
  "delete_by_reference nfc ef allow_draft env =
     (case bindR (reject_unconfirmed_draft allow_draft (te_draft env)) (\<lambda>_. wrapR Mail_Target (te_target env)) of
        Inl e \<Rightarrow> m_return (None, Some e)
      | Inr t \<Rightarrow> m_bind (run_delete nfc ef t) (\<lambda>(ev, e).
          if is_uid_validity_changed (map_option Mail_Operator e) then
            (case bindR (wrapR Mail_Target (te_again env)) (\<lambda>t.
                 bindR (wrapR Mail_Target (reject_already_trashed ef (it_mailbox t) (it_trash t))) (\<lambda>_. Inr t)) of
               Inl e \<Rightarrow> m_return (None, Some e)
             | Inr t \<Rightarrow> m_bind (run_delete nfc ef t) (\<lambda>(ev, e). finish_delete t (it_duplicates t) ev e))
          else finish_delete t (it_duplicates t) ev e))"

end
