(* ===== verification/Imap_Transfer_Proofs.thy ===== *)
theory Imap_Transfer_Proofs
  imports Imap_Transfer
begin

text \<open>
  What a transfer guarantees whichever commands the server executes, refuses or leaves unanswered: a Hoare
  logic of the transfer monad, the frame of the reads, and the invariant that the message is never missing
  from both mailboxes. The facts that rest on what the server reports are those of a truthful one.
\<close>

section \<open>A logic of transfers\<close>

definition transfers :: "(transfer_world \<Rightarrow> bool) \<Rightarrow> 'a transfer \<Rightarrow> ('a \<Rightarrow> transfer_world \<Rightarrow> bool) \<Rightarrow> bool" where
  "transfers P m Q \<longleftrightarrow> (\<forall>w. P w \<longrightarrow> Q (fst (m w)) (snd (m w)))"

lemma transfersD: "transfers P m Q \<Longrightarrow> P w \<Longrightarrow> m w = (x, w') \<Longrightarrow> Q x w'"
  by (auto simp: transfers_def)

lemma transfers_return: "(\<And>w. P w \<Longrightarrow> Q x w) \<Longrightarrow> transfers P (t_return x) Q"
  by (simp add: transfers_def t_return_def)

lemma transfers_get: "(\<And>w. P w \<Longrightarrow> Q (f w) w) \<Longrightarrow> transfers P (t_get f) Q"
  by (simp add: transfers_def t_get_def)

lemma transfers_bind:
  "transfers P m R \<Longrightarrow> (\<And>x. transfers (R x) (f x) Q) \<Longrightarrow> transfers P (t_bind m f) Q"
  by (auto simp: transfers_def t_bind_def split: prod.splits)

lemma transfers_try:
  assumes "transfers P m R" "\<And>e. transfers (R (Inl e)) (h e) Q" "\<And>x. transfers (R (Inr x)) (k x) Q"
  shows "transfers P (t_try m h k) Q"
  unfolding t_try_def
proof (rule transfers_bind [OF assms(1)])
  show "transfers (R r) (case r of Inl e \<Rightarrow> h e | Inr x \<Rightarrow> k x) Q" for r using assms(2,3) by (cases r) auto
qed

lemma transfers_if:
  "(b \<Longrightarrow> transfers P m Q) \<Longrightarrow> (\<not> b \<Longrightarrow> transfers P m' Q) \<Longrightarrow> transfers P (if b then m else m') Q"
  by simp

lemma transfers_pre: "transfers P m Q \<Longrightarrow> (\<And>w. P' w \<Longrightarrow> P w) \<Longrightarrow> transfers P' m Q"
  by (simp add: transfers_def)

lemma transfers_post: "transfers P m Q \<Longrightarrow> (\<And>x w. Q x w \<Longrightarrow> Q' x w) \<Longrightarrow> transfers P m Q'"
  by (simp add: transfers_def)

section \<open>Reads\<close>

text \<open>A read leaves the server and the commands written as they are, and only consumes answers.\<close>

definition frame :: "transfer_world \<Rightarrow> transfer_world \<Rightarrow> bool" where
  "frame w w' \<longleftrightarrow> tw_copied w' = tw_copied w \<and> tw_source w' = tw_source w \<and> tw_writes w' = tw_writes w
     \<and> set (tw_answers w') \<subseteq> set (tw_answers w)"

lemma frame_refl [simp]: "frame w w" by (simp add: frame_def)

lemma frame_trans: "frame w w1 \<Longrightarrow> frame w1 w2 \<Longrightarrow> frame w w2" by (auto simp: frame_def)

definition reads :: "'a transfer \<Rightarrow> bool" where
  "reads m \<longleftrightarrow> (\<forall>w. frame w (snd (m w)))"

lemma readsD: "reads m \<Longrightarrow> m w = (x, w') \<Longrightarrow> frame w w'"
  by (metis reads_def snd_conv)

named_theorems read_intros

lemma reads_return [read_intros]: "reads (t_return x)" by (simp add: reads_def t_return_def)
lemma reads_get [read_intros]: "reads (t_get f)" by (simp add: reads_def t_get_def)

lemma reads_answer [read_intros]: "reads t_answer"
  by (auto simp: reads_def t_answer_def frame_def split: list.splits)

lemma reads_bind [read_intros]: "reads m \<Longrightarrow> (\<And>x. reads (f x)) \<Longrightarrow> reads (t_bind m f)"
  unfolding reads_def t_bind_def by (auto split: prod.splits intro: frame_trans)

lemma reads_try [read_intros]: "reads m \<Longrightarrow> (\<And>e. reads (h e)) \<Longrightarrow> (\<And>x. reads (k x)) \<Longrightarrow> reads (t_try m h k)"
  unfolding t_try_def by (rule reads_bind) (auto split: sum.splits)

lemma reads_if [read_intros]: "reads m \<Longrightarrow> reads m' \<Longrightarrow> reads (if b then m else m')" by simp

lemma reads_case_prod [read_intros]: "(\<And>a b. reads (f a b)) \<Longrightarrow> reads (case p of (a, b) \<Rightarrow> f a b)"
  by (cases p) simp

lemma reads_operations [read_intros]:
  "reads acquire_mutation" "reads select_fresh" "reads (fetch_observation f pm)" "reads (check_validity e v)" "reads search_deleted"
  unfolding acquire_mutation_def select_fresh_def fetch_observation_def check_validity_def search_deleted_def
  by (intro read_intros)+

lemma reads_find_destination [read_intros]: "reads (find_destination m)"
  unfolding find_destination_def by (cases "normalize_message_id m") (auto intro!: read_intros)

lemma reads_capability [read_intros]: "reads move_capability"
  by (auto simp: reads_def move_capability_def t_bind_def t_get_def t_return_def t_answer_def frame_def
      split: option.splits list.splits transfer_answer.splits)

lemma reads_source_absent [read_intros]: "reads (source_absent ev)"
  unfolding source_absent_def by (intro read_intros)

lemma reads_verify [read_intros]: "reads (verify_destination ev m v)"
  unfolding verify_destination_def by (intro read_intros)

lemma reads_guard [read_intros]: "reads (guard_destination ev m)"
  unfolding guard_destination_def by (intro read_intros)

text \<open>The answers that say of the server what is true: a COPYUID is reported only by a command that was
  executed, and a completed read reports the state of the server. A status may say anything, and any
  answer may be missing.\<close>

definition truthful_answer :: "transfer_answer \<Rightarrow> bool" where
  "truthful_answer a = (case a of
      Command_Run False (Replied _ _ codes) _ \<Rightarrow> filter is_copy_uid codes = []
    | Command_Run False (Lost codes) _ \<Rightarrow> filter is_copy_uid codes = []
    | Matched_Anyway _ _ _ \<Rightarrow> False
    | Flags_Anyway _ _ _ _ \<Rightarrow> False
    | Flag_Phase_Anyway _ _ _ _ \<Rightarrow> False
    | _ \<Rightarrow> True)"

definition truthful :: "transfer_world \<Rightarrow> bool" where
  "truthful w \<longleftrightarrow> list_all truthful_answer (tw_answers w)"

definition not_lost :: "transfer_world \<Rightarrow> bool" where
  "not_lost w \<longleftrightarrow> tw_copied w \<or> tw_source w = Source_Present"

lemma frame_inv [simp]:
  "frame w w' \<Longrightarrow> truthful w \<Longrightarrow> truthful w'" "frame w w' \<Longrightarrow> not_lost w \<Longrightarrow> not_lost w'"
  "frame w w' \<Longrightarrow> tw_writes w' = tw_writes w" "frame w w' \<Longrightarrow> tw_source w' = tw_source w" "frame w w' \<Longrightarrow> tw_copied w' = tw_copied w"
  by (auto simp: frame_def truthful_def not_lost_def list_all_iff)

text \<open>A read keeps every fact that is kept by frames, and adds what its result says.\<close>

definition framed :: "(transfer_world \<Rightarrow> bool) \<Rightarrow> bool" where
  "framed P \<longleftrightarrow> (\<forall>w w'. P w \<longrightarrow> frame w w' \<longrightarrow> P w')"

lemma transfers_read: "reads m \<Longrightarrow> framed P \<Longrightarrow> transfers P m (\<lambda>_. P)"
  unfolding reads_def framed_def transfers_def by blast

lemma transfers_read_result:
  "reads m \<Longrightarrow> framed P \<Longrightarrow> transfers P m Q \<Longrightarrow> transfers P m (\<lambda>x w. P w \<and> Q x w)"
  unfolding reads_def framed_def transfers_def by blast

lemma transfers_split: "(\<And>a b. p = (a, b) \<Longrightarrow> transfers P (f a b) Q) \<Longrightarrow> transfers P (case p of (a, b) \<Rightarrow> f a b) Q"
  by (cases p) simp

text \<open>What the reads of a truthful server say.\<close>

lemma read_truthful: "reads m \<Longrightarrow> transfers truthful m (\<lambda>_. truthful)"
  by (rule transfers_read) (auto simp: framed_def)

lemma fetch_truthful:
  "transfers truthful (fetch_observation present pm)
     (\<lambda>r w. \<forall>ob pm. r = Inr (ob, pm) \<longrightarrow> ob_seen_uid ob = present w \<and> \<not> ob_missing ob)"
  by (auto simp: transfers_def fetch_observation_def t_bind_def t_get_def t_return_def t_answer_def empty_observation_def
      truthful_def truthful_answer_def split: prod.splits list.splits transfer_answer.splits if_splits)

lemma find_truthful: "transfers truthful (find_destination m) (\<lambda>r w. \<forall>found. r = Inr found \<longrightarrow> 0 < dm_count found \<longrightarrow> tw_copied w)"
  by (auto simp: transfers_def find_destination_def t_bind_def t_get_def t_return_def t_answer_def
      truthful_def truthful_answer_def split: prod.splits list.splits transfer_answer.splits if_splits option.splits)

lemma source_absent_truthful: "transfers truthful (source_absent ev) (\<lambda>r w. r = Inr () \<longrightarrow> tw_source w = Source_Gone)"
  (is "transfers _ _ ?Q")
proof -
  have fail: "transfers R (t_return (Inl e)) ?Q" for R and e :: transfer_error by (rule transfers_return) simp
  show ?thesis
    unfolding source_absent_def
    apply (rule transfers_try [OF read_truthful fail], intro read_intros)
    apply (rule transfers_split)
    apply (rule transfers_try [OF read_truthful fail], intro read_intros)
    apply (rule transfers_try [OF fetch_truthful fail])
    apply (rule transfers_split)
    apply (rule transfers_return, auto)
    done
qed

definition same_progress :: "mutation_evidence \<Rightarrow> mutation_evidence \<Rightarrow> bool" where
  "same_progress ev ev' \<longleftrightarrow> ev_outcome ev' = ev_outcome ev \<and> ev_completed_effects ev' = ev_completed_effects ev
     \<and> ev_command ev' = ev_command ev"

lemma verify_truthful:
  "transfers truthful (verify_destination ev m v) (\<lambda>r w. \<forall>ev'. r = Inr ev' \<longrightarrow> tw_copied w \<and> same_progress ev ev')"
  (is "transfers _ _ ?Q")
proof -
  have fail: "transfers R (t_return (Inl e)) ?Q" for R and e :: transfer_error by (rule transfers_return) simp
  show ?thesis
    unfolding verify_destination_def
    apply (rule transfers_try [OF read_truthful fail], intro read_intros)
    apply (rule transfers_split)
    apply (rule transfers_if)
     apply (rule transfers_if, rule fail)
     apply (rule transfers_try [OF read_truthful fail], intro read_intros)
     apply (rule transfers_try [OF fetch_truthful fail])
     apply (rule transfers_split)
     apply (rule transfers_return, auto simp: same_progress_def) []
    apply (rule transfers_if, rule fail)
    apply (rule transfers_try [OF read_truthful fail], intro read_intros)
    apply (rule transfers_try [OF read_truthful fail], intro read_intros)
    apply (rule transfers_if, rule fail)
    apply (rule transfers_try [OF read_truthful fail], intro read_intros)
    apply (rule transfers_split)
    apply (rule transfers_try [OF read_truthful fail], intro read_intros)
    apply (rule transfers_try [OF fetch_truthful fail])
    apply (rule transfers_split)
    apply (rule transfers_return, auto simp: same_progress_def) []
    done
qed

section \<open>Commands\<close>

lemma command_copy:
  "transfers (\<lambda>w. truthful w \<and> not_lost w \<and> tw_writes w = [] \<and> tw_source w \<noteq> Source_Gone) (transfer_command Wrote_Copy)
     (\<lambda>r w. truthful w \<and> not_lost w \<and> tw_writes w = (if tr_dispatched r then [Wrote_Copy] else [])
        \<and> (filter is_copy_uid (tr_codes r) \<noteq> [] \<longrightarrow> tw_copied w) \<and> (\<not> tr_dispatched r \<longrightarrow> tr_status r = [] \<and> tr_failed r))"
  by (auto simp: transfers_def transfer_command_def write_command_def t_bind_def t_answer_def t_return_def execute_write_def
      truthful_def truthful_answer_def not_lost_def Let_def split: prod.splits list.splits transfer_answer.splits command_reply.splits if_splits)

lemma command_move:
  "transfers (\<lambda>w. truthful w \<and> not_lost w \<and> tw_writes w = []) (transfer_command Wrote_Move)
     (\<lambda>r w. truthful w \<and> not_lost w \<and> tw_writes w = (if tr_dispatched r then [Wrote_Move] else [])
        \<and> (\<not> tr_dispatched r \<longrightarrow> tr_status r = [] \<and> tr_failed r))"
  by (auto simp: transfers_def transfer_command_def write_command_def t_bind_def t_answer_def t_return_def execute_write_def
      truthful_def truthful_answer_def not_lost_def Let_def split: prod.splits list.splits transfer_answer.splits command_reply.splits if_splits)

section \<open>The shape of a move\<close>

definition move_writes :: "transfer_write list list" where
  "move_writes = [[], [Wrote_Move], [Wrote_Copy], [Wrote_Copy, Wrote_Expunge], [Wrote_Copy, Wrote_Store],
     [Wrote_Copy, Wrote_Store, Wrote_Expunge]]"

definition settled :: "transfer_outcome \<Rightarrow> transfer_world \<Rightarrow> bool" where
  "settled r w \<longleftrightarrow> not_lost w \<and> tw_writes w \<in> set move_writes \<and> (ev_outcome (fst r) = NotStarted \<longrightarrow> tw_writes w = [])
     \<and> (snd r = None \<longrightarrow> ev_outcome (fst r) = Completed \<and> tw_copied w \<and> tw_source w \<noteq> Source_Present)
     \<and> (snd r = None \<or> snd r = Some Move_Unknown \<or> ev_outcome (fst r) = NotStarted
          \<or> ev_outcome (fst r) = Rejected \<and> snd r = Some io_failed)
     \<and> (tw_writes w = [] \<longrightarrow> truthful w)"

lemma apply_copy_uid_same:
  "apply_copy_uid ev codes u = (b, ev') \<Longrightarrow> same_progress ev ev' \<and> (ev_copy_uid_validity ev = 0 \<longrightarrow> ev_copy_uid_validity ev' \<noteq> 0
     \<longrightarrow> filter is_copy_uid codes \<noteq> [])"
  by (auto simp: apply_copy_uid_def same_progress_def Let_def split: list.splits option.splits prod.splits)

lemma append_effect_simps [simp]:
  "ev_outcome (append_effect x ev) = ev_outcome ev" "ev_command (append_effect x ev) = ev_command ev"
  "ev_completed_effects (append_effect x ev) \<noteq> []" "ev_copy_uid_validity (append_effect x ev) = ev_copy_uid_validity ev"
  by (auto simp: append_effect_def)

lemma framedI: "(\<And>w w'. P w \<Longrightarrow> frame w w' \<Longrightarrow> P w') \<Longrightarrow> framed P"
  by (simp add: framed_def)

text \<open>Facts about the server, as reads keep them.\<close>

definition moved_state :: "transfer_write list \<Rightarrow> bool \<Rightarrow> bool \<Rightarrow> transfer_world \<Rightarrow> bool" where
  "moved_state ws copied gone w \<longleftrightarrow> truthful w \<and> not_lost w \<and> tw_writes w = ws \<and> (copied \<longrightarrow> tw_copied w)
     \<and> (gone \<longrightarrow> tw_source w = Source_Gone)"

lemma framed_moved [simp]: "framed (moved_state ws c g)"
  by (rule framedI) (auto simp: moved_state_def)

lemma read_moved:
  "reads m \<Longrightarrow> transfers (moved_state ws c g) m (\<lambda>_. moved_state ws c g)"
  by (rule transfers_read) simp_all

lemma moved_truthful: "transfers truthful m Q \<Longrightarrow> transfers (moved_state ws c g) m Q"
  by (erule transfers_pre) (simp add: moved_state_def)

lemma absent_moved:
  "transfers (moved_state ws c g) (source_absent ev) (\<lambda>r. moved_state ws c (g \<or> r = Inr ()))"
  using transfers_read_result [OF reads_source_absent framed_moved moved_truthful [OF source_absent_truthful], of ws c g]
  by (rule transfers_post) (auto simp: moved_state_def)

lemma verified_moved:
  "transfers (moved_state ws c g) (verify_destination ev m v)
     (\<lambda>r w. moved_state ws (c \<or> \<not> isl r) g w \<and> (\<forall>ev'. r = Inr ev' \<longrightarrow> same_progress ev ev'))"
  using transfers_read_result [OF reads_verify framed_moved moved_truthful [OF verify_truthful], of ws c g]
proof (rule transfers_post)
  show "moved_state ws (c \<or> \<not> isl r) g w \<and> (\<forall>ev'. r = Inr ev' \<longrightarrow> same_progress ev ev')"
    if "moved_state ws c g w \<and> (\<forall>ev'. r = Inr ev' \<longrightarrow> tw_copied w \<and> same_progress ev ev')" for r w
    using that by (cases r) (auto simp: moved_state_def)
qed

lemma transfers_case_bool:
  "(b \<Longrightarrow> transfers P x Q) \<Longrightarrow> (\<not> b \<Longrightarrow> transfers P y Q) \<Longrightarrow> transfers P (case b of True \<Rightarrow> x | False \<Rightarrow> y) Q"
  by (cases b) simp_all

lemma transfers_native_move:
  assumes "ev_command ev = ''MOVE''" "ev_completed_effects ev = []"
  shows "transfers (moved_state [] False False) (native_move ev m v) settled"
proof -
  have unknown: "transfers (moved_state [Wrote_Move] c g) (t_return (ev', Some Move_Unknown)) settled" if "ev_outcome ev' \<noteq> NotStarted" for ev' c g
    by (rule transfers_return) (use that in \<open>auto simp: settled_def moved_state_def move_writes_def\<close>)
  have move: "transfers (moved_state [] False False) (transfer_command Wrote_Move)
     (\<lambda>r w. moved_state (if tr_dispatched r then [Wrote_Move] else []) False False w \<and> (\<not> tr_dispatched r \<longrightarrow> tr_status r = []))"
    by (rule transfers_post [OF transfers_pre [OF command_move]]) (auto simp: moved_state_def)
  have outcome: "ev_outcome e'' = Unknown" if "apply_copy_uid e cs u = (b, e'')" "ev_outcome e = Unknown" for e cs u b e''
    using apply_copy_uid_same [OF that(1)] that(2) by (simp add: same_progress_def)
  show ?thesis
    unfolding native_move_def Let_def
    apply (rule transfers_bind [OF move])
    apply (rule transfers_if)
     apply (rule transfers_return)
     apply (simp add: settled_def moved_state_def transfer_command_error_def move_writes_def)
    apply (rule transfers_pre [of "moved_state [Wrote_Move] False False", rotated], simp)
    apply (rule transfers_split)
    apply (drule outcome, simp)
    apply (rule transfers_case_bool)
     apply (rule transfers_bind [OF read_moved [OF reads_get]])
     apply (rule transfers_if, rule unknown, simp)
     apply (rule transfers_bind [OF absent_moved])
     apply (rule transfers_bind [OF read_moved [OF reads_get]])
     apply (rule transfers_if, rule unknown, simp)
     apply (rule transfers_bind [OF verified_moved])
     apply (rule transfers_return)
     subgoal for r b e d1 removed d2 verified w
       by (cases verified) (simp_all add: settled_def moved_state_def move_writes_def same_progress_def not_lost_def)
    apply (rule unknown, simp)
    done
qed

section \<open>The fallback\<close>

definition removing :: "transfer_write list list \<Rightarrow> transfer_world \<Rightarrow> bool" where
  "removing wss w \<longleftrightarrow> tw_copied w \<and> tw_source w \<noteq> Source_Present \<and> tw_writes w \<in> set wss"

lemma framed_removing [simp]: "framed (removing wss)"
  by (rule framedI) (auto simp: removing_def)

lemma read_removing: "reads m \<Longrightarrow> transfers (removing wss) m (\<lambda>_. removing wss)"
  by (rule transfers_read) simp_all

abbreviation flagged_writes :: "transfer_write list list" where
  "flagged_writes \<equiv> [[Wrote_Copy], [Wrote_Copy, Wrote_Store]]"

abbreviation removal_writes :: "transfer_write list list" where
  "removal_writes \<equiv> [[Wrote_Copy], [Wrote_Copy, Wrote_Store], [Wrote_Copy, Wrote_Expunge], [Wrote_Copy, Wrote_Store, Wrote_Expunge]]"

lemma transfers_expunge_command:
  "transfers (removing flagged_writes) (write_command Wrote_Expunge) (\<lambda>_. removing removal_writes)"
  by (auto simp: transfers_def write_command_def t_bind_def t_answer_def execute_write_def removing_def Let_def
      split: prod.splits list.splits transfer_answer.splits if_splits)

lemma removing_settled:
  assumes "removing removal_writes w" "e = Some Move_Unknown \<and> ev_outcome ev \<noteq> NotStarted \<or> e = None \<and> ev_outcome ev = Completed"
  shows "settled (ev, e) w"
  using assms by (auto simp: settled_def removing_def not_lost_def move_writes_def)

lemma transfers_expunge_source: "transfers (removing flagged_writes) (expunge_source ev) settled"
proof -
  have stop: "transfers (removing removal_writes) (t_return (ev', e)) settled"
    if "e = Some Move_Unknown \<and> ev_outcome ev' \<noteq> NotStarted \<or> e = None \<and> ev_outcome ev' = Completed" for ev' e
    by (rule transfers_return, rule removing_settled) (use that in simp_all)
  show ?thesis
    unfolding expunge_source_def Let_def
    apply (rule transfers_bind [OF transfers_expunge_command])
    apply (rule transfers_if)
     apply (rule transfers_try [OF read_removing [OF reads_source_absent]])
      apply (rule stop, simp)
     apply (rule stop, simp)
    apply (rule transfers_if)
     apply (rule stop, simp)
    apply (rule transfers_try [OF read_removing])
      apply (intro read_intros)
     apply (rule stop, simp)
    apply (rule stop, simp)
    done
qed

lemma transfers_flag_deleted:
  "transfers (moved_state [Wrote_Copy] True False) (flag_deleted ev)
     (\<lambda>r w. tw_copied w \<and> tw_writes w \<in> set flagged_writes \<and> (snd r = None \<longrightarrow> tw_source w \<noteq> Source_Present))"
  by (auto simp: transfers_def flag_deleted_def t_bind_def t_answer_def execute_write_def moved_state_def Let_def
      truthful_def truthful_answer_def split: prod.splits list.splits transfer_answer.splits if_splits)

lemma transfers_remove_copied: "transfers (moved_state [Wrote_Copy] True False) (remove_copied_source ev) settled"
proof -
  have unknown: "transfers (moved_state [Wrote_Copy] True False) (t_return (ev\<lparr>ev_outcome := Partial\<rparr>, Some Move_Unknown)) settled"
    by (rule transfers_return) (auto simp: settled_def moved_state_def move_writes_def)
  show ?thesis
    unfolding remove_copied_source_def Let_def
    apply (rule transfers_try [OF read_moved])
      apply (intro read_intros)
     apply (rule unknown)
    apply (rule transfers_split)
    apply (rule transfers_try [OF read_moved])
      apply (intro read_intros)
     apply (rule unknown)
    apply (rule transfers_bind [OF transfers_flag_deleted])
    apply (rule transfers_split)
    apply (rule transfers_if)
     apply (rule transfers_return)
     apply (auto simp: settled_def not_lost_def move_writes_def) []
    apply (rule transfers_pre [OF transfers_expunge_source])
    apply (auto simp: removing_def) []
    done
qed

lemma transfers_fallback_move:
  assumes "ev_command ev = ''MOVE''" "ev_completed_effects ev = []" "ev_outcome ev = NotStarted" "ev_copy_uid_validity ev = 0"
  shows "transfers (\<lambda>w. moved_state [] False False w \<and> tw_source w \<noteq> Source_Gone) (fallback_move ev pm m v) settled"
proof -
  let ?P = "moved_state [Wrote_Copy] False False"
  have copy: "transfers (\<lambda>w. moved_state [] False False w \<and> tw_source w \<noteq> Source_Gone) (transfer_command Wrote_Copy)
     (\<lambda>r w. moved_state (if tr_dispatched r then [Wrote_Copy] else []) (filter is_copy_uid (tr_codes r) \<noteq> []) False w
       \<and> (\<not> tr_dispatched r \<longrightarrow> tr_status r = [] \<and> tr_failed r))"
    by (rule transfers_post [OF transfers_pre [OF command_copy]]) (auto simp: moved_state_def)
  have unknown: "transfers (moved_state [Wrote_Copy] c g) (t_return (ev', Some Move_Unknown)) settled" if "ev_outcome ev' \<noteq> NotStarted" for ev' c g
    by (rule transfers_return) (use that in \<open>auto simp: settled_def moved_state_def move_writes_def\<close>)
  have apply_uid: "(if tr_dispatched r then apply_copy_uid (ev\<lparr>ev_server_response := x\<rparr>) (tr_codes r) u else (True, ev\<lparr>ev_server_response := x\<rparr>)) = (b, ev')
      \<Longrightarrow> ev_command ev' = ''MOVE'' \<and> ev_completed_effects ev' = [] \<and> ev_outcome ev' = NotStarted
        \<and> (ev_copy_uid_validity ev' \<noteq> 0 \<longrightarrow> filter is_copy_uid (tr_codes r) \<noteq> []) \<and> (\<not> b \<longrightarrow> tr_dispatched r)" for r x u b ev'
    using assms by (auto simp: same_progress_def split: if_splits dest!: apply_copy_uid_same)
  have failed: "settled (if ev_completed_effects e \<noteq> [] then (e\<lparr>ev_outcome := Partial\<rparr>, Some Move_Unknown) else transfer_command_error e r) w"
    if "ev_command e = ''MOVE''" "ev_outcome e = NotStarted" "moved_state (if tr_dispatched r then [Wrote_Copy] else []) c False w"
      "\<not> tr_dispatched r \<longrightarrow> tr_status r = []" "\<not> tr_dispatched r \<longrightarrow> ev_completed_effects e = []" for e r w c
    using that by (cases "tr_dispatched r") (simp_all add: settled_def moved_state_def move_writes_def transfer_command_error_def
        outcome_unknown_for_def Let_def)
  show ?thesis
    unfolding fallback_move_def Let_def
    apply (rule transfers_if)
     apply (rule transfers_return)
     apply (use assms in \<open>simp add: settled_def moved_state_def move_writes_def\<close>) []
    apply (rule transfers_bind [OF copy])
    apply (rule transfers_split)
    subgoal for r b ev'
      apply (rule transfers_case_bool)
       apply (rule transfers_if)
        apply (rule transfers_return)
        apply (drule apply_uid)
        apply (rule failed)
            apply (simp; fail)
           apply (simp; fail)
          apply (elim conjE, assumption)
         apply (simp; fail)
        apply (simp; fail)
       apply (rule transfers_try [where R = "\<lambda>x. moved_state [Wrote_Copy] (\<not> isl x) False"])
         apply (drule apply_uid)
         apply (rule transfers_if)
          apply (rule transfers_pre [where P = "moved_state [Wrote_Copy] True False"])
           apply (rule transfers_try [OF read_moved])
             apply (intro read_intros)
            apply (rule transfers_return, simp add: moved_state_def)
           apply (rule transfers_return, simp)
          apply (auto simp: moved_state_def split: if_splits) []
         apply (rule transfers_pre [OF transfers_post [OF verified_moved [of "[Wrote_Copy]" False False]]])
          apply simp
         apply (auto simp: moved_state_def) []
        apply (rule unknown, simp)
       apply (rule transfers_pre [OF transfers_remove_copied], simp)
      apply (drule apply_uid)
      apply (rule transfers_pre, rule unknown, simp)
      apply (elim conjE, simp)
      done
    done
qed

section \<open>Moves and deletions\<close>

text \<open>Before a command is written.\<close>

abbreviation untouched :: "transfer_world \<Rightarrow> bool" where
  "untouched \<equiv> moved_state [] False False"

lemma untouched_settled:
  "untouched w \<Longrightarrow> ev_outcome ev = NotStarted \<Longrightarrow> settled (ev, Some e) w"
  by (auto simp: settled_def moved_state_def move_writes_def)

lemma read_untouched: "reads m \<Longrightarrow> transfers untouched m (\<lambda>_. untouched)"
  by (rule transfers_read) simp_all

lemma guard_outcome:
  "transfers untouched (guard_destination ev m) (\<lambda>r w. untouched w \<and> (\<forall>o'. r = Inl o' \<longrightarrow> (\<exists>e. snd o' = Some e) \<and> ev_outcome (fst o') = ev_outcome ev))"
proof (rule transfers_read_result [OF reads_guard framed_moved])
  show "transfers untouched (guard_destination ev m) (\<lambda>r w. \<forall>o'. r = Inl o' \<longrightarrow> (\<exists>e. snd o' = Some e) \<and> ev_outcome (fst o') = ev_outcome ev)"
    by (auto simp: transfers_def guard_destination_def t_try_def t_bind_def t_return_def
        split: prod.splits sum.splits if_splits)
qed

lemma start_evidence_simps [simp]:
  "ev_outcome (start_evidence c s u x t) = NotStarted" "ev_command (start_evidence c s u x t) = c"
  "ev_completed_effects (start_evidence c s u x t) = []" "ev_copy_uid_validity (start_evidence c s u x t) = 0"
  by (simp_all add: start_evidence_def)

lemma with_flag_observation_keeps [simp]:
  "ev_outcome (with_flag_observation ev ob) = ev_outcome ev" "ev_command (with_flag_observation ev ob) = ev_command ev"
  "ev_completed_effects (with_flag_observation ev ob) = ev_completed_effects ev"
  "ev_copy_uid_validity (with_flag_observation ev ob) = ev_copy_uid_validity ev"
  by (simp_all add: with_flag_observation_def)

lemma transfers_move_message: "transfers untouched (move_message source uid expected target m) settled"
proof -
  have stop: "transfers untouched (t_return (ev', Some e)) settled" if "ev_outcome ev' = NotStarted" for ev' e
    by (rule transfers_return) (rule untouched_settled [OF _ that])
  have seen: "transfers untouched (fetch_observation (\<lambda>w. tw_source w \<noteq> Source_Gone) pm)
     (\<lambda>r w. untouched w \<and> (\<forall>ob pm. r = Inr (ob, pm) \<longrightarrow> ob_seen_uid ob = (tw_source w \<noteq> Source_Gone) \<and> \<not> ob_missing ob))" for pm
    by (rule transfers_read_result [OF _ framed_moved moved_truthful [OF fetch_truthful]]) (intro read_intros)
  show ?thesis
    unfolding move_message_def Let_def
    apply (rule transfers_if, rule stop, simp)
    apply (rule transfers_if, rule stop, simp)
    apply (rule transfers_if, rule stop, simp)
    apply (rule transfers_try [OF read_untouched [OF reads_capability]], rule stop, simp)
    apply (rule transfers_if, rule stop, simp)
    apply (rule transfers_bind [OF guard_outcome])
    subgoal for native guarded
    proof (cases guarded)
      case (Inl r)
      then show ?thesis by (cases r) (auto intro!: transfers_return untouched_settled)
    next
      case (Inr v)
      show ?thesis
        unfolding Inr sum.case
        apply (rule transfers_pre [of untouched, rotated], simp)
        apply (rule transfers_try [OF read_untouched], intro read_intros, rule stop, simp)
        apply (rule transfers_split)
        apply (rule transfers_try [OF read_untouched], intro read_intros, rule stop, simp)
        apply (rule transfers_try [OF seen])
         apply (rule transfers_pre [OF stop], simp, simp)
        apply (rule transfers_split)
        apply (rule transfers_if, rule transfers_pre [OF stop], simp, simp)
        apply (rule transfers_if, rule transfers_pre [OF stop], simp, simp)
        apply (rule transfers_if)
         apply (rule transfers_pre [OF transfers_native_move])
           apply simp
          apply simp
         apply simp
        apply (rule transfers_pre [OF transfers_fallback_move])
            apply (simp_all)
        apply (auto simp: with_flag_observation_def split: if_splits)
        done
    qed
    done
qed

lemma transfers_move_locked: "transfers untouched (move_message_locked source uid expected target m) settled"
proof -
  have stop: "transfers untouched (t_return (start_evidence ''MOVE'' source uid expected target, Some e)) settled" for e
    by (rule transfers_return, rule untouched_settled) (simp_all add: start_evidence_def)
  show ?thesis
    unfolding move_message_locked_def Let_def
    apply (rule transfers_if, rule stop)
    apply (rule transfers_try [OF read_untouched], intro read_intros, rule stop)
    apply (rule transfers_move_message)
    done
qed

lemma transfers_delete_message:
  "transfers untouched (delete_message nfc ef source uid expected m)
     (\<lambda>r w. not_lost w \<and> (snd r = None \<longrightarrow> tw_copied w \<and> tw_source w \<noteq> Source_Present) \<and> tw_writes w \<in> set move_writes
        \<and> (tw_writes w = [] \<longrightarrow> truthful w) \<and> (\<forall>c. snd r = Some (Transfer_Failed c) \<longrightarrow> tw_writes w = [] \<or> Some (Transfer_Failed c) = Some io_failed))"
  (is "transfers _ _ ?Q")
proof -
  have stop: "transfers untouched (t_return (None, Some e)) ?Q" for e
    by (rule transfers_return) (simp add: moved_state_def move_writes_def)
  show ?thesis
    unfolding delete_message_def Let_def
    apply (rule transfers_if, rule stop)
    apply (rule transfers_try [OF read_untouched], intro read_intros, rule stop)
    apply (rule transfers_bind [OF read_untouched [OF reads_answer]])
    subgoal for u a
    proof (cases "case a of Listed ms \<Rightarrow> Inr ms | Proceed \<Rightarrow> Inr [] | _ \<Rightarrow> Inl io_failed")
      case (Inl e)
      then show ?thesis using stop by (simp only: sum.case)
    next
      case (Inr ms)
      show ?thesis
        unfolding Inr sum.case
      proof (cases "resolve_trash_mailbox nfc ef ms")
        case (Inr trash)
        have "transfers untouched (t_bind (move_message source uid expected trash m)
            (\<lambda>(ev, e). t_return (Some (if e = None then ev\<lparr>ev_command := ''DELETE''\<rparr> else ev), e))) ?Q"
          by (rule transfers_bind [OF transfers_move_message], rule transfers_split, rule transfers_return) (auto simp: settled_def)
        then show "transfers untouched (case resolve_trash_mailbox nfc ef ms of
              Inl x \<Rightarrow> t_return (None, Some (Transfer_Failed mailbox_not_found))
            | Inr trash \<Rightarrow> if ef source trash then t_return (None, Some (Transfer_Failed ''message_already_trashed''))
                else t_bind (move_message source uid expected trash m)
                  (\<lambda>(ev, e). t_return (Some (if e = None then ev\<lparr>ev_command := ''DELETE''\<rparr> else ev), e))) ?Q"
          unfolding Inr sum.case by (rule transfers_if [OF stop])
      qed (use stop in \<open>simp only: sum.case\<close>)
    qed
    done
qed

lemma untouchedI: "truthful w \<Longrightarrow> tw_writes w = [] \<Longrightarrow> tw_source w = Source_Present \<Longrightarrow> untouched w"
  by (simp add: moved_state_def not_lost_def)

text \<open>C2. A move or a deletion never loses the message: whichever commands the server executes, refuses or
  leaves unanswered, and with whatever status it replies, the message is in its source mailbox or in the
  destination, provided that the server reports a COPYUID only for a command it executed and that a
  SEARCH, FETCH or flag verification that completes reports the state of the server.\<close>

theorem message_never_lost:
  assumes "truthful w" "tw_writes w = []" "tw_source w = Source_Present"
  shows "not_lost (snd (move_message_locked source uid expected target m w))
    \<and> not_lost (snd (delete_message nfc ef source uid expected m w))"
  using transfers_move_locked [unfolded transfers_def] transfers_delete_message [unfolded transfers_def] untouchedI [OF assms]
  unfolding settled_def by blast

text \<open>C12. On a truthful server a move writes at most one transfer command, flags the source only after a COPY
  and expunges it only after that, with nothing written when the evidence says the mutation was not started; any error but an
  unknown outcome means that it was not started or that the server refused the transfer.\<close>

theorem move_dispatch:
  assumes "truthful w" "tw_writes w = []" "tw_source w = Source_Present"
    "move_message_locked source uid expected target m w = ((ev, e), w')"
  shows "tw_writes w' \<in> set move_writes \<and> (ev_outcome ev = NotStarted \<longrightarrow> tw_writes w' = [])
    \<and> (e = None \<or> e = Some Move_Unknown \<or> ev_outcome ev = NotStarted \<or> ev_outcome ev = Rejected)"
  using transfersD [OF transfers_move_locked untouchedI [OF assms(1-3)] assms(4)] by (auto simp: settled_def)

text \<open>C22. On a truthful server a move that returns no error is complete: the destination has the message, and the source was
  removed or flagged as deleted.\<close>

theorem completed_move_is_effective:
  assumes "truthful w" "tw_writes w = []" "tw_source w = Source_Present"
    "move_message_locked source uid expected target m w = ((ev, None), w')"
  shows "ev_outcome ev = Completed \<and> tw_copied w' \<and> tw_source w' \<noteq> Source_Present"
  using transfersD [OF transfers_move_locked untouchedI [OF assms(1-3)] assms(4)] by (simp add: settled_def)

section \<open>Copies\<close>

lemma transfers_if_split:
  "(b \<Longrightarrow> transfers P x Q) \<Longrightarrow> (\<not> b \<Longrightarrow> transfers P y Q) \<Longrightarrow> transfers P (if b then x else y) Q"
  by simp

lemma transfers_case_sum:
  "(\<And>e. transfers P (f e) Q) \<Longrightarrow> (\<And>x. transfers P (g x) Q) \<Longrightarrow> transfers P (case r of Inl e \<Rightarrow> f e | Inr x \<Rightarrow> g x) Q"
  by (cases r) simp_all

text \<open>The outcome of a copy against what was written.\<close>

definition copy_outcome :: "transfer_outcome \<times> destination_match \<Rightarrow> transfer_world \<Rightarrow> bool" where
  "copy_outcome r w \<longleftrightarrow> (case r of ((ev, e), found) \<Rightarrow>
     tw_writes w \<in> {[], [Wrote_Copy]} \<and> (0 < dm_count found \<or> ev_outcome ev = NotStarted \<longrightarrow> tw_writes w = [])
     \<and> ev_outcome ev \<in> {NotStarted, Rejected, Unknown, Completed} \<and> (e = None \<and> dm_count found = 0 \<longrightarrow> ev_outcome ev = Completed)
     \<and> (ev_outcome ev = Completed \<longrightarrow> e = None)
     \<and> (e \<noteq> None \<longrightarrow> e = Some Copy_Unknown \<and> ev_outcome ev = Unknown \<or> ev_outcome ev = NotStarted \<or> ev_outcome ev = Rejected \<and> e = Some io_failed))"

lemma transfers_copy:
  "transfers (\<lambda>w. tw_writes w = [] \<and> tw_source w = src \<and> (tr \<longrightarrow> truthful w)) (copy_message source uid expected target guard)
     (\<lambda>r w. copy_outcome r w \<and> tw_source w = src \<and> (tr \<longrightarrow> truthful w))"
  (is "transfers ?P _ ?Q")
proof -
  have framed: "framed ?P" by (rule framedI) simp
  have stop: "transfers ?P (t_return ((ev, e), found)) ?Q" if "ev_outcome ev = NotStarted" "e \<noteq> None \<or> 0 < dm_count found" for ev e found
    by (rule transfers_return) (use that in \<open>auto simp: copy_outcome_def\<close>)
  have copy: "transfers ?P (transfer_command Wrote_Copy)
     (\<lambda>r w. (tw_source w = src \<and> (tr \<longrightarrow> truthful w)) \<and> tw_writes w = (if tr_dispatched r then [Wrote_Copy] else [])
        \<and> (\<not> tr_dispatched r \<longrightarrow> tr_failed r))"
    by (auto simp: transfers_def transfer_command_def write_command_def t_bind_def t_answer_def t_return_def execute_write_def truthful_def Let_def
        split: prod.splits list.splits transfer_answer.splits command_reply.splits)
  have read: "transfers ?P m (\<lambda>_. ?P)" if "reads m" for m :: "'x transfer" by (rule transfers_read [OF that framed])
  have found: "transfers ?P (if guard = [] then t_return (Inr \<lparr>dm_uid = 0, dm_validity = 0, dm_count = 0\<rparr>) else find_destination guard) (\<lambda>_. ?P)"
    by (rule read) (intro read_intros)
  show ?thesis
    unfolding copy_message_def Let_def
    apply (rule transfers_if, rule stop, simp, simp)
    apply (rule transfers_try [OF read], intro read_intros, rule stop, simp, simp)
    apply (rule transfers_try [OF found], rule stop, simp, simp)
    apply (rule transfers_if_split)
     apply (rule stop, simp, simp)
    apply (rule transfers_try [OF read], intro read_intros, rule stop, simp, simp)
    apply (rule transfers_split)
    apply (rule transfers_try [OF read], intro read_intros, rule stop, simp, simp)
    apply (rule transfers_case_sum, rule stop, simp, simp)
    apply (rule transfers_bind [OF copy])
    apply (rule transfers_if)
     apply (rule transfers_return)
     apply (auto simp: copy_outcome_def transfer_command_error_def outcome_unknown_for_def Let_def) []
    apply (rule transfers_split)
    apply (rule transfers_case_bool; rule transfers_return; auto simp: copy_outcome_def split: if_splits)
    done
qed

text \<open>A copy writes at most one COPY, and none when the guarded destination already holds the message or
  when the evidence says that it was not started.\<close>

theorem copy_dispatch:
  assumes "tw_writes w = []" "copy_message source uid expected target guard w = (((ev, e), found), w')"
  shows "tw_writes w' \<in> {[], [Wrote_Copy]} \<and> (0 < dm_count found \<or> ev_outcome ev = NotStarted \<longrightarrow> tw_writes w' = [])"
  using transfersD [OF transfers_copy _ assms(2), of "tw_source w" False] assms(1) by (simp add: copy_outcome_def)

section \<open>Examples\<close>

definition example_transfer :: "bool \<Rightarrow> transfer_answer list \<Rightarrow> transfer_world" where
  "example_transfer native as = \<lparr>tw_copied = False, tw_source = Source_Present, tw_writes = [], tw_dirty = False,
     tw_move = Some native, tw_answers = as\<rparr>"

lemma example_id: "normalize_message_id ''<a@b>'' \<noteq> None"
  by (simp add: normalize_message_id_def trim_space_printable has_prefix_def has_suffix_def runes_ascii is_ascii_def
      is_control_rune_def is_space_rune_def)

lemma example_target: "safe_quote_imap ''Done'' = Inr (quote_imap ''Done'')"
  by (simp add: safe_quote_imap_def is_control_byte_def)

lemma t_try_run: "t_try m h k w = (case m w of (r, w') \<Rightarrow> (case r of Inl e \<Rightarrow> h e w' | Inr x \<Rightarrow> k x w'))"
  by (simp add: t_try_def t_bind_def split: prod.split sum.split)

lemma transfer_cong: "t_bind m f = t_bind m f" "t_try m h k = t_try m h k"
  by (rule refl)+

lemmas transfer_run = t_bind_def t_try_run t_return_def t_get_def t_answer_def move_message_locked_def move_message_def
  acquire_mutation_def move_capability_def guard_destination_def select_fresh_def find_destination_def check_validity_def
  check_uid_validity_def fetch_observation_def native_move_def fallback_move_def transfer_command_def write_command_def
  execute_write_def apply_copy_uid_def source_absent_def verify_destination_def remove_copied_source_def flag_deleted_def
  expunge_source_def empty_observation_def with_flag_observation_def append_effect_def no_permissions_def
  transfer_command_error_def start_evidence_def example_transfer_def

lemma example_native_move:
  "move_message_locked ''INBOX'' 7 1 ''Done'' ''<a@b>'' (example_transfer True []) = ((ev, e), w') \<Longrightarrow>
     e = None \<and> tw_writes w' = [Wrote_Move]"
  using example_id by (auto simp: transfer_run example_target Let_def cong: transfer_cong)

text \<open>The proviso of C2 is needed: a COPYUID for the message that was never copied lets the fallback flag and
  expunge the only copy.\<close>

lemma false_copyuid_loses:
  assumes "parse_copy_uid_response code 7 = Some (1, uid)" "is_copy_uid code"
  shows "\<not> not_lost (snd (move_message_locked ''INBOX'' 7 1 ''Done'' ''<a@b>'' (example_transfer False
    [Proceed, Proceed, Proceed, Proceed, Proceed, Command_Run False (Replied ''OK'' [] [code]) False])))"
  using example_id assms by (auto simp: transfer_run example_target Let_def not_lost_def unsupported_flag_def pending_changes_def
      cong: transfer_cong)

lemma example_transfer_start:
  "truthful (example_transfer native [])" "tw_writes (example_transfer native as) = []"
  "tw_source (example_transfer native as) = Source_Present"
  by (simp_all add: example_transfer_def truthful_def)

theorem message_never_lost_witness:
  "not_lost (snd (move_message_locked ''INBOX'' 7 1 ''Done'' ''<a@b>'' (example_transfer True [])))"
  using message_never_lost [OF example_transfer_start(1,2,3)] by blast

theorem move_dispatch_witness:
  "tw_writes (snd (move_message_locked ''INBOX'' 7 1 ''Done'' ''<a@b>'' (example_transfer True []))) \<in> set move_writes"
proof -
  obtain ev e w' where "move_message_locked ''INBOX'' 7 1 ''Done'' ''<a@b>'' (example_transfer True []) = ((ev, e), w')"
    by (metis prod.exhaust)
  then show ?thesis using move_dispatch [OF example_transfer_start(1,2,3)] by simp
qed

theorem completed_move_is_effective_witness:
  "tw_copied (snd (move_message_locked ''INBOX'' 7 1 ''Done'' ''<a@b>'' (example_transfer True [])))"
proof -
  obtain ev e w' where r: "move_message_locked ''INBOX'' 7 1 ''Done'' ''<a@b>'' (example_transfer True []) = ((ev, e), w')"
    by (metis prod.exhaust)
  then have "e = None" using example_native_move by simp
  then show ?thesis using completed_move_is_effective [OF example_transfer_start(1,2,3)] r by simp
qed

theorem copy_dispatch_witness:
  "tw_writes (snd (copy_message ''INBOX'' 7 1 ''Done'' ''<a@b>'' (example_transfer True []))) \<in> {[], [Wrote_Copy]}"
proof -
  obtain ev e found w' where "copy_message ''INBOX'' 7 1 ''Done'' ''<a@b>'' (example_transfer True []) = (((ev, e), found), w')"
    by (metis prod.exhaust)
  then show ?thesis using copy_dispatch [OF example_transfer_start(2)] by simp
qed

end
