(* ===== verification/Mail_Transfer_Proofs.thy ===== *)
theory Mail_Transfer_Proofs
  imports Mail_Transfer Imap_Transfer_Proofs
begin

text \<open>
  What moving, copying and deleting by reference guarantees: over all repetitions at most one transfer
  command is written and no message is lost, and a copy whose outcome is unknown is not sent again by
  this process.
\<close>

section \<open>Assertions\<close>

definition mails :: "(mail_world \<Rightarrow> bool) \<Rightarrow> 'a mail_io \<Rightarrow> ('a \<Rightarrow> mail_world \<Rightarrow> bool) \<Rightarrow> bool" where
  "mails P m Q \<longleftrightarrow> (\<forall>w x w'. P w \<longrightarrow> m w = (x, w') \<longrightarrow> Q x w')"

lemma mailsD: "mails P m Q \<Longrightarrow> P w \<Longrightarrow> m w = (x, w') \<Longrightarrow> Q x w'"
  by (simp add: mails_def)

lemma mails_return: "(\<And>w. P w \<Longrightarrow> Q x w) \<Longrightarrow> mails P (m_return x) Q"
  by (simp add: mails_def m_return_def)

lemma mails_fail: "(\<And>w. P w \<Longrightarrow> Q (None, Some e) w) \<Longrightarrow> mails P (m_fail e) Q"
  by (simp add: m_fail_def mails_return)

lemma mails_bind: "mails P m R \<Longrightarrow> (\<And>x. mails (R x) (f x) Q) \<Longrightarrow> mails P (m_bind m f) Q"
  unfolding mails_def m_bind_def by (simp add: split_beta) (metis prod.collapse)

lemma mails_pre: "mails P m Q \<Longrightarrow> (\<And>w. P' w \<Longrightarrow> P w) \<Longrightarrow> mails P' m Q"
  unfolding mails_def by blast

lemma mails_post: "mails P m Q \<Longrightarrow> (\<And>x w. Q x w \<Longrightarrow> Q' x w) \<Longrightarrow> mails P m Q'"
  unfolding mails_def by blast

lemma mails_split: "(\<And>a b. p = (a, b) \<Longrightarrow> mails P (f a b) Q) \<Longrightarrow> mails P (case p of (a, b) \<Rightarrow> f a b) Q"
  by (cases p) simp

lemma mails_split_outcome:
  "(\<And>a b c. p = ((a, b), c) \<Longrightarrow> mails P (f a b c) Q) \<Longrightarrow> mails P (case_prod (\<lambda>x. case_prod f x) p) Q"
  by (cases p) (auto split: prod.splits)

lemma mails_split_dispatch:
  "(\<And>a b c. p = (a, b, c) \<Longrightarrow> mails P (f a b c) Q) \<Longrightarrow> mails P (case p of (a, b, c) \<Rightarrow> f a b c) Q"
  by (cases p) simp

lemma mails_if: "(b \<Longrightarrow> mails P x Q) \<Longrightarrow> (\<not> b \<Longrightarrow> mails P y Q) \<Longrightarrow> mails P (if b then x else y) Q"
  by simp

lemma mails_assume: "(\<And>w. P w \<Longrightarrow> C) \<Longrightarrow> (C \<Longrightarrow> mails P m Q) \<Longrightarrow> mails P m Q"
  unfolding mails_def by blast

lemma mails_server:
  "transfers S m T \<Longrightarrow> mails (\<lambda>w. S (mw_server w) \<and> A (mw_attempts w)) (on_server m) (\<lambda>x w. T x (mw_server w) \<and> A (mw_attempts w))"
  unfolding mails_def on_server_def transfers_def by (auto split: prod.splits)

lemma mails_remember:
  "mails (\<lambda>w. S (mw_server w) \<and> A ((mw_attempts w)(key := Some ev))) (remember_copy_attempt key ev)
     (\<lambda>_ w. S (mw_server w) \<and> A (mw_attempts w))"
  by (simp add: mails_def remember_copy_attempt_def)

lemma mails_forget:
  "mails (\<lambda>w. S (mw_server w) \<and> A ((mw_attempts w)(key := None))) (forget_copy_attempt key)
     (\<lambda>_ w. S (mw_server w) \<and> A (mw_attempts w))"
  by (simp add: mails_def forget_copy_attempt_def)

section \<open>Copies\<close>

text \<open>Before a COPY, and after the attempts of at most one operation changed; \<open>tr\<close> says whether the server is
  known to report only what is true.\<close>

definition unwritten :: "bool \<Rightarrow> source_state \<Rightarrow> transfer_world \<Rightarrow> bool" where
  "unwritten tr src s \<longleftrightarrow> tw_writes s = [] \<and> tw_source s = src \<and> (tr \<longrightarrow> truthful s)"

definition copied_once :: "bool \<Rightarrow> source_state \<Rightarrow> transfer_world \<Rightarrow> bool" where
  "copied_once tr src s \<longleftrightarrow> tw_writes s \<in> {[], [Wrote_Copy]} \<and> tw_source s = src \<and> (tr \<longrightarrow> truthful s)"

definition others_kept :: "string set \<Rightarrow> copy_attempts \<Rightarrow> copy_attempts \<Rightarrow> bool" where
  "others_kept keys before now \<longleftrightarrow> (\<forall>k. k \<notin> keys \<longrightarrow> now k = before k)"

lemma others_kept_simps [simp]:
  "others_kept keys a a" "k \<in> keys \<Longrightarrow> others_kept keys a (b(k := v)) \<longleftrightarrow> others_kept keys a b"
  by (auto simp: others_kept_def)

lemma framed_unwritten [simp]: "framed (unwritten tr src)" "framed (copied_once tr src)"
  by (auto simp: framed_def unwritten_def copied_once_def)

text \<open>What the observation of the destination keeps, and that it finds only what is there.\<close>

lemma mails_observe:
  assumes "framed S" "\<And>s. S s \<Longrightarrow> tr \<Longrightarrow> truthful s"
  shows "mails (\<lambda>w. S (mw_server w) \<and> A (mw_attempts w)) (observe_copy_destination m)
     (\<lambda>r w. (S (mw_server w) \<and> (tr \<longrightarrow> (\<forall>ob. r = Inr ob \<longrightarrow> 0 < dm_count ob \<longrightarrow> tw_copied (mw_server w)))) \<and> A (mw_attempts w))"
proof -
  let ?search = "t_try acquire_mutation (\<lambda>e. t_return (Inl e)) (\<lambda>_. find_destination m)"
  have reads: "reads ?search" by (intro read_intros)
  have right: "transfers truthful ?search (\<lambda>r w. \<forall>found. r = Inr found \<longrightarrow> 0 < dm_count found \<longrightarrow> tw_copied w)"
    by (rule transfers_try [OF read_truthful], intro read_intros, rule transfers_return, simp, rule find_truthful)
  have true: "transfers S ?search (\<lambda>r w. tr \<longrightarrow> (\<forall>found. r = Inr found \<longrightarrow> 0 < dm_count found \<longrightarrow> tw_copied w))"
    by (cases tr, simp_all, rule transfers_pre [OF right], rule assms(2)) (simp_all add: transfers_def)
  show ?thesis
    unfolding observe_copy_destination_def Let_def
    apply (rule mails_if)
     apply (rule mails_return, simp)
    apply (rule mails_bind [OF mails_server [OF transfers_read_result [OF reads assms(1) true]]])
    apply (rule mails_return)
    apply (auto split: sum.splits if_splits)
    done
qed

lemma mails_verify_before:
  "mails (\<lambda>w. unwritten tr src (mw_server w) \<and> A (mw_attempts w)) (verify_before_dispatch m ev)
     (\<lambda>r w. (unwritten tr src (mw_server w) \<and> A (mw_attempts w)) \<and> (\<forall>e. r = Some e \<longrightarrow> (\<exists>ev. e = Copy_Outcome_Unknown ev)))"
  unfolding verify_before_dispatch_def
  by (rule mails_bind [OF mails_observe [where tr = tr]], simp, simp add: unwritten_def, rule mails_return)
    (auto simp: copy_outcome_unknown_error_def split: sum.splits if_splits)

lemma mails_verify_after:
  "mails (\<lambda>w. copied_once tr src (mw_server w) \<and> A (mw_attempts w)) (verify_after_dispatch m ev)
     (\<lambda>r w. (copied_once tr src (mw_server w) \<and> (snd r = None \<longrightarrow> tr \<longrightarrow> tw_copied (mw_server w))
        \<and> (\<forall>e. snd r = Some e \<longrightarrow> (\<exists>ev. e = Copy_Outcome_Unknown ev))) \<and> A (mw_attempts w))"
  unfolding verify_after_dispatch_def
  by (rule mails_bind [OF mails_observe [where tr = tr]], simp, simp add: copied_once_def, rule mails_return)
    (auto simp: copy_outcome_unknown_error_def Let_def split: sum.splits)

text \<open>After a dispatch: what was written, what is remembered, and what the error says.\<close>

definition dispatched :: "bool \<Rightarrow> source_state \<Rightarrow> string \<Rightarrow> copy_attempts \<Rightarrow> attempt_evidence \<times> bool \<times> mail_error option \<Rightarrow> mail_world \<Rightarrow> bool" where
  "dispatched tr src key before r w \<longleftrightarrow> copied_once tr src (mw_server w) \<and> others_kept {key} before (mw_attempts w)
     \<and> (case r of (ev, stopped, e) \<Rightarrow>
          if stopped then tw_writes (mw_server w) = [] \<and> (\<exists>ev. e = Some (Copy_Outcome_Unknown ev))
          else mw_attempts w key \<noteq> None \<and> (ev_outcome (ae_evidence ev) = NotStarted \<longrightarrow> tw_writes (mw_server w) = [])
            \<and> (e \<noteq> None \<longrightarrow> e = Some (Mail_Operator Copy_Unknown) \<and> ev_outcome (ae_evidence ev) = Unknown \<or> ev_outcome (ae_evidence ev) = NotStarted
                 \<or> ev_outcome (ae_evidence ev) = Rejected \<and> e = Some (Mail_Operator io_failed)))"

lemma mails_dispatch:
  "mails (\<lambda>w. unwritten tr src (mw_server w) \<and> mw_attempts w = before) (dispatch_copy guarded t d key) (dispatched tr src key before)"
proof -
  let ?A = "\<lambda>at. others_kept {key} before at \<and> at key \<noteq> None"
  have run: "mails (\<lambda>w. unwritten tr src (mw_server w) \<and> ?A (mw_attempts w))
      (on_server (copy_message (it_mailbox t) (it_uid t) (it_validity t) d g))
      (\<lambda>r w. (copy_outcome r (mw_server w) \<and> tw_source (mw_server w) = src \<and> (tr \<longrightarrow> truthful (mw_server w))) \<and> ?A (mw_attempts w))" for g
    by (rule mails_pre [OF mails_server [OF transfers_copy [where tr = tr]]]) (auto simp: unwritten_def)
  have remember: "mails (\<lambda>w. unwritten tr src (mw_server w) \<and> mw_attempts w = before) (remember_copy_attempt key ev)
      (\<lambda>_ w. unwritten tr src (mw_server w) \<and> ?A (mw_attempts w))" for ev
    by (rule mails_pre [OF mails_remember]) (auto simp: others_kept_def)
  have stopped: "mails (\<lambda>w. unwritten tr src (mw_server w) \<and> ?A (mw_attempts w))
      (m_bind (forget_copy_attempt key) (\<lambda>_. m_return (ev, True, Some (copy_outcome_unknown_error e)))) (dispatched tr src key before)" for ev e
  proof (rule mails_bind)
    show "mails (\<lambda>w. unwritten tr src (mw_server w) \<and> ?A (mw_attempts w)) (forget_copy_attempt key)
        (\<lambda>_ w. unwritten tr src (mw_server w) \<and> others_kept {key} before (mw_attempts w))"
      by (rule mails_pre [OF mails_forget [where S = "unwritten tr src"]]) (simp del: fun_upd_apply)
  qed (auto intro!: mails_return simp: dispatched_def copied_once_def unwritten_def copy_outcome_unknown_error_def)
  have own: "dispatched tr src key before (operator_evidence k u ev, False, map_option Mail_Operator e) w"
    if "r = ((ev, e), found)" "(copy_outcome r (mw_server w) \<and> tw_source (mw_server w) = src \<and> (tr \<longrightarrow> truthful (mw_server w))) \<and> ?A (mw_attempts w)" for r ev e found w k u
    using that by (auto simp: dispatched_def copied_once_def copy_outcome_def operator_evidence_def)
  show ?thesis
    unfolding dispatch_copy_def Let_def
  proof (rule mails_if)
    show "mails (\<lambda>w. unwritten tr src (mw_server w) \<and> mw_attempts w = before)
      (m_bind (verify_before_dispatch (it_message_id t) (copy_attempt_evidence t d)) (\<lambda>stopped. case stopped of
          Some e \<Rightarrow> m_return (copy_attempt_evidence t d, True, Some e)
        | None \<Rightarrow> m_bind (remember_copy_attempt key (copy_attempt_evidence t d)) (\<lambda>_.
            m_bind (on_server (copy_message (it_mailbox t) (it_uid t) (it_validity t) d [])) (\<lambda>((ev, e), found).
              m_return (operator_evidence (copy_attempt_key t d) (it_user t) ev, False, map_option Mail_Operator e)))))
      (dispatched tr src key before)"
      apply (rule mails_bind [OF mails_verify_before])
      subgoal for r
        apply (cases r; simp only: option.case)
         apply (rule mails_bind [OF mails_pre [OF remember]], simp)
         apply (rule mails_bind [OF run], rule mails_split_outcome, rule mails_return, rule own, assumption, assumption)
        apply (rule mails_return)
        apply (auto simp: dispatched_def copied_once_def unwritten_def)
        done
      done
    show "mails (\<lambda>w. unwritten tr src (mw_server w) \<and> mw_attempts w = before)
      (m_bind (remember_copy_attempt key (copy_attempt_evidence t d)) (\<lambda>_.
        m_bind (on_server (copy_message (it_mailbox t) (it_uid t) (it_validity t) d (it_message_id t))) (\<lambda>((ev, e), found).
          if e = Some Copy_Guard then m_bind (forget_copy_attempt key) (\<lambda>_.
            m_return (operator_evidence (copy_attempt_key t d) (it_user t) ev, True, Some (copy_outcome_unknown_error (copy_attempt_evidence t d))))
          else if e = None \<and> 0 < dm_count found then m_bind (forget_copy_attempt key) (\<lambda>_.
            m_return (operator_evidence (copy_attempt_key t d) (it_user t) ev, True,
              Some (copy_outcome_unknown_error (evidence_with_copy_destination (copy_attempt_evidence t d) found))))
          else m_return (operator_evidence (copy_attempt_key t d) (it_user t) ev, False, map_option Mail_Operator e))))
      (dispatched tr src key before)"
      apply (rule mails_bind [OF remember])
      apply (rule mails_bind [OF run], rule mails_split_outcome)
      apply (rule mails_if)
       apply (rule mails_pre [OF stopped], auto simp: copy_outcome_def unwritten_def io_failed_def) []
      apply (rule mails_if)
       apply (rule mails_pre [OF stopped], auto simp: copy_outcome_def unwritten_def io_failed_def) []
      apply (rule mails_return, rule own, assumption, assumption)
      done
  qed
qed

text \<open>The result of a copy: proved by the destination, refused by the server, or remembered.\<close>

definition copy_settled :: "mail_result \<Rightarrow> bool" where
  "copy_settled r \<longleftrightarrow> snd r = None \<or> snd r = Some (Mail_Operator io_failed)"

definition copy_result :: "bool \<Rightarrow> source_state \<Rightarrow> string set \<Rightarrow> string \<Rightarrow> copy_attempts \<Rightarrow> mail_result \<Rightarrow> mail_world \<Rightarrow> bool" where
  "copy_result tr src keys key before r w \<longleftrightarrow> copied_once tr src (mw_server w) \<and> others_kept keys before (mw_attempts w)
     \<and> (snd r = None \<longrightarrow> tr \<longrightarrow> tw_copied (mw_server w))
     \<and> (tw_writes (mw_server w) \<noteq> [] \<longrightarrow> mw_attempts w key \<noteq> None \<or> copy_settled r)"

lemma merged_outcome [simp]: "ev_outcome (ae_evidence (merge_copy_evidence b a)) = ev_outcome (ae_evidence a)"
  by (simp add: merge_copy_evidence_def Let_def)

lemma mails_finish_copy:
  "mails (dispatched tr src key before (ev, False, e)) (finish_copy t d key ev e) (copy_result tr src {key} key before)"
proof -
  let ?D = "\<lambda>w. copied_once tr src (mw_server w) \<and> others_kept {key} before (mw_attempts w)"
  have forget: "mails ?D (forget_copy_attempt key) (\<lambda>_. ?D)"
    by (rule mails_pre [OF mails_forget]) (simp del: fun_upd_apply)
  have remember: "mails (\<lambda>w. (copied_once tr src (mw_server w) \<and> P) \<and> others_kept {key} before (mw_attempts w)) (remember_copy_attempt key ev)
      (\<lambda>_ w. ?D w \<and> mw_attempts w key \<noteq> None)" for ev P
    by (rule mails_post [OF mails_pre [OF mails_remember [where S = "copied_once tr src" and A = "\<lambda>at. others_kept {key} before at \<and> at key \<noteq> None"]]])
      (auto simp: others_kept_def)
  have kept: "mails (\<lambda>w. copied_once tr src (mw_server w) \<and> others_kept {key} before (mw_attempts w))
      (m_bind (remember_copy_attempt key x) (\<lambda>_. m_fail e')) (copy_result tr src {key} key before)" for x e'
    by (rule mails_bind [OF mails_pre [OF remember [of True]]]) (auto intro!: mails_fail simp: copy_result_def)
  have forgotten: "mails (\<lambda>w. (copied_once tr src (mw_server w) \<and> (tw_writes (mw_server w) = [] \<or> e' = Mail_Operator io_failed))
        \<and> others_kept {key} before (mw_attempts w))
      (m_bind (forget_copy_attempt key) (\<lambda>_. m_fail e')) (copy_result tr src {key} key before)" for e'
    by (rule mails_bind [OF mails_pre [OF mails_forget [where A = "others_kept {key} before"
          and S = "\<lambda>s. copied_once tr src s \<and> (tw_writes s = [] \<or> e' = Mail_Operator io_failed)"]]])
      (auto intro!: mails_fail simp: copy_result_def copy_settled_def simp del: fun_upd_apply)
  have proved: "mails (\<lambda>w. (copied_once tr src (mw_server w) \<and> (tr \<longrightarrow> tw_copied (mw_server w))) \<and> others_kept {key} before (mw_attempts w))
      (m_bind (forget_copy_attempt key) (\<lambda>_. m_return (r, None))) (copy_result tr src {key} key before)" for r
    by (rule mails_bind [OF mails_pre [OF mails_forget [where A = "others_kept {key} before"
          and S = "\<lambda>s. copied_once tr src s \<and> (tr \<longrightarrow> tw_copied s)"]]])
      (auto intro!: mails_return simp: copy_result_def copy_settled_def simp del: fun_upd_apply)
  note verify = mails_bind [OF mails_pre [OF mails_verify_after [where tr = tr and src = src and A = "others_kept {key} before"]]]
  show ?thesis
  proof (cases e)
    case (Some e')
    show ?thesis
      unfolding Some finish_copy_def Let_def option.case
      apply (rule mails_if)
       apply (rule mails_pre [OF forgotten])
       apply (auto simp: dispatched_def) []
      apply (rule verify, simp add: dispatched_def)
      apply (rule mails_split)
      subgoal for r observed unproved
        by (cases unproved) (auto intro: mails_pre [OF kept])
      done
  next
    case None
    show ?thesis
      unfolding None finish_copy_def Let_def option.case
      apply (rule verify, simp add: dispatched_def)
      apply (rule mails_split)
      subgoal for r ev' unproved
        by (cases unproved) (auto intro: mails_pre [OF kept] mails_pre [OF proved])
      done
  qed
qed

lemma mails_exists: "(\<And>b. mails (\<lambda>w. P w \<and> f w = b) m (Q b)) \<Longrightarrow> mails P m (\<lambda>x w. \<exists>b. Q b x w)"
  unfolding mails_def by blast

lemma mails_refuse:
  "mails (\<lambda>w. unwritten tr src (mw_server w) \<and> mw_attempts w = before) (refuse_unsettled_copy t prior)
     (\<lambda>r w. (unwritten tr src (mw_server w) \<and> mw_attempts w = before) \<and> snd r \<noteq> None)"
  unfolding refuse_unsettled_copy_def by (rule mails_bind [OF mails_observe [where tr = tr]], simp, simp add: unwritten_def, rule mails_fail) simp

text \<open>Only a copy that was not started is repeated.\<close>

lemma dispatched_changed:
  "dispatched tr src key before (ev, False, e) w \<Longrightarrow> is_uid_validity_changed e \<Longrightarrow> unwritten tr src (mw_server w)"
  by (auto simp: dispatched_def is_uid_validity_changed_def unwritten_def copied_once_def io_failed_def)

lemma dispatched_stopped:
  "dispatched tr src key before (ev, True, e) w \<Longrightarrow> copy_result tr src {key} key before (None, e) w"
  by (auto simp: dispatched_def copy_result_def)

lemma mails_finish_dispatch:
  "mails (dispatched tr src key before (ev, stopped, e)) (if stopped then m_return (None, e) else finish_copy t d key ev e)
     (copy_result tr src {key} key before)"
  by (cases stopped) (auto intro!: mails_return mails_finish_copy dispatched_stopped)

text \<open>A copy and its repetition write one COPY at most.\<close>

lemma mails_transfer_copy:
  "mails (\<lambda>w. unwritten tr src (mw_server w)) (transfer_copy env t d)
     (\<lambda>r w. copied_once tr src (mw_server w) \<and> (snd r = None \<longrightarrow> tr \<longrightarrow> tw_copied (mw_server w)))"
  (is "mails ?P _ ?Q")
proof -
  have fail: "mails ?P (m_fail e) ?Q" for e
    by (rule mails_fail) (simp add: unwritten_def copied_once_def)
  have finish: "mails (\<lambda>w. \<exists>b. dispatched tr src k b r w) (case r of (ev, stopped, e) \<Rightarrow>
      if stopped then m_return (None, e) else finish_copy t' d k ev e) ?Q" for k r t'
  proof -
    obtain ev stopped e where r: "r = (ev, stopped, e)" by (metis prod.exhaust)
    have "mails (dispatched tr src k b r) (if stopped then m_return (None, e) else finish_copy t' d k ev e) ?Q" for b
      unfolding r by (rule mails_post [OF mails_finish_dispatch]) (simp add: copy_result_def)
    then show ?thesis unfolding r mails_def by auto
  qed
  have dispatch: "mails ?P (dispatch_copy g t' d k) (\<lambda>r w. \<exists>b. dispatched tr src k b r w)" for g t' k
    by (rule mails_exists [where f = mw_attempts]) (rule mails_dispatch)
  have again: "mails ?P (m_bind (forget_copy_attempt k) (\<lambda>_. case te_again env of Inl e \<Rightarrow> m_fail (Mail_Target e)
      | Inr t' \<Rightarrow> m_bind (dispatch_copy (te_guarded env) t' d (copy_attempt_key t' d)) (\<lambda>(ev, stopped, e).
          if stopped then m_return (None, e) else finish_copy t' d (copy_attempt_key t' d) ev e))) ?Q" for k
  proof (rule mails_bind [of _ _ "\<lambda>_. ?P"])
    show "mails ?P (forget_copy_attempt k) (\<lambda>_. ?P)" by (simp add: mails_def forget_copy_attempt_def)
    show "mails ?P (case te_again env of Inl e \<Rightarrow> m_fail (Mail_Target e)
      | Inr t' \<Rightarrow> m_bind (dispatch_copy (te_guarded env) t' d (copy_attempt_key t' d)) (\<lambda>(ev, stopped, e).
          if stopped then m_return (None, e) else finish_copy t' d (copy_attempt_key t' d) ev e)) ?Q"
      by (cases "te_again env"; simp only: sum.case) (rule fail, rule mails_bind [OF dispatch finish])
  qed
  have first: "mails (\<lambda>w. \<exists>b. dispatched tr src (copy_attempt_key t d) b r w) (case r of (ev, stopped, e) \<Rightarrow>
      if stopped then m_return (None, e)
      else if is_uid_validity_changed e then m_bind (forget_copy_attempt (copy_attempt_key t d)) (\<lambda>_. case te_again env of
          Inl e \<Rightarrow> m_fail (Mail_Target e)
        | Inr t' \<Rightarrow> m_bind (dispatch_copy (te_guarded env) t' d (copy_attempt_key t' d)) (\<lambda>(ev, stopped, e).
            if stopped then m_return (None, e) else finish_copy t' d (copy_attempt_key t' d) ev e))
      else finish_copy t d (copy_attempt_key t d) ev e) ?Q" for r
  proof -
    obtain ev stopped e where r: "r = (ev, stopped, e)" by (metis prod.exhaust)
    show ?thesis
    proof (cases "\<not> stopped \<and> is_uid_validity_changed e")
      case True
      then show ?thesis
        unfolding r prod.case by (simp only: if_False if_True simp_thms) (rule mails_pre [OF again], use dispatched_changed True in blast)
    next
      case False
      then have "(if stopped then x else if is_uid_validity_changed e then y else z) = (if stopped then x else z)" for x y z :: "mail_result mail_io"
        by auto
      then show ?thesis using finish [of "copy_attempt_key t d" r t] unfolding r prod.case by simp
    qed
  qed
  show ?thesis
    unfolding transfer_copy_def Let_def
    apply (rule mails_bind [of _ _ "\<lambda>_. ?P"])
     apply (simp add: mails_def copy_attempt_def)
    subgoal for prior
      apply (cases prior; simp only: option.case)
       apply (rule mails_bind [OF dispatch first])
      apply (rule mails_post [OF mails_exists [where f = mw_attempts, OF mails_refuse]])
      apply (auto simp: unwritten_def copied_once_def)
      done
    done
qed

text \<open>A copy that is remembered is not sent again; without a second resolution the copy is remembered
  unless it is settled.\<close>

lemma mails_transfer_known:
  assumes "before (copy_attempt_key t d) = Some prior"
  shows "mails (\<lambda>w. unwritten tr src (mw_server w) \<and> mw_attempts w = before) (transfer_copy env t d)
     (\<lambda>r w. (unwritten tr src (mw_server w) \<and> mw_attempts w = before) \<and> snd r \<noteq> None)"
  unfolding transfer_copy_def Let_def
proof (rule mails_bind)
  show "mails (\<lambda>w. unwritten tr src (mw_server w) \<and> mw_attempts w = before) (copy_attempt (copy_attempt_key t d))
      (\<lambda>p w. (unwritten tr src (mw_server w) \<and> mw_attempts w = before) \<and> p = Some prior)"
    using assms by (simp add: mails_def copy_attempt_def)
  show "mails (\<lambda>w. (unwritten tr src (mw_server w) \<and> mw_attempts w = before) \<and> p = Some prior) (case p of
      Some prior \<Rightarrow> refuse_unsettled_copy t prior
    | None \<Rightarrow> k) (\<lambda>r w. (unwritten tr src (mw_server w) \<and> mw_attempts w = before) \<and> snd r \<noteq> None)" for p k
    by (rule mails_assume [where C = "p = Some prior"], simp, simp only: option.case, rule mails_pre [OF mails_refuse], simp)
qed

lemma mails_transfer_remembered:
  assumes "te_again env = Inl e0" "before (copy_attempt_key t d) = None"
  shows "mails (\<lambda>w. unwritten tr src (mw_server w) \<and> mw_attempts w = before) (transfer_copy env t d)
     (copy_result tr src {copy_attempt_key t d} (copy_attempt_key t d) before)"
    (is "mails ?P _ ?Q")
proof -
  let ?k = "copy_attempt_key t d"
  have changed: "mails (dispatched tr src ?k before (ev, False, e)) (m_bind (forget_copy_attempt ?k) (\<lambda>_. m_fail x)) ?Q"
    if "is_uid_validity_changed e" for ev e x
  proof (rule mails_bind)
    show "mails (dispatched tr src ?k before (ev, False, e)) (forget_copy_attempt ?k)
        (\<lambda>_ w. unwritten tr src (mw_server w) \<and> others_kept {?k} before (mw_attempts w))"
      by (rule mails_pre [OF mails_forget]) (use dispatched_changed [OF _ that] in \<open>simp add: dispatched_def del: fun_upd_apply\<close>)
  qed (auto intro!: mails_fail simp: copy_result_def unwritten_def copied_once_def)
  have first: "mails (dispatched tr src ?k before r) (case r of (ev, stopped, e) \<Rightarrow>
      if stopped then m_return (None, e)
      else if is_uid_validity_changed e then m_bind (forget_copy_attempt ?k) (\<lambda>_. m_fail (Mail_Target e0))
      else finish_copy t d ?k ev e) ?Q" for r
  proof -
    obtain ev stopped e where r: "r = (ev, stopped, e)" by (metis prod.exhaust)
    show ?thesis
    proof (cases "\<not> stopped \<and> is_uid_validity_changed e")
      case True
      then show ?thesis using changed [of e ev] unfolding r by simp
    next
      case False
      then have "(if stopped then x else if is_uid_validity_changed e then y else z) = (if stopped then x else z)" for x y z :: "mail_result mail_io"
        by auto
      then show ?thesis using mails_finish_dispatch unfolding r prod.case by simp
    qed
  qed
  show ?thesis
    unfolding transfer_copy_def Let_def assms(1) sum.case
  proof (rule mails_bind [of _ _ "\<lambda>p w. ?P w \<and> p = None"])
    show "mails ?P (copy_attempt ?k) (\<lambda>p w. ?P w \<and> p = None)"
      using assms(2) by (simp add: mails_def copy_attempt_def)
    show "mails (\<lambda>w. ?P w \<and> p = None) (case p of
        None \<Rightarrow> m_bind (dispatch_copy (te_guarded env) t d ?k) (\<lambda>(ev, stopped, e).
          if stopped then m_return (None, e)
          else if is_uid_validity_changed e then m_bind (forget_copy_attempt ?k) (\<lambda>_. m_fail (Mail_Target e0))
          else finish_copy t d ?k ev e)
      | Some prior \<Rightarrow> refuse_unsettled_copy t prior) ?Q" for p
      by (rule mails_assume [where C = "p = None"])
        (simp_all, rule mails_bind [OF mails_pre [OF mails_dispatch] first], simp)
  qed
qed

section \<open>Moves and deletions\<close>

definition move_result :: "bool \<Rightarrow> mail_world \<Rightarrow> bool" where
  "move_result done w \<longleftrightarrow> not_lost (mw_server w) \<and> tw_writes (mw_server w) \<in> set move_writes
     \<and> (done \<longrightarrow> tw_copied (mw_server w) \<and> tw_source (mw_server w) \<noteq> Source_Present)"

lemma untouched_result: "untouched (mw_server w) \<Longrightarrow> move_result False w"
  by (auto simp: move_result_def moved_state_def move_writes_def)

lemma mails_transfer_move:
  "mails (\<lambda>w. untouched (mw_server w)) (transfer_move rq env t d) (\<lambda>r. move_result (snd r = None))"
proof -
  have run: "mails (\<lambda>w. untouched (mw_server w)) (run_move t' d) (\<lambda>r w. settled r (mw_server w))" for t'
    unfolding run_move_def using mails_server [OF transfers_move_locked, where A = "\<lambda>_. True"] by simp
  have finish: "mails (\<lambda>w. settled (ev, e) (mw_server w)) (finish_move rq t' d ev e) (\<lambda>r. move_result (snd r = None))" for t' ev e
    by (auto intro!: mails_return simp: finish_move_def move_result_def settled_def Let_def)
  have again: "untouched (mw_server w)"
    if "settled (ev, e) (mw_server w)" "is_uid_validity_changed (map_option Mail_Operator e)" for ev e w
    using that by (auto simp: settled_def is_uid_validity_changed_def moved_state_def io_failed_def)
  show ?thesis
    unfolding transfer_move_def
    apply (rule mails_bind [OF run])
    apply (rule mails_split)
    subgoal for r ev e
      apply simp
      apply (rule impI conjI)+
       apply (cases "te_again env"; simp only: sum.case)
        apply (rule mails_fail)
        apply (use again untouched_result in \<open>auto simp: move_result_def\<close>) []
       apply (rule mails_bind [OF mails_pre [OF run]])
        apply (use again in blast) []
       apply (rule mails_split)
       apply (simp add: finish)
      apply (simp add: finish)
      done
    done
qed

lemma mails_move_attempts:
  "mails (\<lambda>w. mw_attempts w = at) (transfer_move rq env t d) (\<lambda>_ w. mw_attempts w = at)"
proof -
  have run: "mails (\<lambda>w. mw_attempts w = at) (run_move t' d) (\<lambda>_ w. mw_attempts w = at)" for t'
    by (auto simp: mails_def run_move_def on_server_def split: prod.splits)
  have finish: "mails (\<lambda>w. mw_attempts w = at) (finish_move rq t' d ev e) (\<lambda>_ w. mw_attempts w = at)" for t' ev e
    by (auto intro!: mails_return simp: finish_move_def Let_def)
  show ?thesis
    unfolding transfer_move_def
    by (rule mails_bind [OF run], rule mails_split, rule mails_if, cases "te_again env")
      (auto intro!: mails_fail finish mails_bind [OF run])
qed

lemma mails_delete:
  "mails (\<lambda>w. untouched (mw_server w)) (delete_by_reference nfc ef allow env) (\<lambda>r. move_result (snd r = None))"
proof -
  have fail: "mails (\<lambda>w. untouched (mw_server w)) (m_return (None, Some e)) (\<lambda>r. move_result (snd r = None))" for e :: mail_error
    by (rule mails_return) (simp add: untouched_result)
  let ?R = "\<lambda>(e :: transfer_error option) s. not_lost s \<and> (e = None \<longrightarrow> tw_copied s \<and> tw_source s \<noteq> Source_Present) \<and> tw_writes s \<in> set move_writes
        \<and> (tw_writes s = [] \<longrightarrow> truthful s) \<and> (\<forall>c. e = Some (Transfer_Failed c) \<longrightarrow> tw_writes s = [] \<or> Some (Transfer_Failed c) = Some io_failed)"
  have run: "mails (\<lambda>w. untouched (mw_server w)) (run_delete nfc ef t) (\<lambda>r w. ?R (snd r) (mw_server w))" for t
    unfolding run_delete_def using mails_server [OF transfers_delete_message, where A = "\<lambda>_. True"] by simp
  have finish: "mails (\<lambda>w. ?R e (mw_server w)) (finish_delete t n ev e) (\<lambda>r. move_result (snd r = None))" for t n ev e
    unfolding finish_delete_def by (rule mails_return) (cases ev; auto simp: move_result_def Let_def)
  have again: "untouched (mw_server w)" if "?R e (mw_server w)" "is_uid_validity_changed (map_option Mail_Operator e)" for e w
    using that by (auto simp: is_uid_validity_changed_def moved_state_def io_failed_def)
  have resolved: "mails (\<lambda>w. untouched (mw_server w)) (m_bind (run_delete nfc ef t) (\<lambda>(ev, e). finish_delete t (it_duplicates t) ev e))
      (\<lambda>r. move_result (snd r = None))" for t
    by (rule mails_bind [OF run], rule mails_split, rule mails_pre [OF finish]) simp
  have first: "mails (\<lambda>w. ?R e (mw_server w)) (if is_uid_validity_changed (map_option Mail_Operator e) then
        (case x of Inl e \<Rightarrow> m_return (None, Some e)
         | Inr t \<Rightarrow> m_bind (run_delete nfc ef t) (\<lambda>(ev, e). finish_delete t (it_duplicates t) ev e))
      else finish_delete t (it_duplicates t) ev e) (\<lambda>r. move_result (snd r = None))" for x t ev e
  proof (rule mails_if)
    assume changed: "is_uid_validity_changed (map_option Mail_Operator e)"
    show "mails (\<lambda>w. ?R e (mw_server w)) (case x of Inl e \<Rightarrow> m_return (None, Some e)
         | Inr t \<Rightarrow> m_bind (run_delete nfc ef t) (\<lambda>(ev, e). finish_delete t (it_duplicates t) ev e)) (\<lambda>r. move_result (snd r = None))"
    proof (cases x)
      case (Inl a)
      show ?thesis unfolding Inl sum.case by (rule mails_pre [OF fail]) (rule again [OF _ changed])
    next
      case (Inr t)
      show ?thesis unfolding Inr sum.case by (rule mails_pre [OF resolved]) (rule again [OF _ changed])
    qed
  qed (rule finish)
  show ?thesis
    unfolding delete_by_reference_def
    apply (cases "bindR (reject_unconfirmed_draft allow (te_draft env)) (\<lambda>_. wrapR Mail_Target (te_target env))"; simp only: sum.case)
     apply (rule fail)
    apply (rule mails_bind [OF run], rule mails_split, rule mails_pre [OF first], simp)
    done
qed

section \<open>The effects of a request\<close>

lemma mails_transfer_message:
  "mails (\<lambda>w. untouched (mw_server w) \<and> tw_source (mw_server w) = Source_Present) (transfer_message js nfc ef rq env)
     (\<lambda>r w. not_lost (mw_server w) \<and> (snd r = None \<longrightarrow> tw_copied (mw_server w))
        \<and> (if tq_copy rq then copied_once True Source_Present (mw_server w) else move_result (snd r = None) w))"
proof (cases "transfer_target js nfc ef rq env")
  case (Inl e)
  show ?thesis
    unfolding transfer_message_def Inl sum.case
    by (rule mails_fail) (auto simp: moved_state_def copied_once_def untouched_result)
next
  case (Inr x)
  obtain t d where x: "x = (t, d)" by (cases x)
  show ?thesis
  proof (cases "tq_copy rq")
    case True
    show ?thesis
      unfolding transfer_message_def Inr x sum.case prod.case if_P [OF True]
      by (rule mails_post [OF mails_pre [OF mails_transfer_copy [where tr = True and src = Source_Present]]])
        (auto simp: moved_state_def unwritten_def copied_once_def not_lost_def)
  next
    case False
    show ?thesis
      unfolding transfer_message_def Inr x sum.case prod.case if_not_P [OF False]
      by (rule mails_post [OF mails_pre [OF mails_transfer_move]]) (auto simp: move_result_def)
  qed
qed

text \<open>C11. On a truthful server a transfer by reference, with its checks of the destination and its repetition after a rebuilt
  mailbox, never loses the message: over all its commands a copy writes one COPY at most and leaves the
  source alone, a move writes at most one transfer command and then flags and expunges the source, and a
  transfer without an error has the message in the destination.\<close>

theorem transfer_by_reference_safe:
  assumes "truthful (mw_server w)" "tw_writes (mw_server w) = []" "tw_source (mw_server w) = Source_Present"
    "transfer_message js nfc ef rq env w = (r, w')"
  shows "not_lost (mw_server w') \<and> (snd r = None \<longrightarrow> tw_copied (mw_server w'))
    \<and> (if tq_copy rq then tw_writes (mw_server w') \<in> {[], [Wrote_Copy]} \<and> tw_source (mw_server w') = Source_Present
       else tw_writes (mw_server w') \<in> set move_writes \<and> (snd r = None \<longrightarrow> tw_source (mw_server w') \<noteq> Source_Present))"
  using mailsD [OF mails_transfer_message _ assms(4)] untouchedI [OF assms(1-3)] assms(3)
  by (auto simp: copied_once_def move_result_def split: if_splits)

text \<open>The same of a deletion.\<close>

theorem delete_by_reference_safe:
  assumes "truthful (mw_server w)" "tw_writes (mw_server w) = []" "tw_source (mw_server w) = Source_Present"
    "delete_by_reference nfc ef allow env w = (r, w')"
  shows "not_lost (mw_server w') \<and> tw_writes (mw_server w') \<in> set move_writes
    \<and> (snd r = None \<longrightarrow> tw_copied (mw_server w') \<and> tw_source (mw_server w') \<noteq> Source_Present)"
  using mailsD [OF mails_delete _ assms(4)] untouchedI [OF assms(1-3)] by (simp add: move_result_def)

section \<open>Copies across requests\<close>

text \<open>The attempts after a sequence of requests of one process, each with what its calls returned.\<close>

fun attempts_after ::
    "json_codec \<Rightarrow> normal_form \<Rightarrow> folding \<Rightarrow> copy_attempts \<Rightarrow> (transfer_request \<times> transfer_env \<times> transfer_world) list \<Rightarrow> copy_attempts" where
  "attempts_after js nfc ef at [] = at"
| "attempts_after js nfc ef at ((rq, env, s) # cs) =
     attempts_after js nfc ef (mw_attempts (snd (transfer_message js nfc ef rq env \<lparr>mw_attempts = at, mw_server = s\<rparr>))) cs"

lemma transfer_copy_attempts:
  assumes "tw_writes s = []" "isl (te_again env)" "transfer_copy env t d \<lparr>mw_attempts = at, mw_server = s\<rparr> = (r, w)"
  shows "at (copy_attempt_key t d) = None \<and> copy_result False (tw_source s) {copy_attempt_key t d} (copy_attempt_key t d) at r w
    \<or> at (copy_attempt_key t d) \<noteq> None \<and> mw_attempts w = at"
proof -
  obtain e0 where e0: "te_again env = Inl e0" using assms(2) by (cases "te_again env") auto
  have start: "unwritten False (tw_source s) (mw_server \<lparr>mw_attempts = at, mw_server = s\<rparr>) \<and> mw_attempts \<lparr>mw_attempts = at, mw_server = s\<rparr> = at"
    using assms(1) by (simp add: unwritten_def)
  show ?thesis
  proof (cases "at (copy_attempt_key t d)")
    case None
    then show ?thesis using mailsD [OF mails_transfer_remembered [where before = at and t = t and d = d, OF e0 None] start assms(3)] by simp
  next
    case (Some prior)
    then show ?thesis using mailsD [OF mails_transfer_known [where before = at and t = t and d = d, OF Some] start assms(3)] by simp
  qed
qed

lemma request_keeps_attempt:
  assumes "tw_writes s = []" "isl (te_again env)" "at k \<noteq> None"
  shows "mw_attempts (snd (transfer_message js nfc ef rq env \<lparr>mw_attempts = at, mw_server = s\<rparr>)) k \<noteq> None"
proof (cases "transfer_target js nfc ef rq env")
  case (Inl e)
  then show ?thesis using assms(3) by (simp add: transfer_message_def m_fail_def m_return_def)
next
  case (Inr x)
  obtain t d where x: "x = (t, d)" by (cases x)
  show ?thesis
  proof (cases "tq_copy rq")
    case True
    obtain r w where c: "transfer_copy env t d \<lparr>mw_attempts = at, mw_server = s\<rparr> = (r, w)" by (metis prod.exhaust)
    have "mw_attempts w k \<noteq> None"
      using transfer_copy_attempts [OF assms(1,2) c] assms(3)
      by (cases "k = copy_attempt_key t d") (auto simp: copy_result_def others_kept_def)
    then show ?thesis using c True by (simp add: transfer_message_def Inr x)
  next
    case False
    obtain r w where c: "transfer_move rq env t d \<lparr>mw_attempts = at, mw_server = s\<rparr> = (r, w)" by (metis prod.exhaust)
    then have "mw_attempts w = at" using mailsD [OF mails_move_attempts] by fastforce
    then show ?thesis using c False assms(3) by (simp add: transfer_message_def Inr x)
  qed
qed

lemma attempts_after_keep:
  "(\<forall>(rq, env, s) \<in> set cs. isl (te_again env) \<and> tw_writes s = []) \<Longrightarrow> at k \<noteq> None \<Longrightarrow> attempts_after js nfc ef at cs k \<noteq> None"
proof (induction cs arbitrary: at)
  case (Cons c cs)
  obtain rq env s where c: "c = (rq, env, s)" by (metis prod.exhaust)
  show ?case
    using Cons.IH [of "mw_attempts (snd (transfer_message js nfc ef rq env \<lparr>mw_attempts = at, mw_server = s\<rparr>))"]
      request_keeps_attempt [of s env at k js nfc ef rq] Cons.prems by (simp add: c)
qed simp

text \<open>C10. A copy that was written and is neither proved nor refused is not sent again by the process: whatever
  moves and copies it makes in between, as long as no mailbox was rebuilt and resolved anew during them,
  a later request for the same copy writes no command and fails.\<close>

theorem unsettled_copy_not_repeated:
  assumes "transfer_target js nfc ef rq env = Inr (t, d)" "tq_copy rq" "isl (te_again env)" "tw_writes s = []"
    "transfer_message js nfc ef rq env \<lparr>mw_attempts = at, mw_server = s\<rparr> = (r, w)"
    "tw_writes (mw_server w) \<noteq> []" "\<not> copy_settled r"
    "\<forall>(rq, env, s) \<in> set between. isl (te_again env) \<and> tw_writes s = []"
    "transfer_target js nfc ef rq' env' = Inr (t', d')" "tq_copy rq'" "copy_attempt_key t' d' = copy_attempt_key t d" "tw_writes s' = []"
    "transfer_message js nfc ef rq' env' \<lparr>mw_attempts = attempts_after js nfc ef (mw_attempts w) between, mw_server = s'\<rparr> = (r', w')"
  shows "tw_writes (mw_server w') = [] \<and> snd r' \<noteq> None"
proof -
  let ?k = "copy_attempt_key t d" and ?at = "attempts_after js nfc ef (mw_attempts w) between"
  have c: "transfer_copy env t d \<lparr>mw_attempts = at, mw_server = s\<rparr> = (r, w)"
    using assms(5) by (simp add: transfer_message_def assms(1,2))
  have "mw_attempts w ?k \<noteq> None"
    using transfer_copy_attempts [OF assms(4,3) c] assms(6,7) by (auto simp: copy_result_def)
  then obtain prior where p: "?at ?k = Some prior"
    using attempts_after_keep [OF assms(8), of "mw_attempts w" ?k js nfc ef] by blast
  have c': "transfer_copy env' t' d' \<lparr>mw_attempts = ?at, mw_server = s'\<rparr> = (r', w')"
    using assms(13) by (simp add: transfer_message_def assms(9,10))
  have start: "unwritten False (tw_source s') (mw_server \<lparr>mw_attempts = ?at, mw_server = s'\<rparr>) \<and> mw_attempts \<lparr>mw_attempts = ?at, mw_server = s'\<rparr> = ?at"
    using assms(12) by (simp add: unwritten_def)
  have "?at (copy_attempt_key t' d') = Some prior" using p by (simp add: assms(11))
  from mailsD [OF mails_transfer_known [where before = ?at and t = t' and d = d', OF this] start c'] show ?thesis by (simp add: unwritten_def)
qed

section \<open>Examples\<close>

definition example_json :: json_codec where
  "example_json = \<lparr>js_account = (\<lambda>_. None),
     js_mailbox = (\<lambda>_. Some \<lparr>mb_version = 1, mb_account_id = ''a'', mb_path = [''Work'']\<rparr>), js_message = (\<lambda>_. None),
     js_list_cursor = (\<lambda>_. None), js_compact = (\<lambda>_. None), js_marshal = (\<lambda>_. [])\<rparr>"

definition example_token :: string where
  "example_token = ''mbx_'' @ b64_encode_raw b64_url ''{}''"

definition example_mail_target :: "32 word \<Rightarrow> imap_target" where
  "example_mail_target validity = \<lparr>it_account = ''a'', it_user = ''u'', it_mailbox = ''INBOX'', it_trash = [], it_uid = 7,
     it_validity = validity, it_duplicates = 1, it_message_id = ''<a@b>'', it_summary = empty_summary\<rparr>"

definition example_request :: "bool \<Rightarrow> transfer_request" where
  "example_request copy = \<lparr>tq_copy = copy, tq_destination = example_token, tq_allow_draft = True\<rparr>"

definition example_env :: "32 word \<Rightarrow> target_error + imap_target \<Rightarrow> transfer_env" where
  "example_env validity again = \<lparr>te_draft = Inr False, te_target = Inr (example_mail_target validity), te_again = again,
     te_mailboxes = Inr example_mailboxes, te_guarded = True\<rparr>"

lemma example_destination: "decode_mailbox example_json example_token
  = Inr \<lparr>mb_version = 1, mb_account_id = ''a'', mb_path = [''Work'']\<rparr>"
proof -
  have "encode_token ''mbx_'' ''{}'' = Inr example_token"
    by (simp add: example_token_def encode_token_def max_compact_payload_bytes_def)
  then have "decode_token_payload ''mbx_'' example_token = Inr ''{}''"
    using tok.dec_enc [of "''mbx_''" "''{}''"] by simp
  then show ?thesis
    by (simp add: decode_mailbox_def decode_mailbox_payload_def is_binary_payload_def is_compact_payload_def
        binary_payload_marker_def compact_payload_marker_def example_json_def legacy_format_version_def)
qed

lemma example_request_target:
  "transfer_target example_json id (=) (example_request copy) (example_env v again) = Inr (example_mail_target v, ''Work'')"
  by (cases copy) (simp_all add: transfer_target_def example_request_def example_env_def example_destination example_mail_target_def
      example_resolved reject_unconfirmed_draft_def)

text \<open>A COPY whose reply is lost, and whose destination cannot be observed.\<close>

abbreviation lost_copy :: transfer_world where
  "lost_copy \<equiv> example_transfer True [Proceed, Proceed, Proceed, Command_Run False (Lost []) False, Proceed, Fault False]"

lemmas mail_run = m_bind_def m_return_def m_fail_def on_server_def copy_attempt_def remember_copy_attempt_def forget_copy_attempt_def
  transfer_copy_def dispatch_copy_def finish_copy_def verify_after_dispatch_def observe_copy_destination_def
  merge_copy_evidence_def copy_message_def operator_evidence_def copy_attempt_evidence_def

lemma example_work: "safe_quote_imap ''Work'' = Inr (quote_imap ''Work'')"
  by (simp add: safe_quote_imap_def is_control_byte_def)

lemma example_lost_copy:
  "transfer_message example_json id (=) (example_request True) (example_env 1 (Inl uid_unknown)) \<lparr>mw_attempts = (\<lambda>_. None), mw_server = lost_copy\<rparr> = (r, w)
    \<Longrightarrow> tw_writes (mw_server w) = [Wrote_Copy] \<and> \<not> copy_settled r"
proof -
  assume "transfer_message example_json id (=) (example_request True) (example_env 1 (Inl uid_unknown)) \<lparr>mw_attempts = (\<lambda>_. None), mw_server = lost_copy\<rparr> = (r, w)"
  then have "transfer_copy (example_env 1 (Inl uid_unknown)) (example_mail_target 1) ''Work'' \<lparr>mw_attempts = (\<lambda>_. None), mw_server = lost_copy\<rparr> = (r, w)"
    by (simp add: transfer_message_def example_request_target) (simp add: example_request_def)
  moreover obtain k where "copy_attempt_key (example_mail_target 1) ''Work'' = k" by simp
  ultimately show ?thesis
    using example_id by (auto simp: mail_run transfer_run example_work example_env_def example_mail_target_def copy_settled_def
        copy_outcome_unknown_error_def is_uid_validity_changed_def io_failed_def outcome_unknown_for_def Let_def)
qed

theorem unsettled_copy_not_repeated_witness:
  "\<exists>w :: mail_world. mw_attempts w \<noteq> (\<lambda>_. None) \<and> tw_writes (mw_server (snd (transfer_message example_json id (=) (example_request True)
     (example_env 1 (Inl uid_unknown)) \<lparr>mw_attempts = mw_attempts w, mw_server = example_transfer True []\<rparr>))) = []"
proof -
  let ?rq = "example_request True" and ?env = "example_env 1 (Inl uid_unknown)"
  obtain r w where run: "transfer_message example_json id (=) ?rq ?env \<lparr>mw_attempts = (\<lambda>_. None), mw_server = lost_copy\<rparr> = (r, w)"
    by (metis prod.exhaust)
  obtain r' w' where again: "transfer_message example_json id (=) ?rq ?env \<lparr>mw_attempts = mw_attempts w, mw_server = example_transfer True []\<rparr> = (r', w')"
    by (metis prod.exhaust)
  have copies: "tq_copy ?rq" "isl (te_again ?env)" by (simp_all add: example_request_def example_env_def)
  have "tw_writes (mw_server w') = []"
    using unsettled_copy_not_repeated [OF example_request_target copies example_transfer_start(2) run _ _ _ example_request_target copies(1)
        refl example_transfer_start(2), where between = "[]" and r' = r' and w' = w'] example_lost_copy [OF run] again by simp
  moreover have "mw_attempts w \<noteq> (\<lambda>_. None)"
  proof -
    have "transfer_copy ?env (example_mail_target 1) ''Work'' \<lparr>mw_attempts = (\<lambda>_. None), mw_server = lost_copy\<rparr> = (r, w)"
      using run copies(1) by (simp add: transfer_message_def example_request_target)
    from transfer_copy_attempts [OF example_transfer_start(2) copies(2) this] example_lost_copy [OF run]
    show ?thesis by (auto simp: copy_result_def)
  qed
  ultimately have "mw_attempts w \<noteq> (\<lambda>_. None) \<and> tw_writes (mw_server (snd (transfer_message example_json id (=) ?rq ?env
      \<lparr>mw_attempts = mw_attempts w, mw_server = example_transfer True []\<rparr>))) = []" by (simp add: again)
  then show ?thesis by (rule exI)
qed

theorem transfer_by_reference_safe_witness:
  "not_lost (mw_server (snd (transfer_message example_json id (=) (example_request False) (example_env 1 (Inl uid_unknown))
     \<lparr>mw_attempts = (\<lambda>_. None), mw_server = example_transfer True []\<rparr>)))"
proof -
  obtain r w where run: "transfer_message example_json id (=) (example_request False) (example_env 1 (Inl uid_unknown))
     \<lparr>mw_attempts = (\<lambda>_. None), mw_server = example_transfer True []\<rparr> = (r, w)" by (metis prod.exhaust)
  then show ?thesis using transfer_by_reference_safe [OF _ _ _ run] example_transfer_start by simp
qed

theorem delete_by_reference_safe_witness:
  "not_lost (mw_server (snd (delete_by_reference id (=) True (example_env 1 (Inl uid_unknown))
     \<lparr>mw_attempts = (\<lambda>_. None), mw_server = example_transfer True []\<rparr>)))"
proof -
  obtain r w where run: "delete_by_reference id (=) True (example_env 1 (Inl uid_unknown))
     \<lparr>mw_attempts = (\<lambda>_. None), mw_server = example_transfer True []\<rparr> = (r, w)" by (metis prod.exhaust)
  then show ?thesis using delete_by_reference_safe [OF _ _ _ run] example_transfer_start by simp
qed

text \<open>The repetition after a rebuilt mailbox does not look at the attempts: it sends a COPY that is remembered
  as unsettled, when the first resolution named it by another UIDVALIDITY.\<close>

lemma repetition_ignores_attempt:
  assumes "at = (\<lambda>_. None)(copy_attempt_key (example_mail_target 1) ''Work'' := Some x)"
    "copy_attempt_key (example_mail_target 5) ''Work'' \<noteq> copy_attempt_key (example_mail_target 1) ''Work''"
  shows "tw_writes (mw_server (snd (transfer_message example_json id (=) (example_request True)
    (example_env 5 (Inr (example_mail_target 1))) \<lparr>mw_attempts = at, mw_server = example_transfer True []\<rparr>))) = [Wrote_Copy]"
proof -
  have "transfer_message example_json id (=) (example_request True) (example_env 5 (Inr (example_mail_target 1)))
      = transfer_copy (example_env 5 (Inr (example_mail_target 1))) (example_mail_target 5) ''Work''"
    by (rule ext, simp only: transfer_message_def example_request_target) (simp add: example_request_def)
  moreover obtain k where k: "copy_attempt_key (example_mail_target 1) ''Work'' = k" by simp
  moreover obtain k' where k': "copy_attempt_key (example_mail_target 5) ''Work'' = k'" by simp
  ultimately show ?thesis
    using example_id assms by (auto simp: mail_run transfer_run example_work example_env_def copy_outcome_unknown_error_def
        is_uid_validity_changed_def example_mail_target_def [of 1] example_mail_target_def [of 5] Let_def)
qed

end
