(* ===== verification/Transport_Errors.thy ===== *)
theory Transport_Errors
  imports Prelude
begin

text \<open>
  Errors of the send transport and their classification (\<open>src/internal/transport/errors.go\<close>,
  \<open>classification.go\<close>, \<open>transfer_budget.go\<close>): the tree of wrapped and joined errors, the traversals
  \<open>errors.As\<close> and \<open>errors.Is\<close> make of it, \<open>ErrorCode\<close>, which lets an uncertain outcome win over every
  other code, and the predicates the callers decide by.
\<close>

section \<open>Error trees\<close>

text \<open>\<open>IMAPCommandRejection\<close>, without its bounded server text.\<close>

record imap_rejection =
  ir_command :: string
  ir_status :: string
  ir_response_code :: "string option"

text \<open>\<open>OperationPhase\<close> and \<open>EffectCertainty\<close> are strings in the code; errors may carry any.\<close>

datatype operation_phase = Phase_Validation | Phase_Read | Phase_Submission | Phase_Mirror | Phase_Mutation
  | Phase_Hydration | Phase_Cleanup | Phase_Execution | Phase_Other string

datatype effect_certainty = Effect_None | Effect_Complete | Effect_Partial | Effect_Unknown | Effect_Other string

text \<open>\<open>MutationEvidence\<close>, as far as classification reads it.\<close>

record mutation_report =
  mr_operation_id :: string
  mr_outcome :: string
  mr_command :: string
  mr_completed_effects :: "string list"

text \<open>
  A node is a typed error of this program with its cause, an error with a code of another package
  (\<open>ValidationError\<close> and the like), an \<open>OperationError\<close> with the draft it names, the outcome errors of an
  attachment save, a content export and a draft adoption, a \<open>fmt.Errorf\<close> with \<open>%w\<close>, an \<open>errors.Join\<close>,
  or a leaf of the standard library the classification looks for. \<open>ErrnoErr\<close> is a system call error
  number, which is a \<open>net.Error\<close> as \<open>context.DeadlineExceeded\<close> is; its flag says whether it is a
  permission error.
\<close>

datatype go_error =
    TransportErr string "imap_rejection option" "go_error option"
  | SubmissionErr string "go_error option"
  | MutationErr string mutation_report "go_error option"
  | CodedErr string "go_error option"
  | OperationErr string string "go_error option"
  | SaveOutcomeErr operation_phase effect_certainty "go_error option"
  | ExportOutcomeErr effect_certainty go_error
  | AdoptionErr bool bool go_error
  | Wrapped go_error
  | JoinErr "go_error list"
  | CanceledErr | DeadlineErr | PermissionErr | ErrnoErr bool
  | NetworkErr | EofErr | UnexpectedEofErr | NetClosedErr | TlsVerificationErr | PlainErr

definition opt_list :: "'a option \<Rightarrow> 'a list" where
  "opt_list x = (case x of None \<Rightarrow> [] | Some y \<Rightarrow> [y])"

text \<open>The nodes of a tree in the order the standard traversal visits them.\<close>

fun error_nodes :: "go_error \<Rightarrow> go_error list" where
  "error_nodes (TransportErr c r (Some e)) = TransportErr c r (Some e) # error_nodes e"
| "error_nodes (SubmissionErr s (Some e)) = SubmissionErr s (Some e) # error_nodes e"
| "error_nodes (MutationErr c v (Some e)) = MutationErr c v (Some e) # error_nodes e"
| "error_nodes (CodedErr c (Some e)) = CodedErr c (Some e) # error_nodes e"
| "error_nodes (OperationErr c d (Some e)) = OperationErr c d (Some e) # error_nodes e"
| "error_nodes (SaveOutcomeErr p v (Some e)) = SaveOutcomeErr p v (Some e) # error_nodes e"
| "error_nodes (ExportOutcomeErr v e) = ExportOutcomeErr v e # error_nodes e"
| "error_nodes (AdoptionErr p r e) = AdoptionErr p r e # error_nodes e"
| "error_nodes (Wrapped e) = Wrapped e # error_nodes e"
| "error_nodes (JoinErr es) = JoinErr es # concat (map error_nodes es)"
| "error_nodes e = [e]"

definition code_submission_unknown :: string where "code_submission_unknown = ''smtp_submission_unknown''"

fun first_some :: "('a \<Rightarrow> 'b option) \<Rightarrow> 'a list \<Rightarrow> 'b option" where
  "first_some f [] = None"
| "first_some f (x # xs) = (case f x of Some y \<Rightarrow> Some y | None \<Rightarrow> first_some f xs)"

text \<open>
  The \<open>ErrorCode\<close> method of the first node that has one. An adoption error answers with the first code
  below it, a submission error with one code for every stage.
\<close>

fun first_coded :: "go_error \<Rightarrow> string option" where
  "first_coded (TransportErr c _ _) = Some c"
| "first_coded (SubmissionErr _ _) = Some code_submission_unknown"
| "first_coded (MutationErr c _ _) = Some c"
| "first_coded (CodedErr c _) = Some c"
| "first_coded (OperationErr c _ _) = Some c"
| "first_coded (SaveOutcomeErr _ _ (Some e)) = first_coded e"
| "first_coded (ExportOutcomeErr _ e) = first_coded e"
| "first_coded (AdoptionErr _ _ e) = Some (case first_coded e of Some c \<Rightarrow> c | None \<Rightarrow> ''draft_adopt_failed'')"
| "first_coded (Wrapped e) = first_coded e"
| "first_coded (JoinErr es) = first_some id (map first_coded es)"
| "first_coded _ = None"

text \<open>The \<open>Is\<close> method against a transport code: only the types of this package have one.\<close>

fun is_transport_code :: "string \<Rightarrow> go_error \<Rightarrow> bool" where
  "is_transport_code code (TransportErr c _ _) = (c = code)"
| "is_transport_code code (SubmissionErr _ _) = (code = code_submission_unknown)"
| "is_transport_code code (MutationErr c _ _) = (c = code)"
| "is_transport_code _ _ = False"

definition errors_is_code :: "go_error \<Rightarrow> string \<Rightarrow> bool" where
  "errors_is_code e code \<longleftrightarrow> list_ex (is_transport_code code) (error_nodes e)"

definition first_code :: "go_error \<Rightarrow> string" where
  "first_code e = (case first_coded e of Some c \<Rightarrow> c | None \<Rightarrow> [])"

section \<open>ErrorCode\<close>

definition uncertain_codes :: "string list" where
  "uncertain_codes = [code_submission_unknown, ''imap_append_outcome_unknown'', ''imap_move_outcome_unknown'',
     ''imap_ambiguous_message_id'', ''imap_copy_outcome_unknown'', ''imap_flags_outcome_unknown'', ''imap_flags_partial'']"

definition error_code :: "go_error option \<Rightarrow> string" where
  "error_code e = (case e of None \<Rightarrow> [] | Some e \<Rightarrow>
     (case filter (errors_is_code e) uncertain_codes of c # _ \<Rightarrow> c | [] \<Rightarrow> first_code e))"

section \<open>Classification\<close>

fun as_transport_error :: "go_error \<Rightarrow> (string \<times> imap_rejection option \<times> go_error option) option" where
  "as_transport_error (TransportErr c r e) = Some (c, r, e)"
| "as_transport_error _ = None"

definition errors_as_transport :: "go_error \<Rightarrow> (string \<times> imap_rejection option \<times> go_error option) option" where
  "errors_as_transport e = first_some as_transport_error (error_nodes e)"

definition errors_has :: "go_error option \<Rightarrow> go_error list \<Rightarrow> bool" where
  "errors_has e leaves = (case e of None \<Rightarrow> False | Some e \<Rightarrow> list_ex (\<lambda>n. n \<in> set leaves) (error_nodes e))"

definition is_tls_verification_failure :: "go_error option \<Rightarrow> bool" where
  "is_tls_verification_failure e \<longleftrightarrow> error_code e = ''imap_connect_failed'' \<and> errors_has e [TlsVerificationErr]"

definition is_transient_read_failure :: "go_error option \<Rightarrow> bool" where
  "is_transient_read_failure e = (let c = error_code e in
     if c = ''imap_connect_failed'' then \<not> is_tls_verification_failure e
     else if c = ''imap_fetch_failed'' then (case e of None \<Rightarrow> False | Some e \<Rightarrow>
       (case errors_as_transport e of
          Some (code, _, cause) \<Rightarrow> code = ''imap_fetch_failed'' \<and>
            errors_has cause [NetworkErr, DeadlineErr, ErrnoErr True, ErrnoErr False, EofErr, UnexpectedEofErr, NetClosedErr]
        | None \<Rightarrow> False))
     else c \<in> set [''imap_canceled'', ''imap_disconnected'', ''imap_timeout''])"

definition is_transient_transport_failure :: "go_error option \<Rightarrow> bool" where
  "is_transient_transport_failure e \<longleftrightarrow>
     error_code e \<in> set [''smtp_timeout'', ''smtp_transfer_timeout''] \<or> is_transient_read_failure e"

text \<open>\<open>TaggedIMAPRejection\<close>: the first transport error's own rejection, else a search below each node.\<close>

fun tagged_rejection :: "go_error \<Rightarrow> imap_rejection option"
  and tagged_rejections :: "go_error list \<Rightarrow> imap_rejection option" where
  "tagged_rejection e = (case errors_as_transport e of
     Some (_, Some r, _) \<Rightarrow> Some r
   | _ \<Rightarrow> (case e of
       JoinErr es \<Rightarrow> tagged_rejections es
     | TransportErr _ _ (Some e) \<Rightarrow> tagged_rejection e
     | SubmissionErr _ (Some e) \<Rightarrow> tagged_rejection e
     | MutationErr _ _ (Some e) \<Rightarrow> tagged_rejection e
     | CodedErr _ (Some e) \<Rightarrow> tagged_rejection e
     | OperationErr _ _ (Some e) \<Rightarrow> tagged_rejection e
     | SaveOutcomeErr _ _ (Some e) \<Rightarrow> tagged_rejection e
     | ExportOutcomeErr _ e \<Rightarrow> tagged_rejection e
     | AdoptionErr _ _ e \<Rightarrow> tagged_rejection e
     | Wrapped e \<Rightarrow> tagged_rejection e
     | _ \<Rightarrow> None))"
| "tagged_rejections [] = None"
| "tagged_rejections (e # es) = (case tagged_rejection e of Some r \<Rightarrow> Some r | None \<Rightarrow> tagged_rejections es)"

definition is_transient_read_rejection :: "go_error \<Rightarrow> bool" where
  "is_transient_read_rejection e = (case tagged_rejection e of None \<Rightarrow> False
     | Some r \<Rightarrow> ir_status r = ''NO'' \<and> ir_response_code r = Some ''UNAVAILABLE''
         \<and> ir_command r \<in> set [''LIST'', ''SEARCH'', ''UID SEARCH'', ''STATUS'', ''SELECT''])"

definition is_rejected_submission :: "go_error option \<Rightarrow> bool" where
  "is_rejected_submission e \<longleftrightarrow> error_code e = ''smtp_rejected''"

definition is_submission_outcome_unknown :: "go_error option \<Rightarrow> bool" where
  "is_submission_outcome_unknown e \<longleftrightarrow> error_code e = code_submission_unknown"

definition is_mutation_outcome_unknown :: "go_error option \<Rightarrow> bool" where
  "is_mutation_outcome_unknown e \<longleftrightarrow> error_code e \<in>
     set [''imap_copy_outcome_unknown'', ''imap_move_outcome_unknown'', ''imap_flags_outcome_unknown'']"

definition is_timeout :: "go_error option \<Rightarrow> bool" where
  "is_timeout e \<longleftrightarrow> error_code e = ''imap_timeout''"

definition is_mirror_outcome_uncertain :: "go_error option \<Rightarrow> bool" where
  "is_mirror_outcome_uncertain e \<longleftrightarrow>
     error_code e \<in> set [''imap_append_outcome_unknown'', ''imap_ambiguous_message_id'']"

definition is_configuration_failure :: "go_error option \<Rightarrow> bool" where
  "is_configuration_failure e \<longleftrightarrow> is_tls_verification_failure e \<or> error_code e \<in> set [''smtp_auth_failed'',
     ''smtp_credentials_missing'', ''imap_auth_failed'', ''smtp_tls_failed'', ''transport_unsupported_provider'',
     ''smtp_utf8_unsupported'']"

section \<open>Transfer budgets\<close>

text \<open>\<open>TransferBudgetForSize\<close>, in nanoseconds: the division comes before the conversion to a duration.\<close>

definition transfer_budget :: "64 word \<Rightarrow> 64 word" where
  "transfer_budget bytes = (if bytes \<le>s 0 then 30000000000
     else let seconds = drop_bit 20 bytes
          in if 870 \<le>s seconds then 900000000000 else 30000000000 + seconds * 1000000000)"

section \<open>What the classification guarantees\<close>

lemma filter_hd: "filter P xs = y # ys \<Longrightarrow> y \<in> set xs \<and> P y"
proof -
  assume f: "filter P xs = y # ys"
  then have "y \<in> set (filter P xs)" by simp
  then show "y \<in> set xs \<and> P y" by simp
qed

lemma error_code_uncertain:
  assumes "errors_is_code e c" "c \<in> set uncertain_codes"
  shows "error_code (Some e) \<in> set uncertain_codes \<and> errors_is_code e (error_code (Some e))"
proof (cases "filter (errors_is_code e) uncertain_codes")
  case Nil
  then show ?thesis using assms by (auto simp: filter_empty_conv)
next
  case (Cons d ds)
  then show ?thesis using filter_hd [OF Cons] by (simp add: error_code_def)
qed

lemma errors_is_join: "errors_is_code (JoinErr es) c \<longleftrightarrow> (\<exists>e \<in> set es. errors_is_code e c)"
  by (auto simp: errors_is_code_def list_ex_iff)

lemma errors_is_cause [simp]:
  "errors_is_code (Wrapped e) c = errors_is_code e c"
  "errors_is_code (TransportErr d r (Some e)) c \<longleftrightarrow> d = c \<or> errors_is_code e c"
  "errors_is_code (CodedErr d (Some e)) c \<longleftrightarrow> errors_is_code e c"
  by (simp_all add: errors_is_code_def)

lemma uncertain_not_definite:
  "c \<in> set uncertain_codes \<Longrightarrow> c \<notin> {''smtp_rejected'', ''smtp_timeout'', ''smtp_transfer_timeout'', ''imap_connect_failed'',
     ''imap_fetch_failed'', ''imap_canceled'', ''imap_disconnected'', ''imap_timeout''}"
  by (auto simp: uncertain_codes_def code_submission_unknown_def)

lemma uncertainty_never_hidden_facts:
  assumes "errors_is_code e c" "c \<in> set uncertain_codes"
  shows "error_code (Some e) \<in> set uncertain_codes \<and> \<not> is_rejected_submission (Some e)
    \<and> \<not> is_transient_transport_failure (Some e) \<and> \<not> is_configuration_failure (Some e)"
proof -
  have u: "error_code (Some e) \<in> set uncertain_codes" using error_code_uncertain [OF assms] by simp
  moreover have "error_code (Some e) \<notin> {''smtp_auth_failed'', ''smtp_credentials_missing'', ''imap_auth_failed'',
      ''smtp_tls_failed'', ''transport_unsupported_provider'', ''smtp_utf8_unsupported''}"
    using u by (auto simp: uncertain_codes_def code_submission_unknown_def)
  ultimately show ?thesis
    using uncertain_not_definite [OF u]
    by (simp add: is_rejected_submission_def is_transient_transport_failure_def is_transient_read_failure_def
        is_configuration_failure_def is_tls_verification_failure_def Let_def)
qed

text \<open>C15. Uncertainty is never hidden: when an error that means an unknown outcome is anywhere in a
  tree of wrapped and joined errors, the tree is classified as uncertain, and never as a rejection, a
  transient failure or a configuration problem, which callers retry or correct and resend.\<close>

theorem uncertainty_never_hidden:
  assumes "errors_is_code e c" "c \<in> set uncertain_codes"
  shows "error_code (Some e) \<in> set uncertain_codes \<and> \<not> is_rejected_submission (Some e)
    \<and> \<not> is_transient_transport_failure (Some e) \<and> \<not> is_configuration_failure (Some e)"
  using uncertainty_never_hidden_facts [OF assms] .

theorem uncertainty_never_hidden_witness:
  "error_code (Some (JoinErr [TransportErr ''smtp_timeout'' None (Some NetworkErr), Wrapped (SubmissionErr ''DATA'' None)]))
     \<in> set uncertain_codes"
  using uncertainty_never_hidden [of "JoinErr [TransportErr ''smtp_timeout'' None (Some NetworkErr), Wrapped (SubmissionErr ''DATA'' None)]"
      code_submission_unknown]
  by (simp add: errors_is_code_def uncertain_codes_def)

lemma sint_small: "uint (x :: 64 word) < 9223372036854775808 \<Longrightarrow> sint x = uint x"
proof -
  assume "uint x < 9223372036854775808"
  moreover have "- (2 ^ 63) \<le> uint x" by (rule order_trans [OF _ uint_ge_0]) simp
  ultimately have "signed_take_bit 63 (uint x) = uint x" by (intro signed_take_bit_int_eq_self) simp_all
  then show ?thesis by (simp add: sint_uint)
qed

lemma uint_mebibytes: "uint (drop_bit 20 (x :: 64 word)) = uint x div 1048576"
proof -
  have "uint (drop_bit 20 x) = drop_bit 20 (take_bit 64 (uint x))" by (simp only: unsigned_drop_bit_eq) simp
  also have "take_bit 64 (uint x) = uint x" using uint_lt2p [of x] by (intro take_bit_int_eq_self) simp_all
  finally show ?thesis by (simp add: drop_bit_eq_div)
qed

lemma uint_of_nonneg:
  assumes "0 \<le> sint (x :: 64 word)"
  shows "uint x = sint x" "uint x < 9223372036854775808"
proof -
  have "sint x < 9223372036854775808" using sint_lt [of x] by simp
  then show "uint x = sint x" using assms by (simp add: uint_sint take_bit_int_eq_self)
  then show "uint x < 9223372036854775808" using \<open>sint x < _\<close> by simp
qed

text \<open>The whole MiB of a size, and the budget computed from them without overflow.\<close>

lemma transfer_budget_value:
  "sint (transfer_budget bytes) = (if sint bytes \<le> 0 then 30000000000
     else 30000000000 + min 870 (sint bytes div 1048576) * 1000000000)"
proof (cases "sint bytes \<le> 0")
  case True
  then show ?thesis by (simp add: transfer_budget_def word_sle_eq)
next
  case False
  define k where "k = sint bytes div 1048576"
  have b: "uint bytes = sint bytes" "uint bytes < 9223372036854775808" using uint_of_nonneg [of bytes] False by simp_all
  then have k: "0 \<le> k" "k < 8796093022208" using False by (simp_all add: k_def)
  have u: "uint (drop_bit 20 bytes) = k" by (simp only: k_def b uint_mebibytes)
  then have s: "sint (drop_bit 20 bytes) = k" using k by (simp add: sint_small)
  show ?thesis
  proof (cases "870 \<le> k")
    case True
    then show ?thesis using False s by (simp add: transfer_budget_def word_sle_eq Let_def k_def)
  next
    case small: False
    have "drop_bit 20 bytes = word_of_int k" using u by (metis word_of_int_uint)
    then have "30000000000 + drop_bit 20 bytes * 1000000000 = (word_of_int (30000000000 + k * 1000000000) :: 64 word)"
      by simp
    moreover have "sint (word_of_int v :: 64 word) = v" if "0 \<le> v" "v < 9223372036854775808" for v
    proof -
      have "uint (word_of_int v :: 64 word) = v" using that by (simp add: uint_word_of_int)
      then show ?thesis using that(2) by (simp add: sint_small)
    qed
    from this [of "30000000000 + k * 1000000000"]
    have "sint (word_of_int (30000000000 + k * 1000000000) :: 64 word) = 30000000000 + k * 1000000000"
      using k(1) small by linarith
    ultimately have "sint (30000000000 + drop_bit 20 bytes * 1000000000) = 30000000000 + k * 1000000000" by metis
    then show ?thesis using False small s k(1) by (simp add: transfer_budget_def word_sle_eq Let_def flip: k_def)
  qed
qed

text \<open>The budget of a transfer of any 64-bit size is between 30 seconds and 15 minutes, grows with
  the size, and never overflows: it is 30 seconds and one second for each whole MiB, up to the cap.\<close>

theorem transfer_budget_bounds:
  "30000000000 \<le> sint (transfer_budget a) \<and> sint (transfer_budget a) \<le> 900000000000
   \<and> sint (transfer_budget a) = min 900000000000 (30000000000 + max 0 (sint a) div 1048576 * 1000000000)"
  by (auto simp: transfer_budget_value min_def max_def)

end
