(* ===== verification/Operation_Guidance.thy ===== *)
theory Operation_Guidance
  imports Transport_Errors Go_Strings
begin

text \<open>
  What a failed operation tells its caller (\<open>src/internal/mail/guidance.go\<close>, \<open>guidance_pre_effect.go\<close>):
  the phase it stopped in, what is certain about its effects, and whether the same command may be run
  again. \<open>GuidanceForError\<close> decides from the command and the error tree of \<open>Transport_Errors\<close>.

  The trees carry no messages. The one decision taken on the text of an error, whether a rejected
  submission calls itself a transient final rejection, is the argument \<open>transient_reply\<close>.
\<close>

section \<open>Guidance\<close>

datatype retryability = Retry_Safe | Retry_Observe | Retry_User_Input | Retry_Terminal

datatype recovery_action = Recovery_Retry | Recovery_Observe | Recovery_Reconcile | Recovery_Correct
  | Recovery_Inspect | Recovery_None

record recovery_guidance =
  rg_action :: recovery_action
  rg_command :: string
  rg_args :: "string list"
  rg_operation_id :: string
  rg_instruction :: string

record operation_guidance =
  og_phase :: operation_phase
  og_certainty :: effect_certainty
  og_retryability :: retryability
  og_replay_allowed :: bool
  og_recovery :: recovery_guidance

definition recovery :: "recovery_action \<Rightarrow> string \<Rightarrow> recovery_guidance" where
  "recovery action instruction = \<lparr>rg_action = action, rg_command = [], rg_args = [], rg_operation_id = [],
     rg_instruction = instruction\<rparr>"

text \<open>A guidance without instruction, command and operation.\<close>

definition guidance :: "operation_phase \<Rightarrow> effect_certainty \<Rightarrow> retryability \<Rightarrow> bool \<Rightarrow> recovery_action \<Rightarrow> operation_guidance" where
  "guidance p c r replay action = \<lparr>og_phase = p, og_certainty = c, og_retryability = r,
     og_replay_allowed = replay, og_recovery = recovery action []\<rparr>"

definition guidance_for_input :: operation_guidance where
  "guidance_for_input = guidance Phase_Validation Effect_None Retry_User_Input False Recovery_Correct"

definition guidance_for_read :: operation_guidance where
  "guidance_for_read = guidance Phase_Read Effect_None Retry_Safe True Recovery_Retry"

definition guidance_for_read_correction :: "string \<Rightarrow> operation_guidance" where
  "guidance_for_read_correction instruction = \<lparr>og_phase = Phase_Read, og_certainty = Effect_None,
     og_retryability = Retry_User_Input, og_replay_allowed = False, og_recovery = recovery Recovery_Correct instruction\<rparr>"

definition guidance_for_unknown_read :: operation_guidance where
  "guidance_for_unknown_read = guidance Phase_Read Effect_None Retry_Observe False Recovery_Inspect"

definition guidance_for_terminal_read :: operation_guidance where
  "guidance_for_terminal_read = guidance Phase_Read Effect_None Retry_Terminal False Recovery_Inspect"

definition guidance_for_unknown :: "operation_phase \<Rightarrow> operation_guidance" where
  "guidance_for_unknown p = guidance p Effect_Unknown Retry_Observe False Recovery_Inspect"

definition guidance_for_send_unknown :: operation_guidance where
  "guidance_for_send_unknown = guidance Phase_Submission Effect_Unknown Retry_Observe False Recovery_Reconcile"

definition guidance_for_mirror_unknown :: operation_guidance where
  "guidance_for_mirror_unknown = guidance Phase_Mirror Effect_Partial Retry_Observe False Recovery_Reconcile"

definition guidance_for_handoff_unknown :: operation_guidance where
  "guidance_for_handoff_unknown = guidance Phase_Execution Effect_Unknown Retry_Observe False Recovery_Reconcile"

section \<open>Commands\<close>

definition is_mailbox_mutation_command :: "string \<Rightarrow> bool" where
  "is_mailbox_mutation_command command \<longleftrightarrow> command \<in> set [''messages.mark'', ''messages.move'', ''messages.copy'',
     ''messages.delete'', ''mark'', ''move'', ''copy'', ''delete'']"

definition effectful_command :: "string \<Rightarrow> bool" where
  "effectful_command command \<longleftrightarrow> command \<in> set [''batch'', ''update'', ''attachments.save'', ''attachment_save'',
       ''send.setup'', ''sync'', ''drafts.create'', ''drafts.edit'', ''drafts.handoff'', ''drafts.update'',
       ''drafts.adopt'', ''drafts.send'', ''drafts.reconcile'', ''drafts.handoff-reconcile'', ''drafts.discard'',
       ''drafts.prune'', ''messages.reply'', ''messages.forward'']
     \<or> is_mailbox_mutation_command command"

definition default_phase :: "string \<Rightarrow> operation_phase" where
  "default_phase command =
     (if command = ''drafts.send'' then Phase_Submission
      else if command = ''drafts.reconcile'' then Phase_Mirror
      else if command = ''drafts.handoff-reconcile'' then Phase_Cleanup
      else if is_mailbox_mutation_command command \<or> has_prefix command ''messages.'' then Phase_Mutation
      else Phase_Execution)"

section \<open>Error codes\<close>

definition is_input_error_code :: "string \<Rightarrow> bool" where
  "is_input_error_code code \<longleftrightarrow> code \<in> set [''invalid_argument'', ''invalid_input'', ''missing_required'',
     ''unknown_command'', ''confirmation_required''] \<or> has_prefix code ''invalid_''"

definition context_error_code :: "go_error option \<Rightarrow> string" where
  "context_error_code e = (if errors_has e [CanceledErr] then ''operation_canceled''
     else if errors_has e [DeadlineErr] then ''operation_timeout'' else [])"

definition guidance_error_code :: "go_error option \<Rightarrow> string" where
  "guidance_error_code e = (if e = None then []
     else if error_code e \<noteq> [] then error_code e
     else if context_error_code e \<noteq> [] then context_error_code e
     else ''operation_failed'')"

definition pre_effect_correction_codes :: "string list" where
  "pre_effect_correction_codes = [
     ''account_binding_account_degraded'', ''account_binding_ambiguous'', ''account_binding_host_invalid'',
     ''account_binding_invalid'', ''account_binding_missing'', ''account_binding_provider_invalid'',
     ''account_binding_provider_mismatch'', ''account_binding_stale'', ''account_binding_version_unsupported'',
     ''account_catalog_incomplete'', ''account_degraded'', ''account_disabled'', ''account_identity_missing'',
     ''account_no_email'', ''account_not_found'', ''account_reference_invalid'',
     ''account_reference_version_unsupported'', ''adopt_source_incomplete'', ''ambiguous_attachment'',
     ''ambiguous_mail_store_generation'', ''attachment_not_downloaded'', ''draft_mutation_confirmation_required'',
     ''editor_canceled'', ''editor_failed'', ''editor_terminal_unavailable'', ''editor_unavailable'',
     ''forward_source_incomplete'', ''handoff_attachment_changed'', ''handoff_attachment_missing'',
     ''handoff_attachment_unreadable'', ''handoff_attempt_mismatch'', ''handoff_not_dispatched'',
     ''handoff_not_found'', ''imap_credentials_missing'', ''interactive_required'', ''keychain_delete_failed'',
     ''keychain_invalid_identifier'', ''keychain_item_duplicate'', ''keychain_item_not_found'',
     ''keychain_load_failed'', ''keychain_store_failed'', ''keychain_unsupported'', ''mail_service_unavailable'',
     ''mail_store_preferences_invalid'', ''mail_store_preferences_unavailable'', ''mail_store_unavailable'',
     ''mail_store_not_initialized'', ''message_source_missing'', ''not_found'', ''prune_candidate_limit_exceeded'',
     ''raw_source_partial'', ''ambiguous_mailbox'', ''stale_reference'', ''attachment_changed'',
     ''safe_write_unavailable'', ''send_transport_unavailable'', ''smtp_credentials_missing'',
     ''unsupported_mail_store_schema'', ''imap_ambiguous_message_id'', ''imap_message_uid_unknown'',
     ''local_only_mailbox'', ''transport_unsupported_provider'']"

definition pre_effect_inspection_codes :: "string list" where
  "pre_effect_inspection_codes = [
     ''account_reference_corrupt'', ''ambiguous_message_source'', ''attachment_resource_limit'',
     ''mail_store_not_read_only'', ''mail_store_path_mismatch'', ''mime_resource_limit'', ''message_already_trashed'']"

definition pre_effect_retry_codes :: "string list" where
  "pre_effect_retry_codes = [
     ''account_binding_busy'', ''prune_state_changed'', ''update_busy'', ''update_check_failed'',
     ''update_download_failed'']"

definition pre_effect_terminal_codes :: "string list" where
  "pre_effect_terminal_codes = [
     ''account_binding_unsafe'', ''capability_schema_invalid'', ''compose_automation_unsupported'',
     ''list_identity_invalid'', ''send_receipt_expired'', ''send_receipt_unavailable'', ''unsupported_platform'',
     ''update_checksum_invalid'', ''update_checksum_mismatch'', ''update_host_untrusted'', ''update_lock_failed'',
     ''update_package_invalid'', ''update_package_missing'', ''update_redirect_invalid'', ''update_redirect_limit'',
     ''update_signature_invalid'', ''update_unsupported_platform'', ''update_url_insecure'', ''update_url_invalid'',
     ''update_url_invalid_port'']"

definition read_terminal_codes :: "string list" where
  "read_terminal_codes = [
     ''draft_lock_changed'', ''draft_lock_unsafe'']"


definition guidance_for_pre_effect :: "string \<Rightarrow> string \<Rightarrow> operation_guidance option" where
  "guidance_for_pre_effect command code =
     (let phase = (if effectful_command command then Phase_Validation else Phase_Read)
      in if code \<in> set read_terminal_codes \<and> \<not> effectful_command command
           then Some (guidance phase Effect_None Retry_Terminal False Recovery_Inspect)
         else if code \<in> set pre_effect_correction_codes
           then Some (guidance phase Effect_None Retry_User_Input False Recovery_Correct)
         else if code \<in> set pre_effect_inspection_codes \<or> code \<in> set pre_effect_terminal_codes
           then Some (guidance phase Effect_None Retry_Terminal False Recovery_Inspect)
         else if code \<in> set pre_effect_retry_codes
           then Some (guidance phase Effect_None Retry_Safe True Recovery_Retry)
         else None)"

section \<open>Known read errors\<close>

definition read_access_instructions :: "(string \<times> string) list" where
  "read_access_instructions = [
     (''mail_store_preferences_invalid'',
      ''Open Mail.app and restore a valid local store configuration before retrying this read.''),
     (''account_disabled'',
      ''Enable this account in Mail.app, then retry the read.''),
     (''account_degraded'',
      ''Inspect `mailcli accounts list --json` for the account's degraded reason and remediation, correct the account in Mail.app, then retry the read.''),
     (''account_identity_missing'',
      ''Configure the account's verified sender identity and credentials with `mailcli send setup`, then retry the read.''),
     (''account_binding_invalid'',
      ''Restore a valid account binding or correct it through the supported `mailcli send setup` flow; preserve existing binding data and do not replace it with guessed values.''),
     (''account_binding_host_invalid'',
      ''Correct the account binding's host and port values to satisfy the existing MailCLI endpoint rules, then retry the read.''),
     (''account_binding_provider_mismatch'',
      ''Configure the sender alias and credential account for the same supported provider, then retry the read.''),
     (''account_binding_version_unsupported'',
      ''Use a MailCLI build that supports the existing account-binding version; preserve the binding file and retry with that build.''),
     (''account_reference_version_unsupported'',
      ''Use a MailCLI build that supports the account-reference version in the local catalog; preserve the catalog entry and retry with that build.''),
     (''account_binding_unavailable'',
      ''Correct access to the existing account-binding file or its parent directory, then retry the read; preserve the file contents.''),
     (''account_binding_stale'',
      ''Inspect `mailcli accounts list --json`, then correct the binding to an enabled account through `mailcli send setup` before retrying this read; preserve existing binding data.''),
     (''mail_automation_denied'',
      ''Allow the calling app to control Mail in System Settings > Privacy & Security > Automation, then retry the read.''),
     (''mail_not_running'',
      ''Open Mail.app and allow its account catalog to finish loading, then retry the read.''),
     (''mail_recovery_required'',
      ''Quit and reopen Mail.app to resolve its retained operation state, then retry this read; inspect any prior effectful operation before replaying it.'')]"

definition read_source_instructions :: "(string \<times> string) list" where
  "read_source_instructions = [
     (''invalid_reference'',
      ''Use a current opaque reference emitted by the matching MailCLI listing command; do not edit the reference manually.''),
     (''ambiguous_reference'',
      ''Refresh the account or mailbox listing, resolve any duplicate account IDs or mailbox names in Mail.app, then retry with a current reference that selects one target.''),
     (''stale_cursor'',
      ''Restart this Mail.app listing without the stale --cursor value, then continue with the fresh next_cursor returned by the first page.''),
     (''content_unavailable'',
      ''A consumed send receipt has no draft body to export; remove `--export` and inspect the retained receipt metadata instead.''),
     (''content_incomplete'',
      ''Open Mail.app and let it finish downloading this message, then retry the export after the message reports complete content.''),
     (''local_only_mailbox'',
      ''Read this message from Mail.app's local store, or choose a server-backed mailbox before retrying IMAP hydration.''),
     (''store_bound_reference_required'',
      ''Resolve a current store-bound message reference from this Mail store, then retry the read.''),
     (''mailbox_uidvalidity_changed'',
      ''Resolve a fresh message reference after Mail.app synchronizes the changed mailbox identity, then retry the read.''),
     (''stale_reference'',
      ''Correct the mailbox or message reference, then retry this read.''),
     (''imap_mailbox_not_found'',
      ''Correct the mailbox or message reference, then retry this read.''),
     (''imap_message_not_found'',
      ''Correct the mailbox or message reference, then retry this read.''),
     (''imap_ambiguous_mailbox'',
      ''Correct the mailbox or message reference, then retry this read.''),
     (''message_source_missing'',
      ''Open Mail once and allow it to download this message, then retry the read.''),
     (''raw_source_invalid_utf8'',
      ''Use messages raw --export /absolute/new/path --json or stream without --json to preserve the exact RFC source bytes; do not repair or transcode the source.''),
     (''raw_source_partial'',
      ''Make a complete source available in Mail.app or through the configured targeted IMAP read, then retry; use only a verified complete source.''),
     (''imap_message_uid_unknown'',
      ''Refresh the local Mail catalog or provide a fresh Message-ID-backed reference with a verified mailbox UID, then retry this read.''),
     (''imap_ambiguous_message_id'',
      ''Resolve the ambiguous message matches in the target mailbox, or obtain a fresh reference with a uniquely verified UID and UIDVALIDITY, then retry.''),
     (''search_count_limit_exceeded'',
      ''Narrow the search or deliberately raise its candidate limit before retrying.''),
     (''ambiguous_attachment'',
      ''Choose an attachment identifier that resolves to one attachment before retrying.'')]"

definition terminal_read_codes :: "string list" where
  "terminal_read_codes = [
     ''account_catalog_incomplete'', ''attachment_resource_limit'', ''ambiguous_mail_store_generation'',
     ''account_reference_corrupt'', ''account_reference_invalid'', ''ambiguous_message_source'',
     ''content_export_changed'', ''imap_flag_read_unsupported'', ''invalid_emlx'', ''invalid_mailbox_cache'',
     ''invalid_message_source'', ''mail_store_not_read_only'', ''mailbox_cache_malformed'',
     ''mail_store_path_mismatch'', ''mailbox_catalog_incomplete'', ''mailbox_info_malformed'',
     ''mime_resource_limit'', ''raw_source_too_large'', ''store_changed'', ''unsafe_message_source'',
     ''unsupported_mail_store_schema'', ''search_unavailable'', ''draft_state_error'', ''send_receipt_invalid'',
     ''imap_message_uid_mismatch'', ''imap_response_malformed'', ''mailbox_uidvalidity_unknown'']"

definition is_mail_store_availability_error :: "string \<Rightarrow> bool" where
  "is_mail_store_availability_error code \<longleftrightarrow> code \<in> set [''mail_store_unavailable'',
     ''mail_store_preferences_unavailable'', ''safe_mailbox_listing_unavailable'', ''safe_search_unavailable'']"

definition guidance_for_known_read_error :: "string \<Rightarrow> operation_guidance option" where
  "guidance_for_known_read_error code =
     (if code = ''mail_store_not_initialized'' then Some (guidance_for_read_correction
        ''Ask the user to open Mail.app, configure an account and let its initial download finish; then run `mailcli doctor --json`. MailCLI does not create Apple's store or choose an account for the user.'')
      else if is_mail_store_availability_error code then Some (guidance_for_read_correction
        ''Grant Full Disk Access to the calling app, or open Mail once to create its local store, then retry the read.'')
      else (case map_of read_access_instructions code of
          Some instruction \<Rightarrow> Some (guidance_for_read_correction instruction)
        | None \<Rightarrow> (case map_of read_source_instructions code of
              Some instruction \<Rightarrow> Some (guidance_for_read_correction instruction)
            | None \<Rightarrow> if code \<in> set terminal_read_codes then Some guidance_for_terminal_read else None)))"

section \<open>Outcome errors\<close>

definition errors_first :: "(go_error \<Rightarrow> 'a option) \<Rightarrow> go_error option \<Rightarrow> 'a option" where
  "errors_first f e = (case e of None \<Rightarrow> None | Some e \<Rightarrow> first_some f (error_nodes e))"

fun as_mutation :: "go_error \<Rightarrow> mutation_report option" where
  "as_mutation (MutationErr _ ev _) = Some ev"
| "as_mutation _ = None"

fun as_save_outcome :: "go_error \<Rightarrow> (operation_phase \<times> effect_certainty \<times> go_error option) option" where
  "as_save_outcome (SaveOutcomeErr p c e) = Some (p, c, e)"
| "as_save_outcome _ = None"

fun as_export_outcome :: "go_error \<Rightarrow> effect_certainty option" where
  "as_export_outcome (ExportOutcomeErr c _) = Some c"
| "as_export_outcome _ = None"

fun as_adoption :: "go_error \<Rightarrow> (bool \<times> bool \<times> go_error) option" where
  "as_adoption (AdoptionErr p r e) = Some (p, r, e)"
| "as_adoption _ = None"

fun as_operation :: "go_error \<Rightarrow> string option" where
  "as_operation (OperationErr _ draft _) = Some draft"
| "as_operation _ = None"

definition is_store :: "mutation_report \<Rightarrow> bool" where
  "is_store ev \<longleftrightarrow> mr_command ev = ''STORE''"

definition is_transfer :: "mutation_report \<Rightarrow> bool" where
  "is_transfer ev \<longleftrightarrow> mr_command ev = ''COPY'' \<or> mr_command ev = ''MOVE''"

definition has_partial_effects :: "mutation_report \<Rightarrow> bool" where
  "has_partial_effects ev \<longleftrightarrow> mr_completed_effects ev \<noteq> [] \<or> mr_outcome ev = ''partial''"

definition store_rejected_or_not_started :: "mutation_report \<Rightarrow> bool" where
  "store_rejected_or_not_started ev \<longleftrightarrow> is_store ev \<and> mr_outcome ev \<in> set [''not_started'', ''rejected'']"

definition guidance_for_mutation_unknown :: "go_error option \<Rightarrow> operation_guidance" where
  "guidance_for_mutation_unknown e =
     (let g = guidance Phase_Mutation Effect_Unknown Retry_Observe False Recovery_Observe
      in case errors_first as_mutation e of None \<Rightarrow> g
       | Some ev \<Rightarrow>
           (let g = g\<lparr>og_recovery := (og_recovery g)\<lparr>rg_operation_id := mr_operation_id ev\<rparr>\<rparr>;
                g = (if has_partial_effects ev then g\<lparr>og_certainty := Effect_Partial\<rparr>
                     else if store_rejected_or_not_started ev
                       \<or> is_transfer ev \<and> mr_outcome ev \<in> set [''not_started'', ''rejected'']
                     then g\<lparr>og_certainty := Effect_None\<rparr> else g)
            in if is_transfer ev \<and> mr_outcome ev = ''not_started'' \<and> \<not> has_partial_effects ev
               then (if is_input_error_code (guidance_error_code e) \<or> is_configuration_failure e
                     then g\<lparr>og_retryability := Retry_User_Input, og_recovery := (og_recovery g)\<lparr>rg_action := Recovery_Correct\<rparr>\<rparr>
                     else if errors_has e [CanceledErr] \<or> errors_has e [DeadlineErr] \<or> is_transient_transport_failure e
                     then g\<lparr>og_retryability := Retry_Safe, og_replay_allowed := True,
                            og_recovery := (og_recovery g)\<lparr>rg_action := Recovery_Retry\<rparr>\<rparr>
                     else g)
               else g))"

definition guidance_for_smtp_rejection :: "bool \<Rightarrow> operation_guidance" where
  "guidance_for_smtp_rejection transient =
     (if transient then guidance Phase_Submission Effect_None Retry_Safe True Recovery_Retry
      else guidance Phase_Submission Effect_None Retry_User_Input False Recovery_Correct)"

definition guidance_for_access_gate_preflight :: "string \<Rightarrow> string \<Rightarrow> operation_guidance option" where
  "guidance_for_access_gate_preflight command code =
     (let phase = (if effectful_command command then Phase_Execution else Phase_Read)
      in if code = ''mail_access_gate_corrupt'' then Some \<lparr>og_phase = phase, og_certainty = Effect_None,
           og_retryability = Retry_User_Input, og_replay_allowed = False, og_recovery = recovery Recovery_Correct
             ''Quit Mail.app and retry this same operation while it is stopped. MailCLI clears only verified recovery-state contents and returns mail_not_running; then reopen Mail.app and retry. Never delete or replace mail-access.lock.''\<rparr>
         else if code = ''mail_access_gate_unsafe'' then Some \<lparr>og_phase = phase, og_certainty = Effect_None,
           og_retryability = Retry_Terminal, og_replay_allowed = False, og_recovery = recovery Recovery_Inspect
             ''No Mail.app action was dispatched. Inspect the existing MailCLI access directory and lock ownership, type, link count, and identity; preserve the lock and use a verified recovery plan before retrying. Never delete or replace mail-access.lock.''\<rparr>
         else if code = ''mail_not_running'' \<and> effectful_command command then Some \<lparr>og_phase = phase, og_certainty = Effect_None,
           og_retryability = Retry_User_Input, og_replay_allowed = False, og_recovery = recovery Recovery_Correct
             ''Open Mail.app, allow it to finish loading, then retry this same operation; no action was dispatched.''\<rparr>
         else None)"

definition is_attachment_save_input_error :: "string \<Rightarrow> bool" where
  "is_attachment_save_input_error code \<longleftrightarrow> code \<in> set [''invalid_argument'', ''invalid_input'', ''missing_required'']"

definition guidance_for_attachment_save_correction :: "go_error option \<Rightarrow> string \<Rightarrow> operation_guidance option" where
  "guidance_for_attachment_save_correction cause code =
     (if is_attachment_save_input_error code \<or> is_configuration_failure cause then Some guidance_for_input
      else if errors_has cause [PermissionErr, ErrnoErr True] then Some (guidance_for_read_correction
        ''Correct access to the Mail source or output directory before retrying this attachment save.'')
      else if code = ''not_found'' then Some (guidance_for_read_correction
        ''Refresh the message and attachment listings, then retry with a current message reference and an attachment ID present on that message.'')
      else if code = ''attachment_not_downloaded'' then Some (guidance_for_read_correction
        ''Download the attachment in Mail.app or configure targeted IMAP hydration, then retry the save.'')
      else None)"

definition is_resource_limit_exceeded :: "go_error option \<Rightarrow> bool" where
  "is_resource_limit_exceeded e \<longleftrightarrow> error_code e = ''imap_resource_limit_exceeded''"

definition guidance_for_attachment_save_no_effect :: "go_error option \<Rightarrow> string \<Rightarrow> operation_phase \<Rightarrow> operation_guidance" where
  "guidance_for_attachment_save_no_effect cause code phase =
     (case guidance_for_attachment_save_correction cause code of Some g \<Rightarrow> g
      | None \<Rightarrow>
          if code = ''attachment_changed'' \<or> code = ''imap_fetch_failed'' \<and> \<not> is_transient_read_failure cause
          then guidance phase Effect_None Retry_Terminal False Recovery_Inspect
          else (case guidance_for_known_read_error code of Some g \<Rightarrow> g
            | None \<Rightarrow>
                if errors_has cause [CanceledErr] \<or> errors_has cause [DeadlineErr]
                  \<or> code \<in> set [''operation_canceled'', ''operation_timeout'', ''mail_busy'',
                       ''mail_automation_timeout'', ''mail_process_changed'']
                  \<or> is_transient_read_failure cause
                then guidance_for_read\<lparr>og_phase := phase\<rparr>
                else if is_resource_limit_exceeded cause
                then guidance phase Effect_None Retry_Terminal False Recovery_Inspect
                else guidance phase Effect_None Retry_Observe False Recovery_Inspect))"

definition guidance_for_attachment_save_outcome ::
    "operation_phase \<times> effect_certainty \<times> go_error option \<Rightarrow> string \<Rightarrow> operation_guidance" where
  "guidance_for_attachment_save_outcome outcome code = (case outcome of (p, certainty, cause) \<Rightarrow>
     (let phase = (if p = Phase_Other [] then Phase_Execution else p)
      in if certainty = Effect_None then guidance_for_attachment_save_no_effect cause code phase
         else guidance phase
           (if certainty \<in> {Effect_Complete, Effect_Partial, Effect_Unknown} then certainty else Effect_Unknown)
           Retry_Observe False Recovery_Inspect))"

section \<open>GuidanceForError\<close>

text \<open>A tagged rejection of an IMAP command; \<open>None\<close> continues with the later rules.\<close>

definition guidance_for_tagged_rejection :: "string \<Rightarrow> string \<Rightarrow> go_error option \<Rightarrow> imap_rejection \<Rightarrow> operation_guidance option" where
  "guidance_for_tagged_rejection command code e rejection =
     (if command = ''drafts.send'' \<or> command = ''drafts.reconcile'' then
        Some (guidance_for_mirror_unknown\<lparr>og_recovery := recovery Recovery_Reconcile
          (if code = ''imap_quota_exceeded'' then
             ''Free space in the Sent mailbox or correct its quota, then run drafts.reconcile; never repeat SMTP.''
           else if code = ''imap_mailbox_not_found'' then
             ''Restore or select the correct Sent mailbox, then run drafts.reconcile; never repeat SMTP.''
           else if code = ''imap_auth_failed'' then
             ''Correct the bound IMAP credentials, then run drafts.reconcile; never repeat SMTP.''
           else if ir_status rejection = ''NO'' \<and> ir_response_code rejection = Some ''UNAVAILABLE'' then
             ''Wait for the IMAP service to recover, then run drafts.reconcile; never repeat SMTP.''
           else
             ''Inspect error.imap_rejection, correct the server-side cause, then run drafts.reconcile; never repeat SMTP.'')\<rparr>)
      else if (case e of None \<Rightarrow> False | Some e \<Rightarrow> is_transient_read_rejection e) then Some guidance_for_read
      else if code = ''imap_auth_failed'' then None
      else if code = ''imap_mailbox_not_found'' then Some (guidance_for_read_correction
        ''Correct the requested mailbox on the IMAP server, then retry the operation.'')
      else if code = ''imap_quota_exceeded'' then Some \<lparr>og_phase = Phase_Validation, og_certainty = Effect_None,
        og_retryability = Retry_User_Input, og_replay_allowed = False, og_recovery = recovery Recovery_Correct
          ''Free space in the target mailbox or choose a destination with sufficient quota, then finish the retained Sent mirror with drafts.reconcile; do not resubmit SMTP.''\<rparr>
      else Some guidance_for_terminal_read)"

text \<open>The rules for commands without effects.\<close>

definition guidance_for_read_command :: "string \<Rightarrow> string \<Rightarrow> go_error option \<Rightarrow> operation_guidance option" where
  "guidance_for_read_command command code e =
     (if errors_has e [PermissionErr, ErrnoErr True] then Some (guidance_for_read_correction
        ''Grant Full Disk Access to the calling app, or correct the file permissions before retrying this read.'')
      else if command = ''messages.get'' \<and> code = ''not_found'' then Some (guidance_for_read_correction
        ''Obtain a fresh valid message reference before retrying this read.'')
      else if code = ''not_found'' then Some (guidance_for_read_correction
        ''Correct the missing or stale reference before retrying this read.'')
      else if code \<in> set [''mail_busy'', ''mail_automation_timeout'', ''mail_process_changed''] then Some guidance_for_read
      else if code = ''imap_quota_exceeded'' then Some (guidance_for_read_correction
        ''Free space in the mailbox or choose one with sufficient quota, then retry the read.'')
      else if code = ''imap_command_rejected'' then Some guidance_for_terminal_read
      else if code = ''invalid_request'' then Some guidance_for_unknown_read
      else if code = ''imap_fetch_failed'' \<and> \<not> is_transient_read_failure e then Some guidance_for_terminal_read
      else guidance_for_known_read_error code)"

text \<open>A literal with \<open>EffectNone\<close> and no instruction; the retryability and \<open>ReplayAllowed\<close> are those of the literal.\<close>

definition no_effect :: "operation_phase \<Rightarrow> retryability \<Rightarrow> bool \<Rightarrow> recovery_action \<Rightarrow> operation_guidance" where
  "no_effect phase r replay action = guidance phase Effect_None r replay action"

text \<open>
  The switch at the end of \<open>GuidanceForError\<close>, up to the SMTP rejection and after it; \<open>None\<close> leaves the
  decision to the default that follows the switch, also where a case without a matching command ends.
\<close>

definition guidance_for_state_error :: "string \<Rightarrow> string \<Rightarrow> go_error option \<Rightarrow> operation_guidance option option" where
  "guidance_for_state_error command code e =
     (if code = ''draft_revision_conflict'' \<or> code = ''draft_revision_unavailable''
        then Some (Some (no_effect Phase_Validation Retry_Observe False Recovery_Inspect))
      else if code = ''draft_busy'' then Some (Some (no_effect Phase_Execution Retry_Observe False Recovery_Observe))
      else if code = ''search_cursor_stale'' then Some (Some (no_effect Phase_Read Retry_User_Input False Recovery_Correct))
      else if code = ''search_index_changed'' then Some (Some (no_effect Phase_Read Retry_Safe True Recovery_Retry))
      else if code = ''batch_canceled'' then Some (Some (no_effect Phase_Execution Retry_Safe True Recovery_Retry))
      else if code = ''initialization_failed'' then Some (Some guidance_for_input)
      else if code = ''imap_mutation_lock_unavailable'' then Some (Some guidance_for_input)
      else if code = ''imap_account_busy'' then Some (Some (no_effect Phase_Mutation Retry_Safe True Recovery_Retry))
      else if code = ''finalization_failed''
        then Some (Some (guidance Phase_Cleanup Effect_Unknown Retry_Observe False Recovery_Inspect))
      else if code = ''serialization_failed''
        then Some (Some (guidance Phase_Execution Effect_Unknown Retry_Terminal False Recovery_Inspect))
      else if code = ''smtp_source_invalid''
        then Some (if command = ''drafts.send'' then Some (no_effect Phase_Submission Retry_Observe False Recovery_Inspect) else None)
      else if code = ''smtp_data_incomplete''
        then Some (if command = ''drafts.send'' then Some (no_effect Phase_Submission Retry_Safe True Recovery_Retry) else None)
      else if code = ''imap_append_incomplete''
        then Some (Some (if command = ''drafts.send'' then guidance_for_mirror_unknown
           else if command = ''drafts.reconcile'' then no_effect Phase_Mirror Retry_Safe True Recovery_Retry
           else guidance_for_unknown (default_phase command)))
      else if code \<in> set [''operation_canceled'', ''draft_operation_canceled'', ''draft_operation_timeout'',
          ''operation_timeout''] \<or> is_transient_transport_failure e
        then Some (Some (if effectful_command command then guidance_for_unknown (default_phase command)
           else if code \<in> set [''operation_canceled'', ''draft_operation_canceled'', ''draft_operation_timeout'',
             ''operation_timeout''] \<or> is_transient_read_failure e then guidance_for_read
           else guidance_for_unknown_read))
      else None)"

definition guidance_for_outcome_error ::
    "(go_error option \<Rightarrow> bool) \<Rightarrow> string \<Rightarrow> string \<Rightarrow> go_error option \<Rightarrow> operation_guidance option" where
  "guidance_for_outcome_error transient_reply command code e =
     (if is_rejected_submission e then Some (guidance_for_smtp_rejection (transient_reply e))
      else if is_submission_outcome_unknown e then Some guidance_for_send_unknown
      else if is_mutation_outcome_unknown e \<or> error_code e = ''imap_flags_mismatch''
        then Some (guidance_for_mutation_unknown e)
      else if error_code e = ''imap_message_not_found''
        then (case errors_first as_mutation e of
                Some ev \<Rightarrow> if is_store ev then Some (guidance_for_mutation_unknown e) else None
              | None \<Rightarrow> None)
      else if error_code e = ''imap_append_outcome_unknown'' then Some guidance_for_mirror_unknown
      else if code = ''send_mirror_pending'' \<or> code = ''send_mirror_outcome_unknown'' then Some guidance_for_mirror_unknown
      else if code \<in> set [''send_outcome_unknown'', ''send_outcome_unverifiable'', ''send_state_unknown'']
        then Some guidance_for_send_unknown
      else if code = ''draft_save_outcome_unknown'' \<or> code = ''draft_save_retry_blocked''
        then Some ((guidance_for_unknown Phase_Execution)\<lparr>og_recovery :=
          (recovery Recovery_Reconcile [])\<lparr>rg_command := ''drafts.reconcile'',
            rg_args := (case errors_first as_operation e of
               Some draft \<Rightarrow> if draft \<noteq> [] then [''--ref'', draft, ''--json''] else []
             | None \<Rightarrow> [])\<rparr>\<rparr>)
      else if code \<in> set [''handoff_outcome_unknown'', ''handoff_retry_blocked'', ''handoff_attachment_cleanup_failed'',
          ''handoff_claim_cleanup_failed''] then Some guidance_for_handoff_unknown
      else if code = ''handoff_canceled_before_dispatch'' then Some (no_effect Phase_Execution Retry_Safe True Recovery_Retry)
      else if error_code e = ''imap_append_failed''
        then (if command = ''drafts.send'' \<or> command = ''drafts.reconcile'' then Some guidance_for_mirror_unknown else None)
      else if error_code e = ''raw_source_too_large'' then Some (no_effect Phase_Hydration Retry_Terminal False Recovery_Inspect)
      else if code = ''output_too_large'' then Some (no_effect Phase_Execution Retry_User_Input False Recovery_Correct)
      else if code = ''content_export_too_large'' then Some (no_effect Phase_Execution Retry_Terminal False Recovery_Inspect)
      else if is_configuration_failure e then Some
        (if effectful_command command then guidance_for_input
         else if is_tls_verification_failure e then guidance_for_read_correction
           ''Correct the IMAP certificate trust or configured hostname before retrying this read; do not disable TLS verification.''
         else guidance_for_read_correction
           ''Correct the account credentials or IMAP security configuration before retrying this read.'')
      else None)"

text \<open>The rules after the outcome errors of exports, adoptions and saves, and of mutations.\<close>

definition guidance_for_code :: "(go_error option \<Rightarrow> bool) \<Rightarrow> string \<Rightarrow> string \<Rightarrow> go_error option \<Rightarrow> operation_guidance" where
  "guidance_for_code transient_reply command code e =
     (let default = (if effectful_command command then guidance_for_unknown (default_phase command)
                     else guidance_for_unknown_read)
      in if is_mailbox_mutation_command command \<and> error_code e = ''imap_ambiguous_mailbox''
         then \<lparr>og_phase = Phase_Validation, og_certainty = Effect_None, og_retryability = Retry_User_Input,
           og_replay_allowed = False, og_recovery = recovery Recovery_Correct
             ''Correct the conflicting IMAP mailbox identities, either by renaming a colliding mailbox or correcting duplicate special-use assignments, refresh the mailbox list, and rerun the command only after the requested mailbox resolves uniquely.''\<rparr>
         else if command \<noteq> ''batch'' \<and> is_resource_limit_exceeded e
         then no_effect (if is_mailbox_mutation_command command then Phase_Mutation
             else if effectful_command command then default_phase command else Phase_Read) Retry_Terminal False Recovery_Inspect
         else (case (if effectful_command command then None else guidance_for_read_command command code e) of
           Some g \<Rightarrow> g
         | None \<Rightarrow> (case guidance_for_pre_effect command code of
             Some g \<Rightarrow> g
           | None \<Rightarrow>
               if code = ''search_budget_too_small'' then no_effect Phase_Read Retry_User_Input False Recovery_Correct
               else if is_input_error_code code then guidance_for_input
               else (case guidance_for_state_error command code e of
                   Some (Some g) \<Rightarrow> g
                 | Some None \<Rightarrow> default
                 | None \<Rightarrow> (case guidance_for_outcome_error transient_reply command code e of
                     Some g \<Rightarrow> g
                   | None \<Rightarrow> default)))))"

definition reports_mutation :: "go_error option \<Rightarrow> bool" where
  "reports_mutation e = (case errors_first as_mutation e of Some ev \<Rightarrow> is_store ev \<or> is_transfer ev | None \<Rightarrow> False)"

definition guidance_after_adoption :: "(go_error option \<Rightarrow> bool) \<Rightarrow> string \<Rightarrow> go_error option \<Rightarrow> operation_guidance" where
  "guidance_after_adoption transient_reply command e =
     (let code = guidance_error_code e
      in case guidance_for_access_gate_preflight command code of Some g \<Rightarrow> g
       | None \<Rightarrow> (case errors_first as_save_outcome e of
           Some outcome \<Rightarrow> guidance_for_attachment_save_outcome outcome code
         | None \<Rightarrow>
             if reports_mutation e then guidance_for_mutation_unknown e
             else (case (case e of None \<Rightarrow> None | Some err \<Rightarrow> tagged_rejection err) of
                 Some rejection \<Rightarrow> (case guidance_for_tagged_rejection command code e rejection of
                     Some g \<Rightarrow> g
                   | None \<Rightarrow> guidance_for_code transient_reply command code e)
               | None \<Rightarrow> guidance_for_code transient_reply command code e)))"

definition guidance_for_export :: "effect_certainty \<Rightarrow> operation_guidance" where
  "guidance_for_export certainty = \<lparr>og_phase = Phase_Execution, og_certainty = certainty,
     og_retryability = Retry_Observe, og_replay_allowed = False, og_recovery = recovery Recovery_Observe
       ''Inspect the export path and retained filesystem evidence before taking further action; do not replay this export.''\<rparr>"

text \<open>
  \<open>GuidanceForError\<close>. An adoption that published and kept nothing is classified again as the read of its
  cause, which is no adoption command, so the recursion is one level deep.
\<close>

function guidance_for_error :: "(go_error option \<Rightarrow> bool) \<Rightarrow> string \<Rightarrow> go_error option \<Rightarrow> operation_guidance" where
  "guidance_for_error transient_reply command e =
     (case errors_first as_export_outcome e of
        Some certainty \<Rightarrow> guidance_for_export certainty
      | None \<Rightarrow>
          (case (if command = ''drafts.adopt'' then errors_first as_adoption e else None) of
             Some (published, retained, cause) \<Rightarrow>
               if published \<or> retained then \<lparr>og_phase = Phase_Execution, og_certainty = Effect_Unknown,
                 og_retryability = Retry_Observe, og_replay_allowed = False,
                 og_recovery = (recovery Recovery_Inspect
                   ''Do not replay adoption. Inspect the draft list for the new local reference; if it exists, run drafts inspect --ref REF --json. Preserve and inspect any retained staging artifacts.'')
                     \<lparr>rg_command := ''drafts.list'', rg_args := [''--json'']\<rparr>\<rparr>
               else if first_coded (AdoptionErr published retained cause) = Some ''adopt_source_incomplete''
               then guidance_for_read_correction
                 ''Open the source draft in Mail.app to materialize its full content, then retry adoption.''
               else guidance_for_error transient_reply ''drafts.open'' (Some cause)
           | None \<Rightarrow> guidance_after_adoption transient_reply command e))"
  by pat_completeness auto

termination
  by (relation "measure (\<lambda>(_, command, _). if command = ''drafts.adopt'' then 1 else 0)") (auto split: if_splits)

declare guidance_for_error.simps [simp del]

section \<open>When a command may be run again\<close>

definition replay_sound :: "operation_guidance \<Rightarrow> bool" where
  "replay_sound g \<longleftrightarrow> (og_replay_allowed g \<longleftrightarrow> og_retryability g = Retry_Safe)
     \<and> (og_replay_allowed g \<longrightarrow> og_certainty g = Effect_None \<and> rg_action (og_recovery g) = Recovery_Retry)"

named_theorems guidance_simps

lemma recovery_action [simp, guidance_simps]: "rg_action (recovery a i) = a"
  by (simp add: recovery_def)

lemma guidance_fields [simp, guidance_simps]:
  "og_phase (guidance p c r b a) = p" "og_certainty (guidance p c r b a) = c"
  "og_retryability (guidance p c r b a) = r" "og_replay_allowed (guidance p c r b a) = b"
  "og_recovery (guidance p c r b a) = recovery a []"
  by (simp_all add: guidance_def)

lemma no_effect_fields [simp, guidance_simps]:
  "og_certainty (no_effect p r b a) = Effect_None" "og_retryability (no_effect p r b a) = r"
  "og_replay_allowed (no_effect p r b a) = b" "og_recovery (no_effect p r b a) = recovery a []"
  by (simp_all add: no_effect_def)

lemma base_guidance_sound [simp, guidance_simps]:
  "replay_sound guidance_for_input" "replay_sound guidance_for_read" "replay_sound (guidance_for_read\<lparr>og_phase := p\<rparr>)"
  "replay_sound (guidance_for_read_correction i)" "replay_sound guidance_for_unknown_read"
  "replay_sound guidance_for_terminal_read" "replay_sound (guidance_for_unknown p)"
  "replay_sound ((guidance_for_unknown p)\<lparr>og_recovery := r\<rparr>)" "replay_sound guidance_for_send_unknown"
  "replay_sound guidance_for_mirror_unknown" "replay_sound (guidance_for_mirror_unknown\<lparr>og_recovery := r\<rparr>)"
  "replay_sound guidance_for_handoff_unknown" "replay_sound (guidance_for_export c)"
  "replay_sound (guidance_for_smtp_rejection b)"
  by (simp_all add: replay_sound_def guidance_for_input_def guidance_for_read_def guidance_for_read_correction_def
      guidance_for_unknown_read_def guidance_for_terminal_read_def guidance_for_unknown_def guidance_for_send_unknown_def
      guidance_for_mirror_unknown_def guidance_for_handoff_unknown_def guidance_for_export_def guidance_for_smtp_rejection_def)

lemma guidance_sound [simp]:
  "replay_sound (guidance p c r b a) \<longleftrightarrow> (b \<longleftrightarrow> r = Retry_Safe) \<and> (b \<longrightarrow> c = Effect_None \<and> a = Recovery_Retry)"
  "replay_sound (no_effect p r b a) \<longleftrightarrow> (b \<longleftrightarrow> r = Retry_Safe) \<and> (b \<longrightarrow> a = Recovery_Retry)"
  "replay_sound \<lparr>og_phase = p, og_certainty = c, og_retryability = r, og_replay_allowed = b, og_recovery = recovery a i\<rparr>
     \<longleftrightarrow> (b \<longleftrightarrow> r = Retry_Safe) \<and> (b \<longrightarrow> c = Effect_None \<and> a = Recovery_Retry)"
  by (auto simp: replay_sound_def)

lemma mutation_guidance_sound [simp]: "replay_sound (guidance_for_mutation_unknown e)"
proof (cases "errors_first as_mutation e")
  case None
  then show ?thesis by (simp add: guidance_for_mutation_unknown_def)
next
  case (Some ev)
  show ?thesis
    by (simp add: Some guidance_for_mutation_unknown_def Let_def replay_sound_def)
qed

text \<open>
  The rules are chains of conditionals whose conditions do not matter here: they are taken apart by
  introduction rules, so that no condition is ever simplified.
\<close>

definition rule_sound :: "operation_guidance option \<Rightarrow> bool" where
  "rule_sound x \<longleftrightarrow> (\<forall>g. x = Some g \<longrightarrow> replay_sound g)"

named_theorems sound_intros

lemma rule_sound_if [sound_intros]: "rule_sound x \<Longrightarrow> rule_sound y \<Longrightarrow> rule_sound (if b then x else y)"
  by simp

lemma rule_sound_leaf [sound_intros]: "replay_sound g \<Longrightarrow> rule_sound (Some g)" "rule_sound None"
  by (simp_all add: rule_sound_def)

lemma rule_sound_case [sound_intros]:
  "(\<And>y. rule_sound (f y)) \<Longrightarrow> rule_sound z \<Longrightarrow> rule_sound (case x of None \<Rightarrow> z | Some y \<Rightarrow> f y)"
  by (cases x) simp_all

lemma replay_sound_if [sound_intros]: "replay_sound x \<Longrightarrow> replay_sound y \<Longrightarrow> replay_sound (if b then x else y)"
  by simp

lemma replay_sound_case [sound_intros]:
  "rule_sound x \<Longrightarrow> replay_sound z \<Longrightarrow> replay_sound (case x of None \<Rightarrow> z | Some g \<Rightarrow> g)"
  by (cases x) (simp_all add: rule_sound_def)

lemma preflight_sound [sound_intros]: "rule_sound (guidance_for_access_gate_preflight command code)"
  unfolding guidance_for_access_gate_preflight_def Let_def by (intro sound_intros) simp_all

lemma known_read_sound [sound_intros]: "rule_sound (guidance_for_known_read_error code)"
  unfolding guidance_for_known_read_error_def by (intro sound_intros) simp_all

lemma save_correction_sound [sound_intros]: "rule_sound (guidance_for_attachment_save_correction cause code)"
  unfolding guidance_for_attachment_save_correction_def by (intro sound_intros) simp_all

lemma tagged_sound [sound_intros]: "rule_sound (guidance_for_tagged_rejection command code e rejection)"
  unfolding guidance_for_tagged_rejection_def by (intro sound_intros) simp_all

lemma pre_effect_sound [sound_intros]: "rule_sound (guidance_for_pre_effect command code)"
  unfolding guidance_for_pre_effect_def Let_def by (intro sound_intros) simp_all

lemma read_command_sound [sound_intros]: "rule_sound (guidance_for_read_command command code e)"
  unfolding guidance_for_read_command_def by (intro sound_intros) simp_all

text \<open>The switch: a rule that decided, in either way.\<close>

definition state_rule_sound :: "operation_guidance option option \<Rightarrow> bool" where
  "state_rule_sound x \<longleftrightarrow> (\<forall>r. x = Some r \<longrightarrow> rule_sound r)"

lemma state_rule_sound_intros [sound_intros]:
  "state_rule_sound x \<Longrightarrow> state_rule_sound y \<Longrightarrow> state_rule_sound (if b then x else y)"
  "rule_sound r \<Longrightarrow> state_rule_sound (Some r)" "state_rule_sound None"
  by (simp_all add: state_rule_sound_def)

lemma state_error_sound: "state_rule_sound (guidance_for_state_error command code e)"
  unfolding guidance_for_state_error_def by (intro sound_intros) simp_all

lemma outcome_error_sound [sound_intros]: "rule_sound (guidance_for_outcome_error t command code e)"
  unfolding guidance_for_outcome_error_def by (intro sound_intros) simp_all

lemma save_outcome_sound [sound_intros]: "replay_sound (guidance_for_attachment_save_outcome outcome code)"
  unfolding guidance_for_attachment_save_outcome_def guidance_for_attachment_save_no_effect_def Let_def
  by (cases outcome) (simp only: prod.case, intro sound_intros, simp_all)

lemma default_sound: "replay_sound (if effectful_command command then guidance_for_unknown p else guidance_for_unknown_read)"
  by simp

lemma code_sound [sound_intros]: "replay_sound (guidance_for_code t command code e)"
proof -
  note s = state_error_sound [of command code e, unfolded state_rule_sound_def rule_sound_def]
  let ?d = "if effectful_command command then guidance_for_unknown (default_phase command) else guidance_for_unknown_read"
  have "replay_sound (case guidance_for_state_error command code e of
      Some (Some g) \<Rightarrow> g
    | Some None \<Rightarrow> ?d
    | None \<Rightarrow> (case guidance_for_outcome_error t command code e of Some g \<Rightarrow> g | None \<Rightarrow> ?d))"
    using s outcome_error_sound [of t command code e, unfolded rule_sound_def] by (auto split: option.split)
  then show ?thesis
    unfolding guidance_for_code_def Let_def by (intro sound_intros) simp_all
qed

lemma after_adoption_sound [sound_intros]: "replay_sound (guidance_after_adoption t command e)"
proof -
  let ?c = "guidance_error_code e"
  have "replay_sound (case (case e of None \<Rightarrow> None | Some err \<Rightarrow> tagged_rejection err) of
      Some r \<Rightarrow> (case guidance_for_tagged_rejection command ?c e r of Some g \<Rightarrow> g | None \<Rightarrow> guidance_for_code t command ?c e)
    | None \<Rightarrow> guidance_for_code t command ?c e)"
    by (cases "case e of None \<Rightarrow> None | Some err \<Rightarrow> tagged_rejection err") (auto simp del: option.case_eq_if intro: sound_intros)
  then have "replay_sound (case errors_first as_save_outcome e of
      Some outcome \<Rightarrow> guidance_for_attachment_save_outcome outcome ?c
    | None \<Rightarrow> if reports_mutation e then guidance_for_mutation_unknown e
        else (case (case e of None \<Rightarrow> None | Some err \<Rightarrow> tagged_rejection err) of
          Some r \<Rightarrow> (case guidance_for_tagged_rejection command ?c e r of Some g \<Rightarrow> g | None \<Rightarrow> guidance_for_code t command ?c e)
        | None \<Rightarrow> guidance_for_code t command ?c e))"
    by (cases "errors_first as_save_outcome e") (simp_all add: save_outcome_sound)
  then show ?thesis
    unfolding guidance_after_adoption_def Let_def by (intro sound_intros)
qed

lemma adoption_kept_sound [simp]:
  "replay_sound \<lparr>og_phase = p, og_certainty = c, og_retryability = Retry_Observe, og_replay_allowed = False, og_recovery = r\<rparr>"
  by (simp add: replay_sound_def)

lemma adoption_case_sound:
  "(\<And>p r c. replay_sound (f p r c)) \<Longrightarrow> replay_sound z
   \<Longrightarrow> replay_sound (case x of None \<Rightarrow> z | Some y \<Rightarrow> (case y of (p, r, c) \<Rightarrow> f p r c))"
  by (cases x) (auto split: prod.split)

lemma option_case_sound: "(\<And>y. replay_sound (f y)) \<Longrightarrow> replay_sound z \<Longrightarrow> replay_sound (case x of None \<Rightarrow> z | Some y \<Rightarrow> f y)"
  by (cases x) simp_all

lemma open_guidance_sound [sound_intros]: "replay_sound (guidance_for_error t ''drafts.open'' e)"
  by (subst guidance_for_error.simps, cases "errors_first as_export_outcome e") (simp_all add: after_adoption_sound)

lemma error_guidance_sound: "replay_sound (guidance_for_error t command e)"
  by (subst guidance_for_error.simps, rule option_case_sound, simp, rule adoption_case_sound, intro sound_intros)
    (simp_all add: after_adoption_sound)

section \<open>An uncertain outcome\<close>

abbreviation code_ambiguous :: string where "code_ambiguous \<equiv> ''imap_ambiguous_message_id''"

lemma uncertain_pre_effect:
  assumes "code \<in> set uncertain_codes" "code \<noteq> code_ambiguous"
  shows "guidance_for_pre_effect command code = None"
proof -
  have "list_all (\<lambda>c. c \<in> set (read_terminal_codes @ pre_effect_correction_codes @ pre_effect_inspection_codes
      @ pre_effect_terminal_codes @ pre_effect_retry_codes) \<longrightarrow> c = code_ambiguous) uncertain_codes"
    by code_simp
  then have "\<forall>c \<in> set uncertain_codes. c \<in> set read_terminal_codes \<union> set pre_effect_correction_codes
      \<union> set pre_effect_inspection_codes \<union> set pre_effect_terminal_codes \<union> set pre_effect_retry_codes \<longrightarrow> c = code_ambiguous"
    by (simp add: list_all_iff)
  then have "code \<notin> set read_terminal_codes" "code \<notin> set pre_effect_correction_codes"
    "code \<notin> set pre_effect_inspection_codes" "code \<notin> set pre_effect_terminal_codes" "code \<notin> set pre_effect_retry_codes"
    using assms by blast+
  then show ?thesis by (simp add: guidance_for_pre_effect_def)
qed

lemma ambiguous_pre_effect:
  "effectful_command command \<Longrightarrow> guidance_for_pre_effect command code_ambiguous
     = Some (guidance Phase_Validation Effect_None Retry_User_Input False Recovery_Correct)"
proof -
  have "code_ambiguous \<in> set pre_effect_correction_codes" by code_simp
  then show "effectful_command command \<Longrightarrow> ?thesis" by (simp add: guidance_for_pre_effect_def)
qed

lemma uncertain_other:
  "code \<in> set uncertain_codes \<Longrightarrow> code \<notin> set [''mail_access_gate_corrupt'', ''mail_access_gate_unsafe'', ''mail_not_running'',
     ''imap_ambiguous_mailbox'', ''imap_resource_limit_exceeded'', ''search_budget_too_small'', ''imap_flags_mismatch'',
     ''imap_message_not_found'', ''imap_append_failed'', ''raw_source_too_large''] \<and> code \<noteq> [] \<and> \<not> is_input_error_code code"
proof -
  have "\<forall>c \<in> set uncertain_codes. c \<notin> set [''mail_access_gate_corrupt'', ''mail_access_gate_unsafe'', ''mail_not_running'',
     ''imap_ambiguous_mailbox'', ''imap_resource_limit_exceeded'', ''search_budget_too_small'', ''imap_flags_mismatch'',
     ''imap_message_not_found'', ''imap_append_failed'', ''raw_source_too_large''] \<and> c \<noteq> [] \<and> \<not> is_input_error_code c"
    by code_simp
  then show "code \<in> set uncertain_codes \<Longrightarrow> ?thesis" by blast
qed

lemma uncertain_state_error:
  assumes "code \<in> set uncertain_codes" "\<not> is_transient_transport_failure e"
  shows "guidance_for_state_error command code e = None"
proof -
  have "\<forall>c \<in> set uncertain_codes. c \<notin> set [''draft_revision_conflict'', ''draft_revision_unavailable'', ''draft_busy'',
      ''search_cursor_stale'', ''search_index_changed'', ''batch_canceled'', ''initialization_failed'',
      ''imap_mutation_lock_unavailable'', ''imap_account_busy'', ''finalization_failed'', ''serialization_failed'',
      ''smtp_source_invalid'', ''smtp_data_incomplete'', ''imap_append_incomplete'', ''operation_canceled'',
      ''draft_operation_canceled'', ''draft_operation_timeout'', ''operation_timeout'']"
    by code_simp
  then have "code \<notin> set [''draft_revision_conflict'', ''draft_revision_unavailable'', ''draft_busy'',
      ''search_cursor_stale'', ''search_index_changed'', ''batch_canceled'', ''initialization_failed'',
      ''imap_mutation_lock_unavailable'', ''imap_account_busy'', ''finalization_failed'', ''serialization_failed'',
      ''smtp_source_invalid'', ''smtp_data_incomplete'', ''imap_append_incomplete'', ''operation_canceled'',
      ''draft_operation_canceled'', ''draft_operation_timeout'', ''operation_timeout'']"
    using assms(1) by blast
  then show ?thesis using assms(2) by (simp add: guidance_for_state_error_def)
qed

lemma mutation_unknown_none:
  "errors_first as_mutation e = None
   \<Longrightarrow> guidance_for_mutation_unknown e = guidance Phase_Mutation Effect_Unknown Retry_Observe False Recovery_Observe"
  by (simp add: guidance_for_mutation_unknown_def)

lemma uncertain_outcome_error:
  assumes "error_code e \<in> set uncertain_codes" "error_code e \<noteq> code_ambiguous"
    and "\<not> is_rejected_submission e" "\<not> is_configuration_failure e" "errors_first as_mutation e = None"
  shows "case guidance_for_outcome_error t command (error_code e) e of
    Some g \<Rightarrow> \<not> og_replay_allowed g \<and> og_certainty g \<noteq> Effect_None | None \<Rightarrow> True"
proof -
  have r: "guidance_for_outcome_error t command c e = Some guidance_for_send_unknown"
    if "error_code e = code_submission_unknown" for c
    using that assms(3) by (simp add: guidance_for_outcome_error_def is_submission_outcome_unknown_def)
  have m: "guidance_for_outcome_error t command c e = Some (guidance_for_mutation_unknown e)"
    if "error_code e \<in> set [''imap_copy_outcome_unknown'', ''imap_move_outcome_unknown'', ''imap_flags_outcome_unknown'']" for c
    using that assms(3) by (auto simp: guidance_for_outcome_error_def is_submission_outcome_unknown_def
        is_mutation_outcome_unknown_def code_submission_unknown_def)
  have a: "guidance_for_outcome_error t command c e = Some guidance_for_mirror_unknown"
    if "error_code e = ''imap_append_outcome_unknown''" for c
    using that assms(3) by (simp add: guidance_for_outcome_error_def is_submission_outcome_unknown_def
        is_mutation_outcome_unknown_def code_submission_unknown_def)
  have p: "guidance_for_outcome_error t command ''imap_flags_partial'' e = None" if "error_code e = ''imap_flags_partial''"
    using that assms(3,4) by (simp add: guidance_for_outcome_error_def is_submission_outcome_unknown_def
        is_mutation_outcome_unknown_def code_submission_unknown_def)
  have "error_code e = code_submission_unknown \<or> error_code e = ''imap_append_outcome_unknown''
      \<or> error_code e \<in> set [''imap_copy_outcome_unknown'', ''imap_move_outcome_unknown'', ''imap_flags_outcome_unknown'']
      \<or> error_code e = ''imap_flags_partial''"
    using assms(1,2) by (auto simp: uncertain_codes_def)
  then show ?thesis
    by (elim disjE) (simp_all only: r m a p option.case, simp_all add: mutation_unknown_none [OF assms(5)]
      guidance_for_send_unknown_def guidance_for_mirror_unknown_def)
qed

text \<open>What the caller of a send is told about an uncertain error.\<close>

lemma uncertain_send_guidance:
  assumes "errors_is_code e c" "c \<in> set uncertain_codes" "command = ''drafts.send'' \<or> command = ''drafts.reconcile''"
    and "errors_first as_mutation (Some e) = None"
  shows "\<not> og_replay_allowed (guidance_for_code t command (error_code (Some e)) (Some e))
    \<and> (og_certainty (guidance_for_code t command (error_code (Some e)) (Some e)) = Effect_None
         \<longrightarrow> error_code (Some e) = code_ambiguous)"
proof -
  let ?c = "error_code (Some e)"
  have u: "?c \<in> set uncertain_codes" using error_code_uncertain [OF assms(1,2)] by simp
  note no = uncertainty_never_hidden_facts [OF assms(1,2)]
  have eff: "effectful_command command" "\<not> is_mailbox_mutation_command command" "command \<noteq> ''batch''"
    using assms(3) by (auto simp: effectful_command_def is_mailbox_mutation_command_def)
  show ?thesis
  proof (cases "?c = code_ambiguous")
    case True
    then show ?thesis
      using uncertain_other [OF u] eff
      by (simp add: guidance_for_code_def Let_def is_resource_limit_exceeded_def ambiguous_pre_effect)
  next
    case False
    then have pre: "guidance_for_pre_effect command ?c = None" using u by (intro uncertain_pre_effect)
    have "guidance_for_code t command ?c (Some e) = (case guidance_for_outcome_error t command ?c (Some e) of
        Some g \<Rightarrow> g | None \<Rightarrow> guidance_for_unknown (default_phase command))"
      using uncertain_other [OF u] eff no
      by (simp add: guidance_for_code_def Let_def is_resource_limit_exceeded_def pre uncertain_state_error [OF u])
    moreover have "case guidance_for_outcome_error t command ?c (Some e) of
        Some g \<Rightarrow> \<not> og_replay_allowed g \<and> og_certainty g \<noteq> Effect_None | None \<Rightarrow> True"
      by (rule uncertain_outcome_error [OF u False]) (use no assms(4) in simp_all)
    ultimately show ?thesis
      by (cases "guidance_for_outcome_error t command ?c (Some e)") (simp_all add: guidance_for_unknown_def)
  qed
qed

definition unsettled_mutation :: "go_error option \<Rightarrow> bool" where
  "unsettled_mutation e \<longleftrightarrow> (case errors_first as_mutation e of
     Some ev \<Rightarrow> (is_store ev \<or> is_transfer ev) \<and> mr_outcome ev \<notin> set [''not_started'', ''rejected''] | None \<Rightarrow> False)"

lemma unsettled_guidance:
  assumes "unsettled_mutation e"
  shows "reports_mutation e" "\<not> og_replay_allowed (guidance_for_mutation_unknown e)"
    "og_certainty (guidance_for_mutation_unknown e) \<noteq> Effect_None"
  using assms by (auto simp: unsettled_mutation_def reports_mutation_def guidance_for_mutation_unknown_def Let_def
      store_rejected_or_not_started_def split: option.splits)

lemma uncertain_error_code:
  assumes "errors_is_code e c" "c \<in> set uncertain_codes"
  shows "guidance_error_code (Some e) = error_code (Some e)"
    "guidance_for_access_gate_preflight command (error_code (Some e)) = None"
  using uncertain_other [of "error_code (Some e)"] error_code_uncertain [OF assms]
  by (simp_all add: guidance_error_code_def guidance_for_access_gate_preflight_def)

lemma tagged_send_guidance:
  assumes "command = ''drafts.send'' \<or> command = ''drafts.reconcile''"
  shows "\<exists>i. guidance_for_tagged_rejection command code e r = Some (guidance_for_mirror_unknown\<lparr>og_recovery := recovery Recovery_Reconcile i\<rparr>)"
  using assms unfolding guidance_for_tagged_rejection_def by (simp only: if_True) blast

lemma uncertain_outcome_guidance:
  assumes "errors_is_code e c" "c \<in> set uncertain_codes"
    and "errors_first as_export_outcome (Some e) = None" "errors_first as_save_outcome (Some e) = None"
    and "(command = ''drafts.send'' \<or> command = ''drafts.reconcile'') \<and> errors_first as_mutation (Some e) = None
       \<or> command \<noteq> ''drafts.adopt'' \<and> unsettled_mutation (Some e)"
  shows "\<not> og_replay_allowed (guidance_for_error transient_reply command (Some e))
    \<and> (og_certainty (guidance_for_error transient_reply command (Some e)) = Effect_None
         \<longrightarrow> \<not> unsettled_mutation (Some e) \<and> error_code (Some e) = code_ambiguous)"
proof -
  have "command \<noteq> ''drafts.adopt''" using assms(5) by auto
  then have g: "guidance_for_error transient_reply command (Some e) = guidance_after_adoption transient_reply command (Some e)"
    using assms(3) by (simp add: guidance_for_error.simps)
  note code = uncertain_error_code [OF assms(1,2)]
  show ?thesis
  proof (cases "unsettled_mutation (Some e)")
    case True
    then show ?thesis using assms(4) unsettled_guidance [OF True]
      by (simp add: g guidance_after_adoption_def code)
  next
    case False
    then have send: "command = ''drafts.send'' \<or> command = ''drafts.reconcile''" "errors_first as_mutation (Some e) = None"
      using assms(5) by auto
    note s = uncertain_send_guidance [OF assms(1,2) send, of transient_reply]
    show ?thesis
    proof (cases "tagged_rejection e")
      case None
      then show ?thesis using s assms(4) send(2) False
        by (simp add: g guidance_after_adoption_def code reports_mutation_def del: tagged_rejection.simps)
    next
      case (Some r)
      obtain i where "guidance_for_tagged_rejection command (error_code (Some e)) (Some e) r
          = Some (guidance_for_mirror_unknown\<lparr>og_recovery := recovery Recovery_Reconcile i\<rparr>)"
        using tagged_send_guidance [OF send(1)] by blast
      then show ?thesis using Some assms(4) send(2)
        by (simp add: g guidance_after_adoption_def code reports_mutation_def guidance_for_mirror_unknown_def
            del: tagged_rejection.simps)
    qed
  qed
qed

lemma uncertain_outcome_certainty:
  assumes "errors_is_code e c" "c \<in> set uncertain_codes"
    and "errors_first as_export_outcome (Some e) = None" "errors_first as_save_outcome (Some e) = None"
    and "command \<noteq> ''drafts.adopt''" "unsettled_mutation (Some e)"
  shows "og_certainty (guidance_for_error t command (Some e)) \<noteq> Effect_None"
  using uncertain_outcome_guidance [OF assms(1-4), of command t] assms(5,6) by blast

text \<open>C9. An uncertain outcome is not offered for replay. The error has an uncertain code anywhere in its tree and
  carries no outcome of an export or of saved attachments; then the guidance of \<open>GuidanceForError\<close> allows no
  replay for a send or reconciliation whose error carries no mutation report, and for any command but an adoption
  whose error carries the report of a flag change or transfer that was neither refused nor not started. It claims
  no effect only for the one uncertain code that the table of errors before any effect lists, the ambiguous
  Message-ID, and never beside such a report.\<close>

theorem uncertain_outcome_not_replayed:
  assumes "errors_is_code e c" "c \<in> set uncertain_codes"
    and "errors_first as_export_outcome (Some e) = None" "errors_first as_save_outcome (Some e) = None"
    and "(command = ''drafts.send'' \<or> command = ''drafts.reconcile'') \<and> errors_first as_mutation (Some e) = None
       \<or> command \<noteq> ''drafts.adopt'' \<and> unsettled_mutation (Some e)"
  shows "\<not> og_replay_allowed (guidance_for_error transient_reply command (Some e))
    \<and> (og_certainty (guidance_for_error transient_reply command (Some e)) = Effect_None
         \<longrightarrow> \<not> unsettled_mutation (Some e) \<and> error_code (Some e) = code_ambiguous)"
  using uncertain_outcome_guidance [OF assms] .

text \<open>A MOVE whose reply was lost while a search was refused as unavailable: not to be run again.\<close>

abbreviation lost_move_error :: go_error where
  "lost_move_error \<equiv> MutationErr ''imap_move_outcome_unknown'' \<lparr>mr_operation_id = ''op'', mr_outcome = ''unknown'',
     mr_command = ''MOVE'', mr_completed_effects = []\<rparr> (Some (TransportErr ''imap_command_rejected''
       (Some \<lparr>ir_command = ''UID SEARCH'', ir_status = ''NO'', ir_response_code = Some ''UNAVAILABLE''\<rparr>) None))"

theorem uncertain_outcome_not_replayed_witness:
  "\<not> og_replay_allowed (guidance_for_error (\<lambda>_. False) ''messages.move'' (Some lost_move_error))
   \<and> is_transient_read_rejection lost_move_error"
proof -
  have "errors_is_code lost_move_error ''imap_move_outcome_unknown''" "''imap_move_outcome_unknown'' \<in> set uncertain_codes"
    "errors_first as_export_outcome (Some lost_move_error) = None" "errors_first as_save_outcome (Some lost_move_error) = None"
    "unsettled_mutation (Some lost_move_error)" "is_transient_read_rejection lost_move_error"
    by code_simp+
  then show ?thesis
    using uncertain_outcome_not_replayed [of lost_move_error "''imap_move_outcome_unknown''" "''messages.move''" "\<lambda>_. False"]
    by simp
qed

text \<open>
  The scope is the whole of it: without a report, an error of another command that wraps a transient
  rejection is answered by the rule for the rejection, which comes first. The transfers and flag
  changes of the store attach a report to every unknown outcome.
\<close>

lemma bare_uncertainty_replayed:
  "og_replay_allowed (guidance_for_error (\<lambda>_. False) ''messages.copy'' (Some (TransportErr ''imap_copy_outcome_unknown'' None
     (Some (TransportErr ''imap_command_rejected''
       (Some \<lparr>ir_command = ''UID SEARCH'', ir_status = ''NO'', ir_response_code = Some ''UNAVAILABLE''\<rparr>) None)))))"
  by code_simp

text \<open>
  The table of errors before any effect lists the ambiguous Message-ID, so a send that fails with it is told that
  nothing happened; the copy to the Sent mailbox returns it also after its own APPEND.
\<close>

theorem ambiguous_send_claims_no_effect:
  "og_certainty (guidance_for_error t ''drafts.send'' (Some (TransportErr code_ambiguous None None))) = Effect_None"
proof -
  have "error_code (Some (TransportErr code_ambiguous None None)) = code_ambiguous" by code_simp
  moreover have "code_ambiguous \<in> set uncertain_codes" by code_simp
  ultimately show ?thesis
    using uncertain_other [of code_ambiguous]
    by (simp add: guidance_for_error.simps errors_first_def guidance_after_adoption_def guidance_error_code_def
        guidance_for_access_gate_preflight_def reports_mutation_def errors_as_transport_def guidance_for_code_def
        is_resource_limit_exceeded_def ambiguous_pre_effect effectful_command_def is_mailbox_mutation_command_def)
qed

end
