(* ===== verification/State_Machine.thy ===== *)
theory State_Machine
  imports Prelude
begin

text \<open>
  Reachable states of a component, for any initial predicate and step relation, and the contract
  under which an invariant carries over to all of them. Components with concurrent callers give
  their steps as an inductive relation and interpret the contract on their invariant.
\<close>

inductive reachable :: "('s \<Rightarrow> bool) \<Rightarrow> ('s \<Rightarrow> 's \<Rightarrow> bool) \<Rightarrow> 's \<Rightarrow> bool" for init step where
  start: "init s \<Longrightarrow> reachable init step s"
| move: "reachable init step s \<Longrightarrow> step s s' \<Longrightarrow> reachable init step s'"

locale preserved_invariant =
  fixes init :: "'s \<Rightarrow> bool"
    and step :: "'s \<Rightarrow> 's \<Rightarrow> bool"
    and inv :: "'s \<Rightarrow> bool"
  assumes established: "init s \<Longrightarrow> inv s"
    and preserved: "inv s \<Longrightarrow> step s s' \<Longrightarrow> inv s'"
begin

lemma holds: "reachable init step s \<Longrightarrow> inv s"
  by (induction rule: reachable.induct) (auto intro: established preserved)

end

text \<open>Sums over a list of which one entry is replaced, as the ledgers of the callers use them.\<close>

lemma sum_list_update_nat:
  fixes f :: "'a \<Rightarrow> nat"
  assumes "k < length xs"
  shows "sum_list (map f (xs[k := y])) + f (xs ! k) = sum_list (map f xs) + f y"
proof -
  have "xs = take k xs @ xs ! k # drop (Suc k) xs" using assms by (rule id_take_nth_drop)
  then have "sum_list (map f xs) = sum_list (map f (take k xs)) + (f (xs ! k) + sum_list (map f (drop (Suc k) xs)))"
    by (metis list.simps(9) map_append sum_list.Cons sum_list_append)
  moreover have "xs[k := y] = take k xs @ y # drop (Suc k) xs" using assms by (rule upd_conv_take_nth_drop)
  then have "sum_list (map f (xs[k := y])) = sum_list (map f (take k xs)) + (f y + sum_list (map f (drop (Suc k) xs)))"
    by simp
  ultimately show ?thesis by simp
qed

lemma sum_list_entry_le:
  fixes f :: "'a \<Rightarrow> nat"
  shows "k < length xs \<Longrightarrow> f (xs ! k) \<le> sum_list (map f xs)"
  by (simp add: member_le_sum_list)

lemma sum_list_two_le:
  fixes f :: "'a \<Rightarrow> nat"
  assumes "j < length xs" "k < length xs" "j \<noteq> k"
  shows "f (xs ! j) + f (xs ! k) \<le> sum_list (map f xs)"
proof -
  let ?g = "\<lambda>i. f (xs ! i)"
  have "sum ?g {j, k} \<le> sum ?g {..<length xs}" using assms by (intro sum_mono2) auto
  moreover have "sum_list (map f xs) = sum ?g {..<length xs}"
    by (simp add: sum_list_sum_nth atLeast0LessThan)
  ultimately show ?thesis using assms(3) by simp
qed

lemma sum_list_zero_entry:
  fixes f :: "'a \<Rightarrow> nat"
  shows "sum_list (map f xs) = 0 \<Longrightarrow> k < length xs \<Longrightarrow> f (xs ! k) = 0"
  using sum_list_entry_le [of k xs f] by simp

lemma sum_list_positive:
  fixes f :: "'a \<Rightarrow> nat"
  shows "0 < sum_list (map f xs) \<Longrightarrow> \<exists>k < length xs. 0 < f (xs ! k)"
  by (metis in_set_conv_nth gr0I length_map nth_map sum_list_eq_0_iff less_numeral_extra(3))

end
