(* ===== verification/Batch_Execution.thy ===== *)
theory Batch_Execution
  imports Operation_Guidance State_Machine
begin

text \<open>
  Batches of independent operations (\<open>src/internal/mail/batch.go\<close>): the workers that execute the items,
  the classification of an item's failure, the budget stop of a read and the summary.

  The mail service answers every item through an oracle. The dispatcher and the workers interleave in
  any order with each other and with the cancellation of the caller. Messages of errors and the payload
  of results, apart from the content and headers of a message, are left out.
\<close>

section \<open>Requests\<close>

definition default_batch_concurrency :: int where "default_batch_concurrency = 2"
definition maximum_batch_concurrency :: int where "maximum_batch_concurrency = 8"
definition maximum_batch_items :: nat where "maximum_batch_items = 100"

record batch_item =
  bi_id :: string
  bi_ref :: string
  bi_attachment_id :: string
  bi_output_path :: string
  bi_read :: "bool option"
  bi_flagged :: "bool option"
  bi_junk :: "bool option"
  bi_mailbox :: string
  bi_allow_draft_mutation :: bool
  bi_view :: "string option"
  bi_fields :: "string list option"
  bi_links :: "string option"
  bi_retain_content :: bool
  bi_retain_headers :: bool

record batch_request =
  br_operation :: string
  br_defaults :: bool
  br_items :: "batch_item list"
  br_concurrency :: int

section \<open>Results\<close>

datatype item_state = Item_Completed | Item_Failed | Item_Skipped | Item_Skipped_Budget | Item_Uncertain

record batch_item_error =
  be_code :: string
  be_retryable :: bool
  be_guidance :: operation_guidance

text \<open>The message of a read is its content and headers; \<open>bx_evidence\<close>: another operation kept its result.\<close>

record batch_item_result =
  bx_id :: string
  bx_state :: item_state
  bx_message :: "(string \<times> string) option"
  bx_evidence :: bool
  bx_error :: "batch_item_error option"

record batch_result =
  bt_operation :: string
  bt_concurrency :: int
  bt_total :: nat
  bt_completed :: nat
  bt_failed :: nat
  bt_skipped :: nat
  bt_uncertain :: nat
  bt_items :: "batch_item_result list"

definition batch_complete :: "batch_result \<Rightarrow> bool" where
  "batch_complete r \<longleftrightarrow> 0 < bt_total r \<and> bt_completed r = bt_total r"

text \<open>
  The guidance of the envelope that replaces a result too large to print (\<open>batchOutputFailureEnvelope\<close>):
  the one that is not derived from the error. A read batch may be replayed with a narrower view.
\<close>

definition batch_output_guidance :: "batch_result \<Rightarrow> operation_guidance" where
  "batch_output_guidance r =
     (let g = \<lparr>og_phase = Phase_Execution, og_certainty = Effect_None, og_retryability = Retry_Observe,
        og_replay_allowed = False, og_recovery = recovery Recovery_Inspect []\<rparr>
      in if bt_operation r = ''read'' then g\<lparr>og_retryability := Retry_User_Input, og_replay_allowed := True,
           og_recovery := recovery Recovery_Correct
             ''Narrow the requested read view or fields, or raise --max-bytes, then replay this same read batch.''\<rparr>
         else if 0 < bt_uncertain r then g\<lparr>og_certainty := Effect_Unknown\<rparr>
         else if 0 < bt_completed r \<and> batch_complete r then g\<lparr>og_certainty := Effect_Complete\<rparr>
         else if 0 < bt_completed r then g\<lparr>og_certainty := Effect_Partial\<rparr>
         else g)"

definition count_state :: "item_state set \<Rightarrow> batch_item_result list \<Rightarrow> nat" where
  "count_state states items = length (filter (\<lambda>r. bx_state r \<in> states) items)"

definition summarize_batch_result :: "batch_result \<Rightarrow> batch_result" where
  "summarize_batch_result r = r\<lparr>
     bt_completed := count_state {Item_Completed} (bt_items r),
     bt_failed := count_state {Item_Failed} (bt_items r),
     bt_uncertain := count_state {Item_Uncertain} (bt_items r),
     bt_skipped := count_state {Item_Skipped, Item_Skipped_Budget} (bt_items r)\<rparr>"

section \<open>One item\<close>

text \<open>
  The answer of the mail service: the error, what came back with it (for a read \<open>sr_evidence\<close> is the
  evidence beside content and headers), and the outcome of the server truth, when there is one.
\<close>

record service_reply =
  sr_error :: "go_error option"
  sr_evidence :: bool
  sr_content :: string
  sr_headers :: string
  sr_outcome :: "string option"

record read_admission =
  ra_retain_content :: bool
  ra_retain_headers :: bool
  ra_budget_exceeded :: bool

type_synonym content_admission = "(string \<Rightarrow> string \<Rightarrow> bool \<Rightarrow> bool \<Rightarrow> read_admission) option"

definition batch_item_error :: "(go_error option \<Rightarrow> bool) \<Rightarrow> string \<Rightarrow> go_error \<Rightarrow> batch_item_error" where
  "batch_item_error transient_reply operation e =
     (let own = (case first_coded e of Some c \<Rightarrow> c | None \<Rightarrow> []);
          code = (if own \<noteq> [] then own
                  else if errors_has (Some e) [CanceledErr] then ''operation_canceled''
                  else if errors_has (Some e) [DeadlineErr] then ''operation_timeout''
                  else ''operation_failed'');
          g = guidance_for_error transient_reply operation (Some e);
          retryable = (operation = ''read'' \<and> (is_transient_read_failure (Some e)
             \<or> code = ''operation_timeout'' \<or> code = ''operation_canceled''))
      in \<lparr>be_code = code,
          be_retryable = (if operation = ''attachment_save'' then og_replay_allowed g else retryable),
          be_guidance = g\<rparr>)"

text \<open>\<open>admitReadMessage\<close>: what remains of content and headers, and whether the read budget is exceeded.\<close>

definition admit_read_message ::
    "content_admission \<Rightarrow> batch_item \<Rightarrow> string \<Rightarrow> string \<Rightarrow> (string \<times> string) \<times> bool" where
  "admit_read_message admission i content headers =
     (case admission of
        None \<Rightarrow> ((content, headers), False)
      | Some f \<Rightarrow>
          (let content = (if bi_retain_content i then content else []);
               headers = (if bi_retain_headers i then headers else []);
               a = f content headers (bi_retain_content i) (bi_retain_headers i)
           in ((if ra_retain_content a then content else [], if ra_retain_headers a then headers else []),
               ra_budget_exceeded a)))"

definition mutation_state :: "bool \<Rightarrow> go_error \<Rightarrow> string option \<Rightarrow> batch_item_error \<Rightarrow> item_state" where
  "mutation_state ctx_done e outcome err =
     (if outcome = Some ''unknown''
        \<or> og_certainty (be_guidance err) \<noteq> Effect_None
          \<and> (context_error_code (Some e) \<noteq> [] \<or> ctx_done \<and> is_timeout (Some e)
             \<or> is_mutation_outcome_unknown (Some e))
      then Item_Uncertain else Item_Failed)"

text \<open>\<open>execute\<close>, given the service's reply; the flag says that the content admission stopped the batch.\<close>

definition execute_item ::
    "(go_error option \<Rightarrow> bool) \<Rightarrow> content_admission \<Rightarrow> string \<Rightarrow> bool \<Rightarrow> batch_item \<Rightarrow> service_reply
     \<Rightarrow> batch_item_result \<times> bool" where
  "execute_item transient_reply admission operation ctx_done i reply =
     (let r = \<lparr>bx_id = bi_id i, bx_state = Item_Completed, bx_message = None, bx_evidence = False, bx_error = None\<rparr>
      in if operation = ''read'' then
           (let (message, stop) = admit_read_message admission i (sr_content reply) (sr_headers reply)
            in case sr_error reply of
                 None \<Rightarrow> (r\<lparr>bx_message := Some message\<rparr>, stop)
               | Some e \<Rightarrow>
                   (let r = r\<lparr>bx_state := Item_Failed, bx_error := Some (batch_item_error transient_reply operation e)\<rparr>
                    in if sr_evidence reply \<or> sr_content reply \<noteq> [] \<or> sr_headers reply \<noteq> []
                       then (r\<lparr>bx_message := Some message\<rparr>, stop) else (r, False)))
         else (case sr_error reply of
             None \<Rightarrow> (r\<lparr>bx_evidence := True\<rparr>, False)
           | Some e \<Rightarrow>
               (let err = batch_item_error transient_reply operation e
                in (r\<lparr>bx_state := (if operation = ''attachment_save'' then Item_Failed
                        else mutation_state ctx_done e (sr_outcome reply) err),
                      bx_evidence := sr_evidence reply, bx_error := Some err\<rparr>, False))))"

section \<open>The workers\<close>

text \<open>
  The dispatcher looks at the context and then offers the next index to any worker that receives, or sees
  the context done; a cancellation may fall between the two. A worker holds an index, executes it, and
  records the result under the lock.
\<close>

datatype batch_dispatcher = Dispatch_Check | Dispatch_Select | Dispatch_Closed

datatype batch_worker = Worker_Idle | Worker_Holding nat | Worker_Running nat
  | Worker_Recording nat batch_item_result | Worker_Done

record batch_run =
  bn_next :: nat
  bn_dispatcher :: batch_dispatcher
  bn_workers :: "batch_worker list"
  bn_results :: "batch_item_result list"
  bn_canceled :: bool
  bn_budget_exceeded :: bool
  bn_started :: "nat list"

definition ctx_done :: "batch_run \<Rightarrow> bool" where
  "ctx_done s \<longleftrightarrow> bn_canceled s \<or> bn_budget_exceeded s"

text \<open>The parameters of one execution: the request after validation and the callbacks of the caller.\<close>

record batch_setting =
  bg_request :: batch_request
  bg_transient_reply :: "go_error option \<Rightarrow> bool"
  bg_content_admission :: content_admission
  bg_result_admission :: "(batch_result \<Rightarrow> nat \<Rightarrow> bool) option"

definition stop_read_budget :: "batch_setting \<Rightarrow> batch_run \<Rightarrow> batch_run" where
  "stop_read_budget b s = (if br_operation (bg_request b) = ''read'' then s\<lparr>bn_budget_exceeded := True\<rparr> else s)"

definition batch_snapshot :: "batch_setting \<Rightarrow> batch_run \<Rightarrow> batch_result" where
  "batch_snapshot b s = summarize_batch_result
     \<lparr>bt_operation = br_operation (bg_request b), bt_concurrency = br_concurrency (bg_request b),
      bt_total = length (br_items (bg_request b)), bt_completed = 0, bt_failed = 0, bt_skipped = 0,
      bt_uncertain = 0, bt_items = bn_results s\<rparr>"

definition record_result :: "batch_setting \<Rightarrow> nat \<Rightarrow> batch_item_result \<Rightarrow> batch_run \<Rightarrow> batch_run" where
  "record_result b i r s =
     (let s = s\<lparr>bn_results := (bn_results s)[i := r]\<rparr>
      in if br_operation (bg_request b) \<noteq> ''read'' \<or> bn_budget_exceeded s \<or> ctx_done s then s
         else (case bg_result_admission b of
             None \<Rightarrow> s
           | Some admit \<Rightarrow> if admit (batch_snapshot b s) i then s else stop_read_budget b s))"

definition canceled_item_result :: "batch_setting \<Rightarrow> batch_item \<Rightarrow> batch_item_result" where
  "canceled_item_result b i = \<lparr>bx_id = bi_id i, bx_state = Item_Skipped, bx_message = None, bx_evidence = False,
     bx_error = Some \<lparr>be_code = ''batch_canceled'', be_retryable = False,
       be_guidance = guidance_for_error (bg_transient_reply b) (br_operation (bg_request b))
         (Some (OperationErr ''batch_canceled'' [] None))\<rparr>\<rparr>"

definition batch_init :: "batch_setting \<Rightarrow> batch_run \<Rightarrow> bool" where
  "batch_init b s \<longleftrightarrow> s = \<lparr>bn_next = 0, bn_dispatcher = Dispatch_Check,
     bn_workers = replicate (min (nat (br_concurrency (bg_request b))) (length (br_items (bg_request b)))) Worker_Idle,
     bn_results = map (canceled_item_result b) (br_items (bg_request b)),
     bn_canceled = bn_canceled s, bn_budget_exceeded = False, bn_started = []\<rparr>"

abbreviation batch_length :: "batch_setting \<Rightarrow> nat" where
  "batch_length b \<equiv> length (br_items (bg_request b))"

inductive batch_step :: "batch_setting \<Rightarrow> batch_run \<Rightarrow> batch_run \<Rightarrow> bool" for b where
  check_open: "bn_dispatcher s = Dispatch_Check \<Longrightarrow> bn_next s < batch_length b \<Longrightarrow> \<not> ctx_done s
     \<Longrightarrow> batch_step b s (s\<lparr>bn_dispatcher := Dispatch_Select\<rparr>)"
| check_canceled: "bn_dispatcher s = Dispatch_Check \<Longrightarrow> bn_next s < batch_length b \<Longrightarrow> ctx_done s
     \<Longrightarrow> batch_step b s (s\<lparr>bn_next := batch_length b\<rparr>)"
| check_end: "bn_dispatcher s = Dispatch_Check \<Longrightarrow> batch_length b \<le> bn_next s
     \<Longrightarrow> batch_step b s (s\<lparr>bn_dispatcher := Dispatch_Closed\<rparr>)"
| send: "bn_dispatcher s = Dispatch_Select \<Longrightarrow> w < length (bn_workers s) \<Longrightarrow> bn_workers s ! w = Worker_Idle
     \<Longrightarrow> batch_step b s (s\<lparr>bn_dispatcher := Dispatch_Check, bn_next := Suc (bn_next s),
           bn_workers := (bn_workers s)[w := Worker_Holding (bn_next s)]\<rparr>)"
| select_done: "bn_dispatcher s = Dispatch_Select \<Longrightarrow> ctx_done s
     \<Longrightarrow> batch_step b s (s\<lparr>bn_dispatcher := Dispatch_Check, bn_next := batch_length b\<rparr>)"
| worker_start: "w < length (bn_workers s) \<Longrightarrow> bn_workers s ! w = Worker_Holding i \<Longrightarrow> \<not> ctx_done s
     \<Longrightarrow> batch_step b s (s\<lparr>bn_workers := (bn_workers s)[w := Worker_Running i], bn_started := bn_started s @ [i]\<rparr>)"
| worker_drop: "w < length (bn_workers s) \<Longrightarrow> bn_workers s ! w = Worker_Holding i \<Longrightarrow> ctx_done s
     \<Longrightarrow> batch_step b s (s\<lparr>bn_workers := (bn_workers s)[w := Worker_Idle]\<rparr>)"
| worker_reply: "w < length (bn_workers s) \<Longrightarrow> bn_workers s ! w = Worker_Running i
     \<Longrightarrow> execute_item (bg_transient_reply b) (bg_content_admission b) (br_operation (bg_request b)) (ctx_done s)
           (br_items (bg_request b) ! i) reply = (r, stop)
     \<Longrightarrow> batch_step b s ((if stop then stop_read_budget b s else s)
           \<lparr>bn_workers := (bn_workers s)[w := Worker_Recording i r]\<rparr>)"
| worker_record: "w < length (bn_workers s) \<Longrightarrow> bn_workers s ! w = Worker_Recording i r
     \<Longrightarrow> batch_step b s ((record_result b i r s)\<lparr>bn_workers := (bn_workers s)[w := Worker_Idle]\<rparr>)"
| worker_exit: "w < length (bn_workers s) \<Longrightarrow> bn_workers s ! w = Worker_Idle \<Longrightarrow> bn_dispatcher s = Dispatch_Closed
     \<Longrightarrow> batch_step b s (s\<lparr>bn_workers := (bn_workers s)[w := Worker_Done]\<rparr>)"
| cancel: "\<not> bn_canceled s \<Longrightarrow> batch_step b s (s\<lparr>bn_canceled := True\<rparr>)"

definition batch_finished :: "batch_run \<Rightarrow> bool" where
  "batch_finished s \<longleftrightarrow> bn_dispatcher s = Dispatch_Closed \<and> (\<forall>w \<in> set (bn_workers s). w = Worker_Done)"

text \<open>What \<open>ExecuteBatch\<close> returns once every worker is gone.\<close>

definition budget_item :: "bool \<Rightarrow> batch_item_result \<Rightarrow> batch_item_result" where
  "budget_item exceeded r = (if exceeded \<and> bx_state r = Item_Skipped
     then r\<lparr>bx_state := Item_Skipped_Budget, bx_error := None\<rparr> else r)"

definition batch_outcome :: "batch_setting \<Rightarrow> batch_run \<Rightarrow> batch_result" where
  "batch_outcome b s = batch_snapshot b (s\<lparr>bn_results := map (budget_item (bn_budget_exceeded s)) (bn_results s)\<rparr>)"

abbreviation batch_reachable :: "batch_setting \<Rightarrow> batch_run \<Rightarrow> bool" where
  "batch_reachable b \<equiv> reachable (batch_init b) (batch_step b)"

end
