(* ===== verification/Batch_Proofs.thy ===== *)
theory Batch_Proofs
  imports Batch_Execution
begin

text \<open>
  What a batch guarantees under every interleaving: each item is executed at most once, every item has one
  result, the counts add up, and every execution ends.
\<close>

section \<open>The invariant of a run\<close>

fun worker_index :: "batch_worker \<Rightarrow> nat option" where
  "worker_index (Worker_Holding i) = Some i"
| "worker_index (Worker_Running i) = Some i"
| "worker_index (Worker_Recording i r) = Some i"
| "worker_index _ = None"

abbreviation skipped_states :: "item_state set" where
  "skipped_states \<equiv> {Item_Skipped, Item_Skipped_Budget}"

text \<open>A worker with the item it works on.\<close>

fun worker_ok :: "batch_setting \<Rightarrow> nat list \<Rightarrow> batch_worker \<Rightarrow> bool" where
  "worker_ok b started (Worker_Holding i) \<longleftrightarrow> i \<notin> set started"
| "worker_ok b started (Worker_Running i) \<longleftrightarrow> i \<in> set started"
| "worker_ok b started (Worker_Recording i r) \<longleftrightarrow>
     i \<in> set started \<and> bx_id r = bi_id (br_items (bg_request b) ! i) \<and> bx_state r \<notin> skipped_states"
| "worker_ok b started _ \<longleftrightarrow> True"

text \<open>How many workers work on an item.\<close>

definition owns :: "nat \<Rightarrow> batch_worker \<Rightarrow> nat" where
  "owns i x = (if worker_index x = Some i then 1 else 0)"

definition owners :: "batch_worker list \<Rightarrow> nat \<Rightarrow> nat" where
  "owners ws i = sum_list (map (owns i) ws)"

definition dispatch_ok :: "batch_setting \<Rightarrow> batch_run \<Rightarrow> bool" where
  "dispatch_ok b s \<longleftrightarrow> (bn_dispatcher s = Dispatch_Select \<longrightarrow> bn_next s < batch_length b)
     \<and> bn_next s \<le> batch_length b
     \<and> (bn_dispatcher s = Dispatch_Closed \<longrightarrow> bn_next s = batch_length b)
     \<and> (Worker_Done \<in> set (bn_workers s) \<longrightarrow> bn_dispatcher s = Dispatch_Closed)"

definition indices_ok :: "batch_run \<Rightarrow> bool" where
  "indices_ok s \<longleftrightarrow> distinct (bn_started s) \<and> (\<forall>i \<in> set (bn_started s). i < bn_next s)
     \<and> (\<forall>i. owners (bn_workers s) i \<le> 1 \<and> (0 < owners (bn_workers s) i \<longrightarrow> i < bn_next s))"

definition results_ok :: "batch_setting \<Rightarrow> batch_run \<Rightarrow> bool" where
  "results_ok b s \<longleftrightarrow> length (bn_results s) = batch_length b
     \<and> (\<forall>i < batch_length b. bx_id (bn_results s ! i) = bi_id (br_items (bg_request b) ! i))
     \<and> (\<forall>i < batch_length b. i \<notin> set (bn_started s) \<longrightarrow> bn_results s ! i = canceled_item_result b (br_items (bg_request b) ! i))
     \<and> (\<forall>i < batch_length b. i \<in> set (bn_started s) \<longrightarrow> bx_state (bn_results s ! i) \<notin> skipped_states \<or> 0 < owners (bn_workers s) i)"

definition batch_inv :: "batch_setting \<Rightarrow> batch_run \<Rightarrow> bool" where
  "batch_inv b s \<longleftrightarrow> dispatch_ok b s \<and> indices_ok s
     \<and> (\<forall>w < length (bn_workers s). worker_ok b (bn_started s) (bn_workers s ! w)) \<and> results_ok b s"

lemma record_result_fields [simp]:
  "bn_next (record_result b i r s) = bn_next s" "bn_dispatcher (record_result b i r s) = bn_dispatcher s"
  "bn_workers (record_result b i r s) = bn_workers s" "bn_results (record_result b i r s) = (bn_results s)[i := r]"
  "bn_started (record_result b i r s) = bn_started s" "bn_canceled (record_result b i r s) = bn_canceled s"
  by (simp_all add: record_result_def stop_read_budget_def Let_def split: option.split)

lemma stop_read_budget_fields [simp]:
  "bn_next (stop_read_budget b s) = bn_next s" "bn_dispatcher (stop_read_budget b s) = bn_dispatcher s"
  "bn_workers (stop_read_budget b s) = bn_workers s" "bn_results (stop_read_budget b s) = bn_results s"
  "bn_started (stop_read_budget b s) = bn_started s" "bn_canceled (stop_read_budget b s) = bn_canceled s"
  by (simp_all add: stop_read_budget_def)

lemma execute_item_result:
  "execute_item t admission operation done i reply = (r, stop) \<Longrightarrow> bx_id r = bi_id i \<and> bx_state r \<notin> skipped_states"
  by (auto simp: execute_item_def mutation_state_def Let_def split: if_splits option.splits prod.splits)

text \<open>One worker moves: the owners of its two items are counted again.\<close>

lemma owners_update:
  "w < length ws \<Longrightarrow> owners (ws[w := x]) i + owns i (ws ! w) = owners ws i + owns i x"
  unfolding owners_def by (rule sum_list_update_nat)

lemma owners_move:
  assumes "w < length ws" "worker_index (ws ! w) = Some i"
  shows "worker_index x = Some i \<Longrightarrow> owners (ws[w := x]) = owners ws"
    and "worker_index x = None \<Longrightarrow> owners (ws[w := x]) = (owners ws)(i := owners ws i - 1)"
    and "0 < owners ws i"
proof -
  have u: "owners (ws[w := x]) j + owns j (ws ! w) = owners ws j + owns j x" for j
    using assms(1) by (rule owners_update)
  have "owns i (ws ! w) \<le> owners ws i" unfolding owners_def using assms(1) by (rule sum_list_entry_le)
  then show "0 < owners ws i" using assms(2) by (simp add: owns_def)
  show "owners (ws[w := x]) = owners ws" if "worker_index x = Some i"
    by (rule ext) (use u that assms(2) in \<open>simp add: owns_def split: if_splits\<close>)
  show "owners (ws[w := x]) = (owners ws)(i := owners ws i - 1)" if "worker_index x = None"
  proof (rule ext)
    fix j
    show "owners (ws[w := x]) j = ((owners ws)(i := owners ws i - 1)) j"
      using u [of j] that assms(2) by (cases "j = i") (simp_all add: owns_def)
  qed
qed

lemma owners_idle:
  assumes "w < length ws" "worker_index (ws ! w) = None"
  shows "worker_index x = None \<Longrightarrow> owners (ws[w := x]) = owners ws"
    and "worker_index x = Some i \<Longrightarrow> owners (ws[w := x]) = (owners ws)(i := Suc (owners ws i))"
proof -
  have u: "owners (ws[w := x]) j + owns j (ws ! w) = owners ws j + owns j x" for j
    using assms(1) by (rule owners_update)
  show "owners (ws[w := x]) = owners ws" if "worker_index x = None"
    by (rule ext) (use u that assms(2) in \<open>simp add: owns_def\<close>)
  show "owners (ws[w := x]) = (owners ws)(i := Suc (owners ws i))" if "worker_index x = Some i"
  proof (rule ext)
    fix j
    show "owners (ws[w := x]) j = ((owners ws)(i := Suc (owners ws i))) j"
      using u [of j] that assms(2) by (cases "j = i") (simp_all add: owns_def)
  qed
qed

lemma owners_replicate [simp]: "owners (replicate n Worker_Idle) i = 0"
  by (simp add: owners_def owns_def sum_list_replicate)

lemma batch_init_inv: "batch_init b s \<Longrightarrow> batch_inv b s"
  unfolding batch_init_def
  by (erule ssubst) (simp add: batch_inv_def dispatch_ok_def indices_ok_def results_ok_def canceled_item_result_def)

lemma done_update: "Worker_Done \<in> set (ws[w := x]) \<Longrightarrow> x \<noteq> Worker_Done \<Longrightarrow> Worker_Done \<in> set ws"
  using set_update_subset_insert [of ws w x] by blast

lemma batch_step_dispatch: "batch_step b s s' \<Longrightarrow> dispatch_ok b s \<Longrightarrow> dispatch_ok b s'"
proof (induction rule: batch_step.induct)
  case (worker_reply w s i reply r stop)
  then show ?case using done_update [of "bn_workers s" w "Worker_Recording i r"] by (auto simp: dispatch_ok_def)
next
  case (send s w)
  then show ?case using done_update [of "bn_workers s" w "Worker_Holding (bn_next s)"] by (auto simp: dispatch_ok_def)
next
  case (worker_start w s i)
  then show ?case using done_update [of "bn_workers s" w "Worker_Running i"] by (auto simp: dispatch_ok_def)
next
  case (worker_drop w s i)
  then show ?case using done_update [of "bn_workers s" w Worker_Idle] by (auto simp: dispatch_ok_def)
next
  case (worker_record w s i r)
  then show ?case using done_update [of "bn_workers s" w Worker_Idle] by (auto simp: dispatch_ok_def)
qed (auto simp: dispatch_ok_def)

lemma worker_at: "\<forall>w < length ws. worker_ok b started (ws ! w) \<Longrightarrow> w < length ws \<Longrightarrow> ws ! w = x \<Longrightarrow> worker_ok b started x"
  by blast

lemma batch_step_indices:
  assumes "batch_step b s s'" "dispatch_ok b s" "indices_ok s"
    "\<forall>w < length (bn_workers s). worker_ok b (bn_started s) (bn_workers s ! w)"
  shows "indices_ok s'"
  using assms
proof (induction rule: batch_step.induct)
  case (send s w)
  then have "owners (bn_workers s) (bn_next s) = 0" by (auto simp: indices_ok_def)
  with send show ?case by (auto simp: indices_ok_def owners_idle less_Suc_eq)
next
  case (worker_start w s i)
  note o = owners_move [OF worker_start(1), of i]
  have "i \<notin> set (bn_started s)" using worker_at [OF worker_start(6,1,2)] by simp
  moreover have "i < bn_next s" using worker_start(2,5) o(3) by (simp add: indices_ok_def)
  ultimately show ?case using worker_start(2,5) o(1) by (simp add: indices_ok_def)
next
  case (worker_drop w s i)
  then show ?case using owners_move [OF worker_drop(1), of i] by (simp add: indices_ok_def)
next
  case (worker_reply w s i reply r stop)
  then show ?case using owners_move(1) [OF worker_reply(1), of i] by (simp add: indices_ok_def)
next
  case (worker_record w s i r)
  then show ?case using owners_move [OF worker_record(1), of i] by (simp add: indices_ok_def)
next
  case (worker_exit w s)
  then show ?case by (simp add: indices_ok_def owners_idle)
qed (auto simp: indices_ok_def dispatch_ok_def intro: less_trans, (metis less_trans)+)

lemma worker_ok_update:
  assumes "\<forall>v < length ws. worker_ok b started (ws ! v)" "worker_ok b started x"
  shows "\<forall>v < length (ws[w := x]). worker_ok b started (ws[w := x] ! v)"
proof (intro allI impI)
  fix v assume "v < length (ws[w := x])"
  then show "worker_ok b started (ws[w := x] ! v)" using assms by (cases "v = w") simp_all
qed

text \<open>An item that starts changes what is asked of the worker that starts it, and of no other.\<close>

lemma worker_ok_start:
  assumes "\<forall>v < length ws. worker_ok b started (ws ! v)" "w < length ws" "ws ! w = Worker_Holding i" "owners ws i \<le> 1"
  shows "\<forall>v < length (ws[w := Worker_Running i]). worker_ok b (started @ [i]) (ws[w := Worker_Running i] ! v)"
proof (intro allI impI)
  fix v assume v: "v < length (ws[w := Worker_Running i])"
  show "worker_ok b (started @ [i]) (ws[w := Worker_Running i] ! v)"
  proof (cases "v = w")
    case True
    then show ?thesis using assms(2) by simp
  next
    case False
    have "ws ! v \<noteq> Worker_Holding i"
    proof
      assume h: "ws ! v = Worker_Holding i"
      have "owns i (ws ! v) + owns i (ws ! w) \<le> owners ws i"
        unfolding owners_def using v assms(2) False by (intro sum_list_two_le) simp_all
      then show False using h assms(3,4) by (simp add: owns_def)
    qed
    then show ?thesis using assms(1) v False by (cases "ws ! v") auto
  qed
qed

lemma batch_step_workers:
  assumes "batch_step b s s'" "indices_ok s" "\<forall>w < length (bn_workers s). worker_ok b (bn_started s) (bn_workers s ! w)"
  shows "\<forall>w < length (bn_workers s'). worker_ok b (bn_started s') (bn_workers s' ! w)"
  using assms
proof (induction rule: batch_step.induct)
  case (send s w)
  have "bn_next s \<notin> set (bn_started s)" using send(4) by (auto simp: indices_ok_def)
  then show ?case using worker_ok_update [OF send(5)] by simp
next
  case (worker_start w s i)
  then show ?case using worker_ok_start [OF worker_start(5,1,2)] by (simp add: indices_ok_def)
next
  case (worker_reply w s i reply r stop)
  have "i \<in> set (bn_started s)" using worker_at [OF worker_reply(5,1,2)] by simp
  then show ?case using worker_ok_update [OF worker_reply(5)] execute_item_result [OF worker_reply(3)] by simp
next
  case (worker_drop w s i)
  then show ?case using worker_ok_update [OF worker_drop(5)] by simp
next
  case (worker_record w s i r)
  then show ?case using worker_ok_update [OF worker_record(4)] by simp
next
  case (worker_exit w s)
  then show ?case using worker_ok_update [OF worker_exit(5)] by simp
qed simp_all

lemma batch_step_results:
  assumes "batch_step b s s'" "dispatch_ok b s" "indices_ok s"
    "\<forall>w < length (bn_workers s). worker_ok b (bn_started s) (bn_workers s ! w)" "results_ok b s"
  shows "results_ok b s'"
  using assms
proof (induction rule: batch_step.induct)
  case (send s w)
  then show ?case by (auto simp: results_ok_def owners_idle)
next
  case (worker_start w s i)
  then show ?case using owners_move [OF worker_start(1), of i] by (auto simp: results_ok_def)
next
  case (worker_drop w s i)
  have "i \<notin> set (bn_started s)" using worker_at [OF worker_drop(6,1,2)] by simp
  with worker_drop show ?case using owners_move [OF worker_drop(1), of i] by (auto simp: results_ok_def)
next
  case (worker_reply w s i reply r stop)
  then show ?case using owners_move(1) [OF worker_reply(1), of i] by (simp add: results_ok_def)
next
  case (worker_record w s i r)
  have r: "i \<in> set (bn_started s)" "bx_id r = bi_id (br_items (bg_request b) ! i)" "bx_state r \<notin> skipped_states"
    using worker_at [OF worker_record(5,1,2)] by simp_all
  have "i < batch_length b" using r(1) worker_record(3,4) by (auto simp: indices_ok_def dispatch_ok_def)
  with worker_record(6) r show ?case
    using owners_move [OF worker_record(1), of i] worker_record(2) by (auto simp: results_ok_def nth_list_update)
next
  case (worker_exit w s)
  then show ?case by (simp add: results_ok_def owners_idle)
qed (simp_all add: results_ok_def)

lemma batch_step_inv: "batch_inv b s \<Longrightarrow> batch_step b s s' \<Longrightarrow> batch_inv b s'"
  by (simp add: batch_inv_def batch_step_dispatch batch_step_indices batch_step_workers batch_step_results)

interpretation batch_invariant: preserved_invariant "batch_init b" "batch_step b" "batch_inv b" for b
  by unfold_locales (rule batch_init_inv, assumption, rule batch_step_inv)

section \<open>Every item is offered\<close>

definition offered_ok :: "batch_run \<Rightarrow> bool" where
  "offered_ok s \<longleftrightarrow> (\<not> ctx_done s \<longrightarrow> (\<forall>i < bn_next s. i \<in> set (bn_started s) \<or> 0 < owners (bn_workers s) i))"

lemma ctx_done_stop [simp]: "ctx_done s \<Longrightarrow> ctx_done (stop_read_budget b s)" "ctx_done s \<Longrightarrow> ctx_done (record_result b i r s)"
  by (auto simp: ctx_done_def stop_read_budget_def record_result_def Let_def split: option.split)

lemma ctx_done_update [simp]:
  "ctx_done (s\<lparr>bn_workers := ws\<rparr>) = ctx_done s" "ctx_done (s\<lparr>bn_dispatcher := d\<rparr>) = ctx_done s"
  "ctx_done (s\<lparr>bn_next := n\<rparr>) = ctx_done s" "ctx_done (s\<lparr>bn_started := l\<rparr>) = ctx_done s"
  by (simp_all add: ctx_done_def)

lemma batch_step_offered:
  assumes "batch_step b s s'" "offered_ok s" "\<forall>w < length (bn_workers s). worker_ok b (bn_started s) (bn_workers s ! w)"
  shows "offered_ok s'"
  using assms
proof (induction rule: batch_step.induct)
  case (send s w)
  then show ?case by (auto simp: offered_ok_def owners_idle less_Suc_eq)
next
  case (worker_start w s i)
  then show ?case using owners_move(1) [OF worker_start(1), of i] by (auto simp: offered_ok_def)
next
  case (worker_reply w s i reply r stop)
  then show ?case using owners_move(1) [OF worker_reply(1), of i] by (auto simp: offered_ok_def)
next
  case (worker_record w s i r)
  have "i \<in> set (bn_started s)" using worker_at [OF worker_record(4,1,2)] by simp
  with worker_record show ?case using owners_move(2) [OF worker_record(1), of i]
    by (auto simp: offered_ok_def)
next
  case (worker_exit w s)
  then show ?case by (auto simp: offered_ok_def owners_idle)
qed (auto simp: offered_ok_def ctx_done_def)

lemma batch_offered: "batch_reachable b s \<Longrightarrow> offered_ok s"
proof (induction rule: reachable.induct)
  case (start s)
  then show ?case unfolding batch_init_def by (erule_tac ssubst) (simp add: offered_ok_def)
next
  case (move s s')
  then show ?case using batch_step_offered [OF move(2,3)] batch_invariant.holds [OF move(1)] by (simp add: batch_inv_def)
qed

section \<open>The outcome\<close>

lemma count_states_total:
  "count_state {Item_Completed} rs + count_state {Item_Failed} rs + count_state {Item_Uncertain} rs
     + count_state skipped_states rs = length rs"
proof (induction rs)
  case (Cons r rs)
  then show ?case by (cases "bx_state r") (simp_all add: count_state_def)
qed (simp add: count_state_def)

lemma owners_finished: "\<forall>w \<in> set ws. w = Worker_Done \<Longrightarrow> owners ws i = 0"
  by (induction ws) (auto simp: owners_def owns_def)

lemma budget_item_fields [simp]:
  "bx_id (budget_item e r) = bx_id r" "bx_state r \<notin> skipped_states \<Longrightarrow> budget_item e r = r"
  "bx_state (budget_item e r) \<in> skipped_states \<longleftrightarrow> bx_state r \<in> skipped_states"
  by (auto simp: budget_item_def)

lemma batch_finished_all:
  assumes "batch_reachable b s" "batch_finished s"
  shows "distinct (bn_started s) \<and> (\<not> ctx_done s \<longrightarrow> set (bn_started s) = {..<batch_length b})"
proof -
  note inv = batch_invariant.holds [OF assms(1), unfolded batch_inv_def]
  have own: "owners (bn_workers s) i = 0" for i using assms(2) by (simp add: batch_finished_def owners_finished)
  have n: "bn_next s = batch_length b" using inv assms(2) by (simp add: dispatch_ok_def batch_finished_def)
  show ?thesis using inv batch_offered [OF assms(1)] n own by (auto simp: indices_ok_def offered_ok_def)
qed

text \<open>C31. When a batch has finished, under every interleaving of its workers and every moment of cancellation, each
  item was executed at most once, and the result lists the items in the order of the request, each under its own
  identifier, skipped exactly when it was not executed; without a cancellation or a budget stop every item was
  executed. The four counts add up to the number of items.\<close>

theorem batch_result_complete:
  assumes "batch_reachable b s" "batch_finished s"
  shows "distinct (bn_started s) \<and> (\<not> ctx_done s \<longrightarrow> set (bn_started s) = {..<batch_length b})
    \<and> map bx_id (bt_items (batch_outcome b s)) = map bi_id (br_items (bg_request b))
    \<and> (\<forall>i < batch_length b. bx_state (bt_items (batch_outcome b s) ! i) \<in> skipped_states \<longleftrightarrow> i \<notin> set (bn_started s))
    \<and> bt_completed (batch_outcome b s) + bt_failed (batch_outcome b s) + bt_uncertain (batch_outcome b s)
        + bt_skipped (batch_outcome b s) = batch_length b"
proof -
  note inv = batch_invariant.holds [OF assms(1), unfolded batch_inv_def]
  have own: "owners (bn_workers s) i = 0" for i using assms(2) by (simp add: batch_finished_def owners_finished)
  have items: "bt_items (batch_outcome b s) = map (budget_item (bn_budget_exceeded s)) (bn_results s)"
    by (simp add: batch_outcome_def batch_snapshot_def summarize_batch_result_def)
  have len: "length (bn_results s) = batch_length b" using inv by (simp add: results_ok_def)
  have "distinct (bn_started s)" "\<not> ctx_done s \<longrightarrow> set (bn_started s) = {..<batch_length b}"
    using batch_finished_all [OF assms] by simp_all
  moreover have "map bx_id (bt_items (batch_outcome b s)) = map bi_id (br_items (bg_request b))"
    using inv len by (intro nth_equalityI) (simp_all add: items results_ok_def)
  moreover have "\<forall>i < batch_length b. bx_state (bt_items (batch_outcome b s) ! i) \<in> skipped_states \<longleftrightarrow> i \<notin> set (bn_started s)"
  proof (intro allI impI)
    fix i assume i: "i < batch_length b"
    show "bx_state (bt_items (batch_outcome b s) ! i) \<in> skipped_states \<longleftrightarrow> i \<notin> set (bn_started s)"
      using inv i own len by (cases "i \<in> set (bn_started s)") (auto simp: items results_ok_def canceled_item_result_def budget_item_def)
  qed
  moreover have "bt_completed (batch_outcome b s) + bt_failed (batch_outcome b s) + bt_uncertain (batch_outcome b s)
        + bt_skipped (batch_outcome b s) = batch_length b"
    using count_states_total [of "map (budget_item (bn_budget_exceeded s)) (bn_results s)"] len
    by (simp add: batch_outcome_def batch_snapshot_def summarize_batch_result_def)
  ultimately show ?thesis by blast
qed

section \<open>Every execution ends\<close>

fun worker_weight :: "batch_worker \<Rightarrow> nat" where
  "worker_weight Worker_Done = 0"
| "worker_weight Worker_Idle = 1"
| "worker_weight (Worker_Recording _ _) = 2"
| "worker_weight (Worker_Running _) = 3"
| "worker_weight (Worker_Holding _) = 4"

fun dispatcher_weight :: "batch_dispatcher \<Rightarrow> nat" where
  "dispatcher_weight Dispatch_Closed = 0"
| "dispatcher_weight Dispatch_Select = 1"
| "dispatcher_weight Dispatch_Check = 2"

definition batch_measure :: "batch_setting \<Rightarrow> batch_run \<Rightarrow> nat" where
  "batch_measure b s = 6 * (batch_length b - bn_next s) + dispatcher_weight (bn_dispatcher s)
     + sum_list (map worker_weight (bn_workers s)) + (if bn_canceled s then 0 else 1)"

lemma weight_update:
  "w < length ws \<Longrightarrow> ws ! w = y
   \<Longrightarrow> sum_list (map worker_weight (ws[w := x])) + worker_weight y = sum_list (map worker_weight ws) + worker_weight x"
  using sum_list_update_nat [of w ws worker_weight x] by simp

lemma batch_step_decreases: "batch_step b s s' \<Longrightarrow> dispatch_ok b s \<Longrightarrow> batch_measure b s' < batch_measure b s"
proof (induction rule: batch_step.induct)
  case (send s w)
  then have "batch_length b - bn_next s = Suc (batch_length b - Suc (bn_next s))"
    by (simp add: dispatch_ok_def Suc_diff_Suc)
  then show ?case using send(1) weight_update [OF send(2,3), of "Worker_Holding (bn_next s)"]
    by (simp add: batch_measure_def)
next
  case (worker_start w s i)
  then show ?case using weight_update [OF worker_start(1,2), of "Worker_Running i"] by (simp add: batch_measure_def)
next
  case (worker_drop w s i)
  then show ?case using weight_update [OF worker_drop(1,2), of Worker_Idle] by (simp add: batch_measure_def)
next
  case (worker_reply w s i reply r stop)
  then show ?case using weight_update [OF worker_reply(1,2), of "Worker_Recording i r"] by (simp add: batch_measure_def)
next
  case (worker_record w s i r)
  then show ?case using weight_update [OF worker_record(1,2), of Worker_Idle] by (simp add: batch_measure_def)
next
  case (worker_exit w s)
  then show ?case using weight_update [OF worker_exit(1,2), of Worker_Done] by (simp add: batch_measure_def)
next
  case (select_done s)
  then have "0 < batch_length b - bn_next s" by (simp add: dispatch_ok_def)
  with select_done show ?case by (simp add: batch_measure_def)
qed (simp_all add: batch_measure_def)

lemma workers_length: "batch_step b s s' \<Longrightarrow> length (bn_workers s') = length (bn_workers s)"
  by (induction rule: batch_step.induct) simp_all

lemma batch_workers:
  "batch_reachable b s \<Longrightarrow> length (bn_workers s) = min (nat (br_concurrency (bg_request b))) (batch_length b)"
proof (induction rule: reachable.induct)
  case (start s)
  then show ?case unfolding batch_init_def by (erule_tac ssubst) simp
next
  case (move s s')
  then show ?case by (simp add: workers_length)
qed

text \<open>A worker that is not done can move, an idle one once the dispatcher offers or has closed.\<close>

lemma busy_worker_moves:
  assumes "w < length (bn_workers s)" "worker_index (bn_workers s ! w) = Some i"
  shows "\<exists>s'. batch_step b s s' \<and> bn_canceled s' = bn_canceled s"
proof (cases "bn_workers s ! w")
  case (Worker_Holding j)
  show ?thesis
  proof (cases "ctx_done s")
    case True
    then show ?thesis using batch_step.worker_drop [OF assms(1) Worker_Holding] by fastforce
  next
    case False
    then show ?thesis using batch_step.worker_start [OF assms(1) Worker_Holding] by fastforce
  qed
next
  case (Worker_Running j)
  obtain r stop where "execute_item (bg_transient_reply b) (bg_content_admission b) (br_operation (bg_request b)) (ctx_done s)
      (br_items (bg_request b) ! j) \<lparr>sr_error = None, sr_evidence = True, sr_content = [], sr_headers = [], sr_outcome = None\<rparr> = (r, stop)"
    by (rule prod.exhaust)
  note step = batch_step.worker_reply [OF assms(1) Worker_Running this]
  show ?thesis by (rule exI, rule conjI, rule step) simp
next
  case (Worker_Recording j r)
  then show ?thesis using batch_step.worker_record [OF assms(1) Worker_Recording] by fastforce
qed (use assms(2) in simp_all)

lemma batch_progress:
  assumes "batch_reachable b s" "1 \<le> br_concurrency (bg_request b)" "\<not> batch_finished s"
  shows "\<exists>s'. batch_step b s s' \<and> bn_canceled s' = bn_canceled s"
proof (cases "bn_dispatcher s")
  case Dispatch_Check
  note c = batch_step.check_open [OF Dispatch_Check, of b] batch_step.check_canceled [OF Dispatch_Check, of b]
    batch_step.check_end [OF Dispatch_Check, of b]
  consider "bn_next s < batch_length b" "\<not> ctx_done s" | "bn_next s < batch_length b" "ctx_done s" | "batch_length b \<le> bn_next s"
    by linarith
  then show ?thesis
  proof cases
    case 1
    show ?thesis by (rule exI, rule conjI, rule c(1) [OF 1]) simp
  next
    case 2
    show ?thesis by (rule exI, rule conjI, rule c(2) [OF 2]) simp
  next
    case 3
    show ?thesis by (rule exI, rule conjI, rule c(3) [OF 3]) simp
  qed
next
  case Dispatch_Select
  have inv: "dispatch_ok b s" using batch_invariant.holds [OF assms(1)] by (simp add: batch_inv_def)
  then have "0 < length (bn_workers s)" using batch_workers [OF assms(1)] assms(2) Dispatch_Select
    by (auto simp: dispatch_ok_def)
  moreover have "bn_workers s ! 0 \<noteq> Worker_Done"
    using inv Dispatch_Select nth_mem [OF calculation] by (auto simp: dispatch_ok_def)
  ultimately show ?thesis
    using busy_worker_moves [of 0 s] batch_step.send [OF Dispatch_Select, of 0 b]
    by (cases "bn_workers s ! 0") (simp_all, fastforce)
next
  case Dispatch_Closed
  then obtain w where w: "w < length (bn_workers s)" "bn_workers s ! w \<noteq> Worker_Done"
    using assms(3) by (auto simp: batch_finished_def in_set_conv_nth)
  then show ?thesis
    using busy_worker_moves [of w s] batch_step.worker_exit [OF w(1) _ Dispatch_Closed, of b]
    by (cases "bn_workers s ! w") (simp_all, fastforce)
qed

text \<open>C32. Every execution of a batch with at least one worker ends, whatever the service answers and whenever the
  caller cancels: no sequence of steps is infinite, and a state without a further step, other than a cancellation,
  is finished.\<close>

theorem batch_execution_ends:
  assumes "batch_reachable b s" "1 \<le> br_concurrency (bg_request b)"
  shows "(\<nexists>run. run 0 = s \<and> (\<forall>k :: nat. batch_step b (run k) (run (Suc k))))
    \<and> (batch_finished s \<or> (\<exists>s'. batch_step b s s' \<and> bn_canceled s' = bn_canceled s))"
proof (intro conjI notI)
  assume "\<exists>run. run 0 = s \<and> (\<forall>k :: nat. batch_step b (run k) (run (Suc k)))"
  then obtain run where run: "run 0 = s" "\<And>k :: nat. batch_step b (run k) (run (Suc k))" by blast
  have r: "batch_reachable b (run k)" for k
    by (induction k) (use run assms(1) in \<open>auto intro: reachable.move\<close>)
  have "batch_measure b (run (Suc k)) < batch_measure b (run k)" for k
    using batch_step_decreases [OF run(2)] batch_invariant.holds [OF r] by (simp add: batch_inv_def)
  then have "(run (Suc k), run k) \<in> measure (batch_measure b)" for k by simp
  then show False using wf_measure [of "batch_measure b"] wf_iff_no_infinite_down_chain by metis
qed (use batch_progress [OF assms] in blast)

section \<open>A batch that runs to its end\<close>

lemma batch_reaches_end:
  assumes "batch_reachable b s" "1 \<le> br_concurrency (bg_request b)"
  shows "\<exists>s'. batch_reachable b s' \<and> batch_finished s' \<and> bn_canceled s' = bn_canceled s"
  using assms(1)
proof (induction "batch_measure b s" arbitrary: s rule: less_induct)
  case less
  show ?case
  proof (cases "batch_finished s")
    case True
    then show ?thesis using less(2) by blast
  next
    case False
    obtain s1 where s1: "batch_step b s s1" "bn_canceled s1 = bn_canceled s"
      using batch_progress [OF less(2) assms(2) False] by blast
    have "batch_measure b s1 < batch_measure b s"
      using batch_step_decreases [OF s1(1)] batch_invariant.holds [OF less(2)] by (simp add: batch_inv_def)
    then show ?thesis using less(1) [of s1] reachable.move [of _ _ s s1, OF less(2) s1(1)] s1(2) by simp
  qed
qed

lemma budget_only_reads: "batch_reachable b s \<Longrightarrow> br_operation (bg_request b) \<noteq> ''read'' \<Longrightarrow> \<not> bn_budget_exceeded s"
proof (induction rule: reachable.induct)
  case (start s)
  then show ?case unfolding batch_init_def by (erule_tac ssubst) simp
next
  case (move s s')
  from move(2,3,4) show ?case
    by (cases rule: batch_step.cases) (auto simp: stop_read_budget_def record_result_def Let_def split: if_splits)
qed

text \<open>Two deletions by two workers.\<close>

definition example_item :: "string \<Rightarrow> batch_item" where
  "example_item i = \<lparr>bi_id = i, bi_ref = i, bi_attachment_id = [], bi_output_path = [], bi_read = None, bi_flagged = None,
     bi_junk = None, bi_mailbox = [], bi_allow_draft_mutation = False, bi_view = None, bi_fields = None, bi_links = None,
     bi_retain_content = False, bi_retain_headers = False\<rparr>"

definition example_batch :: batch_setting where
  "example_batch = \<lparr>bg_request = \<lparr>br_operation = ''delete'', br_defaults = False,
     br_items = [example_item ''a'', example_item ''b''], br_concurrency = 2\<rparr>,
     bg_transient_reply = (\<lambda>_. False), bg_content_admission = None, bg_result_admission = None\<rparr>"

definition example_start :: batch_run where
  "example_start = \<lparr>bn_next = 0, bn_dispatcher = Dispatch_Check, bn_workers = [Worker_Idle, Worker_Idle],
     bn_results = map (canceled_item_result example_batch) [example_item ''a'', example_item ''b''],
     bn_canceled = False, bn_budget_exceeded = False, bn_started = []\<rparr>"

lemma example_start_reachable: "batch_reachable example_batch example_start"
  by (rule reachable.start) (simp add: batch_init_def example_start_def example_batch_def numeral_2_eq_2)

theorem batch_result_complete_witness:
  "\<exists>s. batch_finished s \<and> set (bn_started s) = {0, 1}
     \<and> map bx_id (bt_items (batch_outcome example_batch s)) = [''a'', ''b'']"
proof -
  have "1 \<le> br_concurrency (bg_request example_batch)" by (simp add: example_batch_def)
  then obtain s where s: "batch_reachable example_batch s" "batch_finished s" "bn_canceled s = bn_canceled example_start"
    using batch_reaches_end [OF example_start_reachable] by blast
  have "\<not> ctx_done s"
    using s(3) budget_only_reads [OF s(1)] by (simp add: ctx_done_def example_start_def example_batch_def)
  then have "set (bn_started s) = {..<batch_length example_batch}"
    "map bx_id (bt_items (batch_outcome example_batch s)) = map bi_id (br_items (bg_request example_batch))"
    using batch_result_complete [OF s(1,2)] by (blast, blast)
  moreover have "{..<batch_length example_batch} = {0, 1}" by (auto simp: example_batch_def)
  moreover have "map bi_id (br_items (bg_request example_batch)) = [''a'', ''b'']"
    by (simp add: example_batch_def example_item_def)
  ultimately have "set (bn_started s) = {0, 1} \<and> map bx_id (bt_items (batch_outcome example_batch s)) = [''a'', ''b'']"
    by (simp only: simp_thms)
  with s(2) show ?thesis by (intro exI [of _ s]) (rule conjI)
qed

theorem batch_execution_ends_witness:
  "\<nexists>run. run 0 = example_start \<and> (\<forall>k :: nat. batch_step example_batch (run k) (run (Suc k)))"
  using batch_execution_ends [OF example_start_reachable] by (simp add: example_batch_def)

text \<open>C33. Guidance allows a replay only of what had no effect. What \<open>GuidanceForError\<close> derives from an error
  allows it exactly when it calls a retry safe, and then it says that the failed command had no effect and that
  a retry is the recovery, for every command and every error. The guidance for a batch result too large to print
  allows it exactly for a read batch, with corrected limits, and claims no effect of another batch only when no
  item was completed and none is uncertain.\<close>

theorem replay_only_without_effect:
  "(let g = guidance_for_error transient_reply command e
    in (og_replay_allowed g \<longleftrightarrow> og_retryability g = Retry_Safe)
      \<and> (og_replay_allowed g \<longrightarrow> og_certainty g = Effect_None \<and> rg_action (og_recovery g) = Recovery_Retry))
   \<and> (let g = batch_output_guidance r
    in (og_replay_allowed g \<longleftrightarrow> bt_operation r = ''read'')
      \<and> (og_replay_allowed g \<longrightarrow> og_certainty g = Effect_None \<and> rg_action (og_recovery g) = Recovery_Correct)
      \<and> (og_certainty g = Effect_None \<longrightarrow> bt_operation r = ''read'' \<or> bt_completed r = 0 \<and> bt_uncertain r = 0))"
  using error_guidance_sound [of transient_reply command e]
  by (simp add: replay_sound_def batch_output_guidance_def Let_def)

theorem replay_only_without_effect_witness:
  "og_certainty (guidance_for_error (\<lambda>_. False) ''messages.get'' (Some (TransportErr ''imap_timeout'' None None))) = Effect_None"
proof -
  have "og_replay_allowed (guidance_for_error (\<lambda>_. False) ''messages.get'' (Some (TransportErr ''imap_timeout'' None None)))"
    by code_simp
  then show ?thesis
    using replay_only_without_effect [of "\<lambda>_. False" "''messages.get''" "Some (TransportErr ''imap_timeout'' None None)"]
    by (simp only: Let_def)
qed

text \<open>A mutation whose outcome the transport could not prove is never counted as failed.\<close>

theorem unknown_mutation_uncertain:
  assumes "execute_item t admission operation done i reply = (r, stop)" "sr_error reply = Some e"
    and "operation \<in> set [''mark'', ''move'', ''copy'', ''delete'']"
    and "is_mutation_outcome_unknown (Some e)" "errors_is_code e (error_code (Some e))" "unsettled_mutation (Some e)"
    and "errors_first as_export_outcome (Some e) = None" "errors_first as_save_outcome (Some e) = None"
  shows "bx_state r = Item_Uncertain"
proof -
  have "error_code (Some e) \<in> set uncertain_codes"
    using assms(4) by (auto simp: is_mutation_outcome_unknown_def uncertain_codes_def)
  moreover have "operation \<noteq> ''drafts.adopt''" using assms(3) by auto
  ultimately have "og_certainty (guidance_for_error t operation (Some e)) \<noteq> Effect_None"
    using uncertain_outcome_certainty [OF assms(5) _ assms(7,8)] assms(6) by blast
  then show ?thesis
    using assms(1-4) by (auto simp: execute_item_def batch_item_error_def mutation_state_def Let_def)
qed

end
