(* ===== verification/Batch_Validation.thy ===== *)
theory Batch_Validation
  imports Batch_Proofs Mailref_Reference
begin

text \<open>
  The validation of a batch (\<open>validateBatchRequest\<close> of \<open>src/internal/mail/batch.go\<close> and
  \<open>validateAttachmentRequest\<close> of \<open>attachment.go\<close>): the fields each operation takes, the identities that
  must not repeat, the output paths. Messages of errors are left out; \<open>lower\<close> is \<open>strings.ToLower\<close>
  and \<open>lstat\<close> the answer of the file system.
\<close>

definition invalid_argument :: go_error where "invalid_argument = CodedErr ''invalid_argument'' None"
definition invalid_reference :: go_error where "invalid_reference = CodedErr ''invalid_reference'' None"

section \<open>Output paths of attachments\<close>

text \<open>\<open>filepath.Clean\<close> and \<open>filepath.Dir\<close> on an absolute path.\<close>

fun clean_components :: "string list \<Rightarrow> string list \<Rightarrow> string list" where
  "clean_components done [] = rev done"
| "clean_components done (c # cs) =
     (if c = [] \<or> c = ''.'' then clean_components done cs
      else if c = ''..'' then clean_components (tl done) cs
      else clean_components (c # done) cs)"

definition clean_path :: "string \<Rightarrow> string" where
  "clean_path path = CHR ''/'' # join_with ''/'' (clean_components [] (split_string ''/'' [] path))"

definition dir_path :: "string \<Rightarrow> string" where
  "dir_path path = clean_path (rev (dropWhile (\<lambda>c. c \<noteq> CHR ''/'') (rev path)))"

datatype lstat_answer = Lstat_Missing | Lstat_Failed go_error | Lstat_Found bool bool

definition validate_attachment_request :: "(string \<Rightarrow> lstat_answer) \<Rightarrow> string \<Rightarrow> string \<Rightarrow> string \<Rightarrow> go_error option" where
  "validate_attachment_request lstat ref attachment path =
     (if ref = [] \<or> attachment = [] \<or> path = [] then Some invalid_argument
      else if \<not> has_prefix path ''/'' then Some invalid_argument
      else (case lstat path of
          Lstat_Found _ _ \<Rightarrow> Some invalid_argument
        | Lstat_Failed e \<Rightarrow> Some (Wrapped e)
        | Lstat_Missing \<Rightarrow> (case lstat (dir_path path) of
            Lstat_Missing \<Rightarrow> Some (Wrapped PlainErr)
          | Lstat_Failed e \<Rightarrow> Some (Wrapped e)
          | Lstat_Found is_dir symlink \<Rightarrow> if \<not> is_dir \<or> symlink then Some invalid_argument else None)))"

section \<open>Validation\<close>

text \<open>The maps the validation fills: which identifiers, paths, sources and copies were seen.\<close>

record batch_seen =
  bs_ids :: "string list"
  bs_destinations :: "string list"
  bs_sources :: "message_identity list"
  bs_copies :: "(message_identity \<times> string \<times> string) list"

definition no_state_fields :: "batch_item \<Rightarrow> bool" where
  "no_state_fields i \<longleftrightarrow> bi_read i = None \<and> bi_flagged i = None \<and> bi_junk i = None"

definition no_projection :: "batch_item \<Rightarrow> bool" where
  "no_projection i \<longleftrightarrow> bi_view i = None \<and> bi_fields i = None \<and> bi_links i = None"

definition no_attachment :: "batch_item \<Rightarrow> bool" where
  "no_attachment i \<longleftrightarrow> bi_attachment_id i = [] \<and> bi_output_path i = []"

text \<open>The fields an operation requires and the ones it refuses.\<close>

definition fields_accepted :: "string \<Rightarrow> batch_item \<Rightarrow> bool" where
  "fields_accepted operation i =
     (if operation = ''read'' then no_attachment i \<and> no_state_fields i \<and> bi_mailbox i = [] \<and> \<not> bi_allow_draft_mutation i
        \<and> \<not> (bi_view i \<noteq> None \<and> bi_fields i \<noteq> None)
      else if operation = ''attachment_save'' then bi_attachment_id i \<noteq> [] \<and> bi_output_path i \<noteq> [] \<and> no_state_fields i
        \<and> bi_mailbox i = [] \<and> \<not> bi_allow_draft_mutation i \<and> no_projection i
      else if operation = ''mark'' then no_attachment i \<and> bi_mailbox i = [] \<and> no_projection i \<and> \<not> no_state_fields i
      else if operation = ''move'' then bi_mailbox i \<noteq> [] \<and> no_attachment i \<and> no_state_fields i \<and> no_projection i
      else if operation = ''copy'' then bi_mailbox i \<noteq> [] \<and> no_attachment i \<and> no_state_fields i
        \<and> \<not> bi_allow_draft_mutation i \<and> no_projection i
      else no_attachment i \<and> no_state_fields i \<and> bi_mailbox i = [] \<and> no_projection i)"

definition check_identity ::
    "json_codec \<Rightarrow> (string \<Rightarrow> string) \<Rightarrow> string \<Rightarrow> batch_item \<Rightarrow> batch_seen \<Rightarrow> go_error + batch_seen" where
  "check_identity js nfc operation i seen =
     (if operation \<in> set [''mark'', ''move'', ''delete''] then
        (case message_identity_key js (bi_ref i) of
           Inl _ \<Rightarrow> Inl invalid_reference
         | Inr source \<Rightarrow>
             if source \<in> set (bs_sources seen) then Inl invalid_argument
             else Inr (seen\<lparr>bs_sources := source # bs_sources seen\<rparr>))
      else if operation = ''copy'' then
        (case message_identity_key js (bi_ref i) of
           Inl _ \<Rightarrow> Inl invalid_reference
         | Inr source \<Rightarrow> (case mailbox_identity_key js nfc (bi_mailbox i) of
             Inl _ \<Rightarrow> Inl invalid_reference
           | Inr mailbox \<Rightarrow>
               if (source, mailbox) \<in> set (bs_copies seen) then Inl invalid_argument
               else Inr (seen\<lparr>bs_copies := (source, mailbox) # bs_copies seen\<rparr>)))
      else Inr seen)"

definition check_destination ::
    "(string \<Rightarrow> string) \<Rightarrow> (string \<Rightarrow> lstat_answer) \<Rightarrow> string \<Rightarrow> batch_item \<Rightarrow> batch_seen \<Rightarrow> go_error + batch_seen" where
  "check_destination lower lstat operation i seen =
     (if operation = ''attachment_save'' then
        (case validate_attachment_request lstat (bi_ref i) (bi_attachment_id i) (bi_output_path i) of
           Some e \<Rightarrow> Inl (Wrapped e)
         | None \<Rightarrow>
             (let path = lower (clean_path (bi_output_path i))
              in if path \<in> set (bs_destinations seen) then Inl invalid_argument
                 else Inr (seen\<lparr>bs_destinations := path # bs_destinations seen\<rparr>)))
      else Inr seen)"

definition check_batch_item ::
    "json_codec \<Rightarrow> (string \<Rightarrow> string) \<Rightarrow> (string \<Rightarrow> string) \<Rightarrow> (string \<Rightarrow> lstat_answer) \<Rightarrow> string
     \<Rightarrow> batch_item \<Rightarrow> batch_seen \<Rightarrow> go_error + batch_seen" where
  "check_batch_item js nfc lower lstat operation i seen =
     (if bi_id i = [] \<or> bi_id i \<noteq> trim_space (bi_id i) then Inl invalid_argument
      else if bi_id i \<in> set (bs_ids seen) then Inl invalid_argument
      else if bi_ref i = [] then Inl invalid_argument
      else if \<not> fields_accepted operation i then Inl invalid_argument
      else bindR (check_destination lower lstat operation i (seen\<lparr>bs_ids := bi_id i # bs_ids seen\<rparr>))
             (check_identity js nfc operation i))"

fun check_batch_items ::
    "json_codec \<Rightarrow> (string \<Rightarrow> string) \<Rightarrow> (string \<Rightarrow> string) \<Rightarrow> (string \<Rightarrow> lstat_answer) \<Rightarrow> string
     \<Rightarrow> batch_item list \<Rightarrow> batch_seen \<Rightarrow> go_error + batch_seen" where
  "check_batch_items js nfc lower lstat operation [] seen = Inr seen"
| "check_batch_items js nfc lower lstat operation (i # is) seen =
     bindR (check_batch_item js nfc lower lstat operation i seen) (check_batch_items js nfc lower lstat operation is)"

definition batch_operations :: "string list" where
  "batch_operations = [''read'', ''attachment_save'', ''mark'', ''move'', ''copy'', ''delete'']"

definition validate_batch_request ::
    "json_codec \<Rightarrow> (string \<Rightarrow> string) \<Rightarrow> (string \<Rightarrow> string) \<Rightarrow> (string \<Rightarrow> lstat_answer) \<Rightarrow> batch_request \<Rightarrow> go_error + int" where
  "validate_batch_request js nfc lower lstat request =
     (if br_operation request \<notin> set batch_operations then Inl invalid_argument
      else if br_defaults request \<and> br_operation request \<noteq> ''read'' then Inl invalid_argument
      else if br_items request = [] then Inl invalid_argument
      else if maximum_batch_items < length (br_items request) then Inl invalid_argument
      else (let concurrency = (if br_concurrency request = 0 then default_batch_concurrency else br_concurrency request)
            in if concurrency < 1 \<or> maximum_batch_concurrency < concurrency then Inl invalid_argument
               else bindR (check_batch_items js nfc lower lstat (br_operation request) (br_items request)
                      \<lparr>bs_ids = [], bs_destinations = [], bs_sources = [], bs_copies = []\<rparr>)
                    (\<lambda>_. Inr concurrency)))"

section \<open>An accepted batch\<close>

text \<open>The keys the validation compares, as the items carry them.\<close>

definition source_key :: "json_codec \<Rightarrow> batch_item \<Rightarrow> message_identity option" where
  "source_key js i = (case message_identity_key js (bi_ref i) of Inl _ \<Rightarrow> None | Inr k \<Rightarrow> Some k)"

definition copy_key :: "json_codec \<Rightarrow> (string \<Rightarrow> string) \<Rightarrow> batch_item \<Rightarrow> (message_identity \<times> string \<times> string) option" where
  "copy_key js nfc i = (case (source_key js i, mailbox_identity_key js nfc (bi_mailbox i)) of
     (Some k, Inr m) \<Rightarrow> Some (k, m) | _ \<Rightarrow> None)"

lemma check_destination_keeps:
  "check_destination lower lstat operation i seen = Inr seen'
   \<Longrightarrow> bs_ids seen' = bs_ids seen \<and> bs_sources seen' = bs_sources seen \<and> bs_copies seen' = bs_copies seen"
  by (auto simp: check_destination_def Let_def split: if_splits option.splits)

lemma check_batch_item_adds:
  assumes "check_batch_item js nfc lower lstat operation i seen = Inr seen'"
  shows "bs_ids seen' = bi_id i # bs_ids seen \<and> bi_id i \<notin> set (bs_ids seen)"
    and "operation \<in> set [''mark'', ''move'', ''delete''] \<Longrightarrow>
      \<exists>k. source_key js i = Some k \<and> k \<notin> set (bs_sources seen) \<and> bs_sources seen' = k # bs_sources seen"
    and "operation = ''copy'' \<Longrightarrow>
      \<exists>k. copy_key js nfc i = Some k \<and> k \<notin> set (bs_copies seen) \<and> bs_copies seen' = k # bs_copies seen"
proof -
  obtain mid where mid: "check_destination lower lstat operation i (seen\<lparr>bs_ids := bi_id i # bs_ids seen\<rparr>) = Inr mid"
    "check_identity js nfc operation i mid = Inr seen'" and fresh: "bi_id i \<notin> set (bs_ids seen)"
    using assms by (auto simp: check_batch_item_def result_simps split: if_splits)
  note keep = check_destination_keeps [OF mid(1), simplified]
  show "bs_ids seen' = bi_id i # bs_ids seen \<and> bi_id i \<notin> set (bs_ids seen)"
    using mid(2) keep fresh by (auto simp: check_identity_def split: if_splits sum.splits)
  show "operation \<in> set [''mark'', ''move'', ''delete''] \<Longrightarrow>
      \<exists>k. source_key js i = Some k \<and> k \<notin> set (bs_sources seen) \<and> bs_sources seen' = k # bs_sources seen"
    using mid(2) keep unfolding check_identity_def if_P
    by (simp only: if_True split: sum.split_asm) (auto simp: source_key_def split: if_split_asm sum.split_asm)
  show "\<exists>k. copy_key js nfc i = Some k \<and> k \<notin> set (bs_copies seen) \<and> bs_copies seen' = k # bs_copies seen"
    if "operation = ''copy''"
  proof -
    have "operation \<notin> set [''mark'', ''move'', ''delete'']" using that by simp
    then show ?thesis using mid(2) keep that unfolding check_identity_def
      by (auto simp: source_key_def copy_key_def split: if_split_asm sum.split_asm)
  qed
qed

text \<open>Adding the keys of a list of items one by one, each fresh.\<close>

lemma check_batch_items_keys:
  assumes "check_batch_items js nfc lower lstat operation items seen = Inr seen'"
    and "\<And>i seen seen'. check_batch_item js nfc lower lstat operation i seen = Inr seen'
      \<Longrightarrow> \<exists>k. key i = Some k \<and> k \<notin> set (keys seen) \<and> keys seen' = k # keys seen"
  shows "\<exists>ks. map key items = map Some ks \<and> keys seen' = rev ks @ keys seen \<and> (distinct (keys seen) \<longrightarrow> distinct (keys seen'))"
  using assms(1)
proof (induction items arbitrary: seen)
  case Nil
  then show ?case by simp
next
  case (Cons i items)
  then obtain mid where mid: "check_batch_item js nfc lower lstat operation i seen = Inr mid"
    "check_batch_items js nfc lower lstat operation items mid = Inr seen'" by (auto simp: result_simps)
  obtain k where k: "key i = Some k" "k \<notin> set (keys seen)" "keys mid = k # keys seen" using assms(2) [OF mid(1)] by blast
  obtain ks where ks: "map key items = map Some ks" "keys seen' = rev ks @ keys mid"
    "distinct (keys mid) \<longrightarrow> distinct (keys seen')" using Cons.IH [OF mid(2)] by blast
  have "map key (i # items) = map Some (k # ks)" "keys seen' = rev (k # ks) @ keys seen" using k ks by simp_all
  moreover have "distinct (keys seen) \<longrightarrow> distinct (keys seen')" using k ks by simp
  ultimately show ?case by blast
qed

lemma distinct_map_Some: "map key items = map Some ks \<Longrightarrow> distinct ks \<Longrightarrow> distinct (map key items) \<and> None \<notin> set (map key items)"
  by (auto simp: distinct_map)

lemma accepted_items:
  assumes "validate_batch_request js nfc lower lstat request = Inr c"
  obtains seen where "check_batch_items js nfc lower lstat (br_operation request) (br_items request)
      \<lparr>bs_ids = [], bs_destinations = [], bs_sources = [], bs_copies = []\<rparr> = Inr seen"
    "1 \<le> c" "c \<le> maximum_batch_concurrency" "br_items request \<noteq> []" "length (br_items request) \<le> maximum_batch_items"
  using assms by (auto simp: validate_batch_request_def Let_def result_simps split: if_splits)

lemma accepted_keys:
  assumes "validate_batch_request js nfc lower lstat request = Inr c"
  shows "distinct (map bi_id (br_items request))"
    and "br_operation request \<in> set [''mark'', ''move'', ''delete''] \<Longrightarrow>
      distinct (map (source_key js) (br_items request)) \<and> None \<notin> set (map (source_key js) (br_items request))"
    and "br_operation request = ''copy'' \<Longrightarrow>
      distinct (map (copy_key js nfc) (br_items request)) \<and> None \<notin> set (map (copy_key js nfc) (br_items request))"
proof -
  obtain seen where seen: "check_batch_items js nfc lower lstat (br_operation request) (br_items request)
      \<lparr>bs_ids = [], bs_destinations = [], bs_sources = [], bs_copies = []\<rparr> = Inr seen"
    using assms by (rule accepted_items)
  have "\<exists>k. Some (bi_id i) = Some k \<and> k \<notin> set (bs_ids s) \<and> bs_ids s' = k # bs_ids s"
    if "check_batch_item js nfc lower lstat (br_operation request) i s = Inr s'" for i s s'
    using check_batch_item_adds(1) [OF that] by simp
  from check_batch_items_keys [OF seen, of "\<lambda>i. Some (bi_id i)" bs_ids, OF this]
  obtain ks where "map (\<lambda>i. Some (bi_id i)) (br_items request) = map Some ks" "bs_ids seen = rev ks" "distinct (bs_ids seen)"
    by auto
  moreover from this(1) have "map the (map (\<lambda>i. Some (bi_id i)) (br_items request)) = map the (map Some ks)" by (rule arg_cong)
  then have "map bi_id (br_items request) = ks" by (simp add: comp_def)
  ultimately show "distinct (map bi_id (br_items request))" by simp
  show "distinct (map (source_key js) (br_items request)) \<and> None \<notin> set (map (source_key js) (br_items request))"
    if "br_operation request \<in> set [''mark'', ''move'', ''delete'']"
  proof -
    have "\<exists>k. source_key js i = Some k \<and> k \<notin> set (bs_sources s) \<and> bs_sources s' = k # bs_sources s"
      if "check_batch_item js nfc lower lstat (br_operation request) i s = Inr s'" for i s s'
      using check_batch_item_adds(2) [OF that] \<open>br_operation request \<in> _\<close> by simp
    from check_batch_items_keys [OF seen, of "source_key js" bs_sources, OF this]
    obtain ks where "map (source_key js) (br_items request) = map Some ks" "bs_sources seen = rev ks" "distinct (bs_sources seen)"
      by auto
    then show ?thesis using distinct_map_Some [of "source_key js" "br_items request" ks] by simp
  qed
  show "distinct (map (copy_key js nfc) (br_items request)) \<and> None \<notin> set (map (copy_key js nfc) (br_items request))"
    if "br_operation request = ''copy''"
  proof -
    have "\<exists>k. copy_key js nfc i = Some k \<and> k \<notin> set (bs_copies s) \<and> bs_copies s' = k # bs_copies s"
      if "check_batch_item js nfc lower lstat (br_operation request) i s = Inr s'" for i s s'
      using check_batch_item_adds(3) [OF that] \<open>br_operation request = _\<close> by simp
    from check_batch_items_keys [OF seen, of "copy_key js nfc" bs_copies, OF this]
    obtain ks where "map (copy_key js nfc) (br_items request) = map Some ks" "bs_copies seen = rev ks" "distinct (bs_copies seen)"
      by auto
    then show ?thesis using distinct_map_Some [of "copy_key js nfc" "br_items request" ks] by simp
  qed
qed

lemma distinct_picks:
  assumes "distinct (map key items)" "distinct is" "\<forall>i \<in> set is. i < length items"
  shows "distinct (map (\<lambda>i. key (items ! i)) is)"
proof -
  have "inj_on (\<lambda>i. key (items ! i)) (set is)"
    using assms(1,3) by (auto simp: inj_on_def distinct_conv_nth)
  then show ?thesis using assms(2) by (simp add: distinct_map)
qed

lemma started_in_range: "batch_reachable b s \<Longrightarrow> \<forall>i \<in> set (bn_started s). i < batch_length b"
  using batch_invariant.holds [of b s] by (fastforce simp: batch_inv_def indices_ok_def dispatch_ok_def)

text \<open>C8. An accepted batch executes an identity at most once. In every execution of a mark, move or delete batch
  that passed the validation, every executed item has a decoded identity key - account, store UUID, store mailbox,
  and message or library ID - and no two executed items have the same, however the references are written; in a copy
  batch no two executed items have the same key and the same destination, compared by account and normalised path.
  Keys compare the account ID exactly: that a message has no second key is not claimed, and false for references
  that differ in the case of the account ID, which the store accepts alike.\<close>

theorem batch_mutates_once:
  assumes "validate_batch_request js nfc lower lstat (bg_request b) = Inr c" "batch_reachable b s"
  shows "(br_operation (bg_request b) \<in> set [''mark'', ''move'', ''delete''] \<longrightarrow>
      distinct (map (\<lambda>i. source_key js (br_items (bg_request b) ! i)) (bn_started s))
      \<and> (\<forall>i \<in> set (bn_started s). source_key js (br_items (bg_request b) ! i) \<noteq> None))
    \<and> (br_operation (bg_request b) = ''copy'' \<longrightarrow>
      distinct (map (\<lambda>i. copy_key js nfc (br_items (bg_request b) ! i)) (bn_started s))
      \<and> (\<forall>i \<in> set (bn_started s). copy_key js nfc (br_items (bg_request b) ! i) \<noteq> None))"
proof -
  have d: "distinct (bn_started s)" using batch_invariant.holds [OF assms(2)] by (simp add: batch_inv_def indices_ok_def)
  note r = started_in_range [OF assms(2)]
  have key: "distinct (map (\<lambda>i. key (br_items (bg_request b) ! i)) (bn_started s))
      \<and> (\<forall>i \<in> set (bn_started s). key (br_items (bg_request b) ! i) \<noteq> None)"
    if "distinct (map key (br_items (bg_request b))) \<and> None \<notin> set (map key (br_items (bg_request b)))"
    for key :: "batch_item \<Rightarrow> 'k option"
  proof
    show "distinct (map (\<lambda>i. key (br_items (bg_request b) ! i)) (bn_started s))"
      using that d r by (intro distinct_picks) simp_all
    show "\<forall>i \<in> set (bn_started s). key (br_items (bg_request b) ! i) \<noteq> None"
    proof
      fix i assume "i \<in> set (bn_started s)"
      then have "key (br_items (bg_request b) ! i) \<in> set (map key (br_items (bg_request b)))" using r by simp
      with that show "key (br_items (bg_request b) ! i) \<noteq> None" by metis
    qed
  qed
  show ?thesis
    by (intro conjI impI) (use key [OF accepted_keys(2) [OF assms(1)]] key [OF accepted_keys(3) [OF assms(1)]] in simp_all)
qed

definition sample_batch :: batch_setting where
  "sample_batch = \<lparr>bg_request = \<lparr>br_operation = ''delete'', br_defaults = False,
     br_items = [(example_item ''a'')\<lparr>bi_ref := ''msg_'' @ b64_encode_raw b64_url sample_payload\<rparr>], br_concurrency = 2\<rparr>,
     bg_transient_reply = (\<lambda>_. False), bg_content_admission = None, bg_result_admission = None\<rparr>"

lemma sample_batch_accepted: "validate_batch_request no_json id id (\<lambda>_. Lstat_Missing) (bg_request sample_batch) = Inr 2"
proof -
  have "\<exists>k. message_identity_key no_json (''msg_'' @ b64_encode_raw b64_url sample_payload) = Inr k"
    using decode_encoded_message [OF encode_sample_message, of no_json]
    by (simp add: message_identity_key_def sample_message_def)
  then obtain k where "message_identity_key no_json (''msg_'' @ b64_encode_raw b64_url sample_payload) = Inr k" by blast
  moreover have "trim_space ''a'' = ''a''" by (rule trim_space_printable) simp_all
  ultimately show ?thesis
    by (simp add: validate_batch_request_def sample_batch_def batch_operations_def maximum_batch_items_def
        maximum_batch_concurrency_def Let_def check_batch_item_def example_item_def fields_accepted_def no_attachment_def
        no_state_fields_def no_projection_def check_destination_def check_identity_def)
qed

theorem batch_mutates_once_witness:
  "\<exists>s. batch_finished s \<and> set (bn_started s) = {0} \<and> source_key no_json (br_items (bg_request sample_batch) ! 0) \<noteq> None"
proof -
  define s0 where "s0 = \<lparr>bn_next = 0, bn_dispatcher = Dispatch_Check, bn_workers = [Worker_Idle],
     bn_results = map (canceled_item_result sample_batch) (br_items (bg_request sample_batch)),
     bn_canceled = False, bn_budget_exceeded = False, bn_started = []\<rparr>"
  have r0: "batch_reachable sample_batch s0"
    by (rule reachable.start) (simp add: batch_init_def s0_def sample_batch_def)
  have "1 \<le> br_concurrency (bg_request sample_batch)" by (simp add: sample_batch_def)
  then obtain s where s: "batch_reachable sample_batch s" "batch_finished s" "bn_canceled s = bn_canceled s0"
    using batch_reaches_end [OF r0] by blast
  have "\<not> ctx_done s"
    using s(3) budget_only_reads [OF s(1)] by (simp add: ctx_done_def s0_def sample_batch_def)
  then have "set (bn_started s) = {..<batch_length sample_batch}"
    using batch_finished_all [OF s(1,2)] by blast
  then have st: "set (bn_started s) = {0}" by (auto simp: sample_batch_def)
  moreover have "br_operation (bg_request sample_batch) \<in> set [''mark'', ''move'', ''delete'']" by (simp add: sample_batch_def)
  ultimately have "source_key no_json (br_items (bg_request sample_batch) ! 0) \<noteq> None"
    using batch_mutates_once [OF sample_batch_accepted s(1)] by (metis singletonI)
  with s(2) st show ?thesis by (intro exI [of _ s] conjI)
qed

end
