(* ===== verification/Imap_Flag_Proofs.thy ===== *)
theory Imap_Flag_Proofs
  imports Imap_Flags
begin

text \<open>
  What the flag operations of \<open>Imap_Flags\<close> guarantee, for every stream of server bytes and every
  sequence of connection faults: which commands can have been written when each outcome is
  reported, what a success proves, and that the observation follows an honest mailbox.
\<close>

section \<open>What a step writes\<close>

lemma mark_dirty_out [simp]: "se_out (mark_dirty s) = se_out s"
  by (simp add: mark_dirty_def)

lemma next_fault_out: "next_fault s = (f, s') \<Longrightarrow> se_out s' = se_out s"
  by (auto simp: next_fault_def split: list.splits)

lemma read_line_out: "read_line limit s = (r, s') \<Longrightarrow> se_out s' = se_out s"
  by (auto simp: read_line_def split: option.splits if_splits)

lemma read_logical_loop_out:
  "se_out (snd (read_logical_loop lim b acc lits lb wb s)) = se_out s"
proof (induction lim b acc lits lb wb s rule: read_logical_loop.induct)
  case (1 lim b acc lits lb wb s)
  obtain r s1 where rl: "read_line max_response_line_bytes s = (r, s1)" by fastforce
  note out = read_line_out [OF rl]
  show ?case
  proof (cases "\<exists>line n b1 p k b2. r = Inr (line, n)
      \<and> budget_consume b n False = Inr b1 \<and> parse_literal_suffix line = Inr (Some (p, k))
      \<and> \<not> rl_count lim \<le> length lits \<and> \<not> (rl_literal lim < k \<or> rl_response lim - lb < k)
      \<and> \<not> rl_response lim - lb - k < length acc + length p + 1
      \<and> budget_consume b1 k True = Inr b2 \<and> \<not> length (se_in s1) < k")
    case True
    then obtain line n b1 p k b2 where r: "r = Inr (line, n)"
      and c: "budget_consume b n False = Inr b1" "parse_literal_suffix line = Inr (Some (p, k))"
        "\<not> rl_count lim \<le> length lits" "\<not> (rl_literal lim < k \<or> rl_response lim - lb < k)"
        "\<not> rl_response lim - lb - k < length acc + length p + 1"
        "budget_consume b1 k True = Inr b2" "\<not> length (se_in s1) < k" by blast
    from "1.IH" [OF rl [unfolded r, symmetric] refl refl c(1,2) refl refl c(3-7)]
    show ?thesis using rl r c out by (subst read_logical_loop.simps) simp
  next
    case False
    then show ?thesis
      using rl out by (subst read_logical_loop.simps) (auto split: sum.splits option.splits if_splits)
  qed
qed

lemma read_logical_line_out: "read_logical_line lim b s = (r, s') \<Longrightarrow> se_out s' = se_out s"
  using read_logical_loop_out [of lim b "[]" "[]" 0 0 s] by (simp add: read_logical_line_def)

lemma check_context_out: "check_context s = (ok, s') \<Longrightarrow> se_out s' = se_out s"
  by (auto simp: check_context_def dest!: next_fault_out split: prod.splits io_result.splits)

lemma set_deadline_out: "set_deadline s = (r, s') \<Longrightarrow> se_out s' = se_out s"
  by (auto simp: set_deadline_def dest!: next_fault_out split: prod.splits io_result.splits)

lemma next_tag_out: "next_tag s = (tag, s') \<Longrightarrow> se_out s' = se_out s"
  by (auto simp: next_tag_def)

lemma write_line_out:
  "write_line s line = (r, s') \<Longrightarrow> se_out s' = se_out s \<or> se_out s' = se_out s @ [line]"
  by (auto simp: write_line_def dest!: next_fault_out split: prod.splits io_result.splits if_splits)

lemma read_flag_loop_out:
  "read_flag_loop k remaining res tag uid v pm s = (r, s') \<Longrightarrow> se_out s' = se_out s"
proof (induction k remaining res tag uid v pm s arbitrary: r s' rule: read_flag_loop.induct)
  case (2 k remaining res tag uid uidvalidity pm s)
  obtain ok s1 where cc: "check_context s = (ok, s1)" by fastforce
  obtain l s2 where rl: "read_logical_line
      \<lparr>rl_literal = max_response_line_bytes, rl_response = remaining, rl_count = 128\<rparr> None s1 = (l, s2)"
    by fastforce
  note outs = check_context_out [OF cc] read_logical_line_out [OF rl]
  show ?case
  proof (cases "ok \<and> (\<exists>ll. l = Inr ll)")
    case False
    then show ?thesis using "2.prems" cc rl outs by (cases ok; cases l) auto
  next
    case True
    then obtain ll where ll: "ok = True" "l = Inr ll" by blast
    note IH = "2.IH" [OF cc [symmetric] ll(1) rl [symmetric] ll(2) refl refl]
    show ?thesis
      using "2.prems" cc rl outs ll
      by (auto simp: Let_def split: if_splits option.splits prod.splits sum.splits dest: IH [simplified])
  qed
qed simp

text \<open>
  \<open>wrote uid s s' ms\<close>: between the two states the client wrote some lines, and those that are not
  the FETCH of the message's flags are \<open>ms\<close>.
\<close>

definition is_flag_fetch :: "32 word \<Rightarrow> string \<Rightarrow> bool" where
  "is_flag_fetch uid l = has_suffix l (fetch_command uid)"

definition wrote :: "32 word \<Rightarrow> imap_session \<Rightarrow> imap_session \<Rightarrow> string list \<Rightarrow> bool" where
  "wrote uid s s' ms \<longleftrightarrow> take (length (se_out s)) (se_out s') = se_out s
     \<and> filter (\<lambda>l. \<not> is_flag_fetch uid l) (drop (length (se_out s)) (se_out s')) = ms"

lemma wrote_alt:
  "wrote uid s s' ms \<longleftrightarrow>
     (\<exists>new. se_out s' = se_out s @ new \<and> filter (\<lambda>l. \<not> is_flag_fetch uid l) new = ms)"
proof
  assume "wrote uid s s' ms"
  then have "se_out s' = se_out s @ drop (length (se_out s)) (se_out s')"
    by (metis append_take_drop_id wrote_def)
  with \<open>wrote uid s s' ms\<close> show "\<exists>new. se_out s' = se_out s @ new \<and> filter (\<lambda>l. \<not> is_flag_fetch uid l) new = ms"
    by (auto simp: wrote_def)
qed (auto simp: wrote_def)

lemma wrote_nothing: "se_out s' = se_out s \<Longrightarrow> wrote uid s s' []"
  by (simp add: wrote_def)

lemma wrote_trans: "wrote uid s s1 a \<Longrightarrow> wrote uid s1 s2 b \<Longrightarrow> wrote uid s s2 (a @ b)"
  by (auto simp: wrote_alt)

lemmas step_out = check_context_out set_deadline_out next_tag_out write_line_out read_flag_loop_out

lemma fetch_flag_result_wrote:
  assumes "fetch_flag_result uid v pm s = (r, s')"
  shows "wrote uid s s' []"
proof -
  have "is_flag_fetch uid (tag @ fetch_command uid)" for tag
    by (simp add: is_flag_fetch_def has_suffix_iff)
  with assms show ?thesis
    by (auto simp: fetch_flag_result_def read_flag_result_def wrote_alt dest!: step_out
        split: sum.splits prod.splits)
qed

definition at_most_store :: "32 word \<Rightarrow> flag_changes \<Rightarrow> string list \<Rightarrow> bool" where
  "at_most_store uid phase ms \<longleftrightarrow> ms = [] \<or> (\<exists>tag. ms = [tag @ store_command uid phase])"

definition wrote_store :: "32 word \<Rightarrow> flag_changes \<Rightarrow> imap_session \<Rightarrow> imap_session \<Rightarrow> bool" where
  "wrote_store uid phase s s' \<longleftrightarrow> (\<exists>ms. wrote uid s s' ms \<and> at_most_store uid phase ms)"

lemma wrote_store_line:
  "se_out s' = se_out s @ [tag @ store_command uid phase] \<Longrightarrow> wrote_store uid phase s s'"
  "se_out s' = se_out s \<Longrightarrow> wrote_store uid phase s s'"
  by (auto simp: wrote_store_def at_most_store_def wrote_alt)

lemma wrote_store_none: "wrote uid s s' [] \<Longrightarrow> wrote_store uid phase s s'"
  by (auto simp: wrote_store_def at_most_store_def)

lemma wrote_store_trans: "wrote_store uid phase s s1 \<Longrightarrow> wrote uid s1 s2 [] \<Longrightarrow> wrote_store uid phase s s2"
  unfolding wrote_store_def by (metis append_Nil2 wrote_trans)

lemma store_flag_change_wrote:
  assumes "store_flag_change ev phase pm s = (((ev', result, err), pm'), s')"
  shows "ev_uid ev' = ev_uid ev
    \<and> (ev' = ev \<and> err \<noteq> None \<and> result = empty_result \<and> wrote (ev_uid ev) s s' []
       \<or> ev_outcome ev' = Attempted \<and> ev_flags_state ev' = FlagsUnverified \<and> wrote_store (ev_uid ev) phase s s')"
  using assms
  by (auto simp: store_flag_change_def read_flag_result_def Let_def dest!: step_out
      intro: wrote_nothing wrote_store_line split: sum.splits prod.splits)

lemma perform_flag_change_wrote:
  assumes "perform_flag_change ev phase pm s = (((ev', err), pm'), s')"
  shows "ev_uid ev' = ev_uid ev
    \<and> (ev' = ev \<and> err \<noteq> None \<and> wrote (ev_uid ev) s s' []
       \<or> ev_outcome ev' \<noteq> NotStarted \<and> wrote_store (ev_uid ev) phase s s')"
proof -
  obtain ev1 result err1 pm1 s1 where st: "store_flag_change ev phase pm s = (((ev1, result, err1), pm1), s1)"
    by (metis prod.exhaust)
  note w = store_flag_change_wrote [OF st]
  show ?thesis
  proof (cases err1)
    case None
    obtain ev2 err2 pm2 s2 where ve: "verify_flag_result ev1 (fl_observation result) phase pm1 s1 = (((ev2, err2), pm2), s2)"
      by (metis prod.exhaust)
    have "ev_uid ev2 = ev_uid ev1 \<and> ev_outcome ev2 \<noteq> NotStarted \<and> wrote (ev_uid ev1) s1 s2 []"
      using ve
      by (auto simp: verify_flag_result_def Let_def missing_flag_result_def unknown_flag_result_def
          complete_flag_result_def with_flag_observation_def
          intro: wrote_nothing dest!: fetch_flag_result_wrote
          split: if_splits prod.splits option.splits)
    with w None st ve assms show ?thesis
      by (auto simp: perform_flag_change_def Let_def intro: wrote_store_trans split: option.splits if_splits)
  next
    case (Some e)
    have rej: "ev_uid ev2 = ev_uid ev1 \<and> ev_outcome ev2 \<noteq> NotStarted \<and> wrote (ev_uid ev1) s1 s2 []"
      if "rejected_flag_result ev1 p pm1 e s1 = (((ev2, err2), pm2), s2)" for p ev2 err2 pm2 s2
      using that
      by (auto simp: rejected_flag_result_def Let_def with_flag_observation_def
          dest!: fetch_flag_result_wrote split: if_splits prod.splits)
    have "empty_result \<noteq> result" if "fl_status result = ''NO'' \<or> fl_status result = ''BAD''"
      using that by (auto simp: empty_result_def)
    with w Some st assms rej show ?thesis
      by (auto simp: perform_flag_change_def Let_def unknown_flag_result_def
          intro: wrote_store_trans wrote_store_none split: if_splits)
  qed
qed

text \<open>Over the phases: at most one STORE each, in their order.\<close>

fun phase_stores :: "32 word \<Rightarrow> flag_changes list \<Rightarrow> string list \<Rightarrow> bool" where
  "phase_stores uid [] ms \<longleftrightarrow> ms = []"
| "phase_stores uid (p # ps) ms \<longleftrightarrow>
     phase_stores uid ps ms \<or> (\<exists>tag ms'. ms = (tag @ store_command uid p) # ms' \<and> phase_stores uid ps ms')"

lemma phase_stores_length: "phase_stores uid ps ms \<Longrightarrow> length ms \<le> length ps"
  by (induction ps arbitrary: ms) (auto simp: le_SucI)

lemma phase_stores_Nil [simp]: "phase_stores uid ps []"
  by (induction ps) auto

lemma phase_stores_Cons: "at_most_store uid p ms \<Longrightarrow> phase_stores uid ps ms' \<Longrightarrow> phase_stores uid (p # ps) (ms @ ms')"
  by (auto simp: at_most_store_def)

lemma perform_phases_wrote:
  "perform_phases ev ps pm s = (((ev', err), pm'), s') \<Longrightarrow>
     ev_uid ev' = ev_uid ev \<and> (\<exists>ms. wrote (ev_uid ev) s s' ms \<and> phase_stores (ev_uid ev) ps ms
       \<and> (ev_outcome ev' = NotStarted \<longrightarrow> ev_outcome ev = NotStarted \<and> ms = []))"
proof (induction ev ps pm s rule: perform_phases.induct)
  case (1 ev pm s)
  then show ?case by (auto intro: wrote_nothing)
next
  case (2 ev phase phases pm s)
  show ?case
  proof (cases "length (fc_add phase) + length (fc_remove phase) = 0")
    case True
    with "2.IH"(1) "2.prems" show ?thesis by auto
  next
    case ne: False
    show ?thesis
    proof (cases "unsupported_flag pm phase = []")
      case False
      with ne "2.prems" have "ev' = ev" "s' = s" by (auto simp: Let_def split: if_splits)
      then show ?thesis using phase_stores_Nil [of "ev_uid ev" "phase # phases"] wrote_nothing by blast
    next
      case True
      obtain ev1 err1 pm1 s1 where pf: "perform_flag_change ev phase pm s = (((ev1, err1), pm1), s1)"
        by (metis prod.exhaust)
      note w = perform_flag_change_wrote [OF pf]
      then obtain ms where ms: "wrote (ev_uid ev) s s1 ms" "at_most_store (ev_uid ev) phase ms"
        "ev_outcome ev1 = NotStarted \<longrightarrow> ms = []"
        unfolding wrote_store_def by (metis at_most_store_def)
      show ?thesis
      proof (cases err1)
        case (Some e)
        with ne True pf "2.prems" have "ev' = ev1" "s' = s1" by auto
        moreover have "phase_stores (ev_uid ev) (phase # phases) ms"
          using phase_stores_Cons [OF ms(2) phase_stores_Nil] by simp
        ultimately show ?thesis using w ms by blast
      next
        case None
        have rec: "perform_phases ev1 phases pm1 s1 = (((ev', err), pm'), s')"
          using ne True pf None "2.prems" by (simp add: Let_def split: if_splits)
        have "ev_uid ev' = ev_uid ev1 \<and> (\<exists>ms. wrote (ev_uid ev1) s1 s' ms \<and> phase_stores (ev_uid ev1) phases ms
            \<and> (ev_outcome ev' = NotStarted \<longrightarrow> ev_outcome ev1 = NotStarted \<and> ms = []))"
          using "2.IH"(2) [OF ne refl] True pf None rec by simp
        with w None obtain ms' where
          ms': "ev_uid ev' = ev_uid ev" "wrote (ev_uid ev) s1 s' ms'" "phase_stores (ev_uid ev) phases ms'"
            "ev_outcome ev' \<noteq> NotStarted"
          by auto
        from w ms' wrote_trans [OF ms(1) ms'(2)] phase_stores_Cons [OF ms(2) ms'(3)] show ?thesis by auto
      qed
    qed
  qed
qed

lemma prepare_flag_changes_wrote:
  assumes "prepare_flag_changes ev requested pm s = (((ev', needed, err), pm'), s')"
  shows "ev_uid ev' = ev_uid ev \<and> ev_outcome ev' = ev_outcome ev \<and> wrote (ev_uid ev) s s' []
    \<and> (needed = requested \<or> needed = pending_changes requested (ev_actual_flags ev'))"
  using assms
  by (auto simp: prepare_flag_changes_def Let_def with_flag_observation_def
      intro: wrote_nothing dest!: fetch_flag_result_wrote split: if_splits prod.splits option.splits)

definition fresh_evidence :: "mutation_evidence \<Rightarrow> mutation_evidence" where
  "fresh_evidence ev = ev\<lparr>ev_outcome := NotStarted, ev_flags_state := FlagsUnverified, ev_actual_flags := []\<rparr>"

text \<open>
  C4. Changing flags sends, apart from FETCH commands for the target, at most one STORE for the
  additions and one for the removals, both for this UID and both only of requested flags, whatever the
  server answers and wherever the connection fails; and when the evidence says the mutation was not
  started, no byte of a STORE can have reached the server: a STORE whose write failed, and may have left
  in part, is never reported as not started.
\<close>

theorem flag_change_dispatch:
  "case set_flags_and_verify (fresh_evidence ev) add remove pm s of (((ev', err), pm'), s') \<Rightarrow>
     \<exists>ms needed. wrote (ev_uid ev) s s' ms \<and> length ms \<le> 2
       \<and> phase_stores (ev_uid ev) (flag_phases \<lparr>fc_add = add, fc_remove = remove\<rparr> needed) ms
       \<and> set (fc_add needed) \<subseteq> set add \<and> set (fc_remove needed) \<subseteq> set remove
       \<and> (case ev_outcome ev' of NotStarted \<Rightarrow> ms = [] | _ \<Rightarrow> True)"
proof -
  let ?r = "\<lparr>fc_add = add, fc_remove = remove\<rparr>"
  obtain ev' err pm' s' where r: "set_flags_and_verify (fresh_evidence ev) add remove pm s = (((ev', err), pm'), s')"
    by (metis prod.exhaust)
  obtain ev1 needed e1 pm1 s1 where pr: "prepare_flag_changes (fresh_evidence ev) ?r pm s = (((ev1, needed, e1), pm1), s1)"
    by (metis prod.exhaust)
  have uid [simp]: "ev_uid (fresh_evidence ev) = ev_uid ev" by (simp add: fresh_evidence_def)
  note w = prepare_flag_changes_wrote [OF pr, unfolded uid]
  then have sub: "set (fc_add needed) \<subseteq> set add" "set (fc_remove needed) \<subseteq> set remove"
    by (auto simp: pending_changes_def)
  obtain ms where ms: "wrote (ev_uid ev) s s' ms" "phase_stores (ev_uid ev) (flag_phases ?r needed) ms"
    "ev_outcome ev' = NotStarted \<longrightarrow> ms = []"
  proof (cases e1)
    case (Some e)
    with r pr w that [of "[]"] show ?thesis by (simp add: set_flags_and_verify_def)
  next
    case None
    obtain ev2 e2 pm2 s2 where pp: "perform_phases ev1 (flag_phases ?r needed) pm1 s1 = (((ev2, e2), pm2), s2)"
      by (metis prod.exhaust)
    from perform_phases_wrote [OF pp] w obtain ms where
      "wrote (ev_uid ev) s1 s2 ms" "phase_stores (ev_uid ev) (flag_phases ?r needed) ms"
      "ev_outcome ev2 = NotStarted \<longrightarrow> ms = []" by auto
    moreover from this(1) w have "wrote (ev_uid ev) s s2 ms" by (auto dest: wrote_trans)
    moreover have "s' = s2" "ev_outcome ev' = NotStarted \<longrightarrow> ev' = ev2"
      using r pr pp None
      by (auto simp: set_flags_and_verify_def complete_flag_result_def split: option.splits if_splits)
    ultimately show ?thesis using that by auto
  qed
  then have "length ms \<le> 2" using phase_stores_length by (fastforce simp: flag_phases_def Let_def split: if_splits)
  with r ms sub show ?thesis by (auto split: mutation_outcome.split)
qed

lemma perform_flag_change_success:
  assumes "perform_flag_change ev phase pm s = (((ev', None), pm'), s')"
  shows "ev_flags_state ev' = FlagsObserved \<and> ev_outcome ev' = Partial \<and> unsupported_flag pm' phase = []"
  using assms
  by (auto simp: perform_flag_change_def Let_def rejected_flag_result_def unknown_flag_result_def
      verify_flag_result_def missing_flag_result_def complete_flag_result_def
      split: if_splits prod.splits option.splits)

lemma verify_flag_result_failure:
  "verify_flag_result ev ob phase pm s = (((ev', Some e), pm'), s') \<Longrightarrow> ev_outcome ev' \<noteq> Completed"
  by (auto simp: verify_flag_result_def Let_def unknown_flag_result_def missing_flag_result_def
      complete_flag_result_def split: if_splits prod.splits option.splits)

lemma rejected_flag_result_outcome:
  "rejected_flag_result ev p pm cause s = (((ev', err), pm'), s') \<Longrightarrow> ev_outcome ev' \<noteq> Completed \<and> err \<noteq> None"
  by (auto simp: rejected_flag_result_def Let_def with_flag_observation_def split: prod.splits if_splits)

lemma perform_flag_change_failure:
  assumes "perform_flag_change ev phase pm s = (((ev', Some e), pm'), s')"
  shows "ev_outcome ev' \<noteq> Completed"
proof -
  obtain ev1 result err1 pm1 s1 where st: "store_flag_change ev phase pm s = (((ev1, result, err1), pm1), s1)"
    by (metis prod.exhaust)
  show ?thesis
  proof (cases err1)
    case None
    obtain ev2 err2 pm2 s2 where ve: "verify_flag_result ev1 (fl_observation result) phase pm1 s1 = (((ev2, err2), pm2), s2)"
      by (metis prod.exhaust)
    show ?thesis
      using assms st None ve verify_flag_result_failure [of ev1 "fl_observation result" phase pm1 s1 ev2]
      by (cases err2) (auto simp: perform_flag_change_def Let_def split: if_splits)
  next
    case (Some e1)
    with assms st show ?thesis
      by (auto simp: perform_flag_change_def Let_def unknown_flag_result_def
          dest!: rejected_flag_result_outcome split: if_splits)
  qed
qed

text \<open>After the phases: nothing changed if there was none, and an observation otherwise.\<close>

lemma perform_phases_result:
  "perform_phases ev ps pm s = (((ev', err), pm'), s') \<Longrightarrow>
     (case err of
        None \<Rightarrow> ev_flags_state ev' = FlagsObserved \<and> ev_outcome ev' = Partial
          \<or> ev' = ev \<and> list_all (\<lambda>p. fc_add p = [] \<and> fc_remove p = []) ps
      | Some e \<Rightarrow> ev_outcome ev' = Completed \<longrightarrow> ev_outcome ev = Completed)"
proof (induction ev ps pm s rule: perform_phases.induct)
  case (2 ev phase phases pm s)
  show ?case
  proof (cases "length (fc_add phase) + length (fc_remove phase) = 0")
    case True
    with "2.IH"(1) "2.prems" show ?thesis by (auto split: option.splits)
  next
    case ne: False
    show ?thesis
    proof (cases "unsupported_flag pm phase = []")
      case False
      with ne "2.prems" show ?thesis by (auto simp: Let_def split: if_splits)
    next
      case True
      obtain ev1 err1 pm1 s1 where pf: "perform_flag_change ev phase pm s = (((ev1, err1), pm1), s1)"
        by (metis prod.exhaust)
      show ?thesis
      proof (cases err1)
        case (Some e)
        with ne True pf "2.prems" perform_flag_change_failure [OF pf [unfolded Some]] show ?thesis
          by (auto simp: Let_def split: if_splits)
      next
        case None
        have "perform_phases ev1 phases pm1 s1 = (((ev', err), pm'), s')"
          using ne True pf None "2.prems" by (simp add: Let_def split: if_splits)
        with "2.IH"(2) [OF ne refl] True pf None have "case err of
            None \<Rightarrow> ev_flags_state ev' = FlagsObserved \<and> ev_outcome ev' = Partial
              \<or> ev' = ev1 \<and> list_all (\<lambda>p. fc_add p = [] \<and> fc_remove p = []) phases
          | Some e \<Rightarrow> ev_outcome ev' = Completed \<longrightarrow> ev_outcome ev1 = Completed" by simp
        with perform_flag_change_success [OF pf [unfolded None]] show ?thesis by (auto split: option.splits)
      qed
    qed
  qed
qed simp

lemma prepare_flag_changes_observed:
  "prepare_flag_changes ev requested pm s = (((ev', needed, None), pm'), s') \<Longrightarrow>
     ev_flags_state ev' = FlagsObserved \<or> needed = requested"
  by (auto simp: prepare_flag_changes_def Let_def split: if_splits prod.splits option.splits)

lemma flag_phases_empty:
  "list_all (\<lambda>p. fc_add p = [] \<and> fc_remove p = []) (flag_phases requested needed)
     \<longleftrightarrow> fc_add needed = [] \<and> fc_remove needed = []"
  by (auto simp: flag_phases_def Let_def)

text \<open>
  C20. Success is never claimed without proof: the evidence says Completed exactly when no error is
  returned, and then the flags of the target were observed and satisfy every requested addition and
  removal, for every valid request and every behaviour of the server and the connection.
\<close>

theorem flag_change_success_is_observed:
  "case validate_flag_changes add remove of Inl _ \<Rightarrow> True | Inr _ \<Rightarrow>
     (case set_flags_and_verify (fresh_evidence ev) add remove pm s of (((ev', err), pm'), s') \<Rightarrow>
        (err = None \<longleftrightarrow> ev_outcome ev' = Completed)
        \<and> (case err of Some _ \<Rightarrow> True | None \<Rightarrow> ev_flags_state ev' = FlagsObserved
             \<and> flags_match_changes (ev_actual_flags ev') add remove))"
proof (cases "validate_flag_changes add remove")
  case (Inr u)
  let ?r = "\<lparr>fc_add = add, fc_remove = remove\<rparr>"
  from Inr have nonempty: "add \<noteq> [] \<or> remove \<noteq> []"
    by (auto simp: validate_flag_changes_def split: if_splits)
  obtain ev' err pm' s' where r: "set_flags_and_verify (fresh_evidence ev) add remove pm s = (((ev', err), pm'), s')"
    by (metis prod.exhaust)
  obtain ev1 needed e1 pm1 s1 where pr: "prepare_flag_changes (fresh_evidence ev) ?r pm s = (((ev1, needed, e1), pm1), s1)"
    by (metis prod.exhaust)
  from prepare_flag_changes_wrote [OF pr] have out: "ev_outcome ev1 = NotStarted"
    by (simp add: fresh_evidence_def)
  show ?thesis
  proof (cases e1)
    case (Some e)
    with Inr r pr out show ?thesis by (auto simp: set_flags_and_verify_def)
  next
    case None
    obtain ev2 e2 pm2 s2 where pp: "perform_phases ev1 (flag_phases ?r needed) pm1 s1 = (((ev2, e2), pm2), s2)"
      by (metis prod.exhaust)
    note result = perform_phases_result [OF pp]
    show ?thesis
    proof (cases e2)
      case (Some e)
      with Inr r pr None pp out result show ?thesis by (auto simp: set_flags_and_verify_def)
    next
      case e2: None
      with prepare_flag_changes_observed [OF pr [unfolded None]] result nonempty
      have "ev_flags_state ev2 = FlagsObserved" by (auto simp: flag_phases_empty)
      with Inr r pr None pp e2 show ?thesis
        by (auto simp: set_flags_and_verify_def complete_flag_result_def split: if_splits)
    qed
  qed
qed simp

section \<open>The observation and an honest mailbox\<close>

text \<open>
  What the server knows: the messages in order with their flags, and the UIDs it has expunged and
  never reuses. A step is a FETCH response, announcing a change of flags where there was one, the
  removal of a message, or an arrival, which the observation ignores.
\<close>

record mailbox_view =
  mb_messages :: "(32 word \<times> string list) list"
  mb_expunged :: "32 word set"

datatype mailbox_event = Announced fetch_response | Expunged "32 word" | Arrived

inductive mailbox_step :: "mailbox_view \<Rightarrow> mailbox_event \<Rightarrow> mailbox_view \<Rightarrow> bool" where
  announce: "\<lbrakk> n < length (mb_messages m); fr_sequence r = of_nat (n + 1); mb_messages m ! n = (u, fs);
      fr_uid_present r \<longrightarrow> fr_uid r = u; fs' = (if fr_flags_present r then fr_flags r else fs) \<rbrakk>
    \<Longrightarrow> mailbox_step m (Announced r) (m\<lparr>mb_messages := (mb_messages m)[n := (u, fs')]\<rparr>)"
| expunge: "\<lbrakk> n < length (mb_messages m); sequence = of_nat (n + 1); mb_messages m ! n = (u, fs) \<rbrakk>
    \<Longrightarrow> mailbox_step m (Expunged sequence)
      (m\<lparr>mb_messages := take n (mb_messages m) @ drop (n + 1) (mb_messages m),
         mb_expunged := insert u (mb_expunged m)\<rparr>)"
| arrive: "\<lbrakk> u \<notin> fst ` set (mb_messages m) \<union> mb_expunged m; length (mb_messages m) + 1 < 2 ^ 32 \<rbrakk>
    \<Longrightarrow> mailbox_step m Arrived (m\<lparr>mb_messages := mb_messages m @ [(u, fs)]\<rparr>)"

inductive_cases mailbox_step_cases:
  "mailbox_step m (Announced r) m'" "mailbox_step m (Expunged sequence) m'" "mailbox_step m Arrived m'"

inductive mailbox_run :: "mailbox_view \<Rightarrow> mailbox_event list \<Rightarrow> mailbox_view \<Rightarrow> bool" where
  run_nil: "mailbox_run m [] m"
| run_snoc: "mailbox_run m es m' \<Longrightarrow> mailbox_step m' e m'' \<Longrightarrow> mailbox_run m (es @ [e]) m''"

definition consume_event ::
    "flag_observation \<Rightarrow> mailbox_event \<Rightarrow> 32 word \<Rightarrow> imap_error + flag_observation" where
  "consume_event ob e uid = (case e of
      Announced r \<Rightarrow> consume_fetch ob r uid
    | Expunged sequence \<Rightarrow> Inr (consume_expunge ob sequence)
    | Arrived \<Rightarrow> Inr ob)"

fun consume_events :: "flag_observation \<Rightarrow> mailbox_event list \<Rightarrow> 32 word \<Rightarrow> imap_error + flag_observation" where
  "consume_events ob [] uid = Inr ob"
| "consume_events ob (e # es) uid = bindR (consume_event ob e uid) (\<lambda>ob. consume_events ob es uid)"

lemma consume_events_append:
  "consume_events ob (es @ es') uid = bindR (consume_events ob es uid) (\<lambda>ob. consume_events ob es' uid)"
  by (induction es arbitrary: ob) (auto simp: bindR_def split: sum.splits)

text \<open>The event a line stands for, and the line consumer as the consumer of its event.\<close>

definition line_event :: "string \<Rightarrow> string list \<Rightarrow> mailbox_event option" where
  "line_event line literals =
     (if is_fetch_response_candidate line then
        (case parse_fetch_response line literals of Inl _ \<Rightarrow> None | Inr r \<Rightarrow> Some (Announced r))
      else let fs = str_fields line in
        if length fs < 3 \<or> fs ! 0 \<noteq> ''*'' \<or> \<not> equal_fold_ascii (fs ! 2) ''EXPUNGE'' then Some Arrived
        else if length fs \<noteq> 3 then None
        else map_option Expunged (parse_positive_uid (fs ! 1)))"

lemma consume_line_event:
  "consume_line ob line literals uid =
     (case line_event line literals of None \<Rightarrow> Inl ResponseMalformed | Some e \<Rightarrow> consume_event ob e uid)"
  by (auto simp: consume_line_def line_event_def consume_event_def Let_def split: sum.splits option.splits)

definition mailbox_ok :: "mailbox_view \<Rightarrow> bool" where
  "mailbox_ok m \<longleftrightarrow> length (mb_messages m) < 2 ^ 32 \<and> distinct (map fst (mb_messages m))
     \<and> fst ` set (mb_messages m) \<inter> mb_expunged m = {}"

definition tracks :: "32 word \<Rightarrow> mailbox_view \<Rightarrow> flag_observation \<Rightarrow> bool" where
  "tracks uid m ob \<longleftrightarrow>
     (if ob_missing ob then uid \<in> mb_expunged m \<and> \<not> ob_observed ob
      else if ob_seen_uid ob then (\<exists>i < length (mb_messages m). fst (mb_messages m ! i) = uid
        \<and> ob_sequence ob = of_nat (i + 1) \<and> (ob_observed ob \<longrightarrow> ob_flags ob = snd (mb_messages m ! i)))
      else ob_sequence ob = 0 \<and> \<not> ob_observed ob)"

lemma mailbox_ok_step: "mailbox_step m e m' \<Longrightarrow> mailbox_ok m \<Longrightarrow> mailbox_ok m'"
proof (induction rule: mailbox_step.induct)
  case (announce n m r u fs fs')
  then have "map fst ((mb_messages m)[n := (u, fs')]) = map fst (mb_messages m)"
    by (simp add: map_update list_update_same_conv)
  moreover from this have "fst ` set ((mb_messages m)[n := (u, fs')]) = fst ` set (mb_messages m)"
    by (metis set_map)
  ultimately show ?case using announce by (simp add: mailbox_ok_def)
next
  case (expunge n m sequence u fs)
  let ?ms = "mb_messages m"
  have "?ms = take n ?ms @ (u, fs) # drop (n + 1) ?ms"
    using expunge by (metis Suc_eq_plus1 id_take_nth_drop)
  then obtain a b where ab: "?ms = a @ (u, fs) # b" "take n ?ms = a" "drop (n + 1) ?ms = b" by blast
  with expunge(4) show ?case by (auto simp: mailbox_ok_def)
qed (auto simp: mailbox_ok_def)

lemma of_nat_sequence:
  assumes "i < k" "j < k" "k < 2 ^ 32"
  shows "(of_nat (i + 1) :: 32 word) = of_nat (j + 1) \<longleftrightarrow> i = j"
    and "(of_nat (i + 1) :: 32 word) < of_nat (j + 1) \<longleftrightarrow> i < j"
    and "(of_nat (i + 1) :: 32 word) \<noteq> 0"
proof -
  have u: "unat (of_nat (i + 1) :: 32 word) = i + 1" "unat (of_nat (j + 1) :: 32 word) = j + 1"
    using assms by (simp_all only: unat_of_nat) (simp_all add: take_bit_nat_eq_self)
  then show "(of_nat (i + 1) :: 32 word) = of_nat (j + 1) \<longleftrightarrow> i = j" by (metis add_right_cancel)
  show "(of_nat (i + 1) :: 32 word) < of_nat (j + 1) \<longleftrightarrow> i < j"
    unfolding word_less_nat_alt u by simp
  show "(of_nat (i + 1) :: 32 word) \<noteq> 0" using u(1) by (metis add_is_0 one_neq_zero unat_0)
qed

lemma tracks_announce:
  assumes t: "tracks uid m ob" and ok: "mailbox_ok m"
    and n: "n < length (mb_messages m)" "fr_sequence r = of_nat (n + 1)" "mb_messages m ! n = (u, fs)"
    and r: "fr_uid_present r \<longrightarrow> fr_uid r = u" "fs' = (if fr_flags_present r then fr_flags r else fs)"
  shows "\<exists>ob'. consume_fetch ob r uid = Inr ob'
    \<and> tracks uid (m\<lparr>mb_messages := (mb_messages m)[n := (u, fs')]\<rparr>) ob'"
proof -
  let ?ms = "mb_messages m"
  have len: "length ?ms < 2 ^ 32" and dist: "distinct (map fst ?ms)" and disj: "fst ` set ?ms \<inter> mb_expunged m = {}"
    using ok by (simp_all add: mailbox_ok_def)
  have in_ms: "u \<in> fst ` set ?ms" using n by (metis fst_conv image_eqI nth_mem)
  have nonzero: "fr_sequence r \<noteq> 0" using n len of_nat_sequence(3) by simp
  consider (missing) "ob_missing ob" | (seen) "\<not> ob_missing ob" "ob_seen_uid ob"
    | (unseen) "\<not> ob_missing ob" "\<not> ob_seen_uid ob" by blast
  then show ?thesis
  proof cases
    case missing
    with t have "uid \<in> mb_expunged m" "\<not> ob_observed ob" by (simp_all add: tracks_def)
    with disj in_ms r have "\<not> (fr_uid_present r \<and> fr_uid r = uid)" by auto
    with missing \<open>uid \<in> mb_expunged m\<close> \<open>\<not> ob_observed ob\<close> show ?thesis
      by (auto simp: consume_fetch_def tracks_def)
  next
    case unseen
    with t have z: "ob_sequence ob = 0" "\<not> ob_observed ob" by (simp_all add: tracks_def)
    show ?thesis
      using unseen z nonzero n r by (auto simp: consume_fetch_def tracks_def Let_def)
  next
    case seen
    with t obtain i where i: "i < length ?ms" "fst (?ms ! i) = uid" "ob_sequence ob = of_nat (i + 1)"
      "ob_observed ob \<longrightarrow> ob_flags ob = snd (?ms ! i)" by (auto simp: tracks_def)
    have eq: "fr_sequence r = ob_sequence ob \<longleftrightarrow> n = i"
      using of_nat_sequence(1) [OF n(1) i(1) len] n i by simp
    have uid: "u = uid \<longleftrightarrow> n = i"
      using dist n i nth_eq_iff_index_eq [OF dist, of n i] by auto
    show ?thesis
    proof (cases "n = i")
      case True
      with seen i n r eq uid show ?thesis
        by (auto simp: consume_fetch_def tracks_def Let_def intro!: exI [of _ i])
    next
      case False
      with seen i n r eq uid show ?thesis
        by (auto simp: consume_fetch_def tracks_def Let_def intro!: exI [of _ i])
    qed
  qed
qed

lemma tracks_seen:
  "\<not> ob_missing ob \<Longrightarrow> ob_seen_uid ob \<Longrightarrow> i < length (mb_messages m) \<Longrightarrow> mb_messages m ! i = (uid, fs)
   \<Longrightarrow> ob_sequence ob = of_nat (i + 1) \<Longrightarrow> ob_observed ob \<longrightarrow> ob_flags ob = fs \<Longrightarrow> tracks uid m ob"
  unfolding tracks_def by auto

lemma tracks_expunge:
  assumes t: "tracks uid m ob" and ok: "mailbox_ok m"
    and n: "n < length (mb_messages m)" "mb_messages m ! n = (u, fs)"
  shows "tracks uid (m\<lparr>mb_messages := take n (mb_messages m) @ drop (n + 1) (mb_messages m),
    mb_expunged := insert u (mb_expunged m)\<rparr>) (consume_expunge ob (of_nat (n + 1)))"
proof -
  let ?ms = "mb_messages m"
  have len: "length ?ms < 2 ^ 32" and dist: "distinct (map fst ?ms)"
    using ok by (simp_all add: mailbox_ok_def)
  have nonzero: "(of_nat (n + 1) :: 32 word) \<noteq> 0" using n len of_nat_sequence(3) by metis
  consider (missing) "ob_missing ob" | (seen) "\<not> ob_missing ob" "ob_seen_uid ob"
    | (unseen) "\<not> ob_missing ob" "\<not> ob_seen_uid ob" by blast
  then show ?thesis
  proof cases
    case seen
    with t obtain i where i: "i < length ?ms" "fst (?ms ! i) = uid" "ob_sequence ob = of_nat (i + 1)"
      "ob_observed ob \<longrightarrow> ob_flags ob = snd (?ms ! i)" by (auto simp: tracks_def)
    note seq = of_nat_sequence [OF n(1) i(1) len]
    consider "n = i" | "n < i" | "i < n" by linarith
    then show ?thesis
    proof cases
      case 1
      with seen i n show ?thesis by (simp add: consume_expunge_def tracks_def)
    next
      case 2
      then obtain j where j: "i = Suc j" by (cases i) auto
      have "consume_expunge ob (of_nat (n + 1)) = ob\<lparr>ob_sequence := ob_sequence ob - 1\<rparr>"
        using 2 seq i(3) by (auto simp: consume_expunge_def simp del: of_nat_Suc of_nat_add)
      moreover have "ob_sequence ob - 1 = of_nat (j + 1)" using i(3) j by simp
      moreover have "(take n ?ms @ drop (n + 1) ?ms) ! j = (uid, snd (?ms ! i))"
        using 2 i(1,2) j by (auto simp: nth_append)
      ultimately show ?thesis
        using seen i(1,4) j by (intro tracks_seen [where i = j and fs = "snd (?ms ! i)"]) simp_all
    next
      case 3
      have "consume_expunge ob (of_nat (n + 1)) = ob"
        using 3 seq i(3) by (auto simp: consume_expunge_def simp del: of_nat_Suc of_nat_add)
      moreover have "(take n ?ms @ drop (n + 1) ?ms) ! i = (uid, snd (?ms ! i))"
        using 3 n(1) i(2) by (auto simp: nth_append)
      ultimately show ?thesis
        using seen i(3,4) 3 n(1) by (intro tracks_seen [where i = i and fs = "snd (?ms ! i)"]) simp_all
    qed
  qed (use t nonzero in \<open>auto simp: consume_expunge_def tracks_def\<close>)
qed

lemma consume_event_tracks:
  assumes "mailbox_step m e m'" "mailbox_ok m" "tracks uid m ob"
  shows "\<exists>ob'. consume_event ob e uid = Inr ob' \<and> tracks uid m' ob'"
  using assms(1)
proof cases
  case (announce n r u fs fs')
  with tracks_announce [OF assms(3,2)] show ?thesis by (simp add: consume_event_def)
next
  case (expunge n sequence u fs)
  with tracks_expunge [OF assms(3,2)] show ?thesis by (simp add: consume_event_def)
next
  case (arrive u fs)
  with assms(3) show ?thesis by (auto simp: consume_event_def tracks_def nth_append split: if_splits)
qed

lemma mailbox_run_tracks:
  "mailbox_run m es m' \<Longrightarrow> mailbox_ok m \<Longrightarrow> mailbox_ok m' \<and>
     (\<exists>ob. consume_events empty_observation es uid = Inr ob \<and> tracks uid m' ob)"
proof (induction rule: mailbox_run.induct)
  case (run_nil m)
  then show ?case by (simp add: tracks_def empty_observation_def)
next
  case (run_snoc m es m' e m'')
  then obtain ob where ob: "mailbox_ok m'" "consume_events empty_observation es uid = Inr ob" "tracks uid m' ob"
    by blast
  with consume_event_tracks [OF run_snoc(2)] mailbox_ok_step [OF run_snoc(2)] show ?case
    by (fastforce simp: consume_events_append)
qed

text \<open>
  C21. Against an honest mailbox the observation of the target is the truth, for every interleaving of
  FETCH responses, removals and arrivals: no response is rejected, a target reported missing was
  expunged, and the flags it holds as observed are the current flags of the target at the sequence
  number the earlier removals left it.
\<close>

theorem observation_tracks_mailbox:
  assumes "mailbox_run m es m'" "mailbox_ok m"
  shows "\<exists>ob. consume_events empty_observation es uid = Inr ob
    \<and> (if ob_missing ob then uid \<in> mb_expunged m' \<and> \<not> ob_observed ob
       else ob_observed ob \<longrightarrow> (\<exists>i < length (mb_messages m'). mb_messages m' ! i = (uid, ob_flags ob)
         \<and> ob_sequence ob = of_nat (i + 1)))"
proof -
  from mailbox_run_tracks [OF assms] obtain ob
    where "consume_events empty_observation es uid = Inr ob" "tracks uid m' ob" by blast
  then show ?thesis unfolding tracks_def by (fastforce simp: prod_eq_iff split: if_splits)
qed

definition sample_fetch :: fetch_response where
  "sample_fetch = \<lparr>fr_sequence = 2, fr_uid = 9, fr_uid_present = True, fr_flags = [''Seen''],
     fr_flags_present = True, fr_body = [], fr_body_present = False, fr_body_literal = False,
     fr_body_index = 0, fr_sections = []\<rparr>"

lemma observation_tracks_mailbox_witness:
  "\<exists>ob. consume_events empty_observation [Announced sample_fetch, Expunged 1] 9 = Inr ob
    \<and> (if ob_missing ob then (9 :: 32 word) \<in> {4} \<and> \<not> ob_observed ob
       else ob_observed ob \<longrightarrow> (\<exists>i < length [(9 :: 32 word, [''Seen''])]. [(9 :: 32 word, [''Seen''])] ! i = (9, ob_flags ob)
         \<and> ob_sequence ob = of_nat (i + 1)))"
proof -
  define m where "m = \<lparr>mb_messages = [(4, []), (9 :: 32 word, [])], mb_expunged = {}\<rparr>"
  have a: "1 < length (mb_messages m)" "fr_sequence sample_fetch = of_nat (1 + 1)" "mb_messages m ! 1 = (9, [])"
    "fr_uid_present sample_fetch \<longrightarrow> fr_uid sample_fetch = 9"
    "[''Seen''] = (if fr_flags_present sample_fetch then fr_flags sample_fetch else [])"
    by (simp_all add: sample_fetch_def m_def)
  let ?m1 = "\<lparr>mb_messages = [(4, []), (9 :: 32 word, [''Seen''])], mb_expunged = {}\<rparr>"
  have "mailbox_run m [Announced sample_fetch] ?m1"
    using run_snoc [OF run_nil announce [OF a]] by (simp add: m_def)
  moreover have e: "0 < length (mb_messages ?m1)" "1 = (of_nat (0 + 1) :: 32 word)" "mb_messages ?m1 ! 0 = (4, [])"
    by simp_all
  have "mailbox_step ?m1 (Expunged 1) \<lparr>mb_messages = [(9, [''Seen''])], mb_expunged = {4}\<rparr>"
    using expunge [OF e] by simp
  ultimately have "mailbox_run m ([Announced sample_fetch] @ [Expunged 1])
      \<lparr>mb_messages = [(9, [''Seen''])], mb_expunged = {4}\<rparr>" by (rule run_snoc)
  moreover have "length (mb_messages m) < 2 ^ 32" by (rule less_le_trans [of _ 3]) (simp_all add: m_def)
  then have "mailbox_ok m" by (simp add: mailbox_ok_def m_def)
  ultimately show ?thesis
    using observation_tracks_mailbox [of m "[Announced sample_fetch] @ [Expunged 1]"
      "\<lparr>mb_messages = [(9, [''Seen''])], mb_expunged = {4}\<rparr>" 9]
    by (simp only: append.simps mailbox_view.simps)
qed

end
