(* ===== verification/Imap_Append.thy ===== *)
theory Imap_Append
  imports Imap_Commands Transport_Errors
begin

text \<open>
  Storing the sent copy of a message (\<open>src/internal/transport/imapclient/append.go\<close>, \<open>doAppend\<close> of
  \<open>commands.go\<close>): a dedicated connection logs in, finds the Sent mailbox, looks for the Message-ID,
  appends the message as one literal and verifies that exactly one copy is there. The state records
  what the client attempted to write of the APPEND, since a write that failed may still have arrived.
\<close>

section \<open>State\<close>

datatype append_write = Append_Command string nat | Append_Literal string | Append_End

record append_state =
  ad_session :: imap_session
  ad_attempts :: "append_write list"

text \<open>The message: its bytes, and whether its reader fails where they end.\<close>

record message_source =
  sr_data :: string
  sr_fails :: bool

datatype append_error =
    Append_Error imap_error
  | Append_Resolution resolution_error
  | Append_Incomplete
  | Append_Unknown imap_error
  | Append_Ambiguous nat

type_synonym 'a append_io = "append_state \<Rightarrow> (append_error + 'a) \<times> append_state"

definition ad_return :: "'a \<Rightarrow> 'a append_io" where
  "ad_return x st = (Inr x, st)"

definition ad_fail :: "append_error \<Rightarrow> 'a append_io" where
  "ad_fail e st = (Inl e, st)"

definition ad_bind :: "'a append_io \<Rightarrow> ('a \<Rightarrow> 'b append_io) \<Rightarrow> 'b append_io" where
  "ad_bind m f st = (case m st of (Inl e, st') \<Rightarrow> (Inl e, st') | (Inr x, st') \<Rightarrow> f x st')"

text \<open>A command of the session, its failure reported by \<open>w\<close>.\<close>

definition ad_session_io :: "(imap_error \<Rightarrow> append_error) \<Rightarrow> 'a imap_io \<Rightarrow> 'a append_io" where
  "ad_session_io w m st = (case m (ad_session st) of
      (Inl e, s) \<Rightarrow> (Inl (w e), st\<lparr>ad_session := s\<rparr>) | (Inr x, s) \<Rightarrow> (Inr x, st\<lparr>ad_session := s\<rparr>))"

abbreviation ad_io :: "'a imap_io \<Rightarrow> 'a append_io" where
  "ad_io \<equiv> ad_session_io Append_Error"

definition ad_attempt :: "append_write \<Rightarrow> unit append_io" where
  "ad_attempt a st = (Inr (), st\<lparr>ad_attempts := ad_attempts st @ [a]\<rparr>)"

text \<open>The session is retired with every failure inside and after the literal.\<close>

definition ad_retire :: "append_error \<Rightarrow> 'a append_io" where
  "ad_retire e st = (Inl e, st\<lparr>ad_session := mark_dirty (ad_session st)\<rparr>)"

definition ad_handle :: "'a append_io \<Rightarrow> (append_error \<Rightarrow> append_error) \<Rightarrow> 'a append_io" where
  "ad_handle m h st = (case m st of (Inl e, st') \<Rightarrow> (Inl (h e), st') | (Inr x, st') \<Rightarrow> (Inr x, st'))"

section \<open>APPEND\<close>

definition max_append_continuation_lines :: nat where "max_append_continuation_lines = 100"
definition max_append_continuation_bytes :: nat where "max_append_continuation_bytes = 65536"

text \<open>\<open>readAppendContinuation\<close>, with the untagged lines still allowed and the bytes read.\<close>

fun read_continuation_loop :: "nat \<Rightarrow> nat \<Rightarrow> string \<Rightarrow> unit imap_io" where
  "read_continuation_loop lines used tag s = (case read_line (max_append_continuation_bytes - used) s of
      (Inl e, s) \<Rightarrow> if e = LineTooLong then io_malformed (BudgetExhausted ''APPEND continuation response bytes'') s
        else (Inl e, s)
    | (Inr (line, n), s) \<Rightarrow>
        if has_prefix line ''+'' then (Inr (), s)
        else if has_prefix line ''* '' then
          (case lines of
             0 \<Rightarrow> io_malformed (BudgetExhausted ''APPEND continuation untagged responses'') s
           | Suc k \<Rightarrow> read_continuation_loop k (used + n) tag s)
        else if has_prefix line (tag @ '' '') then
          (case parse_tagged_completion_status line tag of
             Inl _ \<Rightarrow> io_malformed ResponseMalformed s
           | Inr status \<Rightarrow>
               if status = ''NO'' \<or> status = ''BAD'' then io_fail (rejected_completion line tag ''APPEND'' status) s
               else io_malformed (CommandFailed ''continuation'') s)
        else io_malformed (CommandFailed ''continuation'') s)"

definition read_append_continuation :: "string \<Rightarrow> unit imap_io" where
  "read_append_continuation tag = read_continuation_loop max_append_continuation_lines 0 tag"

text \<open>Copying the literal: what reached the writer may stop anywhere, so the attempt is recorded first.\<close>

definition copy_literal :: "message_source \<Rightarrow> nat \<Rightarrow> unit append_io" where
  "copy_literal src bytes = ad_bind (ad_attempt (Append_Literal (take bytes (sr_data src)))) (\<lambda>_ st.
     case next_fault (ad_session st) of (fault, s) \<Rightarrow>
       if fault \<noteq> IoOk \<or> length (sr_data src) < bytes then ad_retire Append_Incomplete (st\<lparr>ad_session := s\<rparr>)
       else if bytes < length (sr_data src) \<or> sr_fails src then ad_retire Append_Incomplete (st\<lparr>ad_session := s\<rparr>)
       else (case next_fault s of
           (IoOk, s) \<Rightarrow> (Inr (), st\<lparr>ad_session := s\<rparr>)
         | (_, s) \<Rightarrow> ad_retire Append_Incomplete (st\<lparr>ad_session := s\<rparr>)))"

text \<open>The tagged completion of the APPEND, once its literal is complete.\<close>

fun append_completion :: "string \<Rightarrow> string \<times> string \<Rightarrow> unit append_io" where
  "append_completion tag (status, response) =
     (case parse_tagged_completion_status (tag @ '' '' @ status @ (if response = [] then [] else '' '' @ response)) tag of
        Inl _ \<Rightarrow> ad_retire (Append_Error ResponseMalformed)
      | Inr status \<Rightarrow>
          if status = ''OK'' then ad_return ()
          else (let r = tagged_command_rejection ''APPEND'' status response
                in ad_fail (Append_Error (CommandRejected (rj_command r) (rj_status r) (rj_response_code r)))))"

definition finish_append :: "string \<Rightarrow> unit append_io" where
  "finish_append tag = ad_bind (ad_session_io Append_Unknown set_deadline) (\<lambda>_.
     ad_bind (ad_session_io Append_Unknown (\<lambda>s. case read_final tag s of (Inl e, s) \<Rightarrow> (Inl e, mark_dirty s) | r \<Rightarrow> r))
       (append_completion tag))"

definition append_command :: "string \<Rightarrow> string \<Rightarrow> nat \<Rightarrow> string" where
  "append_command tag quoted bytes = tag @ '' APPEND '' @ quoted @ '' ('' @ (CHR 0x5C # ''Seen'') @ '') {'' @ format_uint bytes @ ''}''"

definition do_append :: "string \<Rightarrow> string \<Rightarrow> message_source \<Rightarrow> nat \<Rightarrow> unit append_io" where
  "do_append tag mailbox src bytes = ad_bind (ad_io set_deadline) (\<lambda>_. ad_bind (ad_io (quoted_value mailbox)) (\<lambda>q.
     ad_bind (ad_attempt (Append_Command mailbox bytes)) (\<lambda>_.
     ad_bind (ad_io (\<lambda>s. write_line s (append_command tag q bytes))) (\<lambda>_.
     ad_bind (ad_io (read_append_continuation tag)) (\<lambda>_.
     ad_bind (ad_session_io (\<lambda>_. Append_Incomplete) set_deadline) (\<lambda>_.
     ad_bind (copy_literal src bytes) (\<lambda>_.
     ad_bind (ad_attempt Append_End) (\<lambda>_.
     ad_bind (ad_session_io Append_Unknown (\<lambda>s. write_line s [])) (\<lambda>_. finish_append tag)))))))))"

section \<open>The sent copy\<close>

record append_evidence =
  ae_mailbox :: string
  ae_appended :: bool
  ae_match_count :: nat
  ae_uid_validity :: "32 word"
  ae_uid :: "32 word"

definition verify_message_id :: "32 word \<Rightarrow> string \<Rightarrow> unit imap_io" where
  "verify_message_id uid message_id = io_bind (normalized_id message_id) (\<lambda>v. io_bind (check_message_id uid v) (\<lambda>matched.
     if matched then io_return () else io_fail MessageNotFound))"

definition verify_single_sent_match :: "string \<Rightarrow> 32 word append_io" where
  "verify_single_sent_match message_id = ad_bind (ad_io (io_bind io_tag (\<lambda>tag. do_uid_search tag message_id))) (\<lambda>uids.
     case uids of
       [uid] \<Rightarrow> ad_bind (ad_io (verify_message_id uid message_id)) (\<lambda>_. ad_return uid)
     | [] \<Rightarrow> ad_fail (Append_Error MessageNotFound)
     | _ \<Rightarrow> ad_fail (Append_Ambiguous (length uids)))"

definition do_logout :: "unit append_io" where
  "do_logout st = (case io_bind io_tag (\<lambda>tag. send_command (tag @ '' LOGOUT'')) (ad_session st) of
     (_, s) \<Rightarrow> (Inr (), st\<lparr>ad_session := s\<rparr>))"

text \<open>A failure after the APPEND was accepted: the copy may be there, whatever the check said.\<close>

definition after_append :: "append_error \<Rightarrow> append_error" where
  "after_append e = (case e of Append_Ambiguous n \<Rightarrow> e | Append_Error c \<Rightarrow> Append_Unknown c | Append_Unknown c \<Rightarrow> e
     | _ \<Rightarrow> Append_Unknown MessageNotFound)"

definition confirm_append :: "string \<Rightarrow> string \<Rightarrow> 32 word \<Rightarrow> append_evidence append_io" where
  "confirm_append sent message_id validity =
     ad_bind (ad_session_io Append_Unknown (io_bind io_tag (\<lambda>tag. do_search tag message_id))) (\<lambda>n.
       if n = 0 then ad_fail (Append_Unknown MessageNotFound)
       else if 1 < n then ad_fail (Append_Ambiguous n)
       else ad_bind (ad_handle (verify_single_sent_match message_id) after_append) (\<lambda>uid.
         ad_bind do_logout (\<lambda>_. ad_return \<lparr>ae_mailbox = sent, ae_appended = True, ae_match_count = 1,
           ae_uid_validity = validity, ae_uid = uid\<rparr>)))"

text \<open>From the selected Sent mailbox on.\<close>

definition append_if_absent ::
    "string \<Rightarrow> string \<Rightarrow> 32 word \<Rightarrow> message_source \<Rightarrow> nat \<Rightarrow> append_evidence append_io" where
  "append_if_absent sent message_id validity src bytes =
     ad_bind (ad_io (io_bind io_tag (\<lambda>tag. do_search tag message_id))) (\<lambda>n.
       if 1 < n then ad_fail (Append_Ambiguous n)
       else if n = 1 then ad_bind (verify_single_sent_match message_id) (\<lambda>uid. ad_bind do_logout (\<lambda>_.
         ad_return \<lparr>ae_mailbox = sent, ae_appended = False, ae_match_count = n, ae_uid_validity = validity, ae_uid = uid\<rparr>))
       else ad_bind (ad_io io_tag) (\<lambda>tag. ad_bind (do_append tag sent src bytes) (\<lambda>_.
         confirm_append sent message_id validity)))"

text \<open>\<open>AppendToSentReader\<close>; \<open>opened\<close> is the failure of the reservation or the dial, if any.\<close>

definition append_to_sent ::
    "normal_form \<Rightarrow> folding \<Rightarrow> imap_error option \<Rightarrow> string \<Rightarrow> string \<Rightarrow> string \<Rightarrow> message_source \<Rightarrow> int \<Rightarrow> string
     \<Rightarrow> append_evidence append_io" where
  "append_to_sent nfc ef opened host username password src bytes message_id =
     (if bytes < 0 then ad_fail (Append_Error InvalidValue)
      else ad_bind (ad_io (normalized_id message_id)) (\<lambda>message_id.
        if host = [] then ad_fail (Append_Resolution (NoMailbox sent_mailbox_not_found))
        else case opened of Some e \<Rightarrow> ad_fail (Append_Error e) | None \<Rightarrow>
        ad_bind (ad_io (connect_session username password)) (\<lambda>cp.
        ad_bind (ad_io (io_bind io_tag (do_list (cp_encoding cp)))) (\<lambda>mailboxes.
        case pick_sent nfc ef mailboxes of
          Inl e \<Rightarrow> ad_fail (Append_Resolution e)
        | Inr sent \<Rightarrow> ad_bind (ad_io (io_bind io_tag (\<lambda>tag. do_select_info tag sent))) (\<lambda>si.
            append_if_absent sent message_id (si_uid_validity si) src (nat bytes))))))"

section \<open>Reasoning about attempts\<close>

text \<open>\<open>ad_writes P m Q E\<close>: started after attempts in \<open>P\<close>, \<open>m\<close> returns \<open>x\<close> with attempts in \<open>Q x\<close>, or fails
  with \<open>e\<close> and attempts in \<open>E e\<close>.\<close>

definition ad_writes ::
    "(append_write list \<Rightarrow> bool) \<Rightarrow> 'a append_io \<Rightarrow> ('a \<Rightarrow> append_write list \<Rightarrow> bool)
     \<Rightarrow> (append_error \<Rightarrow> append_write list \<Rightarrow> bool) \<Rightarrow> bool" where
  "ad_writes P m Q E \<longleftrightarrow> (\<forall>st r st'. P (ad_attempts st) \<longrightarrow> m st = (r, st') \<longrightarrow>
     (case r of Inl e \<Rightarrow> E e (ad_attempts st') | Inr x \<Rightarrow> Q x (ad_attempts st')))"

named_theorems ad_intros

lemma ad_writesD:
  assumes "ad_writes P m Q E" "P (ad_attempts st)" "m st = (r, st')"
  shows "case r of Inl e \<Rightarrow> E e (ad_attempts st') | Inr x \<Rightarrow> Q x (ad_attempts st')"
  using assms unfolding ad_writes_def by blast

lemma ad_writes_weaken:
  "ad_writes P m Q E \<Longrightarrow> (\<And>a. P' a \<Longrightarrow> P a) \<Longrightarrow> (\<And>x a. Q x a \<Longrightarrow> Q' x a) \<Longrightarrow> (\<And>e a. E e a \<Longrightarrow> E' e a) \<Longrightarrow> ad_writes P' m Q' E'"
  unfolding ad_writes_def by (simp split: sum.splits) blast

lemma ad_writes_return [ad_intros]: "(\<And>a. P a \<Longrightarrow> Q x a) \<Longrightarrow> ad_writes P (ad_return x) Q E"
  by (simp add: ad_writes_def ad_return_def)

lemma ad_writes_fail [ad_intros]: "(\<And>a. P a \<Longrightarrow> E e a) \<Longrightarrow> ad_writes P (ad_fail e) Q E"
  "(\<And>a. P a \<Longrightarrow> E e a) \<Longrightarrow> ad_writes P (ad_retire e) Q E"
  by (simp_all add: ad_writes_def ad_fail_def ad_retire_def)

lemma ad_writes_attempt: "(\<And>a. P a \<Longrightarrow> Q () (a @ [w])) \<Longrightarrow> ad_writes P (ad_attempt w) Q E"
  by (simp add: ad_writes_def ad_attempt_def)

lemma ad_writes_bind: "ad_writes P m R E \<Longrightarrow> (\<And>x. ad_writes (R x) (f x) Q E) \<Longrightarrow> ad_writes P (ad_bind m f) Q E"
  unfolding ad_writes_def ad_bind_def by (fastforce split: prod.splits sum.splits)

lemma ad_writes_session: "(\<And>e a. P a \<Longrightarrow> E (w e) a) \<Longrightarrow> ad_writes P (ad_session_io w m) (\<lambda>_. P) E"
  by (auto simp: ad_writes_def ad_session_io_def split: prod.splits sum.splits)

lemma ad_writes_session_post:
  "io_post m R \<Longrightarrow> (\<And>e a. P a \<Longrightarrow> E (w e) a) \<Longrightarrow> ad_writes P (ad_session_io w m) (\<lambda>x a. R x \<and> P a) E"
  by (auto simp: ad_writes_def ad_session_io_def io_post_def split: prod.splits sum.splits)

lemma ad_writes_handle:
  "ad_writes P m Q (\<lambda>e. E (h e)) \<Longrightarrow> ad_writes P (ad_handle m h) Q E"
  unfolding ad_writes_def ad_handle_def by (fastforce split: prod.splits sum.splits)

lemma ad_writes_if [ad_intros]: "(b \<Longrightarrow> ad_writes P m Q E) \<Longrightarrow> (\<not> b \<Longrightarrow> ad_writes P m' Q E) \<Longrightarrow> ad_writes P (if b then m else m') Q E"
  by simp

lemma ad_writes_sum [ad_intros]:
  "(\<And>e. r = Inl e \<Longrightarrow> ad_writes P (f e) Q E) \<Longrightarrow> (\<And>x. r = Inr x \<Longrightarrow> ad_writes P (g x) Q E) \<Longrightarrow>
    ad_writes P (case r of Inl e \<Rightarrow> f e | Inr x \<Rightarrow> g x) Q E"
  by (cases r) simp_all

lemma ad_writes_logout: "ad_writes P do_logout (\<lambda>_. P) E"
  by (auto simp: ad_writes_def do_logout_def split: prod.splits)

section \<open>The outcome of an APPEND\<close>

fun definite_failure :: "append_error \<Rightarrow> bool" where
  "definite_failure (Append_Unknown e) = False"
| "definite_failure (Append_Ambiguous n) = False"
| "definite_failure _ = True"

fun refused_by_server :: "append_error \<Rightarrow> bool" where
  "refused_by_server (Append_Error (CommandRejected c s code)) = True"
| "refused_by_server _ = False"

definition append_script :: "string \<Rightarrow> message_source \<Rightarrow> nat \<Rightarrow> append_write list" where
  "append_script mailbox src n = [Append_Command mailbox n, Append_Literal (take n (sr_data src)), Append_End]"

text \<open>What may have been attempted when an APPEND fails.\<close>

definition failed_append :: "append_write list \<Rightarrow> append_error \<Rightarrow> append_write list \<Rightarrow> bool" where
  "failed_append script e a \<longleftrightarrow> a \<in> {take 0 script, take 1 script, take 2 script} \<or> a = script \<and> (definite_failure e \<longrightarrow> refused_by_server e)"

lemma read_final_status:
  "read_final_loop with_codes k b codes tag s = ((Inr (status, t), codes'), s') \<Longrightarrow>
    str_fields tag = [tag] \<and> status \<in> {''OK'', ''NO'', ''BAD''}"
proof (induction k arbitrary: b codes s)
  case (Suc k)
  obtain r s1 where rs: "read_line max_response_line_bytes s = (r, s1)" by fastforce
  with Suc.prems obtain line n where r: "r = Inr (line, n)" by (cases r) auto
  from Suc.prems rs r obtain code where c: "(if with_codes then flag_response_code line tag else Inr []) = Inr code"
    by (auto split: sum.splits if_splits)
  show ?case
  proof (cases "has_prefix line (tag @ '' '')")
    case True
    with Suc.prems rs r c have "parse_tagged_completion_status line tag = Inr status"
      by (auto simp: Let_def split: sum.splits if_splits)
    then show ?thesis by (rule completion_fields)
  next
    case False
    with Suc.prems rs r c have "\<exists>b2 c2. read_final_loop with_codes k b2 c2 tag s1 = ((Inr (status, t), codes'), s')"
      by (simp add: Let_def split: if_splits) blast+
    then show ?thesis using Suc.IH by blast
  qed
qed simp

lemma status_fields: "status \<in> {''OK'', ''NO'', ''BAD''} \<Longrightarrow> str_fields status = [status] \<and> to_upper status = status"
  by (auto simp: str_fields_def utf8_chunks_ascii is_space_rune_def to_upper_capitals is_upper_def)

lemma completion_rebuilt:
  assumes "str_fields tag = [tag]" "status \<in> {''OK'', ''NO'', ''BAD''}"
  shows "parse_tagged_completion_status (tag @ '' '' @ status @ (if response = [] then [] else '' '' @ response)) tag = Inr status"
proof -
  have "str_fields (status @ (if response = [] then [] else '' '' @ response)) = status # str_fields response"
    using status_fields [OF assms(2)] str_fields_space [of status response] by (simp add: str_fields_def)
  then have "str_fields (tag @ '' '' @ status @ (if response = [] then [] else '' '' @ response)) = tag # status # str_fields response"
    using assms(1) str_fields_space [of tag "status @ (if response = [] then [] else '' '' @ response)"] by simp
  then show ?thesis using status_fields [OF assms(2)] assms(2) by (simp add: parse_tagged_completion_status_def)
qed

lemma ad_writes_fact: "(R \<Longrightarrow> ad_writes P m Q E) \<Longrightarrow> ad_writes (\<lambda>a. R \<and> P a) m Q E"
  by (auto simp: ad_writes_def)

lemma finish_append_writes: "ad_writes (\<lambda>a. a = script) (finish_append tag) (\<lambda>_ a. a = script) (failed_append script)"
proof -
  let ?ok = "\<lambda>r. str_fields tag = [tag] \<and> fst r \<in> {''OK'', ''NO'', ''BAD''}"
  have post: "io_post (\<lambda>s. case read_final tag s of (Inl e, s) \<Rightarrow> (Inl e, mark_dirty s) | (Inr x, s) \<Rightarrow> (Inr x, s)) ?ok"
    by (auto simp: io_post_def read_final_def split: sum.splits prod.splits dest: read_final_status)
  have unknown: "failed_append script (Append_Unknown e) a" if "a = script" for e a
    using that by (simp add: failed_append_def)
  have decide: "ad_writes (\<lambda>a. ?ok r \<and> a = script) (append_completion tag r) (\<lambda>_ a. a = script) (failed_append script)" for r
  proof (rule ad_writes_fact)
    assume ok: "?ok r"
    obtain status response where r: "r = (status, response)" by fastforce
    have p: "parse_tagged_completion_status (tag @ '' '' @ status @ (if response = [] then [] else '' '' @ response)) tag = Inr status"
      by (rule completion_rebuilt) (use ok r in simp_all)
    show "ad_writes (\<lambda>a. a = script) (append_completion tag r) (\<lambda>_ a. a = script) (failed_append script)"
      unfolding r append_completion.simps p sum.case Let_def by (intro ad_intros) (simp_all add: failed_append_def)
  qed
  show ?thesis
    unfolding finish_append_def
    by (rule ad_writes_bind [OF ad_writes_session], erule unknown,
        rule ad_writes_bind [OF ad_writes_session_post [OF post] decide], erule unknown)
qed

lemma copy_literal_writes:
  "ad_writes (\<lambda>a. a = [c]) (copy_literal src n)
     (\<lambda>_ a. a = [c, Append_Literal (take n (sr_data src))] \<and> length (sr_data src) = n \<and> \<not> sr_fails src)
     (\<lambda>e a. e = Append_Incomplete \<and> a = [c, Append_Literal (take n (sr_data src))])"
  unfolding ad_writes_def copy_literal_def
  by (auto simp: ad_bind_def ad_attempt_def ad_retire_def split: prod.splits if_splits io_result.splits)

lemma do_append_writes:
  "ad_writes (\<lambda>a. a = []) (do_append tag mailbox src n)
     (\<lambda>_ a. a = append_script mailbox src n \<and> length (sr_data src) = n \<and> \<not> sr_fails src)
     (failed_append (append_script mailbox src n))"
proof -
  let ?c = "Append_Command mailbox n" and ?l = "Append_Literal (take n (sr_data src))"
  let ?full = "length (sr_data src) = n \<and> \<not> sr_fails src"
  let ?E = "failed_append (append_script mailbox src n)"
  have f: "failed_append (append_script mailbox src n) e []" "failed_append (append_script mailbox src n) e [?c]"
    "failed_append (append_script mailbox src n) e [?c, ?l]" for e
    by (simp_all add: failed_append_def append_script_def)
  have l: "ad_writes (\<lambda>a. a = [?c]) (copy_literal src n) (\<lambda>_ a. ?full \<and> a = [?c, ?l]) ?E"
    by (rule ad_writes_weaken [OF copy_literal_writes]) (auto simp: f)
  have e: "ad_writes (\<lambda>a. a = append_script mailbox src n) (finish_append tag) (\<lambda>_ a. a = append_script mailbox src n \<and> ?full) ?E"
    if ?full by (rule ad_writes_weaken [OF finish_append_writes]) (use that in auto)
  have u: "ad_writes (\<lambda>a. a = append_script mailbox src n) (ad_session_io Append_Unknown m) (\<lambda>_ a. a = append_script mailbox src n) ?E" for m :: "unit imap_io"
    by (rule ad_writes_session) (simp add: failed_append_def)
  have end_part: "ad_writes (\<lambda>a. ?full \<and> a = [?c, ?l]) (ad_bind (ad_attempt Append_End) (\<lambda>_.
      ad_bind (ad_session_io Append_Unknown (\<lambda>s. write_line s [])) (\<lambda>_. finish_append tag)))
      (\<lambda>_ a. a = append_script mailbox src n \<and> ?full) ?E"
    by (rule ad_writes_fact, rule ad_writes_bind [OF ad_writes_attempt [where Q = "\<lambda>_ a. a = append_script mailbox src n"]], simp add: append_script_def,
        rule ad_writes_bind [OF u], erule e)
  show ?thesis
    unfolding do_append_def
    by (rule ad_writes_bind [OF ad_writes_session], simp add: f,
        rule ad_writes_bind [OF ad_writes_session], simp add: f,
        rule ad_writes_bind [OF ad_writes_attempt [where Q = "\<lambda>_ a. a = [?c]"]], simp,
        rule ad_writes_bind [OF ad_writes_session], simp add: f,
        rule ad_writes_bind [OF ad_writes_session], simp add: f,
        rule ad_writes_bind [OF ad_writes_session], simp add: f,
        rule ad_writes_bind [OF l end_part])
qed


section \<open>The sent copy\<close>

definition settled_append :: "append_evidence \<Rightarrow> message_source \<Rightarrow> nat \<Rightarrow> append_write list \<Rightarrow> bool" where
  "settled_append ev src n a \<longleftrightarrow> ae_match_count ev = 1 \<and>
     (if ae_appended ev then a = append_script (ae_mailbox ev) src n \<and> length (sr_data src) = n \<and> \<not> sr_fails src else a = [])"

definition failed_sent :: "message_source \<Rightarrow> nat \<Rightarrow> append_error \<Rightarrow> append_write list \<Rightarrow> bool" where
  "failed_sent src n e a \<longleftrightarrow> (\<exists>mailbox. failed_append (append_script mailbox src n) e a)"

lemma failed_sent_untouched: "failed_sent src n e []"
  by (simp add: failed_sent_def failed_append_def)

lemma failed_sent_unknown: "\<not> definite_failure e \<Longrightarrow> a = append_script mailbox src n \<Longrightarrow> failed_sent src n e a"
  unfolding failed_sent_def by (rule exI [of _ mailbox]) (simp add: failed_append_def)

lemma verify_single_writes:
  "(\<And>e a. P a \<Longrightarrow> E (Append_Error e) a) \<Longrightarrow> (\<And>k a. P a \<Longrightarrow> E (Append_Ambiguous k) a) \<Longrightarrow>
    ad_writes P (verify_single_sent_match m) (\<lambda>_. P) E"
  unfolding verify_single_sent_match_def
  by (rule ad_writes_bind [OF ad_writes_session], simp,
      auto intro!: ad_intros ad_writes_bind [OF ad_writes_session] split: list.split)

lemma failed_sent_script [simp]: "\<not> definite_failure e \<Longrightarrow> failed_sent src n e (append_script mailbox src n)"
  by (rule failed_sent_unknown) simp_all

lemma confirm_append_writes:
  "ad_writes (\<lambda>a. a = append_script sent src n \<and> length (sr_data src) = n \<and> \<not> sr_fails src) (confirm_append sent m v)
     (\<lambda>ev. settled_append ev src n) (failed_sent src n)"
proof -
  let ?P = "\<lambda>a. a = append_script sent src n \<and> length (sr_data src) = n \<and> \<not> sr_fails src"
  have u: "failed_sent src n e a" if "\<not> definite_failure e" "?P a" for e a
    using failed_sent_unknown [OF that(1)] that(2) by blast
  have h: "ad_writes ?P (ad_handle (verify_single_sent_match m) after_append) (\<lambda>_. ?P) (failed_sent src n)"
    by (rule ad_writes_handle, rule verify_single_writes) (simp_all only: after_append_def append_error.case, simp_all add: u)
  show ?thesis
    unfolding confirm_append_def
    by (rule ad_writes_bind [OF ad_writes_session], simp add: u)
      (intro ad_intros ad_writes_bind [OF h] ad_writes_bind [OF ad_writes_logout], auto simp: settled_append_def intro: u)
qed

lemma append_if_absent_writes:
  "ad_writes (\<lambda>a. a = []) (append_if_absent sent m v src n) (\<lambda>ev. settled_append ev src n) (failed_sent src n)"
proof -
  have d: "ad_writes (\<lambda>a. a = []) (do_append tag sent src n)
      (\<lambda>_ a. a = append_script sent src n \<and> length (sr_data src) = n \<and> \<not> sr_fails src) (failed_sent src n)" for tag
    by (rule ad_writes_weaken [OF do_append_writes]) (auto simp: failed_sent_def)
  have v: "ad_writes (\<lambda>a. a = []) (verify_single_sent_match m) (\<lambda>_ a. a = []) (failed_sent src n)"
    by (rule verify_single_writes) (simp_all add: failed_sent_untouched)
  show ?thesis
    unfolding append_if_absent_def
    by (rule ad_writes_bind [OF ad_writes_session], simp add: failed_sent_untouched)
      (intro ad_intros ad_writes_bind [OF v] ad_writes_bind [OF ad_writes_logout] ad_writes_bind [OF d confirm_append_writes]
        ad_writes_bind [OF ad_writes_session], auto simp: settled_append_def failed_sent_untouched)
qed

lemma ad_writes_option [ad_intros]:
  "(\<And>e. r = Some e \<Longrightarrow> ad_writes P (f e) Q E) \<Longrightarrow> (r = None \<Longrightarrow> ad_writes P m Q E) \<Longrightarrow>
    ad_writes P (case r of Some e \<Rightarrow> f e | None \<Rightarrow> m) Q E"
  by (cases r) simp_all

lemma append_to_sent_writes:
  "ad_writes (\<lambda>a. a = []) (append_to_sent nfc ef opened host user password src n m)
     (\<lambda>ev. settled_append ev src (nat n)) (failed_sent src (nat n))"
  unfolding append_to_sent_def
  by (intro ad_intros ad_writes_bind [OF ad_writes_session] append_if_absent_writes) (simp_all add: failed_sent_untouched)

text \<open>C6. A sent copy that fails definitely was not stored: the end of its literal was never attempted, or the server
  refused it in its tagged completion. Every other failure is an unknown or ambiguous outcome.\<close>

theorem append_failure_not_stored:
  assumes "append_to_sent nfc ef opened host user password src n m st = (Inl e, st')" "ad_attempts st = []"
    "definite_failure e" "\<not> refused_by_server e"
  shows "Append_End \<notin> set (ad_attempts st')"
  using ad_writesD [OF append_to_sent_writes assms(2,1)] assms(3,4)
  by (auto simp: failed_sent_def failed_append_def append_script_def)

text \<open>Evidence of a sent copy says exactly one match, and that it was appended only when the client wrote the
  APPEND, the whole declared source and its end, once; when it says the copy was already there, nothing was written.\<close>

theorem append_success_exact:
  "case append_to_sent nfc ef opened host user password src n m (st\<lparr>ad_attempts := []\<rparr>) of
     (Inr ev, st') \<Rightarrow> ae_match_count ev = 1 \<and>
       (if ae_appended ev
        then ad_attempts st' = [Append_Command (ae_mailbox ev) (nat n), Append_Literal (sr_data src), Append_End]
          \<and> length (sr_data src) = nat n
        else ad_attempts st' = [])
   | _ \<Rightarrow> True"
proof (cases "append_to_sent nfc ef opened host user password src n m (st\<lparr>ad_attempts := []\<rparr>)")
  case (Pair r st')
  from ad_writesD [OF append_to_sent_writes _ this]
  show ?thesis by (auto simp: Pair settled_append_def append_script_def split: sum.splits if_splits)
qed

section \<open>Examples\<close>

definition example_append :: "string list \<Rightarrow> append_state" where
  "example_append lines = \<lparr>ad_session = example_stream lines, ad_attempts = []\<rparr>"

theorem append_failure_not_stored_witness:
  "Append_End \<notin> set (ad_attempts (snd (append_to_sent id (=) None ''host'' ''user'' ''pass'' \<lparr>sr_data = ''hello'', sr_fails = False\<rparr>
     5 ''<a@b>'' (example_append [''BAD''])))) "
proof -
  have i: "normalize_message_id ''<a@b>'' = Some ''<a@b>''"
    by (simp add: normalize_message_id_def trim_space_printable has_prefix_def has_suffix_def runes_ascii is_ascii_def
        is_control_rune_def is_space_rune_def)
  have r: "read_line max_response_line_bytes (example_stream [''BAD'']) = (Inr (''BAD'', 5), example_stream [])"
    by (simp add: read_example_line max_response_line_bytes_def)
  have d: "set_deadline (example_stream ls) = (Inr (), example_stream ls)" for ls
    by (simp add: set_deadline_def next_fault_def example_stream_def)
  have run: "append_to_sent id (=) None ''host'' ''user'' ''pass'' \<lparr>sr_data = ''hello'', sr_fails = False\<rparr> 5 ''<a@b>''
      (example_append [''BAD'']) = (Inl (Append_Error ResponseMalformed), \<lparr>ad_session = mark_dirty (example_stream []), ad_attempts = []\<rparr>)"
    by (simp add: append_to_sent_def ad_bind_def ad_session_io_def normalized_id_def io_lift_def i example_append_def
        connect_session_def io_bind_def read_greeting_def d r has_prefix_def io_malformed_def)
  show ?thesis
    using append_failure_not_stored [OF run] run by (simp add: example_append_def)
qed

end
