(* ===== verification/Session_Pool.thy ===== *)
theory Session_Pool
  imports State_Machine
begin

text \<open>
  \<open>src/internal/transport/imapclient/pool.go\<close>: the bounded pool of authenticated sessions of one
  account identity. Identities share nothing, so one account is modelled, with its map entry
  \<open>c.pools[key]\<close> as the current pool and the pools it replaced kept apart: an operation holds a
  reference to the pool it registered with. The critical sections under \<open>c.mu\<close> are functions on
  the pool; the operations are callers that interleave in any order between them.
\<close>

section \<open>Pools\<close>

text \<open>
  The connection of a session: established, cut by the watcher that closes it when the context of its
  borrower ends, or shut by \<open>Close\<close>, which logs out and closes it after it let go of the locks. A
  session removed from its pool is closed by whoever removed it and is not reachable any more.
\<close>

datatype connection = Established | Cut | Shut

record pooled_session =
  ps_id :: nat
  ps_generation :: "64 word"
  ps_in_use :: bool
  ps_invalidated :: bool
  ps_dirty :: bool
  ps_connection :: connection

record account_pool =
  ap_sessions :: "pooled_session list"
  ap_connecting :: nat
  ap_dedicated :: nat
  ap_operations :: nat
  ap_gate :: nat

definition empty_pool :: account_pool where
  "empty_pool = \<lparr>ap_sessions = [], ap_connecting = 0, ap_dedicated = 0, ap_operations = 0, ap_gate = 0\<rparr>"

definition default_max_connections :: nat where
  "default_max_connections = 2"

definition maximum_connections :: nat where
  "maximum_connections = 8"

definition normalize_connection_limit :: "int \<Rightarrow> nat option" where
  "normalize_connection_limit limit =
     (if limit = 0 then Some default_max_connections
      else if limit < 1 \<or> int maximum_connections < limit then None
      else Some (nat limit))"

definition connection_limit :: "nat \<Rightarrow> nat" where
  "connection_limit configured = (if configured = 0 then default_max_connections else configured)"

definition next_generation :: "64 word \<Rightarrow> 64 word" where
  "next_generation g = (let g = g + 1 in if g = 0 then 1 else g)"

definition pool_total :: "account_pool \<Rightarrow> nat" where
  "pool_total p = length (ap_sessions p) + ap_connecting p + ap_dedicated p"

definition pool_is_empty :: "account_pool \<Rightarrow> bool" where
  "pool_is_empty p \<longleftrightarrow> ap_operations p = 0 \<and> ap_sessions p = [] \<and> ap_connecting p = 0 \<and> ap_dedicated p = 0"

definition session_fresh :: "64 word \<Rightarrow> pooled_session \<Rightarrow> bool" where
  "session_fresh g s \<longleftrightarrow> \<not> ps_invalidated s \<and> ps_generation s = g"

definition stale_idle :: "64 word \<Rightarrow> pooled_session \<Rightarrow> bool" where
  "stale_idle g s \<longleftrightarrow> \<not> ps_in_use s \<and> \<not> session_fresh g s"

text \<open>The sessions \<open>borrowSession\<close> closes, in the order it removes them.\<close>

definition evict_stale :: "64 word \<Rightarrow> account_pool \<Rightarrow> pooled_session list \<times> account_pool" where
  "evict_stale g p = (rev (filter (stale_idle g) (ap_sessions p)),
     p\<lparr>ap_sessions := filter (\<lambda>s. \<not> stale_idle g s) (ap_sessions p)\<rparr>)"

datatype borrow_action =
    Evicted "pooled_session list"
  | Reuse nat
  | Dial
  | WaitForChange

text \<open>One turn of the loop of \<open>borrowSession\<close> under the lock.\<close>

definition set_in_use :: "nat \<Rightarrow> bool \<Rightarrow> account_pool \<Rightarrow> account_pool" where
  "set_in_use n b p = p\<lparr>ap_sessions := map (\<lambda>s. if ps_id s = n then s\<lparr>ps_in_use := b\<rparr> else s) (ap_sessions p)\<rparr>"

definition borrow_turn :: "nat \<Rightarrow> 64 word \<Rightarrow> account_pool \<Rightarrow> borrow_action \<times> account_pool" where
  "borrow_turn limit g p =
     (case evict_stale g p of (stale, q) \<Rightarrow>
        if stale \<noteq> [] then (Evicted stale, q)
        else case find_index_opt (\<lambda>s. \<not> ps_in_use s \<and> session_fresh g s) (ap_sessions p) of
            Some i \<Rightarrow> (let n = ps_id (ap_sessions p ! i) in (Reuse n, set_in_use n True p))
          | None \<Rightarrow>
              if pool_total p < connection_limit limit
              then (Dial, p\<lparr>ap_connecting := ap_connecting p + 1\<rparr>)
              else (WaitForChange, p))"

text \<open>The end of a dial: \<open>Some n\<close> is the new connection, \<open>None\<close> a failure.\<close>

definition finish_dial :: "64 word \<Rightarrow> nat option \<Rightarrow> account_pool \<Rightarrow> account_pool" where
  "finish_dial g r p = (let p = p\<lparr>ap_connecting := ap_connecting p - 1\<rparr> in
     case r of None \<Rightarrow> p
     | Some n \<Rightarrow> p\<lparr>ap_sessions := ap_sessions p
         @ [\<lparr>ps_id = n, ps_generation = g, ps_in_use = True, ps_invalidated = False, ps_dirty = False,
             ps_connection = Established\<rparr>]\<rparr>)"

fun remove_pooled :: "nat \<Rightarrow> pooled_session list \<Rightarrow> pooled_session list" where
  "remove_pooled n [] = []"
| "remove_pooled n (s # ss) = (if ps_id s = n then ss else s # remove_pooled n ss)"

definition find_session :: "nat \<Rightarrow> account_pool \<Rightarrow> pooled_session option" where
  "find_session n p = find (\<lambda>s. ps_id s = n) (ap_sessions p)"

text \<open>\<open>releaseSession\<close>: whether the connection is closed, and the pool afterwards.\<close>

definition release_pooled :: "bool \<Rightarrow> 64 word \<Rightarrow> nat \<Rightarrow> account_pool \<Rightarrow> bool \<times> account_pool" where
  "release_pooled canceled g n p =
     (let stale = (canceled \<or> (case find_session n p of
            None \<Rightarrow> False
          | Some s \<Rightarrow> ps_dirty s \<or> ps_invalidated s \<or> g \<noteq> ps_generation s));
          p = set_in_use n False p
      in (stale, if stale then p\<lparr>ap_sessions := remove_pooled n (ap_sessions p)\<rparr> else p))"

datatype dedicated_action = Reserve | EvictIdle nat | WaitDedicated

definition dedicated_turn :: "nat \<Rightarrow> account_pool \<Rightarrow> dedicated_action \<times> account_pool" where
  "dedicated_turn limit p =
     (if pool_total p < connection_limit limit then (Reserve, p\<lparr>ap_dedicated := ap_dedicated p + 1\<rparr>)
      else case find_index_opt (\<lambda>s. \<not> ps_in_use s) (ap_sessions p) of
          Some i \<Rightarrow> (let n = ps_id (ap_sessions p ! i) in
            (EvictIdle n, p\<lparr>ap_sessions := remove_pooled n (ap_sessions p)\<rparr>))
        | None \<Rightarrow> (WaitDedicated, p))"

definition invalidate_sessions :: "account_pool \<Rightarrow> account_pool" where
  "invalidate_sessions p =
     p\<lparr>ap_sessions := map (\<lambda>s. s\<lparr>ps_invalidated := True\<rparr>) (filter ps_in_use (ap_sessions p))\<rparr>"

record pool_stats =
  st_limit :: nat
  st_account_pools :: nat
  st_pooled :: nat
  st_in_use :: nat
  st_connecting :: nat
  st_dedicated :: nat

section \<open>Operations\<close>

datatype operation_class = IndependentRead | SelectedStateRead | Mutation

text \<open>How far a caller has come; each phase names what it holds.\<close>

datatype phase =
    Starting
  | Registered
  | Gated
  | Owning
  | Dialing "64 word"
  | Borrowed nat
  | Reserved
  | Releasing
  | Ungated bool
  | Unlocking
  | Finished

record operation =
  op_class :: operation_class
  op_dedicated :: bool
  op_generation :: "64 word"
  op_pool :: nat
  op_weight :: nat
  op_canceled :: bool
  op_phase :: phase

record pool_client =
  pc_limit :: nat
  pc_pools :: "account_pool list"
  pc_current :: "nat option"
  pc_credential :: "64 word"
  pc_lifecycle :: "64 word"
  pc_ops :: "operation list"
  pc_next_id :: nat
  pc_closes :: nat

definition operation_weight :: "nat \<Rightarrow> operation_class \<Rightarrow> nat" where
  "operation_weight limit c = (case c of Mutation \<Rightarrow> connection_limit limit | _ \<Rightarrow> 1)"

text \<open>The holders of the read side of \<open>c.lifecycle\<close>.\<close>

definition holds_lifecycle :: "operation \<Rightarrow> bool" where
  "holds_lifecycle oo \<longleftrightarrow> (case op_phase oo of
      Owning \<Rightarrow> True | Dialing _ \<Rightarrow> True | Borrowed _ \<Rightarrow> True | Reserved \<Rightarrow> True | Releasing \<Rightarrow> True
    | Ungated b \<Rightarrow> b | Unlocking \<Rightarrow> True | _ \<Rightarrow> False)"

definition set_op :: "nat \<Rightarrow> operation \<Rightarrow> pool_client \<Rightarrow> pool_client" where
  "set_op k x c = c\<lparr>pc_ops := (pc_ops c)[k := x]\<rparr>"

definition set_pool :: "nat \<Rightarrow> account_pool \<Rightarrow> pool_client \<Rightarrow> pool_client" where
  "set_pool i p c = c\<lparr>pc_pools := (pc_pools c)[i := p]\<rparr>"

text \<open>\<open>poolLocked\<close>: the current pool, a new one if there is none.\<close>

definition pool_locked :: "pool_client \<Rightarrow> nat \<times> pool_client" where
  "pool_locked c = (case pc_current c of
      Some i \<Rightarrow> (i, c)
    | None \<Rightarrow> (length (pc_pools c),
        c\<lparr>pc_pools := pc_pools c @ [empty_pool], pc_current := Some (length (pc_pools c))\<rparr>))"

definition remove_empty_pool :: "nat \<Rightarrow> pool_client \<Rightarrow> pool_client" where
  "remove_empty_pool i c =
     (if pool_is_empty (pc_pools c ! i) \<and> pc_current c = Some i then c\<lparr>pc_current := None\<rparr> else c)"

text \<open>A new call of \<open>acquireOperation\<close>; \<open>acquireDedicated\<close> is a mutation.\<close>

definition start_operation :: "operation_class \<Rightarrow> bool \<Rightarrow> pool_client \<Rightarrow> pool_client" where
  "start_operation cls dedicated c = c\<lparr>pc_ops := pc_ops c
     @ [\<lparr>op_class = (if dedicated then Mutation else cls), op_dedicated = dedicated,
         op_generation = pc_lifecycle c, op_pool = 0,
         op_weight = operation_weight (pc_limit c) (if dedicated then Mutation else cls),
         op_canceled = False, op_phase = Starting\<rparr>]\<rparr>"

definition register_operation :: "nat \<Rightarrow> pool_client \<Rightarrow> pool_client" where
  "register_operation k c = (case pool_locked c of (i, c) \<Rightarrow>
     let p = pc_pools c ! i in
     set_op k ((pc_ops c ! k)\<lparr>op_pool := i, op_phase := Registered\<rparr>)
       (set_pool i (p\<lparr>ap_operations := ap_operations p + 1\<rparr>) c))"

text \<open>
  The steps of a caller. A step that waits in the code, for the gate, for the lifecycle lock or for
  \<open>pool.changed\<close>, is not enabled until it can go on. A failure of the cross-process mutation lock is a
  step of the environment.
\<close>

definition gate_acquire :: "nat \<Rightarrow> account_pool \<Rightarrow> nat \<Rightarrow> account_pool option" where
  "gate_acquire limit p w =
     (if ap_gate p + w \<le> connection_limit limit then Some (p\<lparr>ap_gate := ap_gate p + w\<rparr>) else None)"

definition release_gate :: "nat \<Rightarrow> account_pool \<Rightarrow> account_pool" where
  "release_gate w p = p\<lparr>ap_gate := ap_gate p - w\<rparr>"

definition finish_operation :: "nat \<Rightarrow> pool_client \<Rightarrow> pool_client" where
  "finish_operation i c = (let p = pc_pools c ! i in
     remove_empty_pool i (set_pool i (p\<lparr>ap_operations := ap_operations p - 1\<rparr>) c))"

definition operation_admitted :: "pool_client \<Rightarrow> operation \<Rightarrow> bool" where
  "operation_admitted c x \<longleftrightarrow> \<not> op_canceled x \<and> op_generation x = pc_lifecycle c"

inductive op_step :: "nat \<Rightarrow> pool_client \<Rightarrow> pool_client \<Rightarrow> bool" for k where
  register: "\<lbrakk> k < length (pc_ops c); op_phase (pc_ops c ! k) = Starting \<rbrakk>
    \<Longrightarrow> op_step k c (register_operation k c)"
| gate_failed: "\<lbrakk> k < length (pc_ops c); x = pc_ops c ! k; op_phase x = Registered; op_canceled x \<rbrakk>
    \<Longrightarrow> op_step k c (set_op k (x\<lparr>op_phase := Ungated False\<rparr>) c)"
| gate: "\<lbrakk> k < length (pc_ops c); x = pc_ops c ! k; op_phase x = Registered;
      gate_acquire (pc_limit c) (pc_pools c ! op_pool x) (op_weight x) = Some p \<rbrakk>
    \<Longrightarrow> op_step k c (set_op k (x\<lparr>op_phase := Gated\<rparr>) (set_pool (op_pool x) p c))"
| admit: "\<lbrakk> k < length (pc_ops c); x = pc_ops c ! k; op_phase x = Gated; operation_admitted c x \<rbrakk>
    \<Longrightarrow> op_step k c (set_op k (x\<lparr>op_phase := Owning\<rparr>) c)"
| refuse: "\<lbrakk> k < length (pc_ops c); x = pc_ops c ! k; op_phase x = Gated; \<not> operation_admitted c x \<rbrakk>
    \<Longrightarrow> op_step k c (set_op k (x\<lparr>op_phase := Ungated False\<rparr>)
         (set_pool (op_pool x) (release_gate (op_weight x) (pc_pools c ! op_pool x)) c))"
| owner_canceled: "\<lbrakk> k < length (pc_ops c); x = pc_ops c ! k; op_phase x = Owning; op_canceled x \<rbrakk>
    \<Longrightarrow> op_step k c (set_op k (x\<lparr>op_phase := Releasing\<rparr>) c)"
| evicted: "\<lbrakk> k < length (pc_ops c); x = pc_ops c ! k; op_phase x = Owning; \<not> op_dedicated x;
      borrow_turn (pc_limit c) (pc_credential c) (pc_pools c ! op_pool x) = (Evicted ss, p) \<rbrakk>
    \<Longrightarrow> op_step k c (set_pool (op_pool x) p c)"
| reuse: "\<lbrakk> k < length (pc_ops c); x = pc_ops c ! k; op_phase x = Owning; \<not> op_dedicated x;
      borrow_turn (pc_limit c) (pc_credential c) (pc_pools c ! op_pool x) = (Reuse n, p) \<rbrakk>
    \<Longrightarrow> op_step k c (set_op k (x\<lparr>op_phase := Borrowed n\<rparr>) (set_pool (op_pool x) p c))"
| dial: "\<lbrakk> k < length (pc_ops c); x = pc_ops c ! k; op_phase x = Owning; \<not> op_dedicated x;
      borrow_turn (pc_limit c) (pc_credential c) (pc_pools c ! op_pool x) = (Dial, p) \<rbrakk>
    \<Longrightarrow> op_step k c (set_op k (x\<lparr>op_phase := Dialing (pc_credential c)\<rparr>) (set_pool (op_pool x) p c))"
| dialed: "\<lbrakk> k < length (pc_ops c); x = pc_ops c ! k; op_phase x = Dialing g \<rbrakk>
    \<Longrightarrow> op_step k c (set_op k (x\<lparr>op_phase := Borrowed (pc_next_id c)\<rparr>)
         (set_pool (op_pool x) (finish_dial g (Some (pc_next_id c)) (pc_pools c ! op_pool x))
           (c\<lparr>pc_next_id := pc_next_id c + 1\<rparr>)))"
| dial_failed: "\<lbrakk> k < length (pc_ops c); x = pc_ops c ! k; op_phase x = Dialing g \<rbrakk>
    \<Longrightarrow> op_step k c (set_op k (x\<lparr>op_phase := Releasing\<rparr>)
         (set_pool (op_pool x) (finish_dial g None (pc_pools c ! op_pool x)) c))"
| released: "\<lbrakk> k < length (pc_ops c); x = pc_ops c ! k; op_phase x = Borrowed n;
      release_pooled (op_canceled x) (pc_credential c) n (pc_pools c ! op_pool x) = (stale, p) \<rbrakk>
    \<Longrightarrow> op_step k c (set_op k (x\<lparr>op_phase := Releasing\<rparr>) (set_pool (op_pool x) p c))"
| reserved: "\<lbrakk> k < length (pc_ops c); x = pc_ops c ! k; op_phase x = Owning; op_dedicated x;
      dedicated_turn (pc_limit c) (pc_pools c ! op_pool x) = (Reserve, p) \<rbrakk>
    \<Longrightarrow> op_step k c (set_op k (x\<lparr>op_phase := Reserved\<rparr>) (set_pool (op_pool x) p c))"
| evict_idle: "\<lbrakk> k < length (pc_ops c); x = pc_ops c ! k; op_phase x = Owning; op_dedicated x;
      dedicated_turn (pc_limit c) (pc_pools c ! op_pool x) = (EvictIdle n, p) \<rbrakk>
    \<Longrightarrow> op_step k c (set_pool (op_pool x) p c)"
| unreserved: "\<lbrakk> k < length (pc_ops c); x = pc_ops c ! k; op_phase x = Reserved; p = pc_pools c ! op_pool x \<rbrakk>
    \<Longrightarrow> op_step k c (set_op k (x\<lparr>op_phase := Releasing\<rparr>)
         (set_pool (op_pool x) (p\<lparr>ap_dedicated := ap_dedicated p - 1\<rparr>) c))"
| ungate: "\<lbrakk> k < length (pc_ops c); x = pc_ops c ! k; op_phase x = Releasing \<rbrakk>
    \<Longrightarrow> op_step k c (set_op k (x\<lparr>op_phase := Ungated True\<rparr>)
         (set_pool (op_pool x) (release_gate (op_weight x) (pc_pools c ! op_pool x)) c))"
| unregister: "\<lbrakk> k < length (pc_ops c); x = pc_ops c ! k; op_phase x = Ungated b \<rbrakk>
    \<Longrightarrow> op_step k c (set_op k (x\<lparr>op_phase := (if b then Unlocking else Finished)\<rparr>) (finish_operation (op_pool x) c))"
| unlock: "\<lbrakk> k < length (pc_ops c); x = pc_ops c ! k; op_phase x = Unlocking \<rbrakk>
    \<Longrightarrow> op_step k c (set_op k (x\<lparr>op_phase := Finished\<rparr>) c)"

text \<open>Steps that are not a caller's: new calls, cancellation, faults, \<open>InvalidateCredentials\<close>, \<open>Close\<close>.\<close>

definition damage_session :: "nat \<Rightarrow> bool \<Rightarrow> account_pool \<Rightarrow> account_pool" where
  "damage_session n by_watcher p = p\<lparr>ap_sessions := map (\<lambda>s. if ps_id s = n
     then (if by_watcher then s\<lparr>ps_connection := Cut\<rparr> else s\<lparr>ps_dirty := True\<rparr>) else s) (ap_sessions p)\<rparr>"

definition invalidate_credentials :: "pool_client \<Rightarrow> pool_client" where
  "invalidate_credentials c0 = (let c = c0\<lparr>pc_credential := next_generation (pc_credential c0)\<rparr> in
     case pc_current c of
       None \<Rightarrow> c
     | Some i \<Rightarrow> remove_empty_pool i (set_pool i (invalidate_sessions (pc_pools c ! i)) c))"

text \<open>
  \<open>Close\<close> under both locks: the sessions it logs out and closes, and the client. The pool is only
  detached from the map: an operation that had registered with it still refers to it and to its
  sessions, which are shut.
\<close>

definition shut_sessions :: "account_pool \<Rightarrow> account_pool" where
  "shut_sessions p = p\<lparr>ap_sessions := map (\<lambda>s. s\<lparr>ps_connection := Shut\<rparr>) (ap_sessions p)\<rparr>"

definition close_client :: "pool_client \<Rightarrow> pooled_session list \<times> pool_client" where
  "close_client c0 = (let c = c0\<lparr>pc_lifecycle := next_generation (pc_lifecycle c0), pc_current := None,
       pc_closes := pc_closes c0 + 1\<rparr> in
     case pc_current c0 of
       None \<Rightarrow> ([], c)
     | Some i \<Rightarrow> (ap_sessions (pc_pools c0 ! i), set_pool i (shut_sessions (pc_pools c0 ! i)) c))"

inductive env_step :: "pool_client \<Rightarrow> pool_client \<Rightarrow> bool" where
  call: "env_step c (start_operation cls dedicated c)"
| cancel: "\<lbrakk> k < length (pc_ops c); x = pc_ops c ! k \<rbrakk> \<Longrightarrow> env_step c (set_op k (x\<lparr>op_canceled := True\<rparr>) c)"
| lock_failed: "\<lbrakk> k < length (pc_ops c); x = pc_ops c ! k; op_phase x = Registered; op_class x = Mutation \<rbrakk>
    \<Longrightarrow> env_step c (set_op k (x\<lparr>op_phase := Ungated False\<rparr>) c)"
| watcher: "\<lbrakk> k < length (pc_ops c); x = pc_ops c ! k; op_phase x = Borrowed n; op_canceled x \<rbrakk>
    \<Longrightarrow> env_step c (set_pool (op_pool x) (damage_session n True (pc_pools c ! op_pool x)) c)"
| fault: "\<lbrakk> k < length (pc_ops c); x = pc_ops c ! k; op_phase x = Borrowed n \<rbrakk>
    \<Longrightarrow> env_step c (set_pool (op_pool x) (damage_session n False (pc_pools c ! op_pool x)) c)"
| invalidate: "env_step c (invalidate_credentials c)"
| close: "list_all (\<lambda>x. \<not> holds_lifecycle x) (pc_ops c) \<Longrightarrow> env_step c (snd (close_client c))"

definition pool_init :: "nat \<Rightarrow> pool_client \<Rightarrow> bool" where
  "pool_init limit c \<longleftrightarrow> c = \<lparr>pc_limit = limit, pc_pools = [], pc_current = None, pc_credential = 0,
     pc_lifecycle = 0, pc_ops = [], pc_next_id = 0, pc_closes = 0\<rparr>"

definition pool_step :: "pool_client \<Rightarrow> pool_client \<Rightarrow> bool" where
  "pool_step c c' \<longleftrightarrow> env_step c c' \<or> (\<exists>k. op_step k c c')"

text \<open>\<open>PoolStats\<close>, of the one account.\<close>

definition pool_stats_of :: "pool_client \<Rightarrow> pool_stats" where
  "pool_stats_of c = (let zero = \<lparr>st_limit = connection_limit (pc_limit c), st_account_pools = 0, st_pooled = 0,
       st_in_use = 0, st_connecting = 0, st_dedicated = 0\<rparr> in
     case pc_current c of
       None \<Rightarrow> zero
     | Some i \<Rightarrow> let p = pc_pools c ! i in
         zero\<lparr>st_account_pools := 1, st_pooled := length (ap_sessions p),
           st_in_use := length (filter ps_in_use (ap_sessions p)),
           st_connecting := ap_connecting p, st_dedicated := ap_dedicated p\<rparr>)"

end
