(* ===== verification/Session_Pool_Proofs.thy ===== *)
theory Session_Pool_Proofs
  imports Session_Pool
begin

text \<open>
  The pool under every interleaving of callers, cancellations, faults, credential invalidations and
  closes: its ledger is exact, its limit holds, a session has one borrower, mutations are exclusive,
  and the callers never wait for each other in a cycle.
\<close>

section \<open>The ledger\<close>

definition tally :: "nat \<Rightarrow> (operation \<Rightarrow> nat) \<Rightarrow> operation list \<Rightarrow> nat" where
  "tally i f xs = sum_list (map (\<lambda>x. if op_pool x = i then f x else 0) xs)"

definition registered_w :: "operation \<Rightarrow> nat" where
  "registered_w x = (case op_phase x of Starting \<Rightarrow> 0 | Unlocking \<Rightarrow> 0 | Finished \<Rightarrow> 0 | _ \<Rightarrow> 1)"

definition gate_w :: "operation \<Rightarrow> nat" where
  "gate_w x = (case op_phase x of Gated \<Rightarrow> op_weight x | Owning \<Rightarrow> op_weight x | Dialing _ \<Rightarrow> op_weight x
     | Borrowed _ \<Rightarrow> op_weight x | Reserved \<Rightarrow> op_weight x | Releasing \<Rightarrow> op_weight x | _ \<Rightarrow> 0)"

definition dialing_w :: "operation \<Rightarrow> nat" where
  "dialing_w x = (case op_phase x of Dialing _ \<Rightarrow> 1 | _ \<Rightarrow> 0)"

definition reserved_w :: "operation \<Rightarrow> nat" where
  "reserved_w x = (case op_phase x of Reserved \<Rightarrow> 1 | _ \<Rightarrow> 0)"

definition borrowed_w :: "nat \<Rightarrow> operation \<Rightarrow> nat" where
  "borrowed_w n x = (if op_phase x = Borrowed n then 1 else 0)"

definition canceled_w :: "nat \<Rightarrow> operation \<Rightarrow> nat" where
  "canceled_w n x = (if op_phase x = Borrowed n \<and> op_canceled x then 1 else 0)"

lemmas weight_defs = registered_w_def gate_w_def dialing_w_def reserved_w_def borrowed_w_def canceled_w_def

lemma tally_update:
  "k < length xs \<Longrightarrow> op_pool (xs ! k) = i \<Longrightarrow> op_pool y = i \<Longrightarrow>
     tally i f (xs[k := y]) + f (xs ! k) = tally i f xs + f y"
  using sum_list_update_nat [of k xs "\<lambda>x. if op_pool x = i then f x else 0" y] by (simp add: tally_def)

lemma tally_other:
  "k < length xs \<Longrightarrow> (if op_pool (xs ! k) = i then f (xs ! k) else 0) = (if op_pool y = i then f y else 0) \<Longrightarrow>
     tally i f (xs[k := y]) = tally i f xs"
  using sum_list_update_nat [of k xs "\<lambda>x. if op_pool x = i then f x else 0" y] by (simp add: tally_def)

lemma tally_append [simp]: "tally i f (xs @ ys) = tally i f xs + tally i f ys"
  by (simp add: tally_def)

lemma tally_Cons [simp]: "tally i f (x # xs) = (if op_pool x = i then f x else 0) + tally i f xs"
  by (simp add: tally_def)

lemma tally_Nil [simp]: "tally i f [] = 0"
  by (simp add: tally_def)

lemma tally_entry_le: "k < length xs \<Longrightarrow> op_pool (xs ! k) = i \<Longrightarrow> f (xs ! k) \<le> tally i f xs"
  using sum_list_entry_le [of k xs "\<lambda>x. if op_pool x = i then f x else 0"] by (simp add: tally_def)

lemma tally_two_le:
  "j < length xs \<Longrightarrow> k < length xs \<Longrightarrow> j \<noteq> k \<Longrightarrow> op_pool (xs ! j) = i \<Longrightarrow> op_pool (xs ! k) = i \<Longrightarrow>
     f (xs ! j) + f (xs ! k) \<le> tally i f xs"
  using sum_list_two_le [of j xs k "\<lambda>x. if op_pool x = i then f x else 0"] by (simp add: tally_def)

lemma tally_positive: "0 < tally i f xs \<Longrightarrow> \<exists>k < length xs. op_pool (xs ! k) = i \<and> 0 < f (xs ! k)"
  unfolding tally_def by (drule sum_list_positive) (auto split: if_splits)

section \<open>The invariant\<close>

definition in_use_id :: "pooled_session list \<Rightarrow> nat \<Rightarrow> bool" where
  "in_use_id ss n \<longleftrightarrow> (\<exists>s \<in> set ss. ps_id s = n \<and> ps_in_use s)"

definition sessions_ok :: "nat \<Rightarrow> (nat \<Rightarrow> nat) \<Rightarrow> (nat \<Rightarrow> nat) \<Rightarrow> pooled_session list \<Rightarrow> bool" where
  "sessions_ok N b cl ss \<longleftrightarrow> distinct (map ps_id ss) \<and> (\<forall>s \<in> set ss. ps_id s < N)
     \<and> (\<forall>n. b n = (if in_use_id ss n then 1 else 0))
     \<and> (\<forall>s \<in> set ss. \<not> ps_in_use s \<longrightarrow> \<not> ps_dirty s)
     \<and> (\<forall>s \<in> set ss. ps_connection s = Cut \<longrightarrow> 0 < cl (ps_id s))"

definition pool_ok :: "nat \<Rightarrow> nat \<Rightarrow> operation list \<Rightarrow> nat \<Rightarrow> account_pool \<Rightarrow> bool" where
  "pool_ok L N xs i p \<longleftrightarrow> ap_operations p = tally i registered_w xs \<and> ap_gate p = tally i gate_w xs
     \<and> ap_connecting p = tally i dialing_w xs \<and> ap_dedicated p = tally i reserved_w xs
     \<and> ap_gate p \<le> L \<and> pool_total p \<le> L
     \<and> sessions_ok N (\<lambda>n. tally i (borrowed_w n) xs) (\<lambda>n. tally i (canceled_w n) xs) (ap_sessions p)"

definition op_ok :: "nat \<Rightarrow> nat \<Rightarrow> operation \<Rightarrow> bool" where
  "op_ok limit m x \<longleftrightarrow> op_weight x = operation_weight limit (op_class x)
     \<and> (op_dedicated x \<longrightarrow> op_class x = Mutation) \<and> (registered_w x = 1 \<longrightarrow> op_pool x < m)"

definition pool_inv :: "pool_client \<Rightarrow> bool" where
  "pool_inv c \<longleftrightarrow> list_all (op_ok (pc_limit c) (length (pc_pools c))) (pc_ops c)
     \<and> (\<forall>i < length (pc_pools c).
          pool_ok (connection_limit (pc_limit c)) (pc_next_id c) (pc_ops c) i (pc_pools c ! i))
     \<and> (case pc_current c of None \<Rightarrow> True | Some i \<Rightarrow> i < length (pc_pools c))"

text \<open>
  One caller moves and changes its own pool only: the invariant follows from the new entry of that
  pool and that caller.
\<close>

lemma pool_ok_other:
  assumes "pool_ok L N xs j p" "k < length xs" "op_pool (xs ! k) \<noteq> j" "op_pool y \<noteq> j" "N \<le> N'"
  shows "pool_ok L N' (xs[k := y]) j p"
  using assms tally_other [of k xs j _ y]
  by (fastforce simp: pool_ok_def sessions_ok_def intro: less_le_trans)

lemma pool_inv_local:
  assumes inv: "pool_inv c" and k: "k < length (pc_ops c)" "x = pc_ops c ! k" "registered_w x = 1"
    and y: "op_pool y = op_pool x" "op_class y = op_class x" "op_weight y = op_weight x"
      "op_dedicated y = op_dedicated x"
    and N: "pc_next_id c \<le> N"
    and p: "pool_ok (connection_limit (pc_limit c)) N ((pc_ops c)[k := y]) (op_pool x) p"
  shows "pool_inv (set_op k y (set_pool (op_pool x) p (c\<lparr>pc_next_id := N\<rparr>)))"
proof -
  have opk: "op_ok (pc_limit c) (length (pc_pools c)) x"
    using inv k by (simp add: pool_inv_def list_all_length)
  then have i: "op_pool x < length (pc_pools c)" using k by (simp add: op_ok_def)
  have "op_ok (pc_limit c) (length (pc_pools c)) y" using opk y i by (simp add: op_ok_def)
  then have "list_all (op_ok (pc_limit c) (length (pc_pools c))) ((pc_ops c)[k := y])"
    using inv unfolding pool_inv_def list_all_iff by (metis (no_types) insert_iff set_update_subset_insert subset_iff)
  moreover have "pool_ok (connection_limit (pc_limit c)) N ((pc_ops c)[k := y]) j ((pc_pools c)[op_pool x := p] ! j)"
    if "j < length (pc_pools c)" for j
  proof (cases "j = op_pool x")
    case True
    with p i show ?thesis by simp
  next
    case False
    have "pool_ok (connection_limit (pc_limit c)) (pc_next_id c) (pc_ops c) j (pc_pools c ! j)"
      using inv that by (simp add: pool_inv_def)
    from pool_ok_other [OF this k(1) _ _ N, of y] False k y show ?thesis by simp
  qed
  ultimately show ?thesis
    using inv by (simp add: pool_inv_def set_op_def set_pool_def split: option.splits)
qed

section \<open>Changes to the sessions\<close>

lemma sessions_ok_cong:
  "sessions_ok N b cl ss \<Longrightarrow> (\<And>n. b' n = b n) \<Longrightarrow> (\<And>n. cl n \<le> cl' n) \<Longrightarrow> N \<le> N' \<Longrightarrow> sessions_ok N' b' cl' ss"
  unfolding sessions_ok_def by (auto intro: less_le_trans)

lemma sessions_ok_filter:
  assumes "sessions_ok N b cl ss" "\<And>s. s \<in> set ss \<Longrightarrow> \<not> P s \<Longrightarrow> \<not> ps_in_use s"
  shows "sessions_ok N b cl (filter P ss)"
proof -
  have "in_use_id (filter P ss) n \<longleftrightarrow> in_use_id ss n" for n
    using assms(2) by (auto simp: in_use_id_def)
  with assms(1) show ?thesis by (auto simp: sessions_ok_def distinct_map_filter)
qed

lemma remove_pooled_filter:
  "distinct (map ps_id ss) \<Longrightarrow> remove_pooled n ss = filter (\<lambda>s. ps_id s \<noteq> n) ss"
proof (induction ss)
  case (Cons s ss)
  from Cons have "ps_id s \<notin> ps_id ` set ss" by simp
  then have "filter (\<lambda>x. ps_id x \<noteq> ps_id s) ss = ss" by (intro filter_True ballI notI) (metis imageI)
  with Cons show ?case by auto
qed simp

text \<open>A change of single sessions that keeps their ids and does not make them worse.\<close>

lemma sessions_ok_map:
  assumes ok: "sessions_ok N b cl ss" and id: "\<And>s. ps_id (f s) = ps_id s"
    and use: "\<And>s. s \<in> set ss \<Longrightarrow> ps_in_use (f s) = (if ps_id s = n then v else ps_in_use s)"
    and idle: "\<And>s. s \<in> set ss \<Longrightarrow> \<not> ps_in_use (f s) \<Longrightarrow> \<not> ps_dirty (f s)"
    and closed: "\<And>s. s \<in> set ss \<Longrightarrow> ps_connection (f s) = Cut \<Longrightarrow> 0 < cl' (ps_id s)"
    and mem: "n \<in> ps_id ` set ss"
  shows "sessions_ok N (b(n := if v then 1 else 0)) cl' (map f ss)"
proof -
  have "in_use_id (map f ss) m \<longleftrightarrow> (if m = n then v else in_use_id ss m)" for m
    using id use mem by (auto simp: in_use_id_def)
  moreover have "distinct (map ps_id (map f ss))"
    using ok id by (simp add: sessions_ok_def comp_def)
  ultimately show ?thesis
    using ok idle closed id by (auto simp: sessions_ok_def)
qed

lemma sessions_ok_borrow:
  assumes "sessions_ok N b cl ss" "s0 \<in> set ss" "\<not> ps_in_use s0"
  shows "sessions_ok N (b(ps_id s0 := 1)) cl (map (\<lambda>s. if ps_id s = ps_id s0 then s\<lparr>ps_in_use := True\<rparr> else s) ss)"
proof -
  have "sessions_ok N (b(ps_id s0 := if True then 1 else 0)) cl
      (map (\<lambda>s. if ps_id s = ps_id s0 then s\<lparr>ps_in_use := True\<rparr> else s) ss)"
    by (rule sessions_ok_map [OF assms(1)]) (use assms in \<open>auto simp: sessions_ok_def split: if_splits\<close>)
  then show ?thesis by simp
qed

lemma sessions_ok_append:
  assumes "sessions_ok N b cl ss"
  shows "sessions_ok (N + 1) (b(N := 1)) cl (ss @ [\<lparr>ps_id = N, ps_generation = g, ps_in_use = True,
    ps_invalidated = False, ps_dirty = False, ps_connection = Established\<rparr>])"
proof -
  have "in_use_id (ss @ [\<lparr>ps_id = N, ps_generation = g, ps_in_use = True, ps_invalidated = False,
      ps_dirty = False, ps_connection = Established\<rparr>]) m \<longleftrightarrow> m = N \<or> in_use_id ss m" for m
    by (auto simp: in_use_id_def)
  with assms show ?thesis by (auto simp: sessions_ok_def less_Suc_eq)
qed

lemma sessions_ok_release:
  assumes ok: "sessions_ok N b cl ss" and mem: "n \<in> ps_id ` set ss"
    and cl: "\<And>m. m \<noteq> n \<Longrightarrow> cl' m = cl m" and clean: "\<And>s. s \<in> set ss \<Longrightarrow> ps_id s = n \<Longrightarrow> \<not> ps_dirty s \<and> ps_connection s \<noteq> Cut"
  shows "sessions_ok N (b(n := 0)) cl' (map (\<lambda>s. if ps_id s = n then s\<lparr>ps_in_use := False\<rparr> else s) ss)"
proof -
  have "sessions_ok N (b(n := if False then 1 else 0)) cl' (map (\<lambda>s. if ps_id s = n then s\<lparr>ps_in_use := False\<rparr> else s) ss)"
    by (rule sessions_ok_map [OF ok _ _ _ _ mem]) (use ok clean cl in \<open>auto simp: sessions_ok_def split: if_splits\<close>)
  then show ?thesis by simp
qed

lemma sessions_ok_remove:
  assumes ok: "sessions_ok N b cl ss" and cl: "\<And>m. m \<noteq> n \<Longrightarrow> cl' m = cl m"
  shows "sessions_ok N (b(n := 0)) cl' (remove_pooled n (map (\<lambda>s. if ps_id s = n then s\<lparr>ps_in_use := False\<rparr> else s) ss))"
proof -
  let ?f = "\<lambda>s. if ps_id s = n then s\<lparr>ps_in_use := False\<rparr> else s"
  have "ps_id (?f s) = ps_id s" for s by simp
  then have d: "map ps_id (map ?f ss) = map ps_id ss" by simp
  have "distinct (map ps_id (map ?f ss))" using ok unfolding d by (simp add: sessions_ok_def)
  then have "remove_pooled n (map ?f ss) = filter (\<lambda>s. ps_id s \<noteq> n) (map ?f ss)" by (rule remove_pooled_filter)
  also have "\<dots> = filter (\<lambda>s. ps_id s \<noteq> n) ss" by (induction ss) auto
  finally have r: "remove_pooled n (map ?f ss) = filter (\<lambda>s. ps_id s \<noteq> n) ss" .
  have "in_use_id (filter (\<lambda>s. ps_id s \<noteq> n) ss) m \<longleftrightarrow> m \<noteq> n \<and> in_use_id ss m" for m
    by (auto simp: in_use_id_def)
  then show ?thesis using ok cl unfolding r by (auto simp: sessions_ok_def distinct_map_filter)
qed

section \<open>Preservation by the callers\<close>

text \<open>What the invariant says of a caller \<open>k\<close> and its pool.\<close>

lemma pool_inv_caller:
  assumes "pool_inv c" "k < length (pc_ops c)" "x = pc_ops c ! k" "registered_w x = 1"
  shows "op_pool x < length (pc_pools c)"
    "pool_ok (connection_limit (pc_limit c)) (pc_next_id c) (pc_ops c) (op_pool x) (pc_pools c ! op_pool x)"
    "op_weight x = operation_weight (pc_limit c) (op_class x)"
proof -
  have "op_ok (pc_limit c) (length (pc_pools c)) x"
    using assms by (simp add: pool_inv_def list_all_length)
  with assms show "op_pool x < length (pc_pools c)" "op_weight x = operation_weight (pc_limit c) (op_class x)"
    by (simp_all add: op_ok_def)
  with assms(1) show "pool_ok (connection_limit (pc_limit c)) (pc_next_id c) (pc_ops c) (op_pool x) (pc_pools c ! op_pool x)"
    by (simp add: pool_inv_def)
qed

lemma pool_inv_move:
  assumes inv: "pool_inv c" and k: "k < length (pc_ops c)" "x = pc_ops c ! k" "registered_w x = 1"
    and y: "op_pool y = op_pool x" "op_class y = op_class x" "op_weight y = op_weight x" "op_dedicated y = op_dedicated x"
    and step: "\<And>xs' p L N. \<lbrakk> pool_ok L N (pc_ops c) (op_pool x) p; p = pc_pools c ! op_pool x; L = connection_limit (pc_limit c);
       N = pc_next_id c; \<And>f. tally (op_pool x) f xs' + f x = tally (op_pool x) f (pc_ops c) + f y;
       \<And>f. f x \<le> tally (op_pool x) f (pc_ops c) \<rbrakk> \<Longrightarrow> pool_ok L N xs' (op_pool x) p'"
  shows "pool_inv (set_op k y (set_pool (op_pool x) p' c))"
proof -
  have "pool_ok (connection_limit (pc_limit c)) (pc_next_id c) ((pc_ops c)[k := y]) (op_pool x) p'"
    using tally_update [of k "pc_ops c" "op_pool x" y] tally_entry_le [of k "pc_ops c" "op_pool x"] k y
    by (intro step [OF pool_inv_caller(2) [OF inv k]]) auto
  from pool_inv_local [OF inv k y order_refl this] show ?thesis by simp
qed

lemma sessions_same:
  assumes "sessions_ok N (\<lambda>n. tally i (borrowed_w n) xs) (\<lambda>n. tally i (canceled_w n) xs) ss"
    and "\<And>f. tally i f xs' + f x = tally i f xs + f y"
    and "\<And>n. op_phase x \<noteq> Borrowed n" "\<And>n. op_phase y \<noteq> Borrowed n"
  shows "sessions_ok N (\<lambda>n. tally i (borrowed_w n) xs') (\<lambda>n. tally i (canceled_w n) xs') ss"
proof (rule sessions_ok_cong [OF assms(1)])
  fix n
  show "tally i (borrowed_w n) xs' = tally i (borrowed_w n) xs" "tally i (canceled_w n) xs \<le> tally i (canceled_w n) xs'"
    using assms(2) [of "borrowed_w n"] assms(2) [of "canceled_w n"] assms(3,4)
    by (simp_all add: borrowed_w_def canceled_w_def)
qed simp

text \<open>A step whose caller neither takes nor gives back a session.\<close>

lemma pool_inv_plain:
  assumes inv: "pool_inv c" and k: "k < length (pc_ops c)" "x = pc_ops c ! k" "registered_w x = 1"
    and ph: "\<And>n. op_phase x \<noteq> Borrowed n" "\<And>n. ph \<noteq> Borrowed n" "ph \<notin> {Starting, Unlocking, Finished}"
    and p: "p = pc_pools c ! op_pool x"
    and p': "ap_operations p' = ap_operations p" "ap_gate p' + gate_w x = ap_gate p + gate_w (x\<lparr>op_phase := ph\<rparr>)"
      "ap_connecting p' + dialing_w x = ap_connecting p + dialing_w (x\<lparr>op_phase := ph\<rparr>)"
      "ap_dedicated p' + reserved_w x = ap_dedicated p + reserved_w (x\<lparr>op_phase := ph\<rparr>)"
      "ap_gate p' \<le> connection_limit (pc_limit c)" "pool_total p' \<le> connection_limit (pc_limit c)"
    and ss: "\<And>N b cl. sessions_ok N b cl (ap_sessions p) \<Longrightarrow> sessions_ok N b cl (ap_sessions p')"
  shows "pool_inv (set_op k (x\<lparr>op_phase := ph\<rparr>) (set_pool (op_pool x) p' c))"
proof (rule pool_inv_move [OF inv k])
  fix xs' q L N
  assume q: "pool_ok L N (pc_ops c) (op_pool x) q" "q = pc_pools c ! op_pool x" "L = connection_limit (pc_limit c)" "N = pc_next_id c"
    and t: "\<And>f. tally (op_pool x) f xs' + f x = tally (op_pool x) f (pc_ops c) + f (x\<lparr>op_phase := ph\<rparr>)"
  have r: "registered_w (x\<lparr>op_phase := ph\<rparr>) = 1" using ph(3) by (simp add: registered_w_def split: phase.splits)
  have "sessions_ok N (\<lambda>n. tally (op_pool x) (borrowed_w n) xs') (\<lambda>n. tally (op_pool x) (canceled_w n) xs') (ap_sessions p')"
    using q p by (intro sessions_same [OF ss t]) (use ph in \<open>simp_all add: pool_ok_def\<close>)
  with q p p' t [of registered_w] t [of gate_w] t [of dialing_w] t [of reserved_w] r k(3)
  show "pool_ok L N xs' (op_pool x) p'" unfolding pool_ok_def by simp
qed simp_all

lemma set_pool_same [simp]: "set_pool i (pc_pools c ! i) c = c"
  by (simp add: set_pool_def)

lemma set_op_same [simp]: "set_op k (pc_ops c ! k) c = c"
  by (simp add: set_op_def)

lemma pool_inv_pool_ok:
  "pool_inv c \<Longrightarrow> i < length (pc_pools c) \<Longrightarrow>
     pool_ok (connection_limit (pc_limit c)) (pc_next_id c) (pc_ops c) i (pc_pools c ! i)"
  by (simp add: pool_inv_def)

lemma phase_only_step:
  assumes "pool_inv c" "k < length (pc_ops c)" "x = pc_ops c ! k" "registered_w x = 1"
    and "\<And>n. op_phase x \<noteq> Borrowed n" "\<And>n. ph \<noteq> Borrowed n" "ph \<notin> {Starting, Unlocking, Finished}"
    and "gate_w (x\<lparr>op_phase := ph\<rparr>) = gate_w x" "dialing_w (x\<lparr>op_phase := ph\<rparr>) = dialing_w x"
      "reserved_w (x\<lparr>op_phase := ph\<rparr>) = reserved_w x"
  shows "pool_inv (set_op k (x\<lparr>op_phase := ph\<rparr>) c)"
  using pool_inv_plain [OF assms(1-7) refl, of "pc_pools c ! op_pool x"] assms(8-)
    pool_inv_caller(2) [OF assms(1-4)] by (simp add: pool_ok_def)

lemma evict_stale_ok:
  assumes "evict_stale g p = (ss, q)"
  shows "q = p\<lparr>ap_sessions := ap_sessions q\<rparr>" "pool_total q \<le> pool_total p"
    "sessions_ok N b cl (ap_sessions p) \<Longrightarrow> sessions_ok N b cl (ap_sessions q)"
    "ss = [] \<Longrightarrow> q = p"
proof -
  from assms have q: "q = p\<lparr>ap_sessions := filter (\<lambda>s. \<not> stale_idle g s) (ap_sessions p)\<rparr>"
    and ss: "ss = rev (filter (stale_idle g) (ap_sessions p))"
    by (auto simp: evict_stale_def)
  show "q = p\<lparr>ap_sessions := ap_sessions q\<rparr>" "pool_total q \<le> pool_total p" by (simp_all add: q pool_total_def)
  show "sessions_ok N b cl (ap_sessions p) \<Longrightarrow> sessions_ok N b cl (ap_sessions q)"
    unfolding q by (simp, erule sessions_ok_filter) (simp add: stale_idle_def)
  show "q = p" if "ss = []"
  proof -
    have "filter (\<lambda>s. \<not> stale_idle g s) (ap_sessions p) = ap_sessions p"
      using that ss by (auto simp: filter_empty_conv intro: filter_True)
    then show ?thesis unfolding q by simp
  qed
qed

lemma borrow_turn_evicted:
  "borrow_turn limit g p = (Evicted ss, q) \<Longrightarrow> evict_stale g p = (ss, q)"
  by (auto simp: borrow_turn_def Let_def split: prod.splits if_splits option.splits)

lemma borrow_turn_dial:
  "borrow_turn limit g p = (Dial, q) \<Longrightarrow> pool_total p < connection_limit limit \<and> q = p\<lparr>ap_connecting := ap_connecting p + 1\<rparr>"
  using evict_stale_ok(4) [of g p "[]"]
  by (auto simp: borrow_turn_def Let_def split: prod.splits if_splits option.splits)

lemma borrow_turn_wait:
  "borrow_turn limit g p = (WaitForChange, q) \<Longrightarrow> connection_limit limit \<le> pool_total p
     \<and> (\<forall>s \<in> set (ap_sessions p). ps_in_use s)"
  by (auto simp: borrow_turn_def Let_def evict_stale_def filter_empty_conv stale_idle_def find_index_opt_None
      split: prod.splits if_splits option.splits)

lemma borrow_turn_reuse:
  assumes "borrow_turn limit g p = (Reuse n, q)"
  shows "\<exists>s \<in> set (ap_sessions p). ps_id s = n \<and> \<not> ps_in_use s \<and> session_fresh g s" "q = set_in_use n True p"
proof -
  from assms obtain ss q1 i where e: "evict_stale g p = (ss, q1)" "ss = []"
    and i: "find_index_opt (\<lambda>s. \<not> ps_in_use s \<and> session_fresh g s) (ap_sessions p) = Some i"
    and n: "n = ps_id (ap_sessions p ! i)" "q = set_in_use n True p"
    using evict_stale_ok(4) [of g p "[]"]
    by (auto simp: borrow_turn_def Let_def split: prod.splits if_splits option.splits)
  from find_index_opt_Some [OF i] n show "\<exists>s \<in> set (ap_sessions p). ps_id s = n \<and> \<not> ps_in_use s \<and> session_fresh g s"
    "q = set_in_use n True p" by auto
qed

lemma dedicated_turn_cases:
  assumes "dedicated_turn limit p = (a, q)"
  shows "case a of
     Reserve \<Rightarrow> pool_total p < connection_limit limit \<and> q = p\<lparr>ap_dedicated := ap_dedicated p + 1\<rparr>
   | EvictIdle n \<Rightarrow> (\<exists>s \<in> set (ap_sessions p). ps_id s = n \<and> \<not> ps_in_use s)
       \<and> q = p\<lparr>ap_sessions := remove_pooled n (ap_sessions p)\<rparr>
   | WaitDedicated \<Rightarrow> connection_limit limit \<le> pool_total p \<and> (\<forall>s \<in> set (ap_sessions p). ps_in_use s)"
  using assms
  by (fastforce simp: dedicated_turn_def Let_def find_index_opt_None split: if_splits option.splits
      dest!: find_index_opt_Some)

lemma pool_inv_reuse:
  assumes inv: "pool_inv c" and k: "k < length (pc_ops c)" "x = pc_ops c ! k" "op_phase x = Owning"
    and turn: "borrow_turn (pc_limit c) g (pc_pools c ! op_pool x) = (Reuse n, p)"
  shows "pool_inv (set_op k (x\<lparr>op_phase := Borrowed n\<rparr>) (set_pool (op_pool x) p c))"
proof (rule pool_inv_move [OF inv k(1,2)])
  fix xs' q L N
  assume q: "pool_ok L N (pc_ops c) (op_pool x) q" "q = pc_pools c ! op_pool x"
    and t: "\<And>f. tally (op_pool x) f xs' + f x = tally (op_pool x) f (pc_ops c) + f (x\<lparr>op_phase := Borrowed n\<rparr>)"
  from borrow_turn_reuse [OF turn] q(2) obtain s where s: "s \<in> set (ap_sessions q)" "ps_id s = n" "\<not> ps_in_use s"
    and p: "p = set_in_use n True q" by auto
  have b: "tally (op_pool x) (borrowed_w m) xs' = ((\<lambda>n. tally (op_pool x) (borrowed_w n) (pc_ops c))(n := 1)) m" for m
  proof -
    have "tally (op_pool x) (borrowed_w n) (pc_ops c) = 0"
      using q(1) s by (fastforce simp: pool_ok_def sessions_ok_def in_use_id_def distinct_map inj_on_def)
    with t [of "borrowed_w m"] k(3) show ?thesis by (auto simp: borrowed_w_def)
  qed
  have "sessions_ok N (\<lambda>n. tally (op_pool x) (borrowed_w n) xs') (\<lambda>n. tally (op_pool x) (canceled_w n) xs') (ap_sessions p)"
  proof (rule sessions_ok_cong [OF _ b])
    show "sessions_ok N ((\<lambda>n. tally (op_pool x) (borrowed_w n) (pc_ops c))(n := 1))
        (\<lambda>n. tally (op_pool x) (canceled_w n) (pc_ops c)) (ap_sessions p)"
      using sessions_ok_borrow [of N _ _ "ap_sessions q" s] q(1) s by (auto simp: pool_ok_def p set_in_use_def)
    show "tally (op_pool x) (canceled_w m) (pc_ops c) \<le> tally (op_pool x) (canceled_w m) xs'" for m
      using t [of "canceled_w m"] k(3) by (simp add: canceled_w_def)
  qed simp
  with q(1) t [of registered_w] t [of gate_w] t [of dialing_w] t [of reserved_w] k(3)
  show "pool_ok L N xs' (op_pool x) p"
    by (simp add: pool_ok_def p set_in_use_def pool_total_def weight_defs)
qed (simp_all add: registered_w_def k(3))

lemma pool_inv_dialed:
  assumes inv: "pool_inv c" and k: "k < length (pc_ops c)" "x = pc_ops c ! k" "op_phase x = Dialing g"
  shows "pool_inv (set_op k (x\<lparr>op_phase := Borrowed (pc_next_id c)\<rparr>)
    (set_pool (op_pool x) (finish_dial g (Some (pc_next_id c)) (pc_pools c ! op_pool x)) (c\<lparr>pc_next_id := pc_next_id c + 1\<rparr>)))"
proof (rule pool_inv_local [OF inv k(1,2)])
  let ?y = "x\<lparr>op_phase := Borrowed (pc_next_id c)\<rparr>" and ?i = "op_pool x"
  let ?xs = "(pc_ops c)[k := ?y]" and ?p = "pc_pools c ! op_pool x" and ?N = "pc_next_id c"
  have t: "tally ?i f ?xs + f x = tally ?i f (pc_ops c) + f ?y" for f
    using tally_update [of k "pc_ops c" ?i ?y f] k by simp
  show r: "registered_w x = 1" using k(3) by (simp add: registered_w_def)
  note ok = pool_inv_caller(2) [OF inv k(1,2) r]
  have one: "1 \<le> tally ?i dialing_w (pc_ops c)"
    using tally_entry_le [of k "pc_ops c" ?i dialing_w] k by (simp add: dialing_w_def)
  have b: "tally ?i (borrowed_w m) ?xs = ((\<lambda>n. tally ?i (borrowed_w n) (pc_ops c))(?N := 1)) m" for m
  proof -
    have "tally ?i (borrowed_w ?N) (pc_ops c) = 0"
      using ok by (auto simp: pool_ok_def sessions_ok_def in_use_id_def)
    with t [of "borrowed_w m"] k(3) show ?thesis by (auto simp: borrowed_w_def)
  qed
  have "sessions_ok (?N + 1) (\<lambda>n. tally ?i (borrowed_w n) ?xs) (\<lambda>n. tally ?i (canceled_w n) ?xs)
      (ap_sessions (finish_dial g (Some ?N) ?p))"
  proof (rule sessions_ok_cong [OF _ b])
    show "sessions_ok (?N + 1) ((\<lambda>n. tally ?i (borrowed_w n) (pc_ops c))(?N := 1))
        (\<lambda>n. tally ?i (canceled_w n) (pc_ops c)) (ap_sessions (finish_dial g (Some ?N) ?p))"
      using sessions_ok_append ok by (simp add: pool_ok_def finish_dial_def Let_def)
    show "tally ?i (canceled_w m) (pc_ops c) \<le> tally ?i (canceled_w m) ?xs" for m
      using t [of "canceled_w m"] k(3) by (simp add: canceled_w_def)
  qed simp
  with ok t [of registered_w] t [of gate_w] t [of dialing_w] t [of reserved_w] k(3) one
  show "pool_ok (connection_limit (pc_limit c)) (pc_next_id c + 1) ?xs ?i (finish_dial g (Some ?N) ?p)"
    by (simp add: pool_ok_def finish_dial_def Let_def pool_total_def weight_defs)
qed simp_all

lemma release_pooled_result:
  assumes "release_pooled canceled g n q = (stale, p)"
  shows "p = q\<lparr>ap_sessions := (let ss = map (\<lambda>s. if ps_id s = n then s\<lparr>ps_in_use := False\<rparr> else s) (ap_sessions q)
      in if stale then remove_pooled n ss else ss)\<rparr>"
    and "\<not> stale \<Longrightarrow> \<not> canceled"
    and "\<not> stale \<Longrightarrow> find_session n q = Some s \<Longrightarrow> \<not> ps_dirty s \<and> session_fresh g s"
  using assms by (simp_all add: release_pooled_def Let_def set_in_use_def session_fresh_def split: if_splits)

lemma pool_inv_released:
  assumes inv: "pool_inv c" and k: "k < length (pc_ops c)" "x = pc_ops c ! k" "op_phase x = Borrowed n"
    and rel: "release_pooled (op_canceled x) g n (pc_pools c ! op_pool x) = (stale, p)"
  shows "pool_inv (set_op k (x\<lparr>op_phase := Releasing\<rparr>) (set_pool (op_pool x) p c))"
proof (rule pool_inv_move [OF inv k(1,2)])
  fix xs' q L N
  let ?i = "op_pool x"
  assume q: "pool_ok L N (pc_ops c) ?i q" "q = pc_pools c ! ?i"
    and t: "\<And>f. tally ?i f xs' + f x = tally ?i f (pc_ops c) + f (x\<lparr>op_phase := Releasing\<rparr>)"
    and le: "\<And>f. f x \<le> tally ?i f (pc_ops c)"
  let ?b = "\<lambda>n. tally ?i (borrowed_w n) (pc_ops c)" and ?cl = "\<lambda>n. tally ?i (canceled_w n) xs'"
  have ok: "sessions_ok N ?b (\<lambda>n. tally ?i (canceled_w n) (pc_ops c)) (ap_sessions q)"
    using q(1) by (simp add: pool_ok_def)
  have bn: "?b n = 1" "in_use_id (ap_sessions q) n"
    using le [of "borrowed_w n"] k(3) ok by (auto simp: sessions_ok_def borrowed_w_def split: if_splits)
  have b: "tally ?i (borrowed_w m) xs' = (?b(n := 0)) m" for m
    using t [of "borrowed_w m"] k(3) bn by (auto simp: borrowed_w_def)
  have cl: "?cl m = tally ?i (canceled_w m) (pc_ops c)" if "m \<noteq> n" for m
    using t [of "canceled_w m"] k(3) that by (simp add: canceled_w_def)
  have uncanceled: "tally ?i (canceled_w n) (pc_ops c) = 0" if "\<not> op_canceled x"
  proof (rule ccontr)
    assume "\<not> ?thesis"
    then obtain j where j: "j < length (pc_ops c)" "op_pool (pc_ops c ! j) = ?i" "0 < canceled_w n (pc_ops c ! j)"
      using tally_positive by blast
    have ph: "op_phase (pc_ops c ! j) = Borrowed n" "op_canceled (pc_ops c ! j)"
      using j(3) by (simp_all add: canceled_w_def split: if_splits)
    then have "j \<noteq> k" using that k(2) by blast
    moreover have "borrowed_w n (pc_ops c ! j) = 1" "borrowed_w n x = 1" using ph k(3) by (simp_all add: borrowed_w_def)
    ultimately show False
      using tally_two_le [of j "pc_ops c" k ?i "borrowed_w n"] j(1,2) k(1) bn(1) unfolding k(2) [symmetric] by simp
  qed
  have "sessions_ok N (?b(n := 0)) ?cl (ap_sessions p)"
  proof (cases stale)
    case True
    with release_pooled_result(1) [OF rel] q(2) have "ap_sessions p = remove_pooled n
        (map (\<lambda>s. if ps_id s = n then s\<lparr>ps_in_use := False\<rparr> else s) (ap_sessions q))"
      by (simp add: Let_def)
    moreover have "sessions_ok N (?b(n := 0)) ?cl (remove_pooled n
        (map (\<lambda>s. if ps_id s = n then s\<lparr>ps_in_use := False\<rparr> else s) (ap_sessions q)))"
      by (rule sessions_ok_remove [OF ok]) (rule cl)
    ultimately show ?thesis by simp
  next
    case False
    with release_pooled_result [OF rel] q(2)
    have p: "ap_sessions p = map (\<lambda>s. if ps_id s = n then s\<lparr>ps_in_use := False\<rparr> else s) (ap_sessions q)"
      and nc: "\<not> op_canceled x" and f: "\<And>s. find_session n q = Some s \<Longrightarrow> \<not> ps_dirty s"
      by (simp_all add: Let_def)
    have mem: "n \<in> ps_id ` set (ap_sessions q)" using bn(2) by (auto simp: in_use_id_def)
    have "\<not> ps_dirty s \<and> ps_connection s \<noteq> Cut" if s: "s \<in> set (ap_sessions q)" "ps_id s = n" for s
    proof -
      have "find_session n q = Some s"
      proof -
        obtain s' where s': "find_session n q = Some s'" using mem
          by (cases "find_session n q") (auto simp: find_session_def find_None_iff)
        then have "s' \<in> set (ap_sessions q)" "ps_id s' = n"
          by (auto simp: find_session_def find_Some_iff)
        with ok s s' show ?thesis by (auto simp: sessions_ok_def distinct_map inj_on_def)
      qed
      with f uncanceled [OF nc] ok s show ?thesis by (fastforce simp: sessions_ok_def)
    qed
    then show ?thesis unfolding p by (intro sessions_ok_release [OF ok mem]) (auto intro: cl)
  qed
  then have "sessions_ok N (\<lambda>n. tally ?i (borrowed_w n) xs') ?cl (ap_sessions p)"
    by (rule sessions_ok_cong [OF _ b]) simp_all
  moreover have rl: "length (remove_pooled n ss) \<le> length ss" for ss by (induction ss) auto
  then have "pool_total p \<le> pool_total q" "ap_operations p = ap_operations q" "ap_gate p = ap_gate q"
    "ap_connecting p = ap_connecting q" "ap_dedicated p = ap_dedicated q"
    using release_pooled_result(1) [OF rel] q(2) rl [of "map f (ap_sessions q)" for f, simplified]
    by (simp_all add: Let_def pool_total_def)
  ultimately show "pool_ok L N xs' ?i p"
    using q(1) t [of registered_w] t [of gate_w] t [of dialing_w] t [of reserved_w] k(3)
    by (simp add: pool_ok_def weight_defs)
qed (simp_all add: registered_w_def k(3))

lemma registered_w_cases: "registered_w x = 0 \<or> registered_w x = 1"
  by (simp add: registered_w_def split: phase.splits)

lemma pool_inv_register:
  assumes inv: "pool_inv c" and k: "k < length (pc_ops c)" "op_phase (pc_ops c ! k) = Starting"
  shows "pool_inv (register_operation k c)"
proof -
  obtain i d where d: "pool_locked c = (i, d)" by fastforce
  have same: "pc_ops d = pc_ops c" "pc_limit d = pc_limit c" "pc_next_id d = pc_next_id c"
    and cur: "pc_current d = Some i" and ge: "length (pc_pools c) \<le> length (pc_pools d)"
    using d by (auto simp: pool_locked_def split: option.splits)
  let ?L = "connection_limit (pc_limit c)" and ?N = "pc_next_id c" and ?xs = "pc_ops c"
  let ?y = "(?xs ! k)\<lparr>op_pool := i, op_phase := Registered\<rparr>"
  have unused: "tally (length (pc_pools c)) f ?xs = 0" if "\<And>x. registered_w x = 0 \<Longrightarrow> f x = 0" for f
  proof (rule ccontr)
    assume "tally (length (pc_pools c)) f ?xs \<noteq> 0"
    then obtain j where j: "j < length ?xs" "op_pool (?xs ! j) = length (pc_pools c)" "0 < f (?xs ! j)"
      using tally_positive [of "length (pc_pools c)" f ?xs] by auto
    have "registered_w (?xs ! j) \<noteq> 0" by (rule notI) (use that j(3) in force)
    then have "registered_w (?xs ! j) = 1" using registered_w_cases [of "?xs ! j"] by linarith
    with inv j show False by (auto simp: pool_inv_def list_all_length op_ok_def)
  qed
  have pools: "i < length (pc_pools d) \<and> (\<forall>j < length (pc_pools d). pool_ok ?L ?N ?xs j (pc_pools d ! j))"
  proof (cases "pc_current c")
    case (Some i')
    with d inv show ?thesis by (simp add: pool_locked_def pool_inv_def)
  next
    case None
    have "sessions_ok ?N (\<lambda>n. tally (length (pc_pools c)) (borrowed_w n) ?xs)
        (\<lambda>n. tally (length (pc_pools c)) (canceled_w n) ?xs) []"
      by (auto simp: sessions_ok_def in_use_id_def intro!: unused)
        (auto simp: borrowed_w_def registered_w_def split: phase.splits)
    then have "pool_ok ?L ?N ?xs (length (pc_pools c)) empty_pool"
      using unused [of registered_w] unused [of gate_w] unused [of dialing_w] unused [of reserved_w]
      by (simp add: pool_ok_def empty_pool_def pool_total_def)
        (auto simp: gate_w_def dialing_w_def reserved_w_def registered_w_def split: phase.splits)
    with None d inv show ?thesis
      by (auto simp: pool_locked_def pool_inv_def nth_append less_Suc_eq)
  qed
  have t: "tally i f (?xs[k := ?y]) = tally i f ?xs + f ?y" if "f (?xs ! k) = 0" for f
    using sum_list_update_nat [of k ?xs "\<lambda>x. if op_pool x = i then f x else 0" ?y] k that
    by (simp add: tally_def split: if_splits)
  have t': "tally j f (?xs[k := ?y]) = tally j f ?xs" if "f (?xs ! k) = 0" "f ?y = 0 \<or> j \<noteq> i" for j f
    using k that by (intro tally_other) auto
  have z: "borrowed_w n (?xs ! k) = 0" "canceled_w n (?xs ! k) = 0" "registered_w (?xs ! k) = 0" "gate_w (?xs ! k) = 0"
    "dialing_w (?xs ! k) = 0" "reserved_w (?xs ! k) = 0" "borrowed_w n ?y = 0" "canceled_w n ?y = 0" "gate_w ?y = 0"
    "dialing_w ?y = 0" "reserved_w ?y = 0" "registered_w ?y = 1" for n
    using k(2) by (simp_all add: weight_defs)
  have "pool_ok ?L ?N (?xs[k := ?y]) j ((pc_pools d)[i := (pc_pools d ! i)\<lparr>ap_operations := ap_operations (pc_pools d ! i) + 1\<rparr>] ! j)"
    if "j < length (pc_pools d)" for j
  proof (cases "j = i")
    case True
    have "pool_ok ?L ?N ?xs i (pc_pools d ! i)" using pools by blast
    with pools True show ?thesis by (auto simp: pool_ok_def pool_total_def t t' z)
  next
    case False
    have "pool_ok ?L ?N ?xs j (pc_pools d ! j)" using pools that by blast
    with False show ?thesis by (simp add: pool_ok_def t' z)
  qed
  moreover have "list_all (op_ok (pc_limit c) (length (pc_pools d))) (?xs[k := ?y])"
  proof -
    have "op_ok (pc_limit c) (length (pc_pools c)) x" if "x \<in> set ?xs" for x
      using inv that by (simp add: pool_inv_def list_all_iff)
    then have "op_ok (pc_limit c) (length (pc_pools d)) x" if "x \<in> set ?xs" for x
      using that ge by (fastforce simp: op_ok_def)
    moreover from this [of "?xs ! k"] k pools have "op_ok (pc_limit c) (length (pc_pools d)) ?y"
      by (simp add: op_ok_def)
    ultimately show ?thesis
      unfolding list_all_iff by (metis (no_types) insert_iff set_update_subset_insert subset_iff)
  qed
  ultimately show ?thesis
    using pools cur by (simp add: pool_inv_def register_operation_def d Let_def set_op_def set_pool_def same)
qed

lemma remove_empty_pool_inv: "pool_inv c \<Longrightarrow> pool_inv (remove_empty_pool i c)"
  by (auto simp: remove_empty_pool_def pool_inv_def)

lemma set_pool_remove_empty: "pc_ops (remove_empty_pool i c) = pc_ops c" "pc_pools (remove_empty_pool i c) = pc_pools c"
  "pc_limit (remove_empty_pool i c) = pc_limit c" "pc_next_id (remove_empty_pool i c) = pc_next_id c"
  "pc_lifecycle (remove_empty_pool i c) = pc_lifecycle c" "pc_closes (remove_empty_pool i c) = pc_closes c"
  by (simp_all add: remove_empty_pool_def)

lemma set_op_remove_empty: "set_op k y (remove_empty_pool i c) = remove_empty_pool i (set_op k y c)"
  by (simp add: set_op_def remove_empty_pool_def)

lemma pool_inv_uncount:
  assumes inv: "pool_inv c" and k: "k < length (pc_ops c)" "x = pc_ops c ! k" "op_phase x = Ungated b"
  shows "pool_inv (set_op k (x\<lparr>op_phase := (if b then Unlocking else Finished)\<rparr>) (set_pool (op_pool x)
    ((pc_pools c ! op_pool x)\<lparr>ap_operations := ap_operations (pc_pools c ! op_pool x) - 1\<rparr>) c))"
proof -
  let ?y = "x\<lparr>op_phase := (if b then Unlocking else Finished)\<rparr>" and ?p = "pc_pools c ! op_pool x"
  show ?thesis
  proof (rule pool_inv_move [OF inv k(1,2)])
    fix xs' q L N
    assume q: "pool_ok L N (pc_ops c) (op_pool x) q" "q = ?p"
      and t: "\<And>f. tally (op_pool x) f xs' + f x = tally (op_pool x) f (pc_ops c) + f ?y"
    have "sessions_ok N (\<lambda>n. tally (op_pool x) (borrowed_w n) xs') (\<lambda>n. tally (op_pool x) (canceled_w n) xs') (ap_sessions q)"
      using q by (intro sessions_same [OF _ t]) (simp_all add: pool_ok_def k(3))
    moreover have "registered_w x = 1" "registered_w ?y = 0" "gate_w x = 0" "gate_w ?y = 0" "dialing_w x = 0"
      "dialing_w ?y = 0" "reserved_w x = 0" "reserved_w ?y = 0"
      using k(3) by (simp_all add: weight_defs)
    ultimately show "pool_ok L N xs' (op_pool x) (?p\<lparr>ap_operations := ap_operations ?p - 1\<rparr>)"
      using q t [of registered_w] t [of gate_w] t [of dialing_w] t [of reserved_w]
      by (simp add: pool_ok_def pool_total_def)
  qed (simp_all add: registered_w_def k(3))
qed

lemma pool_inv_unregister:
  assumes "pool_inv c" "k < length (pc_ops c)" "x = pc_ops c ! k" "op_phase x = Ungated b"
  shows "pool_inv (set_op k (x\<lparr>op_phase := (if b then Unlocking else Finished)\<rparr>) (finish_operation (op_pool x) c))"
  using pool_inv_uncount [OF assms]
  unfolding finish_operation_def Let_def set_op_remove_empty by (rule remove_empty_pool_inv)

lemma sessions_ok_unique:
  "sessions_ok N b cl ss \<Longrightarrow> s \<in> set ss \<Longrightarrow> s' \<in> set ss \<Longrightarrow> ps_id s = ps_id s' \<Longrightarrow> s = s'"
  by (simp add: sessions_ok_def distinct_map inj_on_def)

lemma pool_inv_pool_change:
  assumes inv: "pool_inv c" and k: "k < length (pc_ops c)" "x = pc_ops c ! k" "registered_w x = 1"
    and p: "ap_operations p = ap_operations (pc_pools c ! op_pool x)" "ap_gate p = ap_gate (pc_pools c ! op_pool x)"
      "ap_connecting p = ap_connecting (pc_pools c ! op_pool x)" "ap_dedicated p = ap_dedicated (pc_pools c ! op_pool x)"
      "pool_total p \<le> pool_total (pc_pools c ! op_pool x)"
    and ss: "\<And>N b cl. \<lbrakk> sessions_ok N b cl (ap_sessions (pc_pools c ! op_pool x));
        \<And>n. op_phase x = Borrowed n \<Longrightarrow> b n = 1 \<and> (op_canceled x \<longrightarrow> 0 < cl n) \<rbrakk> \<Longrightarrow> sessions_ok N b cl (ap_sessions p)"
  shows "pool_inv (set_pool (op_pool x) p c)"
proof -
  let ?i = "op_pool x"
  note ok = pool_inv_caller(2) [OF inv k]
  have "tally ?i (borrowed_w n) (pc_ops c) = 1 \<and> (op_canceled x \<longrightarrow> 0 < tally ?i (canceled_w n) (pc_ops c))"
    if "op_phase x = Borrowed n" for n
    using ok tally_entry_le [of k "pc_ops c" ?i "borrowed_w n"] tally_entry_le [of k "pc_ops c" ?i "canceled_w n"] k that
    by (auto simp: pool_ok_def sessions_ok_def borrowed_w_def canceled_w_def split: if_splits)
  then have "pool_ok (connection_limit (pc_limit c)) (pc_next_id c) ((pc_ops c)[k := x]) ?i p"
    using ok p ss k(2) by (simp add: pool_ok_def)
  from pool_inv_local [OF inv k refl refl refl refl order_refl this] show ?thesis
    unfolding k(2) set_op_def set_pool_def by (simp add: list_update_id)
qed

lemma pool_inv_evicted:
  assumes inv: "pool_inv c" and k: "k < length (pc_ops c)" "x = pc_ops c ! k" "op_phase x = Owning"
    and turn: "borrow_turn (pc_limit c) g (pc_pools c ! op_pool x) = (Evicted ss, p)"
  shows "pool_inv (set_pool (op_pool x) p c)"
proof -
  note ev = evict_stale_ok [OF borrow_turn_evicted [OF turn]]
  have "ap_operations p = ap_operations (pc_pools c ! op_pool x)" "ap_gate p = ap_gate (pc_pools c ! op_pool x)"
    "ap_connecting p = ap_connecting (pc_pools c ! op_pool x)" "ap_dedicated p = ap_dedicated (pc_pools c ! op_pool x)"
    by (subst ev(1), simp)+
  with ev(2,3) show ?thesis
    by (intro pool_inv_pool_change [OF inv k(1,2)]) (simp_all add: registered_w_def k(3))
qed

lemma pool_inv_evict_idle:
  assumes inv: "pool_inv c" and k: "k < length (pc_ops c)" "x = pc_ops c ! k" "op_phase x = Owning"
    and turn: "dedicated_turn (pc_limit c) (pc_pools c ! op_pool x) = (EvictIdle n, p)"
  shows "pool_inv (set_pool (op_pool x) p c)"
proof -
  let ?q = "pc_pools c ! op_pool x"
  from dedicated_turn_cases [OF turn] obtain s where s: "s \<in> set (ap_sessions ?q)" "ps_id s = n" "\<not> ps_in_use s"
    and p: "p = ?q\<lparr>ap_sessions := remove_pooled n (ap_sessions ?q)\<rparr>" by auto
  have "length (remove_pooled n ss) \<le> length ss" for ss by (induction ss) auto
  then have le: "pool_total p \<le> pool_total ?q" by (simp add: p pool_total_def)
  have "sessions_ok N b cl (ap_sessions p)" if "sessions_ok N b cl (ap_sessions ?q)" for N b cl
  proof -
    have d: "distinct (map ps_id (ap_sessions ?q))" using that by (simp add: sessions_ok_def)
    have "\<not> ps_in_use s'" if "s' \<in> set (ap_sessions ?q)" "\<not> ps_id s' \<noteq> n" for s'
      using sessions_ok_unique [OF \<open>sessions_ok N b cl (ap_sessions ?q)\<close> that(1) s(1)] s that by simp
    from sessions_ok_filter [OF that, of "\<lambda>s. ps_id s \<noteq> n", OF this] show ?thesis
      unfolding p by (simp add: remove_pooled_filter [OF d])
  qed
  with le show ?thesis
    by (intro pool_inv_pool_change [OF inv k(1,2)]) (simp_all add: registered_w_def k(3) p)
qed

lemma pool_inv_damage:
  assumes inv: "pool_inv c" and k: "k < length (pc_ops c)" "x = pc_ops c ! k" "op_phase x = Borrowed n"
    and w: "w \<longrightarrow> op_canceled x"
  shows "pool_inv (set_pool (op_pool x) (damage_session n w (pc_pools c ! op_pool x)) c)"
proof -
  let ?q = "pc_pools c ! op_pool x"
  let ?f = "\<lambda>s. if ps_id s = n then (if w then s\<lparr>ps_connection := Cut\<rparr> else s\<lparr>ps_dirty := True\<rparr>) else s"
  have "sessions_ok N b cl (ap_sessions (damage_session n w ?q))"
    if ok: "sessions_ok N b cl (ap_sessions ?q)" and h: "b n = 1 \<and> (op_canceled x \<longrightarrow> 0 < cl n)" for N b cl
  proof -
    have "b n = (if in_use_id (ap_sessions ?q) n then 1 else 0)"
      using ok unfolding sessions_ok_def by blast
    with h have use: "in_use_id (ap_sessions ?q) n" by (metis zero_neq_one)
    have id: "ps_id (?f s) = ps_id s" for s by simp
    have "sessions_ok N (b(n := if True then 1 else 0)) cl (map ?f (ap_sessions ?q))"
    proof (rule sessions_ok_map [OF ok id])
      have one: "ps_in_use s" if "s \<in> set (ap_sessions ?q)" "ps_id s = n" for s
      proof -
        obtain s' where s': "s' \<in> set (ap_sessions ?q)" "ps_id s' = n" "ps_in_use s'"
          using use by (auto simp: in_use_id_def)
        have "s = s'" by (rule sessions_ok_unique [OF ok that(1) s'(1)]) (simp add: that(2) s'(2))
        then show ?thesis using s'(3) by simp
      qed
      show "ps_in_use (?f s) = (if ps_id s = n then True else ps_in_use s)" if "s \<in> set (ap_sessions ?q)" for s
        using one that by simp
      show "\<not> ps_dirty (?f s)" if "s \<in> set (ap_sessions ?q)" "\<not> ps_in_use (?f s)" for s
        using ok that one [OF that(1)] unfolding sessions_ok_def by (cases "ps_id s = n"; cases w) auto
      show "0 < cl (ps_id s)" if "s \<in> set (ap_sessions ?q)" "ps_connection (?f s) = Cut" for s
        using ok that h w unfolding sessions_ok_def by (cases "ps_id s = n"; cases w) auto
      show "n \<in> ps_id ` set (ap_sessions ?q)" using use by (auto simp: in_use_id_def)
    qed
    moreover have "b(n := if True then 1 else 0) = b" using h by auto
    ultimately show ?thesis by (simp add: damage_session_def)
  qed
  then show ?thesis
    by (intro pool_inv_pool_change [OF inv k(1,2)]) (simp_all add: registered_w_def k(3) damage_session_def pool_total_def)
qed

lemma pool_inv_canceled:
  assumes inv: "pool_inv c" and k: "k < length (pc_ops c)"
  shows "pool_inv (set_op k ((pc_ops c ! k)\<lparr>op_canceled := True\<rparr>) c)"
proof -
  let ?x = "pc_ops c ! k" and ?xs = "pc_ops c"
  let ?y = "?x\<lparr>op_canceled := True\<rparr>"
  have w: "registered_w ?y = registered_w ?x" "gate_w ?y = gate_w ?x" "dialing_w ?y = dialing_w ?x"
    "reserved_w ?y = reserved_w ?x" "borrowed_w n ?y = borrowed_w n ?x" "canceled_w n ?x \<le> canceled_w n ?y" for n
    by (simp_all add: weight_defs split: phase.splits)
  have t: "tally i f (?xs[k := ?y]) = tally i f ?xs" if "f ?y = f ?x" for i f
    using k that by (intro tally_other) auto
  have c: "tally i (canceled_w n) ?xs \<le> tally i (canceled_w n) (?xs[k := ?y])" for i n
    using sum_list_update_nat [of k ?xs "\<lambda>x. if op_pool x = i then canceled_w n x else 0" ?y] k w(6) [of n]
    by (simp add: tally_def split: if_splits)
  have "pool_ok L N (?xs[k := ?y]) i p" if "pool_ok L N ?xs i p" for L N i p
    using that unfolding pool_ok_def
    by (auto simp: t w intro: sessions_ok_cong [OF _ _ c])
  moreover have "list_all (op_ok (pc_limit c) (length (pc_pools c))) (?xs[k := ?y])"
  proof -
    have all: "op_ok (pc_limit c) (length (pc_pools c)) x" if "x \<in> set ?xs" for x
      using inv that by (simp add: pool_inv_def list_all_iff)
    then have "op_ok (pc_limit c) (length (pc_pools c)) ?y" using k w(1) nth_mem [OF k] by (fastforce simp: op_ok_def)
    with all show ?thesis unfolding list_all_iff by (metis (no_types) insert_iff set_update_subset_insert subset_iff)
  qed
  ultimately show ?thesis using inv by (simp add: pool_inv_def set_op_def split: option.splits)
qed

lemma pool_inv_invalidate_sessions:
  assumes inv: "pool_inv c" and cur: "pc_current c = Some i"
  shows "pool_inv (set_pool i (invalidate_sessions (pc_pools c ! i)) (c\<lparr>pc_credential := next_generation (pc_credential c)\<rparr>))"
proof -
  let ?q = "pc_pools c ! i"
  have i: "i < length (pc_pools c)" using inv cur by (simp add: pool_inv_def)
  have ok: "sessions_ok N b cl (ap_sessions (invalidate_sessions ?q))" if "sessions_ok N b cl (ap_sessions ?q)" for N b cl
  proof -
    have f: "sessions_ok N b cl (filter ps_in_use (ap_sessions ?q))" (is "sessions_ok N b cl ?ss")
      by (rule sessions_ok_filter [OF that]) simp
    have "in_use_id (map (\<lambda>s. s\<lparr>ps_invalidated := True\<rparr>) ?ss) n \<longleftrightarrow> in_use_id ?ss n" for n
      by (auto simp: in_use_id_def)
    moreover have "distinct (map ps_id (map (\<lambda>s. s\<lparr>ps_invalidated := True\<rparr>) ?ss))"
      using f by (simp add: sessions_ok_def comp_def)
    ultimately show ?thesis using f by (auto simp: sessions_ok_def invalidate_sessions_def)
  qed
  have "pool_ok L N xs i (invalidate_sessions ?q)" if "pool_ok L N xs i ?q" for L N xs
    using that ok by (auto simp: pool_ok_def pool_total_def invalidate_sessions_def intro: le_trans [OF add_le_mono1 [OF add_le_mono1 [OF length_filter_le]]])
  with inv i cur show ?thesis
    by (auto simp: pool_inv_def set_pool_def nth_list_update)
qed

lemma pool_inv_invalidate:
  assumes inv: "pool_inv c"
  shows "pool_inv (invalidate_credentials c)"
proof (cases "pc_current c")
  case None
  with inv show ?thesis by (simp add: invalidate_credentials_def Let_def pool_inv_def)
next
  case (Some i)
  with pool_inv_invalidate_sessions [OF inv Some] show ?thesis
    by (simp add: invalidate_credentials_def Let_def remove_empty_pool_inv)
qed

lemma connection_limit_pos: "1 \<le> connection_limit n"
  by (simp add: connection_limit_def default_max_connections_def)

lemma op_step_inv:
  assumes "op_step k c c'" "pool_inv c"
  shows "pool_inv c'"
  using assms
proof (induction rule: op_step.induct)
  case (register c)
  then show ?case by (intro pool_inv_register)
next
  case (gate_failed c x)
  then show ?case by (intro phase_only_step) (auto simp: weight_defs)
next
  case (gate c x p)
  note ok = pool_inv_caller(2) [OF gate(5,1,2)]
  from gate have "p = (pc_pools c ! op_pool x)\<lparr>ap_gate := ap_gate (pc_pools c ! op_pool x) + op_weight x\<rparr>"
    "ap_gate (pc_pools c ! op_pool x) + op_weight x \<le> connection_limit (pc_limit c)"
    by (auto simp: gate_acquire_def split: if_splits)
  with gate ok show ?case
    by (intro pool_inv_plain [OF _ _ _ _ _ _ _ refl]) (auto simp: weight_defs pool_ok_def pool_total_def)
next
  case (admit c x)
  then show ?case by (intro phase_only_step) (auto simp: weight_defs)
next
  case (refuse c x)
  then have r: "registered_w x = 1" by (simp add: registered_w_def)
  note ok = pool_inv_caller(2) [OF refuse(5,1,2) r]
  have "op_weight x \<le> ap_gate (pc_pools c ! op_pool x)"
    using ok tally_entry_le [of k "pc_ops c" "op_pool x" gate_w] refuse by (simp add: pool_ok_def gate_w_def)
  with refuse ok r show ?case
    by (intro pool_inv_plain [OF _ _ _ _ _ _ _ refl]) (auto simp: weight_defs pool_ok_def pool_total_def release_gate_def)
next
  case (owner_canceled c x)
  then show ?case by (intro phase_only_step) (auto simp: weight_defs)
next
  case (evicted c x ss p)
  then show ?case by (intro pool_inv_evicted) auto
next
  case (reuse c x n p)
  then show ?case by (intro pool_inv_reuse) auto
next
  case (dial c x p)
  then have r: "registered_w x = 1" by (simp add: registered_w_def)
  from dial r borrow_turn_dial [OF dial(5)] pool_inv_caller(2) [OF dial(6,1,2) r] show ?case
    by (intro pool_inv_plain [OF _ _ _ _ _ _ _ refl]) (auto simp: weight_defs pool_ok_def pool_total_def)
next
  case (dialed c x g)
  then show ?case by (intro pool_inv_dialed) auto
next
  case (dial_failed c x g)
  then have r: "registered_w x = 1" by (simp add: registered_w_def)
  note ok = pool_inv_caller(2) [OF dial_failed(4,1,2) r]
  have "1 \<le> ap_connecting (pc_pools c ! op_pool x)"
    using ok tally_entry_le [of k "pc_ops c" "op_pool x" dialing_w] dial_failed by (simp add: pool_ok_def dialing_w_def)
  with dial_failed r ok show ?case
    by (intro pool_inv_plain [OF _ _ _ _ _ _ _ refl]) (auto simp: weight_defs pool_ok_def pool_total_def finish_dial_def Let_def)
next
  case (released c x n stale p)
  then show ?case by (intro pool_inv_released) auto
next
  case (reserved c x p)
  then have r: "registered_w x = 1" by (simp add: registered_w_def)
  from reserved r dedicated_turn_cases [OF reserved(5)] pool_inv_caller(2) [OF reserved(6,1,2) r] show ?case
    by (intro pool_inv_plain [OF _ _ _ _ _ _ _ refl]) (auto simp: weight_defs pool_ok_def pool_total_def)
next
  case (evict_idle c x n p)
  then show ?case by (intro pool_inv_evict_idle) auto
next
  case (unreserved c x p)
  then have r: "registered_w x = 1" by (simp add: registered_w_def)
  note ok = pool_inv_caller(2) [OF unreserved(5,1,2) r]
  have "1 \<le> ap_dedicated p"
    using ok tally_entry_le [of k "pc_ops c" "op_pool x" reserved_w] unreserved by (simp add: pool_ok_def reserved_w_def)
  with unreserved r ok show ?case
    by (intro pool_inv_plain [OF _ _ _ _ _ _ _ refl]) (auto simp: weight_defs pool_ok_def pool_total_def)
next
  case (ungate c x)
  then have r: "registered_w x = 1" by (simp add: registered_w_def)
  note ok = pool_inv_caller(2) [OF ungate(4,1,2) r]
  have "op_weight x \<le> ap_gate (pc_pools c ! op_pool x)"
    using ok tally_entry_le [of k "pc_ops c" "op_pool x" gate_w] ungate by (simp add: pool_ok_def gate_w_def)
  with ungate ok r show ?case
    by (intro pool_inv_plain [OF _ _ _ _ _ _ _ refl]) (auto simp: weight_defs pool_ok_def pool_total_def release_gate_def)
next
  case (unregister c x b)
  then show ?case by (intro pool_inv_unregister) auto
next
  case (unlock c x)
  have t: "tally i f ((pc_ops c)[k := x\<lparr>op_phase := Finished\<rparr>]) = tally i f (pc_ops c)"
    if "f x = 0" "f (x\<lparr>op_phase := Finished\<rparr>) = 0" for i f
    using unlock that by (intro tally_other) auto
  have "pool_ok L N ((pc_ops c)[k := x\<lparr>op_phase := Finished\<rparr>]) i p \<longleftrightarrow> pool_ok L N (pc_ops c) i p" for L N i p
    using unlock(3) by (simp add: pool_ok_def t weight_defs)
  moreover have "list_all (op_ok (pc_limit c) (length (pc_pools c))) ((pc_ops c)[k := x\<lparr>op_phase := Finished\<rparr>])"
  proof -
    have "op_ok (pc_limit c) (length (pc_pools c)) x" if "x \<in> set (pc_ops c)" for x
      using unlock(4) that by (simp add: pool_inv_def list_all_iff)
    moreover from this [of x] unlock(1,2) have "op_ok (pc_limit c) (length (pc_pools c)) (x\<lparr>op_phase := Finished\<rparr>)"
      by (simp add: op_ok_def registered_w_def)
    ultimately show ?thesis
      unfolding list_all_iff by (metis (no_types) insert_iff set_update_subset_insert subset_iff)
  qed
  ultimately show ?case using unlock(4) by (simp add: pool_inv_def set_op_def split: option.splits)
qed

lemma close_client_fields [simp]:
  "pc_lifecycle (snd (close_client c)) = next_generation (pc_lifecycle c)" "pc_current (snd (close_client c)) = None"
  "pc_closes (snd (close_client c)) = pc_closes c + 1" "pc_ops (snd (close_client c)) = pc_ops c"
  "pc_limit (snd (close_client c)) = pc_limit c"
  by (simp_all add: close_client_def Let_def set_pool_def split: option.split)

lemma pool_inv_close:
  assumes "pool_inv c"
  shows "pool_inv (snd (close_client c))"
proof (cases "pc_current c")
  case None
  with assms show ?thesis by (simp add: close_client_def pool_inv_def)
next
  case (Some i)
  have "sessions_ok N b cl ss \<Longrightarrow> sessions_ok N b cl (map (\<lambda>s. s\<lparr>ps_connection := Shut\<rparr>) ss)" for N b cl ss
    by (auto simp: sessions_ok_def in_use_id_def comp_def)
  then have "pool_ok L N xs j p \<Longrightarrow> pool_ok L N xs j (shut_sessions p)" for L N xs j p
    by (simp add: pool_ok_def shut_sessions_def pool_total_def)
  with assms Some show ?thesis
    by (auto simp: close_client_def Let_def pool_inv_def set_pool_def nth_list_update)
qed

lemma env_step_inv:
  assumes "env_step c c'" "pool_inv c"
  shows "pool_inv c'"
  using assms
proof (induction rule: env_step.induct)
  case (call c cls dedicated)
  then show ?case
    by (auto simp: start_operation_def pool_inv_def pool_ok_def op_ok_def weight_defs split: option.splits)
next
  case (cancel k c x)
  then show ?case by (auto intro: pool_inv_canceled)
next
  case (lock_failed k c x)
  then show ?case by (intro phase_only_step) (auto simp: weight_defs)
next
  case (watcher k c x n)
  then show ?case by (intro pool_inv_damage) auto
next
  case (fault k c x n)
  then show ?case by (intro pool_inv_damage) auto
next
  case (invalidate c)
  then show ?case by (rule pool_inv_invalidate)
next
  case (close c)
  then show ?case by (intro pool_inv_close)
qed

section \<open>Generations\<close>

text \<open>
  An admitted operation works on the current pool: a close in between would have changed the lifecycle
  generation. The generation is a 64-bit counter, so this holds until it has wrapped around.
\<close>

definition gen_inv :: "pool_client \<Rightarrow> bool" where
  "gen_inv c \<longleftrightarrow> pc_closes c < 2 ^ 64 \<longrightarrow> pc_lifecycle c = of_nat (pc_closes c)
     \<and> (\<forall>x \<in> set (pc_ops c). (op_generation x \<le> pc_lifecycle c)
          \<and> (registered_w x = 1 \<and> op_generation x = pc_lifecycle c \<longrightarrow> pc_current c = Some (op_pool x))
          \<and> (holds_lifecycle x \<longrightarrow> op_generation x = pc_lifecycle c))"

lemma gen_inv_local:
  assumes "gen_inv c" "k < length (pc_ops c)" "x = pc_ops c ! k"
    and "op_generation y = op_generation x" "op_pool y = op_pool x" "registered_w y = 1 \<longrightarrow> registered_w x = 1"
    and "holds_lifecycle y \<longrightarrow> holds_lifecycle x \<or> op_generation x = pc_lifecycle c"
    and "pc_lifecycle c' = pc_lifecycle c" "pc_closes c' = pc_closes c" "pc_current c' = pc_current c"
      "pc_ops c' = (pc_ops c)[k := y]"
  shows "gen_inv c'"
proof -
  have "z \<in> set (pc_ops c) \<or> z = y" if "z \<in> set ((pc_ops c)[k := y])" for z
    using that set_update_subset_insert by fastforce
  moreover have "x \<in> set (pc_ops c)" using assms(2,3) by simp
  ultimately show ?thesis using assms(1,4-) unfolding gen_inv_def by metis
qed

lemma gen_inv_remove_empty:
  assumes "gen_inv c" "pool_inv c"
  shows "gen_inv (remove_empty_pool i c)"
proof (cases "pool_is_empty (pc_pools c ! i) \<and> pc_current c = Some i")
  case True
  then have i: "i < length (pc_pools c)" using assms(2) by (simp add: pool_inv_def)
  have zero: "tally i registered_w (pc_ops c) = 0"
    using pool_inv_pool_ok [OF assms(2) i] True by (simp add: pool_ok_def pool_is_empty_def)
  have none: "registered_w x = 1 \<Longrightarrow> op_pool x \<noteq> i" if "x \<in> set (pc_ops c)" for x
  proof -
    from that obtain k where "k < length (pc_ops c)" "x = pc_ops c ! k" by (auto simp: in_set_conv_nth)
    with zero tally_entry_le [of k "pc_ops c" i registered_w]
    show "registered_w x = 1 \<Longrightarrow> op_pool x \<noteq> i" by auto
  qed
  from True have "remove_empty_pool i c = c\<lparr>pc_current := None\<rparr>" by (simp add: remove_empty_pool_def)
  with assms(1) True none show ?thesis unfolding gen_inv_def by simp metis
next
  case False
  then have "remove_empty_pool i c = c" by (auto simp: remove_empty_pool_def)
  then show ?thesis using assms(1) by simp
qed

lemmas move_defs = set_op_def set_pool_def holds_lifecycle_def registered_w_def

lemma op_step_gen_inv:
  assumes "op_step k c c'" "pool_inv c" "gen_inv c"
  shows "gen_inv c'"
  using assms
proof (induction rule: op_step.induct)
  case (register c)
  obtain i d where d: "pool_locked c = (i, d)" by fastforce
  have cur: "pc_current d = Some i" "pc_lifecycle d = pc_lifecycle c" "pc_closes d = pc_closes c" "pc_ops d = pc_ops c"
    and keep: "pc_current c = Some j \<longrightarrow> pc_current d = Some j" for j
    using d by (auto simp: pool_locked_def split: option.splits)
  let ?y = "(pc_ops c ! k)\<lparr>op_pool := i, op_phase := Registered\<rparr>"
  have sub: "z \<in> set (pc_ops c) \<or> z = ?y" if "z \<in> set ((pc_ops c)[k := ?y])" for z
    using that set_update_subset_insert by fastforce
  have mem: "pc_ops c ! k \<in> set (pc_ops c)" using register(1) by simp
  show ?case
    unfolding gen_inv_def
  proof (intro impI conjI ballI)
    assume "pc_closes (register_operation k c) < 2 ^ 64"
    then have lt: "pc_closes c < 2 ^ 64" by (simp add: register_operation_def d Let_def set_op_def set_pool_def cur)
    note inv = register(4) [unfolded gen_inv_def, rule_format, OF lt]
    have eqs: "pc_lifecycle (register_operation k c) = pc_lifecycle c" "pc_closes (register_operation k c) = pc_closes c"
      "pc_current (register_operation k c) = Some i" "pc_ops (register_operation k c) = (pc_ops c)[k := ?y]"
      by (simp_all add: register_operation_def d Let_def set_op_def set_pool_def cur)
    show "pc_lifecycle (register_operation k c) = of_nat (pc_closes (register_operation k c))" using inv eqs by simp
    fix z assume "z \<in> set (pc_ops (register_operation k c))"
    then have z: "z \<in> set (pc_ops c) \<or> z = ?y" using sub eqs by metis
    have y: "op_generation ?y = op_generation (pc_ops c ! k)" "op_pool ?y = i" "\<not> holds_lifecycle ?y"
      by (simp_all add: holds_lifecycle_def)
    show "op_generation z \<le> pc_lifecycle (register_operation k c)" using z inv mem y eqs by metis
    show "pc_current (register_operation k c) = Some (op_pool z)"
      if "registered_w z = 1 \<and> op_generation z = pc_lifecycle (register_operation k c)"
      using z that inv keep cur y eqs by metis
    show "op_generation z = pc_lifecycle (register_operation k c)" if "holds_lifecycle z"
      using z that inv y eqs by metis
  qed
next
  case (unregister c x b)
  let ?y = "x\<lparr>op_phase := (if b then Unlocking else Finished)\<rparr>" and ?p = "pc_pools c ! op_pool x"
  let ?c = "set_op k ?y (set_pool (op_pool x) (?p\<lparr>ap_operations := ap_operations ?p - 1\<rparr>) c)"
  have "gen_inv ?c"
    by (rule gen_inv_local [OF unregister(5,1,2), of ?y]) (use unregister(3) in \<open>auto simp: move_defs\<close>)
  moreover have "pool_inv ?c"
    using pool_inv_uncount unregister by blast
  ultimately show ?case
    unfolding finish_operation_def Let_def set_op_remove_empty by (rule gen_inv_remove_empty)
next
  case (admit c x)
  show ?case
    by (rule gen_inv_local [OF admit(6,1,2), of "x\<lparr>op_phase := Owning\<rparr>"])
      (use admit(3,4) in \<open>auto simp: move_defs operation_admitted_def\<close>)
next
  case (evicted c x ss p)
  show ?case
    by (rule gen_inv_local [OF evicted(7,1,2), of x]) (use evicted(2) in \<open>auto simp: move_defs\<close>)
next
  case (evict_idle c x n p)
  show ?case
    by (rule gen_inv_local [OF evict_idle(7,1,2), of x]) (use evict_idle(2) in \<open>auto simp: move_defs\<close>)
next
  case (gate_failed c x)
  show ?case
    by (rule gen_inv_local [OF \<open>gen_inv c\<close> gate_failed(1,2), of "x\<lparr>op_phase := Ungated False\<rparr>"]) (use gate_failed(3) in \<open>auto simp: move_defs\<close>)
next
  case (gate c x p)
  show ?case
    by (rule gen_inv_local [OF \<open>gen_inv c\<close> gate(1,2), of "x\<lparr>op_phase := Gated\<rparr>"]) (use gate(3) in \<open>auto simp: move_defs\<close>)
next
  case (refuse c x)
  show ?case
    by (rule gen_inv_local [OF \<open>gen_inv c\<close> refuse(1,2), of "x\<lparr>op_phase := Ungated False\<rparr>"]) (use refuse(3) in \<open>auto simp: move_defs\<close>)
next
  case (owner_canceled c x)
  show ?case
    by (rule gen_inv_local [OF \<open>gen_inv c\<close> owner_canceled(1,2), of "x\<lparr>op_phase := Releasing\<rparr>"]) (use owner_canceled(3) in \<open>auto simp: move_defs\<close>)
next
  case (reuse c x n p)
  show ?case
    by (rule gen_inv_local [OF \<open>gen_inv c\<close> reuse(1,2), of "x\<lparr>op_phase := Borrowed n\<rparr>"]) (use reuse(3) in \<open>auto simp: move_defs\<close>)
next
  case (dial c x p)
  show ?case
    by (rule gen_inv_local [OF \<open>gen_inv c\<close> dial(1,2), of "x\<lparr>op_phase := Dialing (pc_credential c)\<rparr>"]) (use dial(3) in \<open>auto simp: move_defs\<close>)
next
  case (dialed c x g)
  show ?case
    by (rule gen_inv_local [OF \<open>gen_inv c\<close> dialed(1,2), of "x\<lparr>op_phase := Borrowed (pc_next_id c)\<rparr>"]) (use dialed(3) in \<open>auto simp: move_defs\<close>)
next
  case (dial_failed c x g)
  show ?case
    by (rule gen_inv_local [OF \<open>gen_inv c\<close> dial_failed(1,2), of "x\<lparr>op_phase := Releasing\<rparr>"]) (use dial_failed(3) in \<open>auto simp: move_defs\<close>)
next
  case (released c x n stale p)
  show ?case
    by (rule gen_inv_local [OF \<open>gen_inv c\<close> released(1,2), of "x\<lparr>op_phase := Releasing\<rparr>"]) (use released(3) in \<open>auto simp: move_defs\<close>)
next
  case (reserved c x p)
  show ?case
    by (rule gen_inv_local [OF \<open>gen_inv c\<close> reserved(1,2), of "x\<lparr>op_phase := Reserved\<rparr>"]) (use reserved(3) in \<open>auto simp: move_defs\<close>)
next
  case (unreserved c x p)
  show ?case
    by (rule gen_inv_local [OF \<open>gen_inv c\<close> unreserved(1,2), of "x\<lparr>op_phase := Releasing\<rparr>"]) (use unreserved(3) in \<open>auto simp: move_defs\<close>)
next
  case (ungate c x)
  show ?case
    by (rule gen_inv_local [OF \<open>gen_inv c\<close> ungate(1,2), of "x\<lparr>op_phase := Ungated True\<rparr>"]) (use ungate(3) in \<open>auto simp: move_defs\<close>)
next
  case (unlock c x)
  show ?case
    by (rule gen_inv_local [OF \<open>gen_inv c\<close> unlock(1,2), of "x\<lparr>op_phase := Finished\<rparr>"]) (use unlock(3) in \<open>auto simp: move_defs\<close>)
qed

lemma next_generation_of_nat:
  assumes "n + 1 < 2 ^ 64"
  shows "next_generation (of_nat n) = of_nat (n + 1)" "(of_nat n :: 64 word) < of_nat (n + 1)"
proof -
  have u: "unat (of_nat (n + 1) :: 64 word) = n + 1" "unat (of_nat n :: 64 word) = n"
    using assms by (simp_all only: unat_of_nat) (simp_all add: take_bit_nat_eq_self)
  then have "(of_nat (n + 1) :: 64 word) \<noteq> 0" by (metis add_is_0 one_neq_zero unat_0)
  then show "next_generation (of_nat n) = of_nat (n + 1)" by (simp add: next_generation_def add.commute)
  show "(of_nat n :: 64 word) < of_nat (n + 1)" unfolding word_less_nat_alt u by simp
qed

lemma gen_inv_cong:
  "gen_inv c \<Longrightarrow> pc_closes c' = pc_closes c \<Longrightarrow> pc_lifecycle c' = pc_lifecycle c \<Longrightarrow> pc_ops c' = pc_ops c
     \<Longrightarrow> pc_current c' = pc_current c \<Longrightarrow> gen_inv c'"
  unfolding gen_inv_def by metis

lemma env_step_gen_inv:
  assumes "env_step c c'" "pool_inv c" "gen_inv c"
  shows "gen_inv c'"
  using assms
proof (induction rule: env_step.induct)
  case (call c cls dedicated)
  then show ?case
    by (auto simp: gen_inv_def start_operation_def registered_w_def holds_lifecycle_def)
next
  case (cancel k c x)
  show ?case
    by (rule gen_inv_local [OF cancel(4,1,2), of "x\<lparr>op_canceled := True\<rparr>"]) (auto simp: move_defs)
next
  case (lock_failed k c x)
  show ?case
    by (rule gen_inv_local [OF lock_failed(6,1,2), of "x\<lparr>op_phase := Ungated False\<rparr>"])
      (use lock_failed(3) in \<open>auto simp: move_defs\<close>)
next
  case (watcher k c x n)
  then show ?case by (elim gen_inv_cong) (simp_all add: set_pool_def)
next
  case (fault k c x n)
  then show ?case by (elim gen_inv_cong) (simp_all add: set_pool_def)
next
  case (invalidate c)
  show ?case
  proof (cases "pc_current c")
    case None
    then show ?thesis
      by (intro gen_inv_cong [OF invalidate(2)]) (simp_all add: invalidate_credentials_def Let_def)
  next
    case (Some i)
    let ?c = "set_pool i (invalidate_sessions (pc_pools c ! i)) (c\<lparr>pc_credential := next_generation (pc_credential c)\<rparr>)"
    have "gen_inv ?c" by (rule gen_inv_cong [OF invalidate(2)]) (simp_all add: set_pool_def)
    moreover have "pool_inv ?c" using pool_inv_invalidate_sessions [OF invalidate(1) Some] .
    ultimately show ?thesis
      using Some gen_inv_remove_empty by (simp add: invalidate_credentials_def Let_def)
  qed
next
  case (close c)
  show ?case
    unfolding gen_inv_def
  proof (intro impI)
    assume "pc_closes (snd (close_client c)) < 2 ^ 64"
    then have lt: "pc_closes c + 1 < 2 ^ 64" by simp
    then have inv: "pc_lifecycle c = of_nat (pc_closes c)" "\<And>x. x \<in> set (pc_ops c) \<Longrightarrow> op_generation x \<le> pc_lifecycle c"
      using close(3) unfolding gen_inv_def by auto
    have "pc_lifecycle c < of_nat (pc_closes c + 1)" "next_generation (pc_lifecycle c) = of_nat (pc_closes c + 1)"
      using next_generation_of_nat [OF lt] inv by simp_all
    then have less: "op_generation x < next_generation (pc_lifecycle c)" if "x \<in> set (pc_ops c)" for x
      using inv(2) [OF that] by (metis le_less_trans)
    then show "pc_lifecycle (snd (close_client c)) = of_nat (pc_closes (snd (close_client c))) \<and>
      (\<forall>x \<in> set (pc_ops (snd (close_client c))). op_generation x \<le> pc_lifecycle (snd (close_client c))
        \<and> (registered_w x = 1 \<and> op_generation x = pc_lifecycle (snd (close_client c)) \<longrightarrow> pc_current (snd (close_client c)) = Some (op_pool x))
        \<and> (holds_lifecycle x \<longrightarrow> op_generation x = pc_lifecycle (snd (close_client c))))"
      using close(1) \<open>next_generation (pc_lifecycle c) = of_nat (pc_closes c + 1)\<close>
      by (auto simp: list_all_iff less_imp_le dest: less_imp_neq)
  qed
qed

section \<open>Shut sessions\<close>

text \<open>The sessions \<open>Close\<close> shut are in pools it detached: the current pool has none.\<close>

definition shut_free :: "account_pool \<Rightarrow> bool" where
  "shut_free p \<longleftrightarrow> (\<forall>s \<in> set (ap_sessions p). ps_connection s \<noteq> Shut)"

definition current_open :: "pool_client \<Rightarrow> bool" where
  "current_open c \<longleftrightarrow> (\<forall>i. pc_current c = Some i \<longrightarrow> shut_free (pc_pools c ! i))"

lemma shut_free_same: "ap_sessions q = ap_sessions p \<Longrightarrow> shut_free p \<Longrightarrow> shut_free q"
  by (simp add: shut_free_def)

lemma current_open_set_pool:
  assumes "current_open c" "shut_free (pc_pools c ! i) \<Longrightarrow> shut_free p"
  shows "current_open (set_pool i p c)"
  using assms
  by (cases "i < length (pc_pools c)")
    (auto simp: current_open_def set_pool_def nth_list_update list_update_beyond)

lemma current_open_set_op [simp]: "current_open (set_op k x c) = current_open c"
  by (simp add: current_open_def set_op_def)

lemma current_open_remove_empty: "current_open c \<Longrightarrow> current_open (remove_empty_pool i c)"
  by (simp add: remove_empty_pool_def current_open_def)

lemma shut_free_set_in_use: "shut_free p \<Longrightarrow> shut_free (set_in_use n b p)"
  by (auto simp: shut_free_def set_in_use_def)

lemma borrow_turn_shut: "borrow_turn limit g p = (r, q) \<Longrightarrow> shut_free p \<Longrightarrow> shut_free q"
  by (auto simp: borrow_turn_def evict_stale_def shut_free_def set_in_use_def Let_def split: if_splits option.splits)

lemma remove_pooled_subset: "set (remove_pooled n ss) \<subseteq> set ss"
  by (induction ss) auto

lemma shut_free_remove: "shut_free p \<Longrightarrow> shut_free (p\<lparr>ap_sessions := remove_pooled n (ap_sessions p)\<rparr>)"
  using remove_pooled_subset [of n "ap_sessions p"] by (auto simp: shut_free_def)

lemma dedicated_turn_shut: "dedicated_turn limit p = (r, q) \<Longrightarrow> shut_free p \<Longrightarrow> shut_free q"
  by (auto simp: dedicated_turn_def Let_def shut_free_remove split: if_splits option.splits)
    (simp add: shut_free_def)

lemma release_pooled_shut: "release_pooled canceled g n p = (stale, q) \<Longrightarrow> shut_free p \<Longrightarrow> shut_free q"
  by (auto simp: release_pooled_def Let_def shut_free_set_in_use shut_free_remove split: if_splits)

lemma damage_shut: "shut_free p \<Longrightarrow> shut_free (damage_session n w p)"
  by (auto simp: damage_session_def shut_free_def)

lemma finish_dial_shut: "shut_free p \<Longrightarrow> shut_free (finish_dial g r p)"
  by (auto simp: finish_dial_def shut_free_def Let_def split: option.splits)

lemma gate_acquire_sessions: "gate_acquire limit p w = Some q \<Longrightarrow> ap_sessions q = ap_sessions p"
  by (auto simp: gate_acquire_def split: if_splits)

lemma op_step_open:
  assumes "op_step k c c'" "current_open c"
  shows "current_open c'"
  using assms
proof (induction rule: op_step.induct)
  case (register c)
  obtain i d where d: "pool_locked c = (i, d)" by fastforce
  have "current_open d"
    using d register(3) by (auto simp: pool_locked_def current_open_def shut_free_def empty_pool_def split: option.splits)
  then have "current_open (set_pool i ((pc_pools d ! i)\<lparr>ap_operations := ap_operations (pc_pools d ! i) + 1\<rparr>) d)"
    by (rule current_open_set_pool) (simp add: shut_free_def)
  then show ?case by (simp add: register_operation_def d Let_def)
next
  case (unregister c x b)
  then show ?case
    unfolding finish_operation_def Let_def set_op_remove_empty
    by (intro current_open_remove_empty) (auto intro!: current_open_set_pool elim: shut_free_same [rotated])
next
  case (dialed c x g)
  then have "current_open (c\<lparr>pc_next_id := pc_next_id c + 1\<rparr>)" by (simp add: current_open_def)
  then show ?case
    using current_open_set_pool [of "c\<lparr>pc_next_id := pc_next_id c + 1\<rparr>"] finish_dial_shut by simp
next
  case (gate c x p)
  then show ?case using gate_acquire_sessions shut_free_same by (simp add: current_open_set_pool)
next
  case (refuse c x)
  then show ?case by (auto simp: release_gate_def intro!: current_open_set_pool elim: shut_free_same [rotated])
next
  case (ungate c x)
  then show ?case by (auto simp: release_gate_def intro!: current_open_set_pool elim: shut_free_same [rotated])
next
  case (unreserved c x p)
  then show ?case by (auto intro!: current_open_set_pool elim: shut_free_same [rotated])
qed (simp_all add: current_open_set_pool borrow_turn_shut dedicated_turn_shut release_pooled_shut finish_dial_shut)

lemma env_step_open:
  assumes "env_step c c'" "current_open c"
  shows "current_open c'"
  using assms
proof (induction rule: env_step.induct)
  case (call c cls dedicated)
  then show ?case by (simp add: current_open_def start_operation_def)
next
  case (invalidate c)
  let ?c = "c\<lparr>pc_credential := next_generation (pc_credential c)\<rparr>"
  have "current_open ?c" using invalidate by (simp add: current_open_def)
  moreover have "shut_free (pc_pools c ! i) \<Longrightarrow> shut_free (invalidate_sessions (pc_pools c ! i))" for i
    by (auto simp: shut_free_def invalidate_sessions_def)
  ultimately have "current_open (set_pool i (invalidate_sessions (pc_pools c ! i)) ?c)" for i
    using current_open_set_pool [of ?c i] by simp
  with \<open>current_open ?c\<close> show ?case
    by (simp add: invalidate_credentials_def Let_def current_open_remove_empty split: option.split)
next
  case (close c)
  then show ?case by (simp add: current_open_def)
qed (simp_all add: current_open_set_pool damage_shut)

definition client_inv :: "nat \<Rightarrow> pool_client \<Rightarrow> bool" where
  "client_inv limit c \<longleftrightarrow> pc_limit c = limit \<and> pool_inv c \<and> gen_inv c \<and> current_open c"

lemma op_step_limit: "op_step k c c' \<Longrightarrow> pc_limit c' = pc_limit c"
  by (induction rule: op_step.induct)
    (auto simp: set_op_def set_pool_def register_operation_def pool_locked_def Let_def finish_operation_def
      remove_empty_pool_def split: option.splits)

lemma env_step_limit: "env_step c c' \<Longrightarrow> pc_limit c' = pc_limit c"
  by (induction rule: env_step.induct)
    (auto simp: set_op_def set_pool_def start_operation_def invalidate_credentials_def Let_def
      remove_empty_pool_def split: option.splits)

interpretation pool_client_invariant: preserved_invariant "pool_init limit" pool_step "client_inv limit" for limit
proof
  show "client_inv limit c" if "pool_init limit c" for c
    using that by (simp add: pool_init_def client_inv_def pool_inv_def gen_inv_def current_open_def)
  show "client_inv limit c'" if "client_inv limit c" "pool_step c c'" for c c'
    using that op_step_inv op_step_gen_inv op_step_limit op_step_open env_step_inv env_step_gen_inv env_step_limit
      env_step_open
    unfolding client_inv_def pool_step_def by metis
qed

abbreviation pool_reachable :: "nat \<Rightarrow> pool_client \<Rightarrow> bool" where
  "pool_reachable limit \<equiv> reachable (pool_init limit) pool_step"

section \<open>Properties\<close>

lemma reachable_inv:
  assumes "pool_reachable limit c"
  shows "pc_limit c = limit" "pool_inv c" "gen_inv c" "current_open c"
  using pool_client_invariant.holds [OF assms] by (simp_all add: client_inv_def)

lemma reachable_pool_ok:
  "pool_reachable limit c \<Longrightarrow> i < length (pc_pools c) \<Longrightarrow>
     pool_ok (connection_limit limit) (pc_next_id c) (pc_ops c) i (pc_pools c ! i)"
  using reachable_inv [of limit c] pool_inv_pool_ok by metis

definition owns :: "operation \<Rightarrow> bool" where
  "owns x \<longleftrightarrow> (case op_phase x of
     Owning \<Rightarrow> True | Dialing _ \<Rightarrow> True | Borrowed _ \<Rightarrow> True | Reserved \<Rightarrow> True | Releasing \<Rightarrow> True | _ \<Rightarrow> False)"

lemma owns_simps: "owns x \<Longrightarrow> registered_w x = 1" "owns x \<Longrightarrow> holds_lifecycle x" "owns x \<Longrightarrow> gate_w x = op_weight x"
  by (simp_all add: owns_def weight_defs holds_lifecycle_def split: phase.splits)

text \<open>A sample run: one mutation borrows a session it dialed.\<close>

definition sample_client :: pool_client where
  "sample_client = \<lparr>pc_limit = 2, pc_pools = [\<lparr>ap_sessions = [\<lparr>ps_id = 0, ps_generation = 0, ps_in_use = True,
      ps_invalidated = False, ps_dirty = False, ps_connection = Established\<rparr>], ap_connecting = 0, ap_dedicated = 0,
      ap_operations = 1, ap_gate = 2\<rparr>], pc_current = Some 0, pc_credential = 0, pc_lifecycle = 0,
      pc_ops = [\<lparr>op_class = Mutation, op_dedicated = False, op_generation = 0, op_pool = 0, op_weight = 2,
        op_canceled = False, op_phase = Borrowed 0\<rparr>], pc_next_id = 1, pc_closes = 0\<rparr>"

definition sample_call :: "phase \<Rightarrow> account_pool list \<Rightarrow> nat option \<Rightarrow> nat \<Rightarrow> pool_client" where
  "sample_call ph pools cur n = \<lparr>pc_limit = 2, pc_pools = pools, pc_current = cur, pc_credential = 0, pc_lifecycle = 0,
      pc_ops = [\<lparr>op_class = Mutation, op_dedicated = False, op_generation = 0, op_pool = 0, op_weight = 2,
        op_canceled = False, op_phase = ph\<rparr>], pc_next_id = n, pc_closes = 0\<rparr>"

lemma reachable_op: "pool_reachable l c \<Longrightarrow> op_step k c d \<Longrightarrow> d = c' \<Longrightarrow> pool_reachable l c'"
  using reachable.move [of "pool_init l" pool_step c d] by (auto simp: pool_step_def)

lemma sample_client_reachable: "pool_reachable 2 sample_client"
proof -
  let ?r = "pool_reachable 2"
  let ?p = "\<lambda>g n. \<lparr>ap_sessions = [], ap_connecting = n, ap_dedicated = 0, ap_operations = 1, ap_gate = g\<rparr>"
  let ?x = "\<lambda>ph. \<lparr>op_class = Mutation, op_dedicated = False, op_generation = 0, op_pool = 0, op_weight = 2,
        op_canceled = False, op_phase = ph\<rparr>"
  define c0 where "c0 = \<lparr>pc_limit = 2, pc_pools = [], pc_current = None, pc_credential = 0, pc_lifecycle = 0,
    pc_ops = [], pc_next_id = 0, pc_closes = 0\<rparr>"
  note defs = sample_call_def set_op_def set_pool_def
  have "start_operation Mutation False c0 = sample_call Starting [] None 0"
    by (simp add: start_operation_def c0_def sample_call_def operation_weight_def connection_limit_def)
  with env_step.call [of c0 Mutation False] have "pool_step c0 (sample_call Starting [] None 0)"
    by (simp add: pool_step_def)
  moreover have "?r c0" by (rule reachable.start) (simp add: pool_init_def c0_def)
  ultimately have 1: "?r (sample_call Starting [] None 0)" by (rule reachable.move [rotated])
  have 2: "?r (sample_call Registered [?p 0 0] (Some 0) 0)"
    by (rule reachable_op [OF 1 op_step.register [of 0]])
      (simp_all add: defs register_operation_def pool_locked_def empty_pool_def)
  have 3: "?r (sample_call Gated [?p 2 0] (Some 0) 0)"
    by (rule reachable_op [OF 2 op_step.gate [of 0 _ "?x Registered" "?p 2 0"]])
      (simp_all add: defs gate_acquire_def connection_limit_def)
  have 4: "?r (sample_call Owning [?p 2 0] (Some 0) 0)"
    by (rule reachable_op [OF 3 op_step.admit [of 0 _ "?x Gated"]]) (simp_all add: defs operation_admitted_def)
  have 5: "?r (sample_call (Dialing 0) [?p 2 1] (Some 0) 0)"
    by (rule reachable_op [OF 4 op_step.dial [of 0 _ "?x Owning" "?p 2 1"]])
      (simp_all add: defs borrow_turn_def evict_stale_def pool_total_def connection_limit_def)
  show ?thesis
    by (rule reachable_op [OF 5 op_step.dialed [of 0 _ "?x (Dialing 0)" 0]])
      (simp_all add: defs finish_dial_def sample_client_def)
qed

text \<open>
  C24. The connection budget of an account holds at every moment: pooled sessions, dials in progress
  and dedicated connections together never exceed the configured limit, and the semaphore that admits
  operations is never over-committed.
\<close>

theorem connection_limit_holds:
  assumes "pool_reachable limit c" "i < length (pc_pools c)"
  shows "pool_total (pc_pools c ! i) \<le> connection_limit limit \<and> ap_gate (pc_pools c ! i) \<le> connection_limit limit"
  using reachable_pool_ok [OF assms] by (simp_all add: pool_ok_def)

lemma connection_limit_holds_witness:
  "pool_total (pc_pools sample_client ! 0) \<le> connection_limit 2 \<and> ap_gate (pc_pools sample_client ! 0) \<le> connection_limit 2"
  using connection_limit_holds [OF sample_client_reachable, of 0] by (simp add: sample_client_def)

text \<open>
  C23. A session has one borrower: two operations never hold the same session of a pool, and a
  held session stays in its pool, marked in use, until its borrower returns it.
\<close>

theorem session_exclusive:
  assumes "pool_reachable limit c" "j < length (pc_ops c)" "op_phase (pc_ops c ! j) = Borrowed n"
  shows "(\<exists>s \<in> set (ap_sessions (pc_pools c ! op_pool (pc_ops c ! j))). ps_id s = n \<and> ps_in_use s)
    \<and> {k. k < length (pc_ops c) \<and> op_phase (pc_ops c ! k) = Borrowed n \<and> op_pool (pc_ops c ! k) = op_pool (pc_ops c ! j)} = {j}"
proof -
  let ?x = "pc_ops c ! j" and ?i = "op_pool (pc_ops c ! j)"
  have r: "registered_w ?x = 1" using assms(3) by (simp add: registered_w_def)
  have "sessions_ok (pc_next_id c) (\<lambda>n. tally ?i (borrowed_w n) (pc_ops c)) (\<lambda>n. tally ?i (canceled_w n) (pc_ops c))
      (ap_sessions (pc_pools c ! ?i))"
    using pool_inv_caller(2) [OF reachable_inv(2) [OF assms(1)] assms(2) refl r] by (simp add: pool_ok_def)
  then have t: "tally ?i (borrowed_w n) (pc_ops c) = (if in_use_id (ap_sessions (pc_pools c ! ?i)) n then 1 else 0)"
    by (simp add: sessions_ok_def)
  have w: "borrowed_w n ?x = 1" using assms(3) by (simp add: borrowed_w_def)
  then have "in_use_id (ap_sessions (pc_pools c ! ?i)) n"
    using tally_entry_le [of j "pc_ops c" ?i "borrowed_w n"] assms(2) t by (auto split: if_splits)
  moreover have "k = j" if k: "k < length (pc_ops c)" "op_phase (pc_ops c ! k) = Borrowed n" "op_pool (pc_ops c ! k) = ?i" for k
  proof (rule ccontr)
    assume "k \<noteq> j"
    with tally_two_le [of k "pc_ops c" j ?i "borrowed_w n"] k assms(2) w t show False
      by (auto simp: borrowed_w_def split: if_splits)
  qed
  ultimately show ?thesis using assms(2,3) by (auto simp: in_use_id_def)
qed

lemma session_exclusive_witness:
  "(\<exists>s \<in> set (ap_sessions (pc_pools sample_client ! op_pool (pc_ops sample_client ! 0))). ps_id s = 0 \<and> ps_in_use s)
    \<and> {k. k < length (pc_ops sample_client) \<and> op_phase (pc_ops sample_client ! k) = Borrowed 0
        \<and> op_pool (pc_ops sample_client ! k) = op_pool (pc_ops sample_client ! 0)} = {0}"
  by (rule session_exclusive [OF sample_client_reachable]) (simp_all add: sample_client_def)

lemma owner_current_pool:
  assumes "pool_reachable limit c" "pc_closes c < 2 ^ 64" "x \<in> set (pc_ops c)" "owns x"
  shows "pc_current c = Some (op_pool x)"
  using reachable_inv(3) [OF assms(1)] assms(2-4) owns_simps [OF assms(4)] unfolding gen_inv_def by blast

lemma idle_not_cut:
  assumes "pool_reachable limit c" "i < length (pc_pools c)"
    and s: "s \<in> set (ap_sessions (pc_pools c ! i))" "\<not> ps_in_use s"
  shows "\<not> ps_dirty s \<and> ps_connection s \<noteq> Cut"
proof -
  have ok: "sessions_ok (pc_next_id c) (\<lambda>n. tally i (borrowed_w n) (pc_ops c)) (\<lambda>n. tally i (canceled_w n) (pc_ops c))
      (ap_sessions (pc_pools c ! i))"
    using reachable_pool_ok [OF assms(1,2)] by (simp add: pool_ok_def)
  have "ps_connection s \<noteq> Cut"
  proof
    assume "ps_connection s = Cut"
    with ok s have "0 < tally i (canceled_w (ps_id s)) (pc_ops c)" by (auto simp: sessions_ok_def)
    then obtain k where k: "k < length (pc_ops c)" "op_pool (pc_ops c ! k) = i" "0 < canceled_w (ps_id s) (pc_ops c ! k)"
      using tally_positive [of i "canceled_w (ps_id s)" "pc_ops c"] by auto
    then have "borrowed_w (ps_id s) (pc_ops c ! k) = 1" by (simp add: canceled_w_def borrowed_w_def split: if_splits)
    with tally_entry_le [of k "pc_ops c" i "borrowed_w (ps_id s)"] k(1,2)
    have "tally i (borrowed_w (ps_id s)) (pc_ops c) \<noteq> 0" by simp
    with ok have "in_use_id (ap_sessions (pc_pools c ! i)) (ps_id s)" unfolding sessions_ok_def by metis
    then obtain s' where "s' \<in> set (ap_sessions (pc_pools c ! i))" "ps_id s' = ps_id s" "ps_in_use s'"
      by (auto simp: in_use_id_def)
    with sessions_ok_unique [OF ok s(1) this(1)] s show False by simp
  qed
  with ok s show ?thesis by (auto simp: sessions_ok_def)
qed

text \<open>
  C25. Only clean sessions are lent: a session \<open>borrowSession\<close> reuses for an operation that owns its
  turn was idle, was opened under the current credentials and not invalidated since, no input or output
  failure has touched it, and its connection is established: neither the watcher of an earlier borrower
  nor a \<open>Close\<close> has closed it, as long as the 64-bit lifecycle generation has not wrapped around.
\<close>

theorem reused_session_clean:
  assumes "pool_reachable limit c" "pc_closes c < 2 ^ 64" "k < length (pc_ops c)" "op_phase (pc_ops c ! k) = Owning"
    and "borrow_turn limit (pc_credential c) (pc_pools c ! op_pool (pc_ops c ! k)) = (Reuse n, p)"
  shows "\<exists>s \<in> set (ap_sessions (pc_pools c ! op_pool (pc_ops c ! k))). ps_id s = n \<and> \<not> ps_in_use s \<and> \<not> ps_invalidated s
    \<and> ps_generation s = pc_credential c \<and> \<not> ps_dirty s \<and> ps_connection s = Established"
proof -
  let ?i = "op_pool (pc_ops c ! k)"
  have cur: "pc_current c = Some ?i"
    by (rule owner_current_pool [OF assms(1,2)]) (use assms(3,4) in \<open>simp_all add: owns_def\<close>)
  then have i: "?i < length (pc_pools c)" using reachable_inv(2) [OF assms(1)] by (simp add: pool_inv_def)
  from borrow_turn_reuse(1) [OF assms(5)] obtain s where s: "s \<in> set (ap_sessions (pc_pools c ! ?i))" "ps_id s = n"
    "\<not> ps_in_use s" "session_fresh (pc_credential c) s" by auto
  have "ps_connection s \<noteq> Shut" using reachable_inv(4) [OF assms(1)] cur s(1) by (simp add: current_open_def shut_free_def)
  moreover have "\<not> ps_dirty s \<and> ps_connection s \<noteq> Cut" by (rule idle_not_cut [OF assms(1) i s(1,3)])
  ultimately show ?thesis using s by (cases "ps_connection s") (auto simp: session_fresh_def)
qed

definition sample_idle :: pool_client where
  "sample_idle = sample_call Releasing [\<lparr>ap_sessions = [\<lparr>ps_id = 0, ps_generation = 0, ps_in_use = False,
      ps_invalidated = False, ps_dirty = False, ps_connection = Established\<rparr>], ap_connecting = 0, ap_dedicated = 0,
      ap_operations = 1, ap_gate = 2\<rparr>] (Some 0) 1"

lemma sample_idle_reachable: "pool_reachable 2 sample_idle"
proof -
  let ?x = "\<lparr>op_class = Mutation, op_dedicated = False, op_generation = 0, op_pool = 0, op_weight = 2,
        op_canceled = False, op_phase = Borrowed 0\<rparr>"
  show ?thesis
    by (rule reachable_op [OF sample_client_reachable op_step.released [of 0 _ ?x 0 False "pc_pools sample_idle ! 0"]])
      (simp_all add: sample_client_def sample_idle_def sample_call_def release_pooled_def find_session_def set_in_use_def
        set_op_def set_pool_def)
qed

text \<open>The mutation has ended, and a second one is as far as \<open>later\<close> says.\<close>

definition sample_pool :: "nat \<Rightarrow> nat \<Rightarrow> account_pool" where
  "sample_pool n g = \<lparr>ap_sessions = [\<lparr>ps_id = 0, ps_generation = 0, ps_in_use = False, ps_invalidated = False,
    ps_dirty = False, ps_connection = Established\<rparr>], ap_connecting = 0, ap_dedicated = 0, ap_operations = n, ap_gate = g\<rparr>"

definition sample_op :: "phase \<Rightarrow> operation" where
  "sample_op ph = \<lparr>op_class = Mutation, op_dedicated = False, op_generation = 0, op_pool = 0, op_weight = 2,
    op_canceled = False, op_phase = ph\<rparr>"

definition sample_later :: "nat \<Rightarrow> nat \<Rightarrow> phase list \<Rightarrow> pool_client" where
  "sample_later n g later = (sample_call Finished [sample_pool n g] (Some 0) 1)\<lparr>
     pc_ops := map sample_op (Finished # later)\<rparr>"

abbreviation sample_finished :: "phase list \<Rightarrow> pool_client" where
  "sample_finished \<equiv> sample_later 0 0"

lemmas sample_defs = sample_later_def sample_call_def sample_pool_def sample_op_def set_op_def set_pool_def

lemma sample_finished_reachable: "pool_reachable 2 (sample_finished [])"
proof -
  have 1: "pool_reachable 2 (sample_call (Ungated True) [sample_pool 1 0] (Some 0) 1)"
    by (rule reachable_op [OF sample_idle_reachable op_step.ungate [of 0 _ "sample_op Releasing"]])
      (simp_all add: sample_defs sample_idle_def release_gate_def)
  have 2: "pool_reachable 2 (sample_call Unlocking [sample_pool 0 0] (Some 0) 1)"
    by (rule reachable_op [OF 1 op_step.unregister [of 0 _ "sample_op (Ungated True)" True]])
      (simp_all add: sample_defs finish_operation_def remove_empty_pool_def pool_is_empty_def)
  show ?thesis
    by (rule reachable_op [OF 2 op_step.unlock [of 0 _ "sample_op Unlocking"]]) (simp_all add: sample_defs)
qed

lemma sample_owner_reachable: "pool_reachable 2 (sample_later 1 2 [Owning])"
proof -
  have "start_operation Mutation False (sample_finished []) = sample_finished [Starting]"
    by (simp add: start_operation_def sample_defs operation_weight_def connection_limit_def)
  with env_step.call [of "sample_finished []" Mutation False]
  have "pool_step (sample_finished []) (sample_finished [Starting])" by (simp add: pool_step_def)
  then have 1: "pool_reachable 2 (sample_finished [Starting])" by (rule reachable.move [OF sample_finished_reachable])
  have 2: "pool_reachable 2 (sample_later 1 0 [Registered])"
    by (rule reachable_op [OF 1 op_step.register [of 1]])
      (simp_all add: sample_defs register_operation_def pool_locked_def)
  have 3: "pool_reachable 2 (sample_later 1 2 [Gated])"
    by (rule reachable_op [OF 2 op_step.gate [of 1 _ "sample_op Registered" "sample_pool 1 2"]])
      (simp_all add: sample_defs gate_acquire_def connection_limit_def)
  show ?thesis
    by (rule reachable_op [OF 3 op_step.admit [of 1 _ "sample_op Gated"]]) (simp_all add: sample_defs operation_admitted_def)
qed

lemma reused_session_clean_witness:
  "\<exists>s \<in> set (ap_sessions (sample_pool 1 2)). ps_id s = 0 \<and> \<not> ps_in_use s \<and> \<not> ps_invalidated s
    \<and> ps_generation s = 0 \<and> \<not> ps_dirty s \<and> ps_connection s = Established"
proof -
  have "borrow_turn 2 0 (sample_pool 1 2) = (Reuse 0, set_in_use 0 True (sample_pool 1 2))"
    by (simp add: sample_pool_def borrow_turn_def evict_stale_def stale_idle_def session_fresh_def)
  then show ?thesis
    using reused_session_clean [OF sample_owner_reachable, of 1 0] by (simp add: sample_later_def sample_call_def sample_op_def)
qed

text \<open>
  C3. Mutations are exclusive: while an operation that changes the account owns its turn, no other
  operation of the account does, reads included, also across closes of the client in between, as long
  as the 64-bit lifecycle generation has not wrapped around.
\<close>

theorem mutation_exclusive:
  assumes "pool_reachable limit c" "pc_closes c < 2 ^ 64"
    and "j < length (pc_ops c)" "owns (pc_ops c ! j)" "op_class (pc_ops c ! j) = Mutation"
    and "k < length (pc_ops c)" "owns (pc_ops c ! k)"
  shows "k = j"
proof (rule ccontr)
  assume ne: "k \<noteq> j"
  let ?x = "pc_ops c ! j" and ?y = "pc_ops c ! k"
  note inv = reachable_inv [OF assms(1)]
  note xr = owns_simps [OF assms(4)] and yr = owns_simps [OF assms(7)]
  note cur = owner_current_pool [OF assms(1,2)]
  have same: "op_pool ?y = op_pool ?x"
    using cur [of ?x] cur [of ?y] assms by (metis nth_mem option.inject)
  note ok = pool_inv_caller [OF inv(2) assms(3) refl xr(1)] and oky = pool_inv_caller(3) [OF inv(2) assms(6) refl yr(1)]
  have "gate_w ?x = connection_limit limit" using ok(3) xr(3) assms(5) inv(1) by (simp add: operation_weight_def)
  moreover have "1 \<le> gate_w ?y"
    using oky yr(3) connection_limit_pos by (simp add: operation_weight_def split: operation_class.splits)
  moreover have "gate_w ?y + gate_w ?x \<le> tally (op_pool ?x) gate_w (pc_ops c)"
    using tally_two_le [OF assms(6,3) ne same refl] .
  moreover have "tally (op_pool ?x) gate_w (pc_ops c) \<le> connection_limit limit"
    using ok(2) inv(1) by (simp add: pool_ok_def)
  ultimately show False by simp
qed

lemma mutation_exclusive_witness:
  "{k. k < length (pc_ops sample_client) \<and> owns (pc_ops sample_client ! k)} = {0}"
proof -
  have 0: "0 < length (pc_ops sample_client)" "owns (pc_ops sample_client ! 0)"
    "op_class (pc_ops sample_client ! 0) = Mutation" "pc_closes sample_client < 2 ^ 64"
    by (simp_all add: sample_client_def owns_def)
  with mutation_exclusive [OF sample_client_reachable 0(4,1,2,3)] show ?thesis by blast
qed

text \<open>
  \<open>Close\<close> takes no session away from a borrower: when it can run, every session it is about to
  log out and close is idle.
\<close>

theorem close_takes_idle_sessions:
  assumes "pool_reachable limit c" "list_all (\<lambda>x. \<not> holds_lifecycle x) (pc_ops c)"
  shows "list_all (\<lambda>s. \<not> ps_in_use s) (fst (close_client c))"
proof (cases "pc_current c")
  case (Some i)
  then have i: "i < length (pc_pools c)" using reachable_inv(2) [OF assms(1)] by (simp add: pool_inv_def)
  have ok: "sessions_ok (pc_next_id c) (\<lambda>n. tally i (borrowed_w n) (pc_ops c)) (\<lambda>n. tally i (canceled_w n) (pc_ops c))
      (ap_sessions (pc_pools c ! i))"
    using reachable_pool_ok [OF assms(1) i] by (simp add: pool_ok_def)
  have "tally i (borrowed_w n) (pc_ops c) = 0" for n
  proof (rule ccontr)
    assume "tally i (borrowed_w n) (pc_ops c) \<noteq> 0"
    then obtain k where k: "k < length (pc_ops c)" "0 < borrowed_w n (pc_ops c ! k)"
      using tally_positive [of i "borrowed_w n" "pc_ops c"] by auto
    then have "op_phase (pc_ops c ! k) = Borrowed n" by (simp add: borrowed_w_def split: if_splits)
    then have "holds_lifecycle (pc_ops c ! k)" by (simp add: holds_lifecycle_def)
    with assms(2) k(1) show False by (simp add: list_all_length)
  qed
  with ok have "\<not> in_use_id (ap_sessions (pc_pools c ! i)) n" for n
    unfolding sessions_ok_def by (metis zero_neq_one)
  with Some show ?thesis by (auto simp: close_client_def Let_def list_all_iff in_use_id_def)
qed (simp add: close_client_def Let_def)

lemma close_takes_idle_sessions_witness:
  "list_all (\<lambda>s. \<not> ps_in_use s) (fst (close_client (sample_finished [])))"
  by (rule close_takes_idle_sessions [OF sample_finished_reachable])
    (simp add: sample_later_def sample_call_def sample_op_def holds_lifecycle_def)

text \<open>Every caller that waits neither for the gate nor for a session has a step.\<close>

lemma unfinished_step:
  assumes k: "k < length (pc_ops c)"
    and "op_phase (pc_ops c ! k) \<notin> {Registered, Owning, Finished}"
  shows "\<exists>c'. op_step k c c'"
proof (cases "op_phase (pc_ops c ! k)")
  case Starting
  then show ?thesis using op_step.register [OF k] by blast
next
  case Gated
  then show ?thesis using op_step.admit [OF k refl] op_step.refuse [OF k refl] by blast
next
  case (Dialing g)
  then show ?thesis using op_step.dialed [OF k refl] by blast
next
  case (Borrowed n)
  then show ?thesis using op_step.released [OF k refl] by (metis surj_pair)
next
  case Reserved
  then show ?thesis using op_step.unreserved [OF k refl] by blast
next
  case Releasing
  then show ?thesis using op_step.ungate [OF k refl] by blast
next
  case (Ungated b)
  then show ?thesis using op_step.unregister [OF k refl] by blast
next
  case Unlocking
  then show ?thesis using op_step.unlock [OF k refl] by blast
qed (use assms in auto)

lemma tally_zero: "(\<And>x. x \<in> set xs \<Longrightarrow> op_pool x = i \<Longrightarrow> f x = 0) \<Longrightarrow> tally i f xs = 0"
  by (auto simp: tally_def)

text \<open>An owner that looks for a session finds one or room for one when nobody else is at work.\<close>

lemma owner_step:
  assumes inv: "pool_inv c" and k: "k < length (pc_ops c)" "x = pc_ops c ! k" "op_phase x = Owning"
    and idle: "\<And>y. y \<in> set (pc_ops c) \<Longrightarrow> op_phase y \<in> {Registered, Owning, Finished}"
  shows "\<exists>c'. op_step k c c'"
proof -
  let ?q = "pc_pools c ! op_pool x" and ?i = "op_pool x"
  have r: "registered_w x = 1" using k(3) by (simp add: registered_w_def)
  note ok = pool_inv_caller(2) [OF inv k(1,2) r]
  have no: "tally ?i dialing_w (pc_ops c) = 0" "tally ?i reserved_w (pc_ops c) = 0" "tally ?i (borrowed_w n) (pc_ops c) = 0" for n
  proof -
    have "dialing_w y = 0" "reserved_w y = 0" "borrowed_w n y = 0" if "y \<in> set (pc_ops c)" for y
      using idle [OF that] by (auto simp: weight_defs)
    then show "tally ?i dialing_w (pc_ops c) = 0" "tally ?i reserved_w (pc_ops c) = 0" "tally ?i (borrowed_w n) (pc_ops c) = 0"
      by (auto intro!: tally_zero)
  qed
  then have "\<not> in_use_id (ap_sessions ?q) n" for n
    using ok unfolding pool_ok_def sessions_ok_def by (metis zero_neq_one)
  then have free: "\<forall>s \<in> set (ap_sessions ?q). \<not> ps_in_use s" by (auto simp: in_use_id_def)
  have nofull: "\<not> (connection_limit (pc_limit c) \<le> pool_total ?q \<and> (\<forall>s \<in> set (ap_sessions ?q). ps_in_use s))"
  proof
    assume a: "connection_limit (pc_limit c) \<le> pool_total ?q \<and> (\<forall>s \<in> set (ap_sessions ?q). ps_in_use s)"
    with free have "ap_sessions ?q = []" by (metis list.set_intros(1) neq_Nil_conv)
    with a no ok connection_limit_pos [of "pc_limit c"] show False by (simp add: pool_ok_def pool_total_def)
  qed
  show ?thesis
  proof (cases "op_dedicated x")
    case True
    obtain a p where t: "dedicated_turn (pc_limit c) ?q = (a, p)" by fastforce
    with nofull dedicated_turn_cases [OF t] have "a \<noteq> WaitDedicated" by auto
    with t True k show ?thesis
      using op_step.reserved [OF k True] op_step.evict_idle [OF k True] by (cases a) blast+
  next
    case False
    obtain a p where t: "borrow_turn (pc_limit c) (pc_credential c) ?q = (a, p)" by fastforce
    with nofull borrow_turn_wait have "a \<noteq> WaitForChange" by metis
    with t False k show ?thesis
      using op_step.evicted [OF k False] op_step.reuse [OF k False] op_step.dial [OF k False] by (cases a) blast+
  qed
qed

text \<open>
  C26. The callers never block each other for good: in every reachable state with an unfinished
  operation some operation can take a step of its own, without a cancellation or a fault to free it.
\<close>

theorem pool_progress:
  assumes "pool_reachable limit c" "j < length (pc_ops c)" "op_phase (pc_ops c ! j) \<noteq> Finished"
  shows "\<exists>k c'. op_step k c c'"
proof -
  note inv = reachable_inv [OF assms(1)]
  consider (busy) k where "k < length (pc_ops c)" "op_phase (pc_ops c ! k) \<notin> {Registered, Owning, Finished}"
    | (own) k where "k < length (pc_ops c)" "op_phase (pc_ops c ! k) = Owning"
        "\<And>y. y \<in> set (pc_ops c) \<Longrightarrow> op_phase y \<in> {Registered, Owning, Finished}"
    | (wait) "\<And>y. y \<in> set (pc_ops c) \<Longrightarrow> op_phase y \<in> {Registered, Finished}"
    by (metis (no_types, opaque_lifting) in_set_conv_nth insert_iff)
  then show ?thesis
  proof cases
    case busy
    then show ?thesis using unfinished_step by blast
  next
    case own
    then show ?thesis using owner_step [OF inv(2) own(1) refl] by blast
  next
    case wait
    let ?x = "pc_ops c ! j"
    have ph: "op_phase ?x = Registered" using wait assms(2,3) by (metis empty_iff insert_iff nth_mem)
    then have r: "registered_w ?x = 1" by (simp add: registered_w_def)
    note ok = pool_inv_caller [OF inv(2) assms(2) refl r]
    have "tally (op_pool ?x) gate_w (pc_ops c) = 0" using wait by (fastforce intro!: tally_zero simp: gate_w_def)
    with ok(2) have "ap_gate (pc_pools c ! op_pool ?x) = 0" by (simp add: pool_ok_def)
    moreover have "op_weight ?x \<le> connection_limit (pc_limit c)"
      using ok(3) connection_limit_pos by (simp add: operation_weight_def split: operation_class.splits)
    ultimately show ?thesis
      using op_step.gate [OF assms(2) refl ph] by (fastforce simp: gate_acquire_def)
  qed
qed

lemma pool_progress_witness: "\<exists>k c'. op_step k sample_client c'"
  using pool_progress [OF sample_client_reachable, of 0] by (simp add: sample_client_def)

end
