(* ===== verification/Send_Evidence.thy ===== *)
theory Send_Evidence
  imports Go_Sha256 Go_Utf8 State_Machine
begin

text \<open>
  The evidence of a send (\<open>src/internal/mail/model.go\<close>, \<open>draft_claims.go\<close>, \<open>draft_state.go\<close>,
  \<open>draft_revision.go\<close>): the claim written before the submission (\<open>send_attempt\<close>), the receipt kept
  after the draft is gone, the result returned to the caller, their validity and their conversions.

  Times are left out of the records: the checks on them are answered by the environment (see
  \<open>Draft_Store\<close>).
\<close>

section \<open>Attempts, receipts and results\<close>

datatype send_outcome =
    SendUnknown | SendAccepted | SendObserved | SendSent | SendMirrorPending

record accepted_spool =
  sp_size :: nat
  sp_sha :: string

record recovery_identity =
  ri_account :: string
  ri_host :: string
  ri_port :: int
  ri_username :: string

record observation_baseline =
  ob_store :: string
  ob_mailboxes :: "int list"
  ob_maximum_row :: int
  ob_captured :: int

record transport_evidence =
  te_server_response :: string
  te_message_id :: string
  te_stage :: string
  te_submission_accepted :: bool
  te_mirror_mailbox :: string
  te_mirror_validity :: "32 word"
  te_mirror_uid :: "32 word"
  te_mirror_attempt_id :: string
  te_mirror_appended :: bool
  te_mirror_attempted :: bool
  te_mirror_unknown :: bool

definition no_evidence :: transport_evidence where
  "no_evidence = \<lparr>te_server_response = [], te_message_id = [], te_stage = [], te_submission_accepted = False,
     te_mirror_mailbox = [], te_mirror_validity = 0, te_mirror_uid = 0, te_mirror_attempt_id = [],
     te_mirror_appended = False, te_mirror_attempted = False, te_mirror_unknown = False\<rparr>"

record send_attempt =
  sa_id :: string
  sa_revision :: string
  sa_message_id :: string
  sa_envelope_fingerprint :: string
  sa_mime_fingerprint :: string
  sa_spool :: "accepted_spool option"
  sa_identity :: "recovery_identity option"
  sa_outcome :: send_outcome
  sa_invocation_started :: bool
  sa_accepted_by_mail :: bool
  sa_sent_observed :: bool
  sa_observed_ref :: string
  sa_baseline :: "observation_baseline option"
  sa_transport :: "transport_evidence option"

record send_receipt =
  rc_revision :: string
  rc_attempt_id :: string
  rc_outcome :: send_outcome
  rc_accepted :: bool
  rc_submission_accepted :: bool
  rc_copy_observed :: bool
  rc_observed_ref :: string
  rc_message_id :: string
  rc_server_response :: string
  rc_mailbox :: string
  rc_validity :: "32 word"
  rc_uid :: "32 word"
  rc_appended :: bool

record send_result =
  rs_attempt_id :: string
  rs_outcome :: send_outcome
  rs_accepted :: bool
  rs_submission_accepted :: bool
  rs_invocation_started :: bool
  rs_sent_observed :: bool
  rs_observed_ref :: string
  rs_draft_retained :: bool
  rs_replayed :: bool
  rs_reconciled :: bool
  rs_receipt :: "send_receipt option"

definition no_result :: send_result where
  "no_result = \<lparr>rs_attempt_id = [], rs_outcome = SendUnknown, rs_accepted = False, rs_submission_accepted = False,
     rs_invocation_started = False, rs_sent_observed = False, rs_observed_ref = [], rs_draft_retained = False,
     rs_replayed = False, rs_reconciled = False, rs_receipt = None\<rparr>"

definition submission_accepted_for :: "send_attempt \<Rightarrow> bool" where
  "submission_accepted_for a = (case sa_transport a of None \<Rightarrow> False
     | Some t \<Rightarrow> te_submission_accepted t \<or> trim_space (te_server_response t) \<noteq> [])"

definition result_for_attempt :: "send_attempt \<Rightarrow> bool \<Rightarrow> send_result" where
  "result_for_attempt a retained =
     \<lparr>rs_attempt_id = sa_id a, rs_outcome = sa_outcome a, rs_accepted = sa_accepted_by_mail a,
      rs_submission_accepted = submission_accepted_for a, rs_invocation_started = sa_invocation_started a,
      rs_sent_observed = sa_sent_observed a, rs_observed_ref = sa_observed_ref a,
      rs_draft_retained = retained, rs_replayed = False, rs_reconciled = False, rs_receipt = None\<rparr>"

definition result_for_reconcile :: "send_attempt \<Rightarrow> send_result" where
  "result_for_reconcile a = (result_for_attempt a True)\<lparr>rs_reconciled := True\<rparr>"

definition receipt_from_attempt :: "send_attempt \<Rightarrow> send_receipt" where
  "receipt_from_attempt a = (let t = (case sa_transport a of None \<Rightarrow> no_evidence | Some t \<Rightarrow> t) in
     \<lparr>rc_revision = sa_revision a, rc_attempt_id = sa_id a, rc_outcome = sa_outcome a,
      rc_accepted = (sa_accepted_by_mail a \<or> sa_sent_observed a),
      rc_submission_accepted = submission_accepted_for a, rc_copy_observed = sa_sent_observed a,
      rc_observed_ref = sa_observed_ref a,
      rc_message_id = (if te_message_id t = [] then sa_message_id a else te_message_id t),
      rc_server_response = te_server_response t, rc_mailbox = te_mirror_mailbox t,
      rc_validity = te_mirror_validity t, rc_uid = te_mirror_uid t, rc_appended = te_mirror_appended t\<rparr>)"

definition normalize_receipt :: "send_receipt \<Rightarrow> send_receipt" where
  "normalize_receipt r =
     (let r = (if \<not> rc_submission_accepted r \<and> trim_space (rc_server_response r) \<noteq> []
               then r\<lparr>rc_submission_accepted := True\<rparr> else r)
      in if \<not> rc_copy_observed r \<and> (rc_outcome r = SendObserved \<or> rc_outcome r = SendSent)
         then r\<lparr>rc_copy_observed := True\<rparr> else r)"

definition result_for_receipt :: "send_receipt \<Rightarrow> send_result" where
  "result_for_receipt r0 = (let r = normalize_receipt r0 in
     \<lparr>rs_attempt_id = rc_attempt_id r, rs_outcome = rc_outcome r, rs_accepted = rc_accepted r,
      rs_submission_accepted = rc_submission_accepted r, rs_invocation_started = True,
      rs_sent_observed = rc_copy_observed r, rs_observed_ref = [], rs_draft_retained = False,
      rs_replayed = True, rs_reconciled = False, rs_receipt = Some r\<rparr>)"

text \<open>\<open>validStoredDraftRevision\<close>: empty for legacy evidence, else a prefixed lower-case SHA-256.
  Only ASCII digests decode, so lower-casing bytes is enough.\<close>

definition revision_prefix :: string where
  "revision_prefix = ''draft-review-v1:''"

definition valid_stored_revision :: "string \<Rightarrow> bool" where
  "valid_stored_revision revision \<longleftrightarrow> revision = [] \<or> (has_prefix revision revision_prefix
     \<and> (let digest = drop (length revision_prefix) revision in
          length digest = 64 \<and> map lower_byte digest = digest \<and> decode_hex digest \<noteq> None))"

definition valid_send_receipt :: "send_receipt \<Rightarrow> bool" where
  "valid_send_receipt r \<longleftrightarrow> rc_attempt_id r \<noteq> [] \<and> rc_accepted r \<and> valid_stored_revision (rc_revision r)
     \<and> (rc_outcome r = SendObserved \<or> rc_outcome r = SendSent)"

definition maximum_spool_bytes :: nat where
  "maximum_spool_bytes = 1073741824"

definition valid_spool :: "accepted_spool option \<Rightarrow> bool" where
  "valid_spool s = (case s of None \<Rightarrow> True
     | Some sp \<Rightarrow> if sp_size sp = 0 \<or> maximum_spool_bytes < sp_size sp then False
         else (case decode_hex (trim_space (sp_sha sp)) of None \<Rightarrow> False | Some digest \<Rightarrow> length digest = 32))"

fun valid_mailbox_ids :: "int list \<Rightarrow> int list \<Rightarrow> bool" where
  "valid_mailbox_ids seen [] = True"
| "valid_mailbox_ids seen (i # is) = (1 \<le> i \<and> i \<notin> set seen \<and> valid_mailbox_ids (i # seen) is)"

definition valid_baseline :: "observation_baseline option \<Rightarrow> bool" where
  "valid_baseline v = (case v of None \<Rightarrow> True
     | Some b \<Rightarrow> ob_store b \<noteq> [] \<and> 0 \<le> ob_maximum_row b \<and> 1 \<le> ob_captured b \<and> ob_mailboxes b \<noteq> []
         \<and> valid_mailbox_ids [] (ob_mailboxes b))"

definition valid_transport_evidence :: "transport_evidence option \<Rightarrow> bool" where
  "valid_transport_evidence t = (case t of None \<Rightarrow> False | Some t \<Rightarrow> trim_space (te_message_id t) \<noteq> [])"

definition valid_send_attempt :: "send_attempt \<Rightarrow> bool" where
  "valid_send_attempt a \<longleftrightarrow> sa_id a \<noteq> [] \<and> valid_baseline (sa_baseline a)
     \<and> valid_stored_revision (sa_revision a) \<and> valid_spool (sa_spool a) \<and> (case sa_outcome a of
       SendUnknown \<Rightarrow> \<not> sa_sent_observed a \<and> \<not> sa_accepted_by_mail a
     | SendAccepted \<Rightarrow> sa_invocation_started a \<and> sa_accepted_by_mail a \<and> \<not> sa_sent_observed a
     | SendObserved \<Rightarrow> sa_invocation_started a \<and> sa_sent_observed a
     | SendSent \<Rightarrow> sa_invocation_started a \<and> sa_accepted_by_mail a \<and> sa_sent_observed a
         \<and> valid_transport_evidence (sa_transport a)
     | SendMirrorPending \<Rightarrow> sa_invocation_started a \<and> sa_accepted_by_mail a \<and> \<not> sa_sent_observed a
         \<and> valid_transport_evidence (sa_transport a))"

section \<open>Errors\<close>

text \<open>
  Errors of the draft operations: an \<open>OperationError\<close> with its code, a \<open>DraftRevisionConflict\<close> with the
  expected and the current revision, a \<open>ValidationError\<close>, a \<open>SubmissionError\<close>
  with its stage, any other error, and the
  join of two. \<open>operation_code\<close> and \<open>submission_stage\<close> are \<open>errors.As\<close> on the tree.
\<close>

datatype send_error =
    OpError string
  | Validation
  | RevisionConflict string string
  | SubmissionUncertain string
  | Failure
  | Joined send_error send_error

fun operation_code :: "send_error \<Rightarrow> string option" where
  "operation_code (OpError c) = Some c"
| "operation_code (Joined a b) = (case operation_code a of Some c \<Rightarrow> Some c | None \<Rightarrow> operation_code b)"
| "operation_code _ = None"

fun submission_stage :: "send_error \<Rightarrow> string option" where
  "submission_stage (SubmissionUncertain s) = Some s"
| "submission_stage (Joined a b) = (case submission_stage a of Some s \<Rightarrow> Some s | None \<Rightarrow> submission_stage b)"
| "submission_stage _ = None"

definition is_not_found :: "send_error \<Rightarrow> bool" where
  "is_not_found e \<longleftrightarrow> operation_code e = Some ''not_found''"

text \<open>\<open>errors.Join\<close> of an error with one that may be nil.\<close>

fun join_errors :: "send_error option \<Rightarrow> send_error option \<Rightarrow> send_error option" where
  "join_errors None e = e"
| "join_errors (Some a) None = Some a"
| "join_errors (Some a) (Some b) = Some (Joined a b)"

definition join_submission_error :: "send_error option \<Rightarrow> send_error option \<Rightarrow> send_error option" where
  "join_submission_error submission result =
     (case submission of None \<Rightarrow> result | Some _ \<Rightarrow> join_errors result submission)"

text \<open>\<open>requireDraftRevision\<close>.\<close>

definition require_revision :: "string \<Rightarrow> string \<Rightarrow> send_error option" where
  "require_revision expected current =
     (if expected = [] then Some Validation
      else if current = [] then Some (OpError ''draft_revision_unavailable'')
      else if expected \<noteq> current then Some (RevisionConflict expected current)
      else None)"

text \<open>\<open>wrapDraftStateError\<close>.\<close>

definition wrap_state_error :: "send_error \<Rightarrow> send_error" where
  "wrap_state_error e = (if is_not_found e then e else OpError ''draft_state_error'')"

text \<open>\<open>unverifiableSendError\<close>, \<open>mirrorOutcomeUnknownError\<close>: their messages are left out.\<close>

definition unverifiable_error :: send_error where
  "unverifiable_error = OpError ''send_outcome_unverifiable''"

definition mirror_unknown_error :: send_error where
  "mirror_unknown_error = OpError ''send_mirror_outcome_unknown''"

text \<open>\<open>mirrorPendingError\<close>: it keeps the code of its cause, when there is one.\<close>

definition mirror_pending_error :: "string \<Rightarrow> send_error" where
  "mirror_pending_error code = OpError (if code = [] then ''send_mirror_pending'' else code)"

text \<open>\<open>receiptFromAttempt\<close> against the receipt on disk, as \<open>ensureSendReceipt\<close> compares them.\<close>

definition receipt_matches :: "send_receipt \<Rightarrow> send_receipt \<Rightarrow> bool" where
  "receipt_matches r d \<longleftrightarrow> rc_attempt_id r = rc_attempt_id d \<and> rc_revision r = rc_revision d
     \<and> rc_outcome r = rc_outcome d \<and> rc_accepted r = rc_accepted d
     \<and> rc_submission_accepted r = rc_submission_accepted d \<and> rc_copy_observed r = rc_copy_observed d"

end
