(* ===== verification/Draft_Store.thy ===== *)
theory Draft_Store
  imports Send_Evidence
begin

text \<open>
  The durable state of one draft (\<open>src/internal/mail/draft_storage.go\<close>, \<open>draft_persistence.go\<close>,
  \<open>draft_claims.go\<close>, \<open>draft_recovery_spool.go\<close>, \<open>draft_state.go\<close>): the draft, its send claim, its
  recovery spool, its receipt, its save and handoff claims, each a file of the draft directory, with
  the operations on them.

  Every step asks an oracle: an effect succeeds, fails without or with its effect, leaves a torn
  file, or the process dies before, during or after it; a check passes, fails or the process dies.
  A theorem about every oracle covers every fault and every crash point. The caller holds the lease
  of the draft (\<open>flock\<close>, released when the process dies), so operations run one after another.
\<close>

section \<open>The world\<close>

datatype 'a slot = Absent | Present 'a | Corrupt

datatype draft_kind = KindNew | KindReply | KindForward

record stored_draft =
  dr_revision :: string
  dr_kind :: draft_kind
  dr_from :: string
  dr_to :: nat
  dr_cc :: nat
  dr_bcc :: nat

text \<open>What the server reported about a message that left the process, or may have left it.\<close>

datatype verdict = Accepted | Uncertain | Refused

text \<open>The SMTP submissions and the APPENDs to the Sent mailbox, with the message sent.\<close>

datatype send_event =
    Submitted string verdict
  | Appended string verdict

datatype answer =
    Yes | No | NoAfter | NoTorn | CrashBefore | CrashTorn | CrashAfter
  | SubmitReply verdict string bool
  | MirrorReply verdict string "32 word" "32 word" bool bool
  | SearchReply "32 word" "32 word" nat
  | IdentityReply recovery_identity
  | TextReply string
  | Rewritten string

record draft_world =
  dw_draft :: "stored_draft slot"
  dw_claim :: "send_attempt slot"
  dw_spool :: "string slot"
  dw_receipt :: "send_receipt slot"
  dw_save_claim :: "unit slot"
  dw_handoff :: "unit slot"
  dw_log :: "send_event list"
  dw_oracle :: "answer list"

section \<open>Programs\<close>

datatype 'a run = Done 'a | Crashed

type_synonym 'a prog = "draft_world \<Rightarrow> 'a run \<times> draft_world"
type_synonym 'a eprog = "(send_error + 'a) prog"

definition ret :: "'a \<Rightarrow> 'a prog" where
  "ret x w = (Done x, w)"

definition seqP :: "'a prog \<Rightarrow> ('a \<Rightarrow> 'b prog) \<Rightarrow> 'b prog" where
  "seqP m f w = (case m w of (Crashed, w) \<Rightarrow> (Crashed, w) | (Done x, w) \<Rightarrow> f x w)"

definition getP :: "(draft_world \<Rightarrow> 'a) \<Rightarrow> 'a prog" where
  "getP f w = (Done (f w), w)"

text \<open>\<open>x, err := m; if err != nil { ... }\<close>, with the handler of the error and the rest.\<close>

definition handleP :: "'a eprog \<Rightarrow> (send_error \<Rightarrow> 'b prog) \<Rightarrow> ('a \<Rightarrow> 'b prog) \<Rightarrow> 'b prog" where
  "handleP m h k = seqP m (\<lambda>r. case r of Inl e \<Rightarrow> h e | Inr x \<Rightarrow> k x)"

abbreviation failE :: "send_error \<Rightarrow> 'a eprog" where
  "failE e \<equiv> ret (Inl e)"

abbreviation retE :: "'a \<Rightarrow> 'a eprog" where
  "retE x \<equiv> ret (Inr x)"

abbreviation bindE :: "'a eprog \<Rightarrow> ('a \<Rightarrow> 'b eprog) \<Rightarrow> 'b eprog" where
  "bindE m f \<equiv> handleP m (\<lambda>e. failE e) f"

text \<open>The next answer; an exhausted oracle answers \<open>Yes\<close>.\<close>

definition next_answer :: "answer prog" where
  "next_answer w = (case dw_oracle w of [] \<Rightarrow> (Done Yes, w) | a # as \<Rightarrow>
     ((case a of CrashBefore \<Rightarrow> Crashed | _ \<Rightarrow> Done a), w\<lparr>dw_oracle := as\<rparr>))"

text \<open>A check of the environment, without an effect of its own.\<close>

definition ask :: "bool prog" where
  "ask = seqP next_answer (\<lambda>a. ret (a = Yes))"

definition askE :: "send_error \<Rightarrow> unit eprog" where
  "askE e = seqP ask (\<lambda>ok. if ok then retE () else failE e)"

definition ask_text :: "string eprog" where
  "ask_text = seqP next_answer (\<lambda>a. case a of TextReply t \<Rightarrow> retE t | Yes \<Rightarrow> retE [] | _ \<Rightarrow> failE Failure)"

text \<open>An effect: whether it reported success, and what it leaves behind.\<close>

definition update :: "(draft_world \<Rightarrow> draft_world) \<Rightarrow> unit prog" where
  "update f w = (Done (), f w)"

definition crash :: "'a prog" where
  "crash w = (Crashed, w)"

definition effect :: "(draft_world \<Rightarrow> draft_world) \<Rightarrow> (draft_world \<Rightarrow> draft_world) \<Rightarrow> bool prog" where
  "effect full torn = seqP next_answer (\<lambda>a. case a of
      Yes \<Rightarrow> seqP (update full) (\<lambda>_. ret True)
    | NoAfter \<Rightarrow> seqP (update full) (\<lambda>_. ret False)
    | NoTorn \<Rightarrow> seqP (update torn) (\<lambda>_. ret False)
    | CrashTorn \<Rightarrow> seqP (update torn) (\<lambda>_. crash)
    | CrashAfter \<Rightarrow> seqP (update full) (\<lambda>_. crash)
    | _ \<Rightarrow> ret False)"

definition effectE :: "(draft_world \<Rightarrow> draft_world) \<Rightarrow> unit eprog" where
  "effectE full = seqP (effect full id) (\<lambda>ok. if ok then retE () else failE Failure)"

text \<open>\<open>errors.Join\<close> of two calls, both made.\<close>

definition joinE :: "unit eprog \<Rightarrow> unit eprog \<Rightarrow> unit eprog" where
  "joinE m n = handleP m
     (\<lambda>e. handleP n (\<lambda>e'. failE (Joined e e')) (\<lambda>_. failE e))
     (\<lambda>_. n)"

section \<open>Reading\<close>

text \<open>
  A bounded regular file with one strict JSON object: absent, unreadable, or its value when it is
  valid. The oracle answers the calls of the file system and the checks on fields left out.
\<close>

definition read_slot :: "(draft_world \<Rightarrow> 'a slot) \<Rightarrow> ('a \<Rightarrow> bool) \<Rightarrow> send_error \<Rightarrow> 'a option eprog" where
  "read_slot get valid invalid = bindE (askE Failure) (\<lambda>_. seqP (getP get) (\<lambda>s.
     if s = Absent then retE None
     else bindE (askE Failure) (\<lambda>_. case s of
         Present x \<Rightarrow> if valid x then bindE (askE invalid) (\<lambda>_. retE (Some x)) else failE invalid
       | _ \<Rightarrow> failE invalid)))"

definition read_send_attempt :: "send_attempt option eprog" where
  "read_send_attempt = read_slot dw_claim valid_send_attempt Failure"

definition read_save_attempt :: "unit option eprog" where
  "read_save_attempt = read_slot dw_save_claim (\<lambda>_. True) Failure"

definition read_handoff_attempt :: "unit option eprog" where
  "read_handoff_attempt = read_slot dw_handoff (\<lambda>_. True) Failure"

text \<open>\<open>readSendReceipt\<close>, which completes the fields of older receipts, and \<open>readActiveSendReceipt\<close>.\<close>

definition read_send_receipt :: "send_receipt option eprog" where
  "read_send_receipt = bindE
     (read_slot dw_receipt (\<lambda>r. valid_send_receipt (normalize_receipt r)) (OpError ''send_receipt_invalid''))
     (\<lambda>r. retE (map_option normalize_receipt r))"

definition read_active_receipt :: "send_receipt option eprog" where
  "read_active_receipt = bindE read_send_receipt (\<lambda>r. case r of
      None \<Rightarrow> retE None
    | Some r \<Rightarrow> bindE (askE (OpError ''send_receipt_expired'')) (\<lambda>_. retE (Some r)))"

text \<open>A draft with the claims of its sidecar files (\<open>attachDraftAttempts\<close>).\<close>

record loaded_draft =
  ld_draft :: stored_draft
  ld_send :: "send_attempt option"
  ld_save :: bool
  ld_handoff :: bool

definition load_draft_document :: "stored_draft eprog" where
  "load_draft_document = bindE (read_slot dw_draft (\<lambda>_. True) Failure) (\<lambda>d. case d of
      None \<Rightarrow> failE (OpError ''not_found'')
    | Some d \<Rightarrow> retE d)"

definition attach_draft_attempts :: "stored_draft \<Rightarrow> loaded_draft eprog" where
  "attach_draft_attempts d =
     bindE read_send_attempt (\<lambda>send.
     bindE read_save_attempt (\<lambda>save.
     bindE read_handoff_attempt (\<lambda>handoff.
       if send \<noteq> None \<and> save \<noteq> None then failE Failure
       else if handoff \<noteq> None \<and> (send \<noteq> None \<or> save \<noteq> None) then failE Failure
       else retE \<lparr>ld_draft = d, ld_send = send, ld_save = is_some save, ld_handoff = is_some handoff\<rparr>)))"

text \<open>\<open>readDraftFileWithObserver\<close>; the oracle answers the canonical check of the content.\<close>

definition read_draft :: "loaded_draft eprog" where
  "read_draft = handleP
     (bindE load_draft_document (\<lambda>d. bindE (askE Failure) (\<lambda>_. attach_draft_attempts d)))
     (\<lambda>e. failE (wrap_state_error e)) (\<lambda>d. retE d)"

definition remove_lock :: "unit eprog" where
  "remove_lock = askE Failure"

definition read_draft_for_mutation :: "loaded_draft eprog" where
  "read_draft_for_mutation = handleP read_draft
     (\<lambda>e. if is_not_found e
           then handleP remove_lock (\<lambda>e'. failE (Joined e e')) (\<lambda>_. failE e) else failE e)
     (\<lambda>d. retE d)"

section \<open>Claims\<close>

datatype creation = Created | Exists | NotCreated

text \<open>\<open>writePrivateDraftFile\<close> of a canonical name: an exclusive creation, which may leave a torn file.\<close>

definition create_exclusive ::
    "(draft_world \<Rightarrow> 'a slot) \<Rightarrow> (draft_world \<Rightarrow> draft_world) \<Rightarrow> (draft_world \<Rightarrow> draft_world) \<Rightarrow> creation prog" where
  "create_exclusive get full torn = seqP (getP get) (\<lambda>s. case s of
      Absent \<Rightarrow> seqP (effect full torn) (\<lambda>ok. ret (if ok then Created else NotCreated))
    | _ \<Rightarrow> ret Exists)"

definition put_claim :: "send_attempt \<Rightarrow> draft_world \<Rightarrow> draft_world" where
  "put_claim a w = w\<lparr>dw_claim := Present a\<rparr>"

definition tear_claim :: "draft_world \<Rightarrow> draft_world" where
  "tear_claim w = w\<lparr>dw_claim := Corrupt\<rparr>"

definition drop_claim :: "draft_world \<Rightarrow> draft_world" where
  "drop_claim w = w\<lparr>dw_claim := Absent\<rparr>"

text \<open>\<open>sendAttemptOptions\<close>: the evidence a claim records at its creation.\<close>

record attempt_options =
  ao_revision :: string
  ao_baseline :: "observation_baseline option"
  ao_message_id :: string
  ao_envelope :: string
  ao_mime :: string
  ao_spool :: "accepted_spool option"
  ao_identity :: "recovery_identity option"

definition new_send_attempt_id :: "string eprog" where
  "new_send_attempt_id = bindE ask_text (\<lambda>v. retE (''send_'' @ v))"

definition begin_send_attempt :: "attempt_options \<Rightarrow> send_attempt eprog" where
  "begin_send_attempt options = bindE new_send_attempt_id (\<lambda>id.
     let a = \<lparr>sa_id = id, sa_revision = ao_revision options, sa_message_id = ao_message_id options,
        sa_envelope_fingerprint = ao_envelope options, sa_mime_fingerprint = ao_mime options,
        sa_spool = ao_spool options, sa_identity = ao_identity options, sa_outcome = SendUnknown,
        sa_invocation_started = False, sa_accepted_by_mail = False, sa_sent_observed = False,
        sa_observed_ref = [], sa_baseline = ao_baseline options, sa_transport = None\<rparr>
     in bindE (askE Failure) (\<lambda>_.
        seqP (create_exclusive dw_claim (put_claim a) tear_claim) (\<lambda>c. case c of
          Created \<Rightarrow> retE a
        | Exists \<Rightarrow> failE (OpError ''send_retry_blocked'')
        | NotCreated \<Rightarrow> failE Failure)))"

text \<open>\<open>replaceSendAttempt\<close>: written aside and renamed over the claim.\<close>

definition replace_send_attempt :: "send_attempt \<Rightarrow> unit eprog" where
  "replace_send_attempt a = bindE (askE Failure) (\<lambda>_. effectE (put_claim a))"

section \<open>The recovery spool\<close>

definition put_spool :: "string \<Rightarrow> draft_world \<Rightarrow> draft_world" where
  "put_spool m w = w\<lparr>dw_spool := Present m\<rparr>"

definition drop_spool :: "draft_world \<Rightarrow> draft_world" where
  "drop_spool w = w\<lparr>dw_spool := Absent\<rparr>"

text \<open>
  \<open>persistAcceptedMessageSpool\<close>: the message is copied aside and linked to the canonical name, which
  fails when the name exists.
\<close>

definition persist_spool :: "string \<Rightarrow> accepted_spool eprog" where
  "persist_spool message = bindE (askE Failure) (\<lambda>_.
     if length message = 0 \<or> maximum_spool_bytes < length message then failE Failure
     else bindE (askE Failure) (\<lambda>_.
       seqP (create_exclusive dw_spool (put_spool message) id) (\<lambda>c. case c of
         Created \<Rightarrow> retE \<lparr>sp_size = length message, sp_sha = encode_hex (sha256 message)\<rparr>
       | _ \<Rightarrow> failE Failure)))"

text \<open>\<open>recoverUnclaimedAcceptedMessageSpool\<close>: a spool without a claim is removed, any other is kept.\<close>

definition recover_unclaimed_spool :: "unit eprog" where
  "recover_unclaimed_spool = bindE (askE (OpError ''send_recovery_spool_changed'')) (\<lambda>_.
     seqP (getP dw_spool) (\<lambda>s. if s = Absent then retE () else
       handleP read_send_attempt (\<lambda>_. failE (OpError ''send_recovery_spool_changed'')) (\<lambda>a.
       if a \<noteq> None then failE (OpError ''send_retry_blocked'')
       else if s = Corrupt then failE (OpError ''send_recovery_spool_changed'')
       else bindE (askE (OpError ''send_recovery_spool_changed'')) (\<lambda>_.
         handleP read_send_attempt (\<lambda>_. failE (OpError ''send_recovery_spool_changed'')) (\<lambda>a.
         if a \<noteq> None then failE (OpError ''send_retry_blocked'') else effectE drop_spool)))))"

text \<open>\<open>strings.EqualFold\<close> against the hexadecimal digest of a message.\<close>

definition digest_matches :: "string \<Rightarrow> string \<Rightarrow> bool" where
  "digest_matches message sha \<longleftrightarrow> map lower_byte (encode_hex (sha256 message)) = map lower_byte sha"

text \<open>
  \<open>openAcceptedMessageSpool\<close>: the retained message, verified against the claim. The file is closed
  after the check; the message is read from it again, through \<open>open_composed\<close>, when it is streamed.
\<close>

definition open_accepted_spool :: "send_attempt \<Rightarrow> string eprog" where
  "open_accepted_spool a = bindE (askE (OpError ''draft_operation_canceled'')) (\<lambda>_.
     if \<not> valid_spool (sa_spool a) then failE (OpError ''send_recovery_spool_invalid'')
     else (case sa_spool a of
         None \<Rightarrow> failE (OpError ''send_recovery_spool_unavailable'')
       | Some sp \<Rightarrow> seqP (getP dw_spool) (\<lambda>s. case s of
             Absent \<Rightarrow> failE (OpError ''send_recovery_spool_missing'')
           | Corrupt \<Rightarrow> failE (OpError ''send_recovery_spool_changed'')
           | Present m \<Rightarrow> bindE (askE (OpError ''send_recovery_spool_changed'')) (\<lambda>_.
               if length m \<noteq> sp_size sp then failE (OpError ''send_recovery_spool_changed'')
               else bindE (askE (OpError ''draft_operation_canceled'')) (\<lambda>_.
               bindE (askE (OpError ''send_recovery_spool_changed'')) (\<lambda>_.
                 if \<not> digest_matches m (sp_sha sp) then failE (OpError ''send_recovery_spool_changed'')
                 else retE m))))))"

definition remove_accepted_spool :: "send_attempt \<Rightarrow> unit eprog" where
  "remove_accepted_spool a = (if sa_spool a = None then retE ()
     else handleP (open_accepted_spool a)
       (\<lambda>e. if operation_code e = Some ''send_recovery_spool_missing'' then retE () else failE e)
       (\<lambda>_. effectE drop_spool))"

definition remove_send_attempt :: "unit eprog" where
  "remove_send_attempt = bindE read_send_attempt (\<lambda>a.
     bindE (case a of None \<Rightarrow> retE () | Some a \<Rightarrow> remove_accepted_spool a) (\<lambda>_. effectE drop_claim))"

text \<open>
  \<open>ComposedMessage.Open\<close> and its reader: the message is streamed from its file, which is opened by its
  name and must still be the same file (\<open>os.SameFile\<close>), but whose content is not checked again. What
  another process wrote into the file in place since, \<open>Rewritten\<close>, is read up to the recorded size.
  \<open>retained\<close>: the file is the recovery spool, not the temporary file of a running send.
\<close>

definition open_composed :: "bool \<Rightarrow> string \<Rightarrow> string eprog" where
  "open_composed retained m = seqP next_answer (\<lambda>a. case a of
      Yes \<Rightarrow> retE m
    | Rewritten m' \<Rightarrow> seqP (update (if retained then put_spool m' else id)) (\<lambda>_. retE (take (length m) m'))
    | _ \<Rightarrow> failE Failure)"

section \<open>Receipts\<close>

definition put_receipt :: "send_receipt \<Rightarrow> draft_world \<Rightarrow> draft_world" where
  "put_receipt r w = w\<lparr>dw_receipt := Present r\<rparr>"

definition tear_receipt :: "draft_world \<Rightarrow> draft_world" where
  "tear_receipt w = w\<lparr>dw_receipt := Corrupt\<rparr>"

text \<open>\<open>sendReceiptsEqual\<close>; the oracle answers the comparison of the times.\<close>

definition require_equal_receipt :: "send_receipt option \<Rightarrow> send_receipt \<Rightarrow> unit eprog" where
  "require_equal_receipt existing r = (if existing = Some r then askE (OpError ''send_receipt_conflict'')
     else failE (OpError ''send_receipt_conflict''))"

definition persist_send_receipt :: "send_receipt \<Rightarrow> unit eprog" where
  "persist_send_receipt r0 = (let r = normalize_receipt r0 in
     if \<not> valid_send_receipt r then failE (OpError ''send_receipt_invalid'')
     else bindE read_send_receipt (\<lambda>existing.
       if existing \<noteq> None then require_equal_receipt existing r
       else bindE (askE Validation) (\<lambda>_.
         seqP (create_exclusive dw_receipt (put_receipt r) tear_receipt) (\<lambda>c. case c of
           Created \<Rightarrow> retE ()
         | NotCreated \<Rightarrow> failE Failure
         | Exists \<Rightarrow> bindE read_send_receipt (\<lambda>again. require_equal_receipt again r)))))"

definition ensure_send_receipt :: "send_attempt \<Rightarrow> send_receipt eprog" where
  "ensure_send_receipt a = (let derived = receipt_from_attempt a in
     bindE (askE (OpError ''send_receipt_expired'')) (\<lambda>_.
     bindE read_send_receipt (\<lambda>r. case r of
       Some r \<Rightarrow> bindE (askE (OpError ''send_receipt_expired'')) (\<lambda>_.
         if receipt_matches r derived then retE r else failE (OpError ''send_receipt_conflict''))
     | None \<Rightarrow> bindE (persist_send_receipt derived) (\<lambda>_. retE derived))))"

section \<open>Removing a draft\<close>

definition drop_draft :: "draft_world \<Rightarrow> draft_world" where
  "drop_draft w = w\<lparr>dw_draft := Absent\<rparr>"

definition drop_save_claim :: "draft_world \<Rightarrow> draft_world" where
  "drop_save_claim w = w\<lparr>dw_save_claim := Absent\<rparr>"

definition drop_handoff :: "draft_world \<Rightarrow> draft_world" where
  "drop_handoff w = w\<lparr>dw_handoff := Absent\<rparr>"

definition remove_handoff_attempt :: "unit eprog" where
  "remove_handoff_attempt = bindE (askE Failure) (\<lambda>_. seqP (getP dw_handoff) (\<lambda>s.
     if s = Absent then retE () else bindE (askE Failure) (\<lambda>_. effectE drop_handoff)))"

definition remove_draft_claims :: "unit eprog" where
  "remove_draft_claims = joinE remove_send_attempt (joinE (effectE drop_save_claim) remove_handoff_attempt)"

text \<open>\<open>discardDraftFiles\<close>: a handoff blocks it; the draft is removed before its claims.\<close>

definition discard_draft_files :: "unit eprog" where
  "discard_draft_files = bindE read_handoff_attempt (\<lambda>h.
     if h \<noteq> None then failE (OpError ''handoff_retry_blocked'')
     else bindE (askE Failure) (\<lambda>_.
       seqP (getP dw_draft) (\<lambda>d.
         if d = Absent then joinE (failE (OpError ''not_found'')) remove_lock
         else bindE (effectE drop_draft) (\<lambda>_. bindE (askE Failure) (\<lambda>_.
           joinE remove_draft_claims (joinE (askE Failure) remove_lock))))))"

text \<open>\<open>rejectClaimedDraft\<close>.\<close>

definition reject_claimed :: "loaded_draft \<Rightarrow> send_error option" where
  "reject_claimed d =
     (if ld_send d \<noteq> None then Some (OpError ''send_retry_blocked'')
      else if ld_save d then Some (OpError ''draft_save_retry_blocked'')
      else if ld_handoff d then Some (OpError ''handoff_retry_blocked'')
      else None)"

end
