(* ===== verification/Draft_Send.thy ===== *)
theory Draft_Send
  imports Draft_Store
begin

text \<open>
  Sending, reconciling, updating and discarding a draft (\<open>src/internal/mail/draft_send.go\<close>,
  \<open>draft_state.go\<close>, \<open>draft_composition.go\<close>, \<open>draft_store.go\<close>, \<open>draft_context.go\<close>), in the order of
  the code: every read, check, write and remote call is a step that may fail or be the last one.

  The composer, the resolution of identities and hosts, the credentials, the legacy reconciler and
  the verification of fetched MIME content are answered by the oracle; so are the SMTP and IMAP
  clients, whose answers carry the verdict they report on a message. A submission or APPEND enters
  the log when it may have left the process.
\<close>

type_synonym outcome = "send_result \<times> send_error option"

abbreviation failR :: "send_error \<Rightarrow> outcome prog" where
  "failR e \<equiv> ret (no_result, Some e)"

abbreviation checkR :: "unit eprog \<Rightarrow> outcome prog \<Rightarrow> outcome prog" where
  "checkR m k \<equiv> handleP m (\<lambda>e. failR e) (\<lambda>_. k)"

abbreviation checkResult :: "send_result \<Rightarrow> 'a eprog \<Rightarrow> ('a \<Rightarrow> outcome prog) \<Rightarrow> outcome prog" where
  "checkResult result m k \<equiv> handleP m (\<lambda>e. ret (result, Some e)) k"

definition guardP :: "send_error option \<Rightarrow> outcome prog \<Rightarrow> outcome prog" where
  "guardP e k = (case e of Some e \<Rightarrow> failR e | None \<Rightarrow> k)"

section \<open>Contexts and leases\<close>

fun is_coded :: "send_error \<Rightarrow> bool" where
  "is_coded Failure = False"
| "is_coded (Joined a b) = (is_coded a \<or> is_coded b)"
| "is_coded _ = True"

definition context_error :: send_error where
  "context_error = OpError ''draft_operation_canceled''"

text \<open>\<open>classifyDraftContextError\<close>; the oracle answers whether the context has ended.\<close>

definition classify_context_error :: "send_error \<Rightarrow> send_error prog" where
  "classify_context_error e = (if is_coded e \<and> operation_code e \<noteq> Some ''draft_busy'' then ret e
     else seqP ask (\<lambda>ok. ret (if ok then e else Joined context_error e)))"

definition classify_result :: "outcome \<Rightarrow> outcome prog" where
  "classify_result r = (case snd r of None \<Rightarrow> ret r
     | Some e \<Rightarrow> seqP (classify_context_error e) (\<lambda>e. ret (fst r, Some e)))"

definition release_lease :: "outcome \<Rightarrow> outcome prog" where
  "release_lease r = seqP ask (\<lambda>ok. ret (fst r, join_errors (snd r) (if ok then None else Some Failure)))"

text \<open>Entry of an operation: the context, the draft root and the lease of the draft.\<close>

definition with_draft_lease :: "outcome prog \<Rightarrow> outcome prog" where
  "with_draft_lease m = checkR (askE Failure) (handleP (askE (OpError ''draft_busy''))
     (\<lambda>e. seqP (classify_context_error e) (\<lambda>e. failR e)) (\<lambda>_. m))"

section \<open>Remote calls\<close>

definition log_event :: "send_event \<Rightarrow> draft_world \<Rightarrow> draft_world" where
  "log_event e w = w\<lparr>dw_log := dw_log w @ [e]\<rparr>"

text \<open>The error of closing the message reader after a call.\<close>

definition close_error :: "bool \<Rightarrow> send_error option" where
  "close_error closed = (if closed then None else Some Failure)"

text \<open>
  The submission of the bytes \<open>m\<close> (\<open>SubmitReader\<close>): the server response, whether it was accepted, and
  the error, to which a failed close of the reader is joined. The message may be gone when the process
  dies.
\<close>

definition submit_stream :: "string \<Rightarrow> (string \<times> bool \<times> send_error option) prog" where
  "submit_stream m = seqP next_answer (\<lambda>a. case a of
      Yes \<Rightarrow> seqP (update (log_event (Submitted m Accepted))) (\<lambda>_. ret ([], True, None))
    | SubmitReply Accepted response closed \<Rightarrow>
        seqP (update (log_event (Submitted m Accepted))) (\<lambda>_. ret (response, True, close_error closed))
    | SubmitReply Uncertain stage closed \<Rightarrow>
        seqP (update (log_event (Submitted m Uncertain)))
          (\<lambda>_. ret ([], False, join_errors (Some (SubmissionUncertain stage)) (close_error closed)))
    | SubmitReply Refused _ closed \<Rightarrow>
        seqP (update (log_event (Submitted m Refused)))
          (\<lambda>_. ret ([], False, join_errors (Some Failure) (close_error closed)))
    | CrashTorn \<Rightarrow> seqP (update (log_event (Submitted m Uncertain))) (\<lambda>_. crash)
    | CrashAfter \<Rightarrow> seqP (update (log_event (Submitted m Uncertain))) (\<lambda>_. crash)
    | _ \<Rightarrow> ret ([], False, Some Failure))"

text \<open>\<open>submitComposedMessage\<close>: the bytes are what the file of the composed message holds now.\<close>

definition submit_message :: "string \<Rightarrow> (string \<times> bool \<times> send_error option) prog" where
  "submit_message composed = handleP (open_composed False composed) (\<lambda>e. ret ([], False, Some e)) submit_stream"

record append_evidence =
  ae_mailbox :: string
  ae_validity :: "32 word"
  ae_uid :: "32 word"
  ae_appended :: bool

text \<open>A failed mirror: its code, and whether \<open>IsMirrorOutcomeUncertain\<close> holds of it.\<close>

record mirror_failure =
  mf_code :: string
  mf_uncertain :: bool

text \<open>
  The APPEND of the bytes \<open>m\<close> (\<open>AppendToSentReader\<close>). A message already in the mailbox is not appended
  again (\<open>ae_appended\<close> is false). A failed close of the reader turns success into an error without a code.
\<close>

definition append_stream :: "string \<Rightarrow> (mirror_failure + append_evidence) prog" where
  "append_stream m = seqP next_answer (\<lambda>a. case a of
      MirrorReply Accepted mailbox validity uid appended closed \<Rightarrow>
        seqP (if appended then update (log_event (Appended m Accepted)) else ret ()) (\<lambda>_.
          ret (if closed
            then Inr \<lparr>ae_mailbox = mailbox, ae_validity = validity, ae_uid = uid, ae_appended = appended\<rparr>
            else Inl \<lparr>mf_code = [], mf_uncertain = False\<rparr>))
    | MirrorReply Uncertain code _ _ _ _ \<Rightarrow>
        seqP (update (log_event (Appended m Uncertain))) (\<lambda>_. ret (Inl \<lparr>mf_code = code, mf_uncertain = True\<rparr>))
    | MirrorReply Refused code _ _ _ _ \<Rightarrow>
        seqP (update (log_event (Appended m Refused))) (\<lambda>_. ret (Inl \<lparr>mf_code = code, mf_uncertain = False\<rparr>))
    | CrashTorn \<Rightarrow> seqP (update (log_event (Appended m Uncertain))) (\<lambda>_. crash)
    | CrashAfter \<Rightarrow> seqP (update (log_event (Appended m Uncertain))) (\<lambda>_. crash)
    | _ \<Rightarrow> ret (Inl \<lparr>mf_code = [], mf_uncertain = False\<rparr>))"

text \<open>\<open>mirrorComposedMessage\<close> of the composed or, when \<open>retained\<close>, of the retained message.\<close>

definition mirror_message :: "bool \<Rightarrow> string \<Rightarrow> (mirror_failure + append_evidence) prog" where
  "mirror_message retained composed = handleP (open_composed retained composed)
     (\<lambda>_. ret (Inl \<lparr>mf_code = [], mf_uncertain = False\<rparr>)) append_stream"

text \<open>\<open>ImapOperator.SearchUID\<close>: the UID, the UIDVALIDITY and the number of matches, or the code of the error.\<close>

definition search_sent :: "(string + 32 word \<times> 32 word \<times> nat) prog" where
  "search_sent = seqP next_answer (\<lambda>a. case a of
      SearchReply uid validity count \<Rightarrow> ret (Inr (uid, validity, count))
    | Yes \<Rightarrow> ret (Inr (0, 0, 0))
    | TextReply code \<Rightarrow> ret (Inl code)
    | _ \<Rightarrow> ret (Inl []))"

text \<open>A remote or local lookup that yields a text, or the code of its error.\<close>

definition lookup_text :: "(string + string) prog" where
  "lookup_text = seqP next_answer (\<lambda>a. case a of
      TextReply t \<Rightarrow> ret (Inr t) | Yes \<Rightarrow> ret (Inr []) | _ \<Rightarrow> ret (Inl []))"

section \<open>Finishing\<close>

definition finish_observed_send :: "send_attempt \<Rightarrow> bool \<Rightarrow> outcome prog" where
  "finish_observed_send a reconciled = (let result = (result_for_attempt a True)\<lparr>rs_reconciled := reconciled\<rparr> in
     handleP (ensure_send_receipt a) (\<lambda>_. ret (result, Some (OpError ''send_receipt_persist_failed''))) (\<lambda>receipt.
       let result = result\<lparr>rs_receipt := Some receipt\<rparr> in
       handleP discard_draft_files (\<lambda>_. ret (result, Some (OpError ''send_cleanup_failed'')))
         (\<lambda>_. ret (result\<lparr>rs_draft_retained := False\<rparr>, None))))"

definition replay_send_attempt :: "send_attempt \<Rightarrow> outcome prog" where
  "replay_send_attempt a = (let result = (result_for_attempt a True)\<lparr>rs_replayed := True\<rparr> in
     case sa_outcome a of
       SendMirrorPending \<Rightarrow> ret (result, Some (OpError ''send_mirror_pending''))
     | SendAccepted \<Rightarrow> ret (result, Some (OpError ''send_not_observed''))
     | SendUnknown \<Rightarrow> ret (result, Some (OpError ''send_outcome_unknown''))
     | _ \<Rightarrow> handleP (ensure_send_receipt a) (\<lambda>_. ret (result, Some (OpError ''send_receipt_unavailable''))) (\<lambda>receipt.
         let result = result\<lparr>rs_receipt := Some receipt\<rparr> in
         handleP discard_draft_files (\<lambda>_. ret (result, Some (OpError ''send_cleanup_failed'')))
           (\<lambda>_. ret (result\<lparr>rs_draft_retained := False\<rparr>, None))))"

definition evidence_of :: "send_attempt \<Rightarrow> transport_evidence" where
  "evidence_of a = (case sa_transport a of Some t \<Rightarrow> t | None \<Rightarrow> no_evidence)"

text \<open>\<open>persistMirrorAttemptBeforeDispatch\<close>: the claim forbids a replay before the APPEND is dispatched.\<close>

definition arm_mirror :: "send_attempt \<Rightarrow> string \<Rightarrow> send_attempt" where
  "arm_mirror a mirror_id = a\<lparr>sa_transport := Some ((evidence_of a)\<lparr>te_mirror_attempt_id := mirror_id,
     te_mirror_attempted := True, te_mirror_unknown := True\<rparr>)\<rparr>"

definition persist_mirror_attempt :: "send_attempt \<Rightarrow> send_attempt eprog" where
  "persist_mirror_attempt a = (if sa_transport a = None then failE Failure
     else bindE new_send_attempt_id (\<lambda>id.
       let a = arm_mirror a (''mirror_'' @ trim_prefix id ''send_'')
       in bindE (replace_send_attempt a) (\<lambda>_. retE a)))"

definition set_mirror_unknown :: "send_attempt \<Rightarrow> bool \<Rightarrow> send_attempt" where
  "set_mirror_unknown a unknown = a\<lparr>sa_transport := Some ((evidence_of a)\<lparr>te_mirror_unknown := unknown\<rparr>)\<rparr>"

text \<open>The claim once the APPEND is confirmed.\<close>

definition sent_attempt :: "send_attempt \<Rightarrow> append_evidence \<Rightarrow> send_attempt" where
  "sent_attempt a e = a\<lparr>sa_sent_observed := True, sa_outcome := SendSent,
     sa_transport := Some ((evidence_of a)\<lparr>te_mirror_mailbox := ae_mailbox e, te_mirror_validity := ae_validity e,
       te_mirror_uid := ae_uid e, te_mirror_appended := ae_appended e, te_mirror_unknown := False\<rparr>)\<rparr>"

section \<open>Sending\<close>

definition attempt_uncertain :: "send_attempt \<Rightarrow> string \<Rightarrow> send_attempt" where
  "attempt_uncertain a stage = a\<lparr>sa_invocation_started := True, sa_outcome := SendUnknown,
     sa_transport := Some (no_evidence\<lparr>te_message_id := sa_message_id a, te_stage := stage\<rparr>)\<rparr>"

definition attempt_submitted :: "send_attempt \<Rightarrow> string \<Rightarrow> send_attempt" where
  "attempt_submitted a response = a\<lparr>sa_invocation_started := True, sa_accepted_by_mail := True,
     sa_outcome := SendMirrorPending,
     sa_transport := Some (no_evidence\<lparr>te_server_response := response, te_message_id := sa_message_id a,
       te_submission_accepted := True\<rparr>)\<rparr>"

text \<open>\<open>SendDraft\<close> from the accepted submission on: arm the mirror, append, record, finish.\<close>

definition mirror_submitted :: "send_attempt \<Rightarrow> string \<Rightarrow> send_error option \<Rightarrow> outcome prog" where
  "mirror_submitted a message submission_error =
     handleP (persist_mirror_attempt a)
       (\<lambda>_. ret (result_for_attempt a True,
          join_submission_error submission_error (Some (OpError ''send_state_unknown''))))
       (\<lambda>a. seqP (mirror_message False message) (\<lambda>r. case r of
          Inl f \<Rightarrow>
            let a = set_mirror_unknown a (mf_uncertain f) in
            handleP (replace_send_attempt a)
              (\<lambda>_. ret (result_for_attempt a True,
                 join_submission_error submission_error (Some (OpError ''send_state_unknown''))))
              (\<lambda>_. ret (result_for_attempt a True,
                 join_submission_error submission_error (Some (mirror_pending_error (mf_code f)))))
        | Inr e \<Rightarrow>
            let a = sent_attempt a e in
            handleP (replace_send_attempt a)
              (\<lambda>_. ret (result_for_attempt a True,
                 join_submission_error submission_error (Some (OpError ''send_outcome_unknown''))))
              (\<lambda>_. seqP (finish_observed_send a False)
                 (\<lambda>r. ret (fst r, join_submission_error submission_error (snd r))))))"

definition submit_claimed :: "send_attempt \<Rightarrow> string \<Rightarrow> outcome prog" where
  "submit_claimed a message = seqP (submit_message message) (\<lambda>r.
     let response = fst r; accepted = fst (snd r); submission_error = snd (snd r) in
     case (if accepted then None else submission_error) of
       Some e \<Rightarrow>
         (case submission_stage e of
            Some stage \<Rightarrow>
              let a = attempt_uncertain a stage in
              handleP (replace_send_attempt a)
                (\<lambda>_. ret (result_for_attempt a True, Some (OpError ''send_state_unknown'')))
                (\<lambda>_. ret (result_for_attempt a True, Some e))
          | None \<Rightarrow>
              handleP remove_send_attempt
                (\<lambda>_. ret (result_for_attempt a True, Some (OpError ''send_state_cleanup_failed'')))
                (\<lambda>_. failR e))
     | None \<Rightarrow> mirror_submitted (attempt_submitted a response) message submission_error)"

text \<open>Retain the message, write the claim, and only then submit.\<close>

definition claim_and_submit ::
    "stored_draft \<Rightarrow> recovery_identity \<Rightarrow> string \<Rightarrow> string \<Rightarrow> string \<Rightarrow> string \<Rightarrow> outcome prog" where
  "claim_and_submit d identity message_id envelope mime message =
     checkR recover_unclaimed_spool (
     handleP (persist_spool message) (\<lambda>_. failR (OpError ''send_recovery_spool_persist_failed'')) (\<lambda>spool.
     handleP (begin_send_attempt \<lparr>ao_revision = dr_revision d, ao_baseline = None, ao_message_id = message_id,
         ao_envelope = envelope, ao_mime = mime, ao_spool = Some spool, ao_identity = Some identity\<rparr>)
       (\<lambda>e. handleP recover_unclaimed_spool (\<lambda>e'. failR (Joined e e')) (\<lambda>_. failR e))
       (\<lambda>a. submit_claimed a message)))"

definition ask_identity :: "recovery_identity eprog" where
  "ask_identity = seqP next_answer (\<lambda>a. case a of
      IdentityReply i \<Rightarrow> retE i
    | Yes \<Rightarrow> retE \<lparr>ri_account = [], ri_host = [], ri_port = 0, ri_username = []\<rparr>
    | _ \<Rightarrow> failE Failure)"

definition recipient_count :: "stored_draft \<Rightarrow> nat" where
  "recipient_count d = dr_to d + dr_cc d + dr_bcc d"

text \<open>The composed message is a temporary file, removed when the operation ends.\<close>

definition with_composed_message :: "outcome prog \<Rightarrow> outcome prog" where
  "with_composed_message m = seqP m (\<lambda>r.
     seqP ask (\<lambda>ok. ret (fst r, join_errors (snd r) (if ok then None else Some Failure))))"

definition send_unclaimed :: "stored_draft \<Rightarrow> outcome prog" where
  "send_unclaimed d =
     (if dr_kind d = KindNew \<and> trim_space (dr_from d) = [] then failR Validation
      else if dr_kind d = KindForward \<and> recipient_count d = 0 then failR Validation
      else checkR (askE (OpError ''send_transport_unavailable'')) (
        handleP ask_identity (\<lambda>e. failR e) (\<lambda>identity.
        checkR (askE Failure) (
        handleP ask_text (\<lambda>e. failR e) (\<lambda>message_id.
        checkR (askE Validation) (
        handleP ask_text (\<lambda>e. failR e) (\<lambda>message.
        with_composed_message (
          checkR (askE Failure) (
          checkR (askE (OpError ''smtp_credentials_missing'')) (
          handleP ask_text (\<lambda>e. failR e) (\<lambda>mime.
          handleP ask_text (\<lambda>e. failR e) (\<lambda>envelope.
            claim_and_submit d identity message_id envelope mime message))))))))))))"

definition send_loaded :: "string \<Rightarrow> loaded_draft \<Rightarrow> outcome prog" where
  "send_loaded expected l = (let d = ld_draft l in
     guardP (require_revision expected (dr_revision d)) (
     checkR (askE Validation) (
     if ld_handoff l \<or> ld_save l then ret (no_result, reject_claimed l)
     else checkR (askE Validation) (
     if recipient_count d = 0 then failR Validation
     else checkR (askE Validation) (
     case ld_send l of
       Some a \<Rightarrow> guardP (require_revision expected (sa_revision a)) (replay_send_attempt a)
     | None \<Rightarrow>
         handleP read_active_receipt (\<lambda>e. if is_not_found e then send_unclaimed d else failR e) (\<lambda>r. case r of
           None \<Rightarrow> send_unclaimed d
         | Some r \<Rightarrow> guardP (require_revision expected (rc_revision r)) (
             let result = result_for_receipt r in
             handleP discard_draft_files (\<lambda>_. ret (result, Some (OpError ''send_cleanup_failed'')))
               (\<lambda>_. ret (result\<lparr>rs_draft_retained := False\<rparr>, None)))))))))"

definition send_draft_missing :: "send_error \<Rightarrow> outcome prog" where
  "send_draft_missing e = handleP remove_lock (\<lambda>e'. failR (Joined e e')) (\<lambda>_. failR e)"

text \<open>The draft is gone: its receipt answers, and stale claims are cleared.\<close>

definition finish_from_receipt :: "send_receipt \<Rightarrow> bool \<Rightarrow> outcome prog" where
  "finish_from_receipt r reconciled = (let result = (result_for_receipt r)\<lparr>rs_reconciled := reconciled\<rparr> in
     handleP (joinE remove_draft_claims remove_lock)
       (\<lambda>_. ret (result, Some (OpError ''send_cleanup_failed''))) (\<lambda>_. ret (result, None)))"

definition send_unloaded :: "string \<Rightarrow> send_error \<Rightarrow> outcome prog" where
  "send_unloaded expected e = (if is_not_found e
     then handleP read_active_receipt (\<lambda>re. if is_not_found re then send_draft_missing e else failR re) (\<lambda>r. case r of
         None \<Rightarrow> send_draft_missing e
       | Some r \<Rightarrow> guardP (require_revision expected (rc_revision r)) (finish_from_receipt r False))
     else failR e)"

definition send_draft :: "string \<Rightarrow> outcome prog" where
  "send_draft expected = checkR (askE context_error) (if expected = [] then failR Validation
     else with_draft_lease (seqP
       (checkR (askE context_error) (handleP read_draft (send_unloaded expected) (send_loaded expected)))
       (\<lambda>r. seqP (classify_result r) release_lease)))"

section \<open>Reconciling\<close>

text \<open>
  \<open>resolveSendRecoveryTarget\<close>, the credentials and the IMAP operator: the target is the one the claim
  recorded, or the reconciliation is refused.
\<close>

definition resolve_recovery_target :: "send_attempt \<Rightarrow> unit eprog" where
  "resolve_recovery_target a = (case sa_identity a of
      None \<Rightarrow> failE (OpError ''send_identity_unverifiable'')
    | Some original \<Rightarrow> bindE ask_identity (\<lambda>current.
        if current \<noteq> original then failE (OpError ''send_identity_unverifiable'') else retE ()))"

definition load_credentials :: "unit eprog" where
  "load_credentials = bindE (askE Failure) (\<lambda>_. askE (OpError ''smtp_credentials_missing''))"

text \<open>\<open>adoptObservedSentMessage\<close>: the only copy in Sent is fetched, verified and adopted.\<close>

definition adopted_attempt :: "send_attempt \<Rightarrow> string \<Rightarrow> 32 word \<Rightarrow> 32 word \<Rightarrow> send_attempt" where
  "adopted_attempt a mailbox uid validity = a\<lparr>sa_sent_observed := True, sa_outcome := SendSent,
     sa_transport := Some ((evidence_of a)\<lparr>te_mirror_mailbox := mailbox, te_mirror_validity := validity,
       te_mirror_uid := uid, te_mirror_appended := False, te_mirror_attempted := True,
       te_mirror_unknown := False\<rparr>)\<rparr>"

definition adopt_observed :: "send_attempt \<Rightarrow> string \<Rightarrow> 32 word \<Rightarrow> 32 word \<Rightarrow> nat \<Rightarrow> outcome prog" where
  "adopt_observed a mailbox uid validity matches = (let result = result_for_reconcile a in
     if 1 < matches then ret (result, Some unverifiable_error)
     else if uid = 0 \<or> matches \<noteq> 1 then ret (result, Some (OpError ''send_reconcile_unavailable''))
     else seqP lookup_text (\<lambda>fetched. case fetched of
         Inl code \<Rightarrow> ret (result, Some (mirror_pending_error code))
       | Inr _ \<Rightarrow> handleP (askE (OpError ''send_identity_mismatch'')) (\<lambda>e. ret (result, Some e)) (\<lambda>_.
           let a = adopted_attempt a mailbox uid validity in
           handleP (replace_send_attempt a)
             (\<lambda>_. ret (result_for_reconcile a, Some (OpError ''send_reconcile_state_failed'')))
             (\<lambda>_. finish_observed_send a True))))"

text \<open>
  \<open>reconcileMirrorPending\<close> from the dispatch of the APPEND on. \<open>imap\<close> says whether there is an IMAP
  operator beside the mirror; with one, success is only what a search of Sent confirms.
\<close>

definition retry_mirror :: "send_attempt \<Rightarrow> bool \<Rightarrow> string \<Rightarrow> string \<Rightarrow> outcome prog" where
  "retry_mirror a0 imap mailbox message =
     seqP (persist_mirror_attempt a0) (\<lambda>armed. case armed of
       Inl _ \<Rightarrow> ret (result_for_reconcile a0, Some (OpError ''send_reconcile_state_failed''))
     | Inr a \<Rightarrow> seqP (mirror_message True message) (\<lambda>r. case r of
         Inl f \<Rightarrow>
           let a = set_mirror_unknown a (mf_uncertain f); result = result_for_reconcile a in
           handleP (replace_send_attempt a)
             (\<lambda>_. ret (result, Some (OpError ''send_reconcile_state_failed'')))
             (\<lambda>_. ret (result, Some (mirror_pending_error (mf_code f))))
       | Inr e \<Rightarrow>
           if imap then
             (let result = result_for_reconcile a0 in
              seqP search_sent (\<lambda>found. case found of
                Inl code \<Rightarrow> ret (result, Some (mirror_pending_error code))
              | Inr (uid, validity, matches) \<Rightarrow>
                  if 0 < matches then adopt_observed a mailbox uid validity matches
                  else ret (result, Some mirror_unknown_error)))
           else
             (let a = sent_attempt a e in
              handleP (replace_send_attempt a)
                (\<lambda>_. ret (result_for_reconcile a, Some (OpError ''send_reconcile_state_failed'')))
                (\<lambda>_. finish_observed_send a True))))"

text \<open>An unknown APPEND outcome is searched and verified, never replayed.\<close>

definition mirror_unless_unknown :: "send_attempt \<Rightarrow> bool \<Rightarrow> string \<Rightarrow> outcome prog" where
  "mirror_unless_unknown a imap mailbox = (let result = result_for_reconcile a in
     if te_mirror_unknown (evidence_of a) then ret (result, Some mirror_unknown_error)
     else handleP (open_accepted_spool a) (\<lambda>e. ret (result, Some e)) (retry_mirror a imap mailbox))"

text \<open>\<open>ListMailboxes\<close> and \<open>ResolveSentMailbox\<close>: the Sent mailbox, or the error to return.\<close>

definition find_sent_mailbox :: "string eprog" where
  "find_sent_mailbox = seqP lookup_text (\<lambda>listed. case listed of
      Inl code \<Rightarrow> failE (mirror_pending_error code)
    | Inr mailbox \<Rightarrow> bindE (askE (OpError ''send_reconcile_unavailable'')) (\<lambda>_.
        bindE (askE Failure) (\<lambda>_. retE mailbox)))"

definition reconcile_mirror_pending :: "send_attempt \<Rightarrow> outcome prog" where
  "reconcile_mirror_pending a = (let result = result_for_reconcile a in
     case sa_transport a of
       None \<Rightarrow> ret (result, Some (OpError ''send_reconcile_unavailable''))
     | Some t \<Rightarrow>
         if trim_space (te_message_id t) = [] then ret (result, Some (OpError ''send_reconcile_unavailable''))
         else if trim_space (sa_mime_fingerprint a) = [] then ret (result, Some (OpError ''send_identity_unverifiable''))
         else checkResult result (askE (OpError ''send_transport_unavailable'')) (\<lambda>_.
           checkResult result (resolve_recovery_target a) (\<lambda>_.
           checkResult result load_credentials (\<lambda>_.
           seqP ask (\<lambda>imap.
             if \<not> imap then mirror_unless_unknown a False []
             else checkResult result find_sent_mailbox (\<lambda>mailbox.
               seqP search_sent (\<lambda>found. case found of
                 Inl code \<Rightarrow> ret (result, Some (mirror_pending_error code))
               | Inr (uid, validity, matches) \<Rightarrow>
                   if 1 < matches then ret (result, Some unverifiable_error)
                   else if uid \<noteq> 0 \<and> matches = 1 then adopt_observed a mailbox uid validity matches
                   else mirror_unless_unknown a True mailbox)))))))"

text \<open>\<open>reconcileUnknownViaImap\<close>: an unknown submission is resolved only by the copy found in Sent.\<close>

definition located_attempt :: "send_attempt \<Rightarrow> string \<Rightarrow> 32 word \<Rightarrow> 32 word \<Rightarrow> send_attempt" where
  "located_attempt a mailbox uid validity = a\<lparr>sa_invocation_started := True, sa_accepted_by_mail := True,
     sa_sent_observed := True, sa_outcome := SendSent,
     sa_transport := Some (no_evidence\<lparr>te_message_id := sa_message_id a, te_mirror_mailbox := mailbox,
       te_mirror_validity := validity, te_mirror_uid := uid\<rparr>)\<rparr>"

definition reconcile_unknown :: "send_attempt \<Rightarrow> outcome prog" where
  "reconcile_unknown a = (let result = result_for_reconcile a in
     checkResult result (askE (OpError ''send_fingerprint_mismatch'')) (\<lambda>_.
     if trim_space (sa_mime_fingerprint a) = [] then ret (result, Some (OpError ''send_identity_unverifiable''))
     else checkResult result (askE (OpError ''send_transport_unavailable'')) (\<lambda>_.
       checkResult result (resolve_recovery_target a) (\<lambda>_.
       checkResult result load_credentials (\<lambda>_.
       seqP lookup_text (\<lambda>listed. case listed of
         Inl _ \<Rightarrow> ret (result, Some Failure)
       | Inr mailbox \<Rightarrow> checkResult result (askE unverifiable_error) (\<lambda>_. checkResult result (askE Failure) (\<lambda>_.
           seqP search_sent (\<lambda>found. case found of
             Inl _ \<Rightarrow> ret (result, Some Failure)
           | Inr (uid, validity, matches) \<Rightarrow>
               if 1 < matches then ret (result, Some unverifiable_error)
               else if uid \<noteq> 0 \<and> matches = 1 then
                 checkResult result (askE Failure) (\<lambda>_. checkResult result (askE (OpError ''send_identity_mismatch'')) (\<lambda>_.
                   let a = located_attempt a mailbox uid validity in
                   handleP (replace_send_attempt a)
                     (\<lambda>_. ret (result_for_reconcile a, Some (OpError ''send_reconcile_state_failed'')))
                     (\<lambda>_. finish_observed_send a True)))
               else ret (result, Some unverifiable_error))))))))))"

text \<open>The legacy claims with an observation baseline, resolved by the local store.\<close>

definition observed_attempt :: "send_attempt \<Rightarrow> string \<Rightarrow> send_attempt" where
  "observed_attempt a observed = a\<lparr>sa_invocation_started := True, sa_accepted_by_mail := True,
     sa_sent_observed := True, sa_observed_ref := observed, sa_outcome := SendObserved\<rparr>"

definition reconcile_baseline :: "send_attempt \<Rightarrow> outcome prog" where
  "reconcile_baseline a = (let result = result_for_reconcile a in
     handleP (askE (OpError ''send_reconcile_unavailable'')) (\<lambda>e. ret (result, Some e)) (\<lambda>_.
     seqP lookup_text (\<lambda>evidence. case evidence of
       Inl _ \<Rightarrow> ret (result, Some Failure)
     | Inr observed \<Rightarrow>
         if observed \<noteq> [] then
           (let a = observed_attempt a observed in
            handleP (replace_send_attempt a)
              (\<lambda>_. ret (result_for_reconcile a, Some (OpError ''send_reconcile_state_failed'')))
              (\<lambda>_. finish_observed_send a True))
         else if sa_outcome a = SendAccepted then ret (result, Some (OpError ''send_not_observed''))
         else ret (result, Some (OpError ''send_outcome_unknown'')))))"

definition reconcile_attempt :: "send_attempt \<Rightarrow> outcome prog" where
  "reconcile_attempt a =
     (if sa_outcome a = SendObserved \<or> sa_outcome a = SendSent then
        seqP (replay_send_attempt a) (\<lambda>r. ret ((fst r)\<lparr>rs_reconciled := True\<rparr>, snd r))
      else if sa_outcome a = SendMirrorPending then reconcile_mirror_pending a
      else if sa_baseline a = None then
        (if sa_outcome a \<noteq> SendUnknown \<or> sa_message_id a = []
         then ret (result_for_reconcile a, Some (OpError ''send_reconcile_unavailable''))
         else reconcile_unknown a)
      else reconcile_baseline a)"

definition reconcile_loaded :: "loaded_draft \<Rightarrow> outcome prog" where
  "reconcile_loaded l = (case ld_send l of
      Some a \<Rightarrow> reconcile_attempt a
    | None \<Rightarrow> handleP read_active_receipt (\<lambda>e. failR e) (\<lambda>r. case r of
        None \<Rightarrow> failR (OpError ''send_reconcile_unavailable'')
      | Some r \<Rightarrow> (let result = (result_for_receipt r)\<lparr>rs_reconciled := True\<rparr> in
          handleP discard_draft_files (\<lambda>_. ret (result, Some (OpError ''send_cleanup_failed'')))
            (\<lambda>_. ret (result\<lparr>rs_draft_retained := False\<rparr>, None)))))"

definition reconcile_unloaded :: "send_error \<Rightarrow> outcome prog" where
  "reconcile_unloaded e = (if is_not_found e
     then handleP read_active_receipt (\<lambda>re. if is_not_found re then failR e else failR re) (\<lambda>r. case r of
         None \<Rightarrow> failR e
       | Some r \<Rightarrow> finish_from_receipt r True)
     else failR e)"

definition reconcile_draft :: "outcome prog" where
  "reconcile_draft = checkR (askE context_error) (with_draft_lease (seqP
     (checkR (askE context_error) (handleP read_draft_for_mutation reconcile_unloaded reconcile_loaded))
     release_lease))"

section \<open>Updating and discarding\<close>

definition put_draft :: "stored_draft \<Rightarrow> draft_world \<Rightarrow> draft_world" where
  "put_draft d w = w\<lparr>dw_draft := Present d\<rparr>"

text \<open>\<open>UpdateDraftContext\<close>: a draft with any claim is not updated.\<close>

definition update_loaded :: "string \<Rightarrow> stored_draft \<Rightarrow> loaded_draft \<Rightarrow> outcome prog" where
  "update_loaded expected replacement l =
     checkR (askE context_error) (
     guardP (require_revision expected (dr_revision (ld_draft l))) (
     guardP (reject_claimed l) (
     checkR (askE Validation) (
     checkR (askE context_error) (
     checkR (askE Failure) (
     checkR (effectE (put_draft replacement)) (ret (no_result, None))))))))"

definition update_draft :: "string \<Rightarrow> stored_draft \<Rightarrow> outcome prog" where
  "update_draft expected replacement = checkR (askE context_error) (with_draft_lease (seqP
     (handleP read_draft_for_mutation (\<lambda>e. failR e) (update_loaded expected replacement))
     release_lease))"

definition discard_draft :: "outcome prog" where
  "discard_draft = checkR (askE context_error) (with_draft_lease (
     seqP (checkR (askE context_error) (checkR discard_draft_files (ret (no_result, None)))) release_lease))"

section \<open>Sequences of operations\<close>

datatype draft_operation =
    Send string
  | Reconcile
  | Update string stored_draft
  | Discard

fun run_operation :: "draft_operation \<Rightarrow> outcome prog" where
  "run_operation (Send expected) = send_draft expected"
| "run_operation Reconcile = reconcile_draft"
| "run_operation (Update expected d) = update_draft expected d"
| "run_operation Discard = discard_draft"

text \<open>Any number of operations of any number of processes, each of which may die.\<close>

definition run_operations :: "draft_operation list \<Rightarrow> draft_world \<Rightarrow> draft_world" where
  "run_operations ops w = fold (\<lambda>op w. snd (run_operation op w)) ops w"

end
