(* ===== verification/Draft_Protocol.thy ===== *)
theory Draft_Protocol
  imports Draft_Send
begin

text \<open>
  The abstract protocol of a draft: which durable transitions an operation may make, each with the
  guard that makes it safe, whatever faults and crashes occur. \<open>Draft_Send_Proofs\<close> shows that the
  operations of the code only make these transitions; here are the invariants the transitions keep.

  Two switches describe the environment. \<open>closes\<close>: closing the local message reader after a
  successful APPEND does not fail. \<open>tamper\<close>: what other processes do to the files of a message.
\<close>

section \<open>The environment\<close>

text \<open>
  The files of a message are left alone; or the recovery spool is replaced between the operations,
  which the check of its digest finds; or a file is also rewritten in place while it is streamed, which
  nothing finds.
\<close>

datatype interference = Undisturbed | Replaces | Rewrites

fun rewritten_file :: "answer \<Rightarrow> bool" where
  "rewritten_file (Rewritten _) = True"
| "rewritten_file _ = False"

section \<open>Events that may have reached a server\<close>

fun risky_submission :: "send_event \<Rightarrow> bool" where
  "risky_submission (Submitted _ v) = (v \<noteq> Refused)"
| "risky_submission (Appended _ _) = False"

fun risky_append :: "send_event \<Rightarrow> bool" where
  "risky_append (Appended _ v) = (v \<noteq> Refused)"
| "risky_append (Submitted _ _) = False"

fun is_append :: "send_event \<Rightarrow> bool" where
  "is_append (Appended _ _) = True"
| "is_append (Submitted _ _) = False"

definition submissions :: "send_event list \<Rightarrow> nat" where
  "submissions log = length (filter risky_submission log)"

definition appends :: "send_event list \<Rightarrow> nat" where
  "appends log = length (filter risky_append log)"

text \<open>Only refused submissions: the message has not left.\<close>

definition clean_log :: "send_event list \<Rightarrow> bool" where
  "clean_log log \<longleftrightarrow> (\<forall>e \<in> set log. \<not> risky_submission e \<and> \<not> is_append e)"

text \<open>The claim forbids a further APPEND.\<close>

definition append_blocked :: "send_attempt \<Rightarrow> bool" where
  "append_blocked a \<longleftrightarrow> te_mirror_unknown (evidence_of a) \<or> sa_outcome a = SendSent \<or> sa_outcome a = SendObserved"

text \<open>The claim records the size and the digest of the message.\<close>

definition spool_covers :: "accepted_spool option \<Rightarrow> string \<Rightarrow> bool" where
  "spool_covers s m = (case s of None \<Rightarrow> False
     | Some sp \<Rightarrow> sp_size sp = length m \<and> digest_matches m (sp_sha sp))"

abbreviation claim_covers :: "send_attempt \<Rightarrow> string \<Rightarrow> bool" where
  "claim_covers a \<equiv> spool_covers (sa_spool a)"

definition fresh_claim :: "send_attempt \<Rightarrow> bool" where
  "fresh_claim a \<longleftrightarrow> sa_outcome a = SendUnknown \<and> \<not> sa_invocation_started a \<and> sa_transport a = None"

text \<open>A successful APPEND whose reader could not be closed.\<close>

fun close_failure :: "answer \<Rightarrow> bool" where
  "close_failure (MirrorReply Accepted _ _ _ _ closed) = (\<not> closed)"
| "close_failure _ = False"

section \<open>The protocol\<close>

inductive protocol :: "bool \<Rightarrow> interference \<Rightarrow> draft_world \<Rightarrow> draft_world \<Rightarrow> bool" for closes tamper where
  answer: "set as \<subseteq> set (dw_oracle w) \<Longrightarrow> protocol closes tamper w (w\<lparr>dw_oracle := as\<rparr>)"
| claim: "dw_draft w \<noteq> Absent \<Longrightarrow> dw_claim w = Absent \<Longrightarrow> fresh_claim a \<Longrightarrow> dw_spool w = Present m
    \<Longrightarrow> claim_covers a m \<Longrightarrow> protocol closes tamper w (put_claim a w)"
| tear: "dw_draft w \<noteq> Absent \<Longrightarrow> dw_claim w = Absent \<Longrightarrow> protocol closes tamper w (tear_claim w)"
| submit: "dw_draft w \<noteq> Absent \<Longrightarrow> dw_claim w = Present a \<Longrightarrow> fresh_claim a
    \<Longrightarrow> (tamper \<noteq> Rewrites \<Longrightarrow> claim_covers a m \<and> dw_spool w = Present m) \<Longrightarrow> clean_log (dw_log w)
    \<Longrightarrow> protocol closes tamper w (log_event (Submitted m v) w)"
| release: "dw_claim w = Present a \<Longrightarrow> clean_log (dw_log w) \<Longrightarrow> protocol closes tamper w (drop_claim w)"
| advance: "dw_claim w = Present a \<Longrightarrow> sa_spool a' = sa_spool a
    \<Longrightarrow> (closes \<Longrightarrow> 0 < appends (dw_log w) \<Longrightarrow> append_blocked a')
    \<Longrightarrow> protocol closes tamper w (put_claim a' w)"
| append: "dw_draft w \<noteq> Absent \<Longrightarrow> dw_claim w = Present a \<Longrightarrow> append_blocked a
    \<Longrightarrow> (tamper \<noteq> Rewrites \<Longrightarrow> claim_covers a m) \<Longrightarrow> (closes \<Longrightarrow> appends (dw_log w) = 0)
    \<Longrightarrow> protocol closes tamper w (log_event (Appended m v) w)"
| discard: "protocol closes tamper w (drop_draft w)"
| clear: "dw_draft w = Absent \<Longrightarrow> protocol closes tamper w (drop_claim w)"
| edit: "dw_draft w \<noteq> Absent \<Longrightarrow> dw_claim w = Absent \<Longrightarrow> protocol closes tamper w (put_draft d w)"
| retain: "dw_spool w = Absent \<Longrightarrow> protocol closes tamper w (put_spool m w)"
| forget: "dw_draft w = Absent \<or> dw_claim w = Absent \<or> clean_log (dw_log w)
    \<Longrightarrow> protocol closes tamper w (drop_spool w)"
| tampered: "tamper \<noteq> Undisturbed \<Longrightarrow> protocol closes tamper w (w\<lparr>dw_spool := s\<rparr>)"
| receipt: "dw_receipt w = Absent \<Longrightarrow> valid_send_receipt r \<Longrightarrow> protocol closes tamper w (put_receipt r w)"
| torn_receipt: "dw_receipt w = Absent \<Longrightarrow> protocol closes tamper w (tear_receipt w)"
| save_claim: "protocol closes tamper w (drop_save_claim w)"
| handoff: "protocol closes tamper w (drop_handoff w)"

section \<open>Its invariant\<close>

definition same_message :: "string \<Rightarrow> string \<Rightarrow> bool" where
  "same_message m m' \<longleftrightarrow> length m = length m' \<and> sha256 m = sha256 m'"

text \<open>The messages that may have reached a server.\<close>

definition carried :: "send_event list \<Rightarrow> string set" where
  "carried log = {m. \<exists>v. Submitted m v \<in> set log \<and> v \<noteq> Refused \<or> Appended m v \<in> set log}"

definition undisturbed_oracle :: "interference \<Rightarrow> draft_world \<Rightarrow> bool" where
  "undisturbed_oracle tamper w \<longleftrightarrow> (tamper \<noteq> Rewrites \<longrightarrow> (\<forall>a \<in> set (dw_oracle w). \<not> rewritten_file a))"

definition at_most_once :: "bool \<Rightarrow> draft_world \<Rightarrow> bool" where
  "at_most_once closes w \<longleftrightarrow> submissions (dw_log w) \<le> 1 \<and> (closes \<longrightarrow> appends (dw_log w) \<le> 1)
     \<and> (closes \<longrightarrow> (\<forall>a \<in> set (dw_oracle w). \<not> close_failure a))"

definition claim_guards :: "bool \<Rightarrow> interference \<Rightarrow> draft_world \<Rightarrow> bool" where
  "claim_guards closes tamper w \<longleftrightarrow> dw_draft w \<noteq> Absent \<longrightarrow>
     (dw_claim w = Absent \<longrightarrow> clean_log (dw_log w))
     \<and> (\<forall>a. dw_claim w = Present a \<longrightarrow> (tamper \<noteq> Rewrites \<longrightarrow> (\<forall>m \<in> carried (dw_log w). claim_covers a m))
          \<and> (closes \<and> 0 < appends (dw_log w) \<longrightarrow> append_blocked a))"

definition one_message :: "interference \<Rightarrow> draft_world \<Rightarrow> bool" where
  "one_message tamper w \<longleftrightarrow> (tamper \<noteq> Rewrites \<longrightarrow> (\<forall>m \<in> carried (dw_log w). \<forall>m' \<in> carried (dw_log w). same_message m m'))"

definition retained :: "interference \<Rightarrow> draft_world \<Rightarrow> bool" where
  "retained tamper w \<longleftrightarrow> (tamper = Undisturbed \<and> dw_draft w \<noteq> Absent \<longrightarrow>
     (\<forall>m v. Submitted m v \<in> set (dw_log w) \<and> v \<noteq> Refused \<longrightarrow> dw_spool w = Present m))"

definition protocol_inv :: "bool \<Rightarrow> interference \<Rightarrow> draft_world \<Rightarrow> bool" where
  "protocol_inv closes tamper w \<longleftrightarrow>
     at_most_once closes w \<and> claim_guards closes tamper w \<and> one_message tamper w \<and> retained tamper w
     \<and> undisturbed_oracle tamper w"

section \<open>Fields of the updated world\<close>

lemma draft_updates [simp]:
  "dw_draft (put_claim a w) = dw_draft w" "dw_draft (tear_claim w) = dw_draft w"
  "dw_draft (drop_claim w) = dw_draft w" "dw_draft (put_spool m w) = dw_draft w"
  "dw_draft (drop_spool w) = dw_draft w" "dw_draft (put_receipt r w) = dw_draft w"
  "dw_draft (tear_receipt w) = dw_draft w" "dw_draft (drop_draft w) = Absent"
  "dw_draft (drop_save_claim w) = dw_draft w" "dw_draft (drop_handoff w) = dw_draft w"
  "dw_draft (put_draft d w) = Present d" "dw_draft (log_event e w) = dw_draft w"
  by (simp_all add: put_claim_def tear_claim_def drop_claim_def put_spool_def drop_spool_def put_receipt_def
      tear_receipt_def drop_draft_def drop_save_claim_def drop_handoff_def put_draft_def log_event_def)

lemma claim_updates [simp]:
  "dw_claim (put_claim a w) = Present a" "dw_claim (tear_claim w) = Corrupt"
  "dw_claim (drop_claim w) = Absent" "dw_claim (put_spool m w) = dw_claim w"
  "dw_claim (drop_spool w) = dw_claim w" "dw_claim (put_receipt r w) = dw_claim w"
  "dw_claim (tear_receipt w) = dw_claim w" "dw_claim (drop_draft w) = dw_claim w"
  "dw_claim (drop_save_claim w) = dw_claim w" "dw_claim (drop_handoff w) = dw_claim w"
  "dw_claim (put_draft d w) = dw_claim w" "dw_claim (log_event e w) = dw_claim w"
  by (simp_all add: put_claim_def tear_claim_def drop_claim_def put_spool_def drop_spool_def put_receipt_def
      tear_receipt_def drop_draft_def drop_save_claim_def drop_handoff_def put_draft_def log_event_def)

lemma spool_updates [simp]:
  "dw_spool (put_claim a w) = dw_spool w" "dw_spool (tear_claim w) = dw_spool w"
  "dw_spool (drop_claim w) = dw_spool w" "dw_spool (put_spool m w) = Present m"
  "dw_spool (drop_spool w) = Absent" "dw_spool (put_receipt r w) = dw_spool w"
  "dw_spool (tear_receipt w) = dw_spool w" "dw_spool (drop_draft w) = dw_spool w"
  "dw_spool (drop_save_claim w) = dw_spool w" "dw_spool (drop_handoff w) = dw_spool w"
  "dw_spool (put_draft d w) = dw_spool w" "dw_spool (log_event e w) = dw_spool w"
  by (simp_all add: put_claim_def tear_claim_def drop_claim_def put_spool_def drop_spool_def put_receipt_def
      tear_receipt_def drop_draft_def drop_save_claim_def drop_handoff_def put_draft_def log_event_def)

lemma receipt_updates [simp]:
  "dw_receipt (put_claim a w) = dw_receipt w" "dw_receipt (tear_claim w) = dw_receipt w"
  "dw_receipt (drop_claim w) = dw_receipt w" "dw_receipt (put_spool m w) = dw_receipt w"
  "dw_receipt (drop_spool w) = dw_receipt w" "dw_receipt (put_receipt r w) = Present r"
  "dw_receipt (tear_receipt w) = Corrupt" "dw_receipt (drop_draft w) = dw_receipt w"
  "dw_receipt (drop_save_claim w) = dw_receipt w" "dw_receipt (drop_handoff w) = dw_receipt w"
  "dw_receipt (put_draft d w) = dw_receipt w" "dw_receipt (log_event e w) = dw_receipt w"
  by (simp_all add: put_claim_def tear_claim_def drop_claim_def put_spool_def drop_spool_def put_receipt_def
      tear_receipt_def drop_draft_def drop_save_claim_def drop_handoff_def put_draft_def log_event_def)

lemma log_updates [simp]:
  "dw_log (put_claim a w) = dw_log w" "dw_log (tear_claim w) = dw_log w"
  "dw_log (drop_claim w) = dw_log w" "dw_log (put_spool m w) = dw_log w"
  "dw_log (drop_spool w) = dw_log w" "dw_log (put_receipt r w) = dw_log w"
  "dw_log (tear_receipt w) = dw_log w" "dw_log (drop_draft w) = dw_log w"
  "dw_log (drop_save_claim w) = dw_log w" "dw_log (drop_handoff w) = dw_log w"
  "dw_log (put_draft d w) = dw_log w" "dw_log (log_event e w) = dw_log w @ [e]"
  by (simp_all add: put_claim_def tear_claim_def drop_claim_def put_spool_def drop_spool_def put_receipt_def
      tear_receipt_def drop_draft_def drop_save_claim_def drop_handoff_def put_draft_def log_event_def)

lemma oracle_updates [simp]:
  "dw_oracle (put_claim a w) = dw_oracle w" "dw_oracle (tear_claim w) = dw_oracle w"
  "dw_oracle (drop_claim w) = dw_oracle w" "dw_oracle (put_spool m w) = dw_oracle w"
  "dw_oracle (drop_spool w) = dw_oracle w" "dw_oracle (put_receipt r w) = dw_oracle w"
  "dw_oracle (tear_receipt w) = dw_oracle w" "dw_oracle (drop_draft w) = dw_oracle w"
  "dw_oracle (drop_save_claim w) = dw_oracle w" "dw_oracle (drop_handoff w) = dw_oracle w"
  "dw_oracle (put_draft d w) = dw_oracle w" "dw_oracle (log_event e w) = dw_oracle w"
  by (simp_all add: put_claim_def tear_claim_def drop_claim_def put_spool_def drop_spool_def put_receipt_def
      tear_receipt_def drop_draft_def drop_save_claim_def drop_handoff_def put_draft_def log_event_def)

section \<open>Logs and digests\<close>

lemma submissions_snoc [simp]:
  "submissions (log @ [e]) = submissions log + (if risky_submission e then 1 else 0)"
  by (simp add: submissions_def)

lemma appends_snoc [simp]: "appends (log @ [e]) = appends log + (if risky_append e then 1 else 0)"
  by (simp add: appends_def)

lemma clean_log_counts: "clean_log log \<Longrightarrow> submissions log = 0 \<and> appends log = 0 \<and> carried log = {}"
proof -
  assume c: "clean_log log"
  have "\<not> risky_append e" if "e \<in> set log" for e
    using c that by (cases e) (auto simp: clean_log_def)
  then show ?thesis
    using c by (force simp: clean_log_def submissions_def appends_def carried_def filter_empty_conv)
qed

lemma clean_log_carried: "clean_log log \<longleftrightarrow> carried log = {}"
proof
  assume "carried log = {}"
  then have "\<not> risky_submission e \<and> \<not> is_append e" if "e \<in> set log" for e
    using that by (cases e) (auto simp: carried_def)
  then show "clean_log log" by (simp add: clean_log_def)
qed (simp add: clean_log_counts)

lemma carried_snoc [simp]:
  "carried (log @ [Submitted m v]) = (if v = Refused then carried log else insert m (carried log))"
  "carried (log @ [Appended m v]) = insert m (carried log)"
  by (auto simp: carried_def)

lemma clean_log_Nil [simp]: "clean_log []"
  by (simp add: clean_log_def)

lemma hex_digit_value: "n < 16 \<Longrightarrow> hex_value (hex_digit n) = Some n \<and> lower_byte (hex_digit n) = hex_digit n"
  by (cases "n < 10") (auto simp: hex_digit_def hex_value_def lower_byte_def is_upper_def Let_def)

lemma nibbles: "byte_val c div 16 < 16" "byte_val c mod 16 < 16"
  using byte_val_less [of c] by linarith+

lemma decode_encode_hex [simp]: "decode_hex (encode_hex s) = Some s"
  by (induction s) (simp_all add: hex_digit_value nibbles)

lemma encode_hex_lower [simp]: "map lower_byte (encode_hex s) = encode_hex s"
  by (induction s) (simp_all add: hex_digit_value nibbles)

lemma digest_matches_unique:
  "digest_matches m sha \<Longrightarrow> digest_matches m' sha \<Longrightarrow> sha256 m = sha256 m'"
  unfolding digest_matches_def by (metis decode_encode_hex encode_hex_lower option.inject)

lemma spool_covers_same: "spool_covers s m \<Longrightarrow> spool_covers s m' \<Longrightarrow> same_message m m'"
  by (auto simp: spool_covers_def same_message_def split: option.splits dest: digest_matches_unique)

section \<open>Preservation\<close>

lemma protocol_at_most_once:
  "protocol closes tamper w w' \<Longrightarrow> protocol_inv closes tamper w \<Longrightarrow> at_most_once closes w'"
  by (induction rule: protocol.induct)
    (auto simp: protocol_inv_def at_most_once_def dest: clean_log_counts)

lemma carried_empty_appends: "carried log = {} \<Longrightarrow> appends log = 0"
  by (simp add: clean_log_counts flip: clean_log_carried)

lemma protocol_claim_guards:
  assumes "protocol closes tamper w w'" "protocol_inv closes tamper w"
  shows "claim_guards closes tamper w'"
proof -
  have "claim_guards closes tamper w" using assms(2) by (simp add: protocol_inv_def)
  with assms(1) show ?thesis
    by (cases rule: protocol.cases)
      (simp_all add: claim_guards_def clean_log_carried carried_empty_appends)
qed

lemma same_message_refl [simp]: "same_message m m"
  by (simp add: same_message_def)

lemma one_message_covered:
  "(\<And>m. tamper \<noteq> Rewrites \<Longrightarrow> m \<in> carried (dw_log w) \<Longrightarrow> spool_covers s m) \<Longrightarrow> one_message tamper w"
  unfolding one_message_def by (blast intro: spool_covers_same)

lemma one_message_same_log: "one_message tamper w \<Longrightarrow> dw_log w' = dw_log w \<Longrightarrow> one_message tamper w'"
  by (simp add: one_message_def)

lemma protocol_one_message:
  assumes "protocol closes tamper w w'" "protocol_inv closes tamper w"
  shows "one_message tamper w'"
proof -
  have one: "one_message tamper w" and guards: "claim_guards closes tamper w" using assms(2) by (simp_all add: protocol_inv_def)
  from assms(1) show ?thesis
  proof (cases rule: protocol.cases)
    case (submit a m v)
    then show ?thesis by (simp add: one_message_def clean_log_carried)
  next
    case (append a m v)
    then have "spool_covers (sa_spool a) x" if "tamper \<noteq> Rewrites" "x \<in> carried (dw_log w')" for x
      using guards that by (auto simp: claim_guards_def)
    then show ?thesis by (rule one_message_covered)
  qed (use one in \<open>simp_all add: one_message_def\<close>)
qed

lemma retained_carried:
  "carried log = {} \<Longrightarrow> Submitted m v \<in> set log \<Longrightarrow> v = Refused"
  by (auto simp: carried_def)

lemma protocol_retained:
  assumes "protocol closes tamper w w'" "protocol_inv closes tamper w"
  shows "retained tamper w'"
proof -
  have "retained tamper w" "claim_guards closes tamper w" using assms(2) by (simp_all add: protocol_inv_def)
  with assms(1) show ?thesis
    by (cases rule: protocol.cases)
      (auto simp: retained_def claim_guards_def clean_log_carried dest: retained_carried)
qed

lemma protocol_oracle: "protocol closes tamper w w' \<Longrightarrow> set (dw_oracle w') \<subseteq> set (dw_oracle w)"
  by (cases rule: protocol.cases) auto

lemma protocol_undisturbed:
  "protocol closes tamper w w' \<Longrightarrow> protocol_inv closes tamper w \<Longrightarrow> undisturbed_oracle tamper w'"
  using protocol_oracle [of closes tamper w w'] by (auto simp: protocol_inv_def undisturbed_oracle_def)

lemma protocol_inv_step:
  "protocol closes tamper w w' \<Longrightarrow> protocol_inv closes tamper w \<Longrightarrow> protocol_inv closes tamper w'"
  by (simp add: protocol_inv_def [of closes tamper w'] protocol_at_most_once protocol_claim_guards
      protocol_one_message protocol_retained protocol_undisturbed)

end
