(* ===== verification/Draft_Triples.thy ===== *)
theory Draft_Triples
  imports Draft_Protocol
begin

text \<open>
  A logic of programs that may die at any step: \<open>triple P m Q\<close> says that \<open>m\<close> only makes transitions
  of the protocol, whether it dies or returns, and establishes \<open>Q\<close> when it returns. Its rules follow
  the constructors of programs; the rules of the reads, the spool and the removal of a draft are
  proved here once for all operations.
\<close>

section \<open>Runs and their transitions\<close>

definition moves :: "bool \<Rightarrow> interference \<Rightarrow> draft_world \<Rightarrow> draft_world \<Rightarrow> bool" where
  "moves cl tm = rtranclp (protocol cl tm)"

lemma moves_refl [simp, intro]: "moves cl tm w w"
  by (simp add: moves_def)

lemma moves_step [intro]: "protocol cl tm w w' \<Longrightarrow> moves cl tm w w'"
  by (simp add: moves_def r_into_rtranclp)

lemma moves_trans [trans]: "moves cl tm w w' \<Longrightarrow> moves cl tm w' w'' \<Longrightarrow> moves cl tm w w''"
  by (simp add: moves_def)

lemma moves_inv: "moves cl tm w w' \<Longrightarrow> protocol_inv cl tm w \<Longrightarrow> protocol_inv cl tm w'"
  unfolding moves_def by (induction rule: rtranclp_induct) (auto intro: protocol_inv_step)

text \<open>
  \<open>triple cl tm P m Q\<close>: from a world with the invariant and \<open>P\<close>, the program \<open>m\<close> only makes protocol
  transitions, up to the point where it dies, and establishes \<open>Q\<close> when it returns.
\<close>

definition triple ::
    "bool \<Rightarrow> interference \<Rightarrow> (draft_world \<Rightarrow> bool) \<Rightarrow> 'a prog \<Rightarrow> ('a \<Rightarrow> draft_world \<Rightarrow> bool) \<Rightarrow> bool" where
  "triple cl tm P m Q \<longleftrightarrow> (\<forall>w. protocol_inv cl tm w \<and> P w \<longrightarrow>
     moves cl tm w (snd (m w)) \<and> (\<forall>x. fst (m w) = Done x \<longrightarrow> Q x (snd (m w))))"

lemma tripleI:
  "(\<And>w. protocol_inv cl tm w \<Longrightarrow> P w \<Longrightarrow> moves cl tm w (snd (m w)) \<and> (\<forall>x. fst (m w) = Done x \<longrightarrow> Q x (snd (m w))))
    \<Longrightarrow> triple cl tm P m Q"
  by (simp add: triple_def)

lemma tripleD:
  "triple cl tm P m Q \<Longrightarrow> protocol_inv cl tm w \<Longrightarrow> P w
    \<Longrightarrow> moves cl tm w (snd (m w)) \<and> (\<forall>x. fst (m w) = Done x \<longrightarrow> Q x (snd (m w)))"
  by (simp add: triple_def)

lemma triple_conseq:
  "triple cl tm P m Q \<Longrightarrow> (\<And>w. protocol_inv cl tm w \<Longrightarrow> P' w \<Longrightarrow> P w) \<Longrightarrow> (\<And>x w. protocol_inv cl tm w \<Longrightarrow> Q x w \<Longrightarrow> Q' x w)
    \<Longrightarrow> triple cl tm P' m Q'"
  unfolding triple_def by (meson moves_inv)

lemma triple_pre: "triple cl tm P m Q \<Longrightarrow> (\<And>w. protocol_inv cl tm w \<Longrightarrow> P' w \<Longrightarrow> P w) \<Longrightarrow> triple cl tm P' m Q"
  by (erule triple_conseq) simp_all

lemma triple_post: "triple cl tm P m Q \<Longrightarrow> (\<And>x w. Q x w \<Longrightarrow> Q' x w) \<Longrightarrow> triple cl tm P m Q'"
  by (erule triple_conseq) simp_all

lemma triple_top: "triple cl tm P m Q \<Longrightarrow> triple cl tm P m (\<lambda>_ _. True)"
  by (erule triple_post) simp

lemma triple_ret: "(\<And>w. protocol_inv cl tm w \<Longrightarrow> P w \<Longrightarrow> Q x w) \<Longrightarrow> triple cl tm P (ret x) Q"
  by (rule tripleI) (simp add: ret_def)

lemma triple_getP: "(\<And>x. triple cl tm (\<lambda>w. P w \<and> f w = x) (k x) Q) \<Longrightarrow> triple cl tm P (seqP (getP f) k) Q"
  unfolding triple_def by (simp add: seqP_def getP_def)

lemma triple_crash: "triple cl tm P crash Q"
  by (rule tripleI) (simp add: crash_def)

lemma triple_update: "(\<And>w. protocol_inv cl tm w \<Longrightarrow> P w \<Longrightarrow> moves cl tm w (f w) \<and> Q () (f w)) \<Longrightarrow> triple cl tm P (update f) Q"
  by (rule tripleI) (simp add: update_def)

lemma triple_seqP:
  assumes "triple cl tm P m R" "\<And>x. triple cl tm (R x) (f x) Q"
  shows "triple cl tm P (seqP m f) Q"
proof (rule tripleI)
  fix w assume w: "protocol_inv cl tm w" "P w"
  obtain r w' where m: "m w = (r, w')" by (cases "m w")
  note 1 = tripleD [OF assms(1) w, unfolded m, simplified]
  show "moves cl tm w (snd (seqP m f w)) \<and> (\<forall>x. fst (seqP m f w) = Done x \<longrightarrow> Q x (snd (seqP m f w)))"
  proof (cases r)
    case (Done x)
    then have "moves cl tm w w'" "R x w'" using 1 by simp_all
    moreover have "protocol_inv cl tm w'" using \<open>moves cl tm w w'\<close> w(1) by (rule moves_inv)
    ultimately show ?thesis using tripleD [OF assms(2), of w' x] Done m
      by (auto simp: seqP_def intro: moves_trans)
  next
    case Crashed
    then show ?thesis using 1 m by (simp add: seqP_def)
  qed
qed

lemma triple_handleP:
  assumes "triple cl tm P m R"
    and "\<And>e. triple cl tm (R (Inl e)) (h e) Q" "\<And>x. triple cl tm (R (Inr x)) (k x) Q"
  shows "triple cl tm P (handleP m h k) Q"
  unfolding handleP_def using assms(1)
proof (rule triple_seqP)
  show "triple cl tm (R r) (case r of Inl e \<Rightarrow> h e | Inr x \<Rightarrow> k x) Q" for r
    by (cases r) (simp_all add: assms)
qed

section \<open>Checks\<close>

text \<open>An assertion that does not read the oracle.\<close>

definition stable :: "(draft_world \<Rightarrow> bool) \<Rightarrow> bool" where
  "stable P \<longleftrightarrow> (\<forall>w as. P w \<longrightarrow> P (w\<lparr>dw_oracle := as\<rparr>))"

named_theorems stable_intros "assertions that do not read the oracle"

lemma stableD: "stable P \<Longrightarrow> P w \<Longrightarrow> P (w\<lparr>dw_oracle := as\<rparr>)"
  by (simp add: stable_def)

lemma next_answer_moves: "moves cl tm w (snd (next_answer w))"
proof (cases "dw_oracle w")
  case (Cons a as)
  then have "protocol cl tm w (w\<lparr>dw_oracle := as\<rparr>)" by (intro protocol.answer) auto
  then show ?thesis using Cons by (auto simp: next_answer_def)
qed (simp add: next_answer_def)

lemma next_answer_fields:
  "snd (next_answer w) = w \<or> (\<exists>as. snd (next_answer w) = w\<lparr>dw_oracle := as\<rparr>)"
  by (cases "dw_oracle w") (auto simp: next_answer_def)

lemma next_answer_in: "fst (next_answer w) = Done a \<Longrightarrow> a = Yes \<or> a \<in> set (dw_oracle w)"
  by (cases "dw_oracle w") (auto simp: next_answer_def split: answer.splits)

lemma triple_next_answer:
  assumes "stable P"
  shows "triple cl tm P next_answer (\<lambda>a w. P w \<and> (cl \<longrightarrow> \<not> close_failure a) \<and> (tm \<noteq> Rewrites \<longrightarrow> \<not> rewritten_file a))"
proof (rule tripleI)
  fix w assume w: "protocol_inv cl tm w" "P w"
  have "P (snd (next_answer w))" using next_answer_fields [of w] w(2) stableD [OF assms] by auto
  moreover have "\<not> close_failure a" if "cl" "fst (next_answer w) = Done a" for a
    using next_answer_in [OF that(2)] w(1) that(1) by (auto simp: protocol_inv_def at_most_once_def)
  moreover have "\<not> rewritten_file a" if "tm \<noteq> Rewrites" "fst (next_answer w) = Done a" for a
    using next_answer_in [OF that(2)] w(1) that(1) by (auto simp: protocol_inv_def undisturbed_oracle_def)
  ultimately show "moves cl tm w (snd (next_answer w)) \<and>
      (\<forall>x. fst (next_answer w) = Done x \<longrightarrow> P (snd (next_answer w)) \<and> (cl \<longrightarrow> \<not> close_failure x)
        \<and> (tm \<noteq> Rewrites \<longrightarrow> \<not> rewritten_file x))"
    by (simp add: next_answer_moves)
qed

lemma triple_answered:
  assumes "stable P" "\<And>a. triple cl tm P (f a) Q"
  shows "triple cl tm P (seqP next_answer f) Q"
  by (rule triple_seqP [OF triple_next_answer [OF assms(1)]], rule triple_pre [OF assms(2)]) simp

lemma triple_ask: "stable P \<Longrightarrow> triple cl tm P ask (\<lambda>_. P)"
  unfolding ask_def by (erule triple_answered) (rule triple_ret)

lemma triple_askE: "stable P \<Longrightarrow> triple cl tm P (askE e) (\<lambda>_. P)"
  unfolding askE_def by (rule triple_seqP [OF triple_ask]) (simp_all add: triple_ret)

lemma triple_ask_text: "stable P \<Longrightarrow> triple cl tm P ask_text (\<lambda>_. P)"
  unfolding ask_text_def by (erule triple_answered) (simp add: triple_ret split: answer.splits)

lemma triple_ask_identity: "stable P \<Longrightarrow> triple cl tm P ask_identity (\<lambda>_. P)"
  unfolding ask_identity_def by (erule triple_answered) (simp add: triple_ret split: answer.splits)

lemma triple_lookup_text: "stable P \<Longrightarrow> triple cl tm P lookup_text (\<lambda>_. P)"
  unfolding lookup_text_def by (erule triple_answered) (simp add: triple_ret split: answer.splits)

lemma triple_search_sent: "stable P \<Longrightarrow> triple cl tm P search_sent (\<lambda>_. P)"
  unfolding search_sent_def by (erule triple_answered) (simp add: triple_ret split: answer.splits)

text \<open>Sequencing after a step that keeps the assertion.\<close>

lemma triple_checked:
  assumes "triple cl tm P m (\<lambda>_. P)" "\<And>e. triple cl tm P (h e) Q" "\<And>x. triple cl tm P (k x) Q"
  shows "triple cl tm P (handleP m h k) Q"
  using assms by (rule triple_handleP)

lemma triple_seq_keep:
  assumes "triple cl tm P m (\<lambda>_. P)" "\<And>x. triple cl tm P (f x) Q"
  shows "triple cl tm P (seqP m f) Q"
  using assms by (rule triple_seqP)

lemma triple_effect:
  assumes "stable P"
    and "\<And>w. protocol_inv cl tm w \<Longrightarrow> P w \<Longrightarrow> moves cl tm w (full w) \<and> Q True (full w) \<and> Q False (full w)"
    and "\<And>w. protocol_inv cl tm w \<Longrightarrow> P w \<Longrightarrow> moves cl tm w (torn w) \<and> Q False (torn w)"
    and "\<And>w. protocol_inv cl tm w \<Longrightarrow> P w \<Longrightarrow> Q False w"
  shows "triple cl tm P (effect full torn) Q"
proof -
  have full: "triple cl tm P (update full) (\<lambda>_ w. Q True w \<and> Q False w)" 
    by (rule triple_update) (simp add: assms(2))
  have torn: "triple cl tm P (update torn) (\<lambda>_. Q False)"
    by (rule triple_update) (simp add: assms(3))
  have r: "triple cl tm (\<lambda>w. Q True w \<and> Q False w) (ret b) Q" for b
    by (cases b) (auto intro!: triple_ret)
  have f: "triple cl tm (Q False) (ret False) Q" by (simp add: triple_ret)
  show ?thesis
    unfolding effect_def
    by (rule triple_answered [OF assms(1)])
      (auto intro!: triple_seqP [OF full] triple_seqP [OF torn] triple_crash r f triple_ret
        intro: assms(4) split: answer.splits)
qed

lemma triple_effectE:
  assumes "stable P"
    and "\<And>w. protocol_inv cl tm w \<Longrightarrow> P w \<Longrightarrow> moves cl tm w (full w) \<and> Q (Inr ()) (full w) \<and> Q (Inl Failure) (full w)"
    and "\<And>w. protocol_inv cl tm w \<Longrightarrow> P w \<Longrightarrow> Q (Inl Failure) w"
  shows "triple cl tm P (effectE full) Q"
  unfolding effectE_def
proof (rule triple_seqP)
  show "triple cl tm P (effect full id) (\<lambda>ok. if ok then Q (Inr ()) else Q (Inl Failure))"
    by (rule triple_effect) (use assms in auto)
qed (simp add: triple_ret)

lemma triple_joinE:
  assumes "triple cl tm P m (\<lambda>_. P)" "triple cl tm P n (\<lambda>_. P)"
  shows "triple cl tm P (joinE m n) (\<lambda>_. P)"
  unfolding joinE_def by (intro triple_checked assms triple_ret)

section \<open>Reading\<close>

definition top :: "draft_world \<Rightarrow> bool" where
  "top w = True"

definition gone :: "draft_world \<Rightarrow> bool" where
  "gone w \<longleftrightarrow> dw_draft w = Absent"

definition unclaimed :: "draft_world \<Rightarrow> bool" where
  "unclaimed w \<longleftrightarrow> dw_draft w \<noteq> Absent \<and> dw_claim w = Absent"

definition at_claim :: "send_attempt \<Rightarrow> (send_event list \<Rightarrow> bool) \<Rightarrow> draft_world \<Rightarrow> bool" where
  "at_claim a L w \<longleftrightarrow> dw_draft w \<noteq> Absent \<and> dw_claim w = Present a \<and> L (dw_log w)"

lemma top_simp [simp]: "top w"
  by (simp add: top_def)

lemma stable_basic [stable_intros, simp]: "stable top" "stable gone" "stable unclaimed" "stable (at_claim a L)"
  by (simp_all add: stable_def gone_def unclaimed_def at_claim_def)

text \<open>A check with its own error.\<close>

lemma triple_askE_handle:
  assumes "stable P" "triple cl tm P (h e) Q" "\<And>u. triple cl tm P (k u) Q"
  shows "triple cl tm P (handleP (askE e) h k) Q"
proof (rule triple_handleP [where R = "\<lambda>r w. P w \<and> (\<forall>e'. r = Inl e' \<longrightarrow> e' = e)"])
  show "triple cl tm P (askE e) (\<lambda>r w. P w \<and> (\<forall>e'. r = Inl e' \<longrightarrow> e' = e))"
    unfolding askE_def by (rule triple_seqP [OF triple_ask [OF assms(1)]]) (simp_all add: triple_ret)
  show "triple cl tm (\<lambda>w. P w \<and> (\<forall>e'. Inl x = Inl e' \<longrightarrow> e' = e)) (h x) Q" for x
    using assms(2) by (cases "x = e") (auto simp: triple_def)
  show "triple cl tm (\<lambda>w. P w \<and> (\<forall>e'. Inr x = Inl e' \<longrightarrow> e' = e)) (k x) Q" for x
    using assms(3) [of x] by simp
qed

lemma triple_read_slot:
  assumes "stable P" "\<And>w as. get (w\<lparr>dw_oracle := as\<rparr>) = get w"
  shows "triple cl tm P (read_slot get valid invalid) (\<lambda>r w. P w \<and> (case r of Inl e \<Rightarrow> e = Failure \<or> e = invalid
    | Inr None \<Rightarrow> get w = Absent | Inr (Some x) \<Rightarrow> get w = Present x \<and> valid x))"
    (is "triple cl tm P _ ?Q")
proof -
  have s: "stable (\<lambda>w. P w \<and> get w = v)" for v using assms by (simp add: stable_def)
  have "triple cl tm (\<lambda>w. P w \<and> get w = v) (if v = Absent then retE None
     else bindE (askE Failure) (\<lambda>_. case v of
         Present x \<Rightarrow> if valid x then bindE (askE invalid) (\<lambda>_. retE (Some x)) else failE invalid
       | _ \<Rightarrow> failE invalid)) ?Q" for v
    by (cases v) (auto intro!: triple_ret triple_askE_handle [OF s])
  then have "triple cl tm P (seqP (getP get) (\<lambda>s. if s = Absent then retE None
     else bindE (askE Failure) (\<lambda>_. case s of
         Present x \<Rightarrow> if valid x then bindE (askE invalid) (\<lambda>_. retE (Some x)) else failE invalid
       | _ \<Rightarrow> failE invalid))) ?Q"
    by (rule triple_getP)
  then show ?thesis
    unfolding read_slot_def
    by (intro triple_askE_handle [OF assms(1)]) (auto intro!: triple_ret)
qed

lemma triple_read_send_attempt:
  "stable P \<Longrightarrow> triple cl tm P read_send_attempt (\<lambda>r w. P w \<and> (case r of Inl e \<Rightarrow> e = Failure
    | Inr None \<Rightarrow> dw_claim w = Absent | Inr (Some a) \<Rightarrow> dw_claim w = Present a))"
  unfolding read_send_attempt_def
  by (rule triple_post [OF triple_read_slot]) (auto split: sum.splits option.splits)

lemma triple_read_keep:
  assumes "stable P"
  shows "triple cl tm P read_send_attempt (\<lambda>_. P)" "triple cl tm P read_save_attempt (\<lambda>_. P)"
    "triple cl tm P read_handoff_attempt (\<lambda>_. P)"
proof -
  note slot = triple_post [OF triple_read_slot [OF assms]]
  show "triple cl tm P read_send_attempt (\<lambda>_. P)" unfolding read_send_attempt_def by (rule slot) simp_all
  show "triple cl tm P read_save_attempt (\<lambda>_. P)" unfolding read_save_attempt_def by (rule slot) simp_all
  show "triple cl tm P read_handoff_attempt (\<lambda>_. P)" unfolding read_handoff_attempt_def by (rule slot) simp_all
qed

definition receipt_kept :: "send_receipt option \<Rightarrow> draft_world \<Rightarrow> bool" where
  "receipt_kept r w = (case r of None \<Rightarrow> dw_receipt w = Absent
     | Some r \<Rightarrow> \<exists>r'. dw_receipt w = Present r' \<and> normalize_receipt r' = r)"

lemma receipt_kept_cong: "dw_receipt w' = dw_receipt w \<Longrightarrow> receipt_kept r w' = receipt_kept r w"
  by (cases r) (simp_all add: receipt_kept_def)

lemma stable_receipt_kept [stable_intros]: "stable P \<Longrightarrow> stable (\<lambda>w. P w \<and> receipt_kept r w)"
  by (auto simp: stable_def receipt_kept_def split: option.splits)

lemma triple_read_send_receipt:
  assumes "stable P"
  shows "triple cl tm P read_send_receipt (\<lambda>r w. P w \<and> (\<forall>x. r = Inr x \<longrightarrow> receipt_kept x w))"
  unfolding read_send_receipt_def
  by (rule triple_handleP [OF triple_read_slot [OF assms]])
    (auto intro!: triple_ret simp: receipt_kept_def split: option.splits)

lemma triple_read_active_receipt:
  assumes "stable P"
  shows "triple cl tm P read_active_receipt (\<lambda>r w. P w \<and> (\<forall>x. r = Inr x \<longrightarrow> receipt_kept x w))"
  unfolding read_active_receipt_def
proof (rule triple_handleP [OF triple_read_send_receipt [OF assms]])
  fix x
  show "triple cl tm (\<lambda>w. P w \<and> (\<forall>y. Inr x = Inr y \<longrightarrow> receipt_kept y w))
    (case x of None \<Rightarrow> retE None | Some r \<Rightarrow> bindE (askE (OpError ''send_receipt_expired'')) (\<lambda>_. retE (Some r)))
    (\<lambda>r w. P w \<and> (\<forall>x. r = Inr x \<longrightarrow> receipt_kept x w))"
    using stable_receipt_kept [OF assms, of x]
    by (cases x) (auto intro!: triple_ret triple_checked [OF triple_askE])
qed (simp add: triple_ret)

definition loaded :: "loaded_draft \<Rightarrow> draft_world \<Rightarrow> bool" where
  "loaded l w \<longleftrightarrow> dw_draft w \<noteq> Absent
     \<and> (case ld_send l of None \<Rightarrow> dw_claim w = Absent | Some a \<Rightarrow> dw_claim w = Present a)"

lemma stable_loaded [stable_intros, simp]: "stable (loaded l)"
  by (simp add: stable_def loaded_def split: option.splits)

text \<open>\<open>not_found\<close> is only reported when the draft is gone.\<close>

definition read_result :: "send_error + loaded_draft \<Rightarrow> draft_world \<Rightarrow> bool" where
  "read_result r w = (case r of Inl e \<Rightarrow> is_not_found e \<longrightarrow> gone w | Inr l \<Rightarrow> loaded l w)"

lemma read_result_simps [simp]:
  "read_result (Inr l) w = loaded l w" "read_result (Inl e) w = (is_not_found e \<longrightarrow> gone w)"
  by (simp_all add: read_result_def)

lemma not_found_codes [simp]:
  "\<not> is_not_found Failure" "\<not> is_not_found (OpError ''draft_state_error'')" "is_not_found (OpError ''not_found'')"
  by (simp_all add: is_not_found_def)

lemma triple_read_sidecar:
  assumes "stable P"
  shows "triple cl tm P read_save_attempt (\<lambda>r w. P w \<and> (\<forall>e. r = Inl e \<longrightarrow> e = Failure))"
    "triple cl tm P read_handoff_attempt (\<lambda>r w. P w \<and> (\<forall>e. r = Inl e \<longrightarrow> e = Failure))"
  unfolding read_save_attempt_def read_handoff_attempt_def
  by (rule triple_post [OF triple_read_slot [OF assms]]; auto)+

lemma triple_attach:
  "triple cl tm (\<lambda>w. dw_draft w \<noteq> Absent) (attach_draft_attempts d) read_result"
proof -
  let ?P = "\<lambda>s w. dw_draft w \<noteq> Absent \<and> (case s of None \<Rightarrow> dw_claim w = Absent | Some a \<Rightarrow> dw_claim w = Present a)"
  let ?rest = "\<lambda>s. bindE read_save_attempt (\<lambda>save. bindE read_handoff_attempt (\<lambda>handoff.
          if s \<noteq> None \<and> save \<noteq> None then failE Failure
          else if handoff \<noteq> None \<and> (s \<noteq> None \<or> save \<noteq> None) then failE Failure
          else retE \<lparr>ld_draft = d, ld_send = s, ld_save = is_some save, ld_handoff = is_some handoff\<rparr>))"
  have d: "stable (\<lambda>w. dw_draft w \<noteq> Absent)" and s: "stable (?P s)" for s
    by (simp_all add: stable_def split: option.splits)
  have "triple cl tm (\<lambda>w. dw_draft w \<noteq> Absent) read_send_attempt
      (\<lambda>r w. dw_draft w \<noteq> Absent \<and> (\<forall>s. r = Inr s \<longrightarrow> ?P s w) \<and> (\<forall>e. r = Inl e \<longrightarrow> e = Failure))"
    unfolding read_send_attempt_def
    by (rule triple_post [OF triple_read_slot [OF d]]) (auto split: sum.splits option.splits)
  moreover have "triple cl tm (?P s) (?rest s) read_result" for s
    by (intro triple_handleP [OF triple_read_sidecar(1) [OF s]] triple_ret
        triple_pre [OF triple_handleP [OF triple_read_sidecar(2) [OF s]]])
      (auto intro!: triple_ret simp: loaded_def)
  ultimately show ?thesis
    unfolding attach_draft_attempts_def
    by (elim triple_handleP) (auto intro: triple_ret triple_pre)
qed

lemma triple_load_document:
  "triple cl tm top load_draft_document
    (\<lambda>r w. case r of Inr d \<Rightarrow> dw_draft w \<noteq> Absent | Inl e \<Rightarrow> is_not_found e \<longrightarrow> gone w)"
  unfolding load_draft_document_def
  by (rule triple_handleP [OF triple_read_slot]) (auto intro!: triple_ret simp: gone_def split: option.splits)

lemma triple_read_draft: "triple cl tm top read_draft read_result"
  unfolding read_draft_def
proof (rule triple_handleP [where R = read_result])
  have "triple cl tm (\<lambda>w. dw_draft w \<noteq> Absent) (bindE (askE Failure) (\<lambda>_. attach_draft_attempts d)) read_result" for d
    by (rule triple_askE_handle [OF _ _ triple_attach]) (auto intro!: triple_ret simp: stable_def)
  then show "triple cl tm top (bindE load_draft_document (\<lambda>d. bindE (askE Failure) (\<lambda>_. attach_draft_attempts d))) read_result"
    by (intro triple_handleP [OF triple_load_document]) (simp_all add: triple_ret)
qed (auto intro!: triple_ret simp: wrap_state_error_def)

lemma from_top: "triple cl tm top m Q \<Longrightarrow> triple cl tm P m Q"
  by (erule triple_pre) simp

lemma triple_remove_lock: "stable P \<Longrightarrow> triple cl tm P remove_lock (\<lambda>_. P)"
  by (simp add: remove_lock_def triple_askE)

lemma triple_read_for_mutation: "triple cl tm top read_draft_for_mutation read_result"
  unfolding read_draft_for_mutation_def
proof (rule triple_handleP [OF triple_read_draft])
  fix e
  show "triple cl tm (read_result (Inl e)) (if is_not_found e
      then handleP remove_lock (\<lambda>e'. failE (Joined e e')) (\<lambda>_. failE e) else failE e) read_result"
  proof (cases "is_not_found e")
    case True
    have "triple cl tm gone (handleP remove_lock (\<lambda>e'. failE (Joined e e')) (\<lambda>_. failE e)) read_result"
      by (auto intro!: triple_checked [OF triple_remove_lock] triple_ret)
    then have "triple cl tm (read_result (Inl e)) (handleP remove_lock (\<lambda>e'. failE (Joined e e')) (\<lambda>_. failE e)) read_result"
      by (rule triple_pre) (use True in simp)
    with True show ?thesis by simp
  qed (auto intro!: triple_ret)
qed (auto intro!: triple_ret)

section \<open>Removing a draft\<close>

lemma handleP_ret_Inl: "handleP (ret (Inl e)) h k = h e"
  by (rule ext) (simp add: handleP_def seqP_def ret_def)

lemma triple_ghost: "(\<And>v. triple cl tm (\<lambda>w. P w \<and> f w = v) m Q) \<Longrightarrow> triple cl tm P m Q"
  by (simp add: triple_def)

definition gone_with :: "send_receipt slot \<Rightarrow> draft_world \<Rightarrow> bool" where
  "gone_with s w \<longleftrightarrow> dw_draft w = Absent \<and> dw_receipt w = s"

definition with_receipt :: "send_receipt slot \<Rightarrow> draft_world \<Rightarrow> bool" where
  "with_receipt s w \<longleftrightarrow> dw_receipt w = s"

lemma stable_receipts [stable_intros, simp]: "stable (gone_with s)" "stable (with_receipt s)"
  by (simp_all add: stable_def gone_with_def with_receipt_def)

lemma triple_open_accepted_spool:
  assumes "stable P"
  shows "triple cl tm P (open_accepted_spool a) (\<lambda>r w. P w \<and> (\<forall>m. r = Inr m \<longrightarrow> claim_covers a m))"
  (is "triple _ _ _ _ ?Q")
proof -
  have "triple cl tm P (case s of
             Absent \<Rightarrow> failE (OpError ''send_recovery_spool_missing'')
           | Corrupt \<Rightarrow> failE (OpError ''send_recovery_spool_changed'')
           | Present m \<Rightarrow> bindE (askE (OpError ''send_recovery_spool_changed'')) (\<lambda>_.
               if length m \<noteq> sp_size sp then failE (OpError ''send_recovery_spool_changed'')
               else bindE (askE (OpError ''draft_operation_canceled'')) (\<lambda>_.
               bindE (askE (OpError ''send_recovery_spool_changed'')) (\<lambda>_.
                 if \<not> digest_matches m (sp_sha sp) then failE (OpError ''send_recovery_spool_changed'')
                 else retE m)))) ?Q" if "sa_spool a = Some sp" for sp s
    using that by (cases s) (auto intro!: triple_ret triple_checked [OF triple_askE [OF assms]] simp: spool_covers_def)
  then show ?thesis
    unfolding open_accepted_spool_def
    by (auto intro!: triple_ret triple_checked [OF triple_askE [OF assms]] triple_getP
        intro: triple_pre split: option.splits)
qed

text \<open>Streaming a message: the bytes are the composed ones unless another process rewrites the file in place.\<close>

lemma triple_open_composed:
  assumes "stable P" "\<And>w x. P w \<Longrightarrow> keep \<longrightarrow> P (put_spool x w)"
  shows "triple cl tm P (open_composed keep m) (\<lambda>r w. P w \<and> (\<forall>x. r = Inr x \<and> tm \<noteq> Rewrites \<longrightarrow> x = m))"
  unfolding open_composed_def
proof (rule triple_seqP [OF triple_next_answer [OF assms(1)]])
  fix a
  let ?Q = "\<lambda>r w. P w \<and> (\<forall>x. r = Inr x \<and> tm \<noteq> Rewrites \<longrightarrow> x = m)"
  show "triple cl tm (\<lambda>w. P w \<and> (cl \<longrightarrow> \<not> close_failure a) \<and> (tm \<noteq> Rewrites \<longrightarrow> \<not> rewritten_file a)) (case a of
      Yes \<Rightarrow> retE m
    | Rewritten m' \<Rightarrow> seqP (update (if keep then put_spool m' else id)) (\<lambda>_. retE (take (length m) m'))
    | _ \<Rightarrow> failE Failure) ?Q"
  proof (cases a)
    case (Rewritten m')
    have "triple cl tm (\<lambda>w. P w \<and> tm = Rewrites) (update (if keep then put_spool m' else id)) (\<lambda>_ w. P w \<and> tm = Rewrites)"
      using assms(2) by (intro triple_update) (auto simp: put_spool_def intro: moves_step protocol.tampered)
    then have "triple cl tm (\<lambda>w. P w \<and> tm = Rewrites)
        (seqP (update (if keep then put_spool m' else id)) (\<lambda>_. retE (take (length m) m'))) ?Q"
      by (rule triple_seqP) (rule triple_ret, simp)
    then show ?thesis using Rewritten by (auto elim!: triple_pre)
  qed (auto intro!: triple_ret)
qed

lemma triple_remove_accepted_spool:
  assumes "stable P" "\<And>w. P w \<Longrightarrow> P (drop_spool w)"
    "\<And>w. protocol_inv cl tm w \<Longrightarrow> P w \<Longrightarrow> protocol cl tm w (drop_spool w)"
  shows "triple cl tm P (remove_accepted_spool a) (\<lambda>_. P)"
proof -
  have "triple cl tm P (open_accepted_spool a) (\<lambda>_. P)"
    by (rule triple_post [OF triple_open_accepted_spool [OF assms(1)]]) simp
  moreover have "triple cl tm P (effectE drop_spool) (\<lambda>_. P)"
    by (rule triple_effectE [OF assms(1)]) (simp_all add: assms(2,3) moves_step)
  ultimately show ?thesis
    unfolding remove_accepted_spool_def by (auto intro!: triple_ret triple_checked)
qed

lemma gone_with_closed:
  "gone_with s w \<Longrightarrow> gone_with s (drop_spool w)" "gone_with s w \<Longrightarrow> gone_with s (drop_claim w)"
  "gone_with s w \<Longrightarrow> gone_with s (drop_save_claim w)" "gone_with s w \<Longrightarrow> gone_with s (drop_handoff w)"
  by (simp_all add: gone_with_def)

lemma gone_with_steps:
  "gone_with s w \<Longrightarrow> protocol cl tm w (drop_spool w)" "gone_with s w \<Longrightarrow> protocol cl tm w (drop_claim w)"
  by (auto simp: gone_with_def intro: protocol.intros)

lemma triple_remove_claim_gone: "triple cl tm (gone_with s) remove_send_attempt (\<lambda>_. gone_with s)"
proof -
  have spool: "triple cl tm (gone_with s) (remove_accepted_spool a) (\<lambda>_. gone_with s)" for a
    by (rule triple_remove_accepted_spool) (simp_all add: gone_with_closed gone_with_steps)
  have claim: "triple cl tm (gone_with s) (effectE drop_claim) (\<lambda>_. gone_with s)"
    by (rule triple_effectE) (auto intro: gone_with_closed gone_with_steps moves_step)
  show ?thesis
    unfolding remove_send_attempt_def
    by (intro triple_checked [OF triple_read_keep(1)] triple_checked claim triple_ret)
      (auto intro!: triple_ret spool split: option.splits)
qed

lemma triple_remove_claims: "triple cl tm (gone_with s) remove_draft_claims (\<lambda>_. gone_with s)"
proof -
  have save: "triple cl tm (gone_with s) (effectE drop_save_claim) (\<lambda>_. gone_with s)"
    by (rule triple_effectE) (auto intro: gone_with_closed protocol.save_claim moves_step)
  have drop: "triple cl tm (gone_with s) (effectE drop_handoff) (\<lambda>_. gone_with s)"
    by (rule triple_effectE) (auto intro: gone_with_closed protocol.handoff moves_step)
  have "triple cl tm (gone_with s) (seqP (getP dw_handoff) (\<lambda>h.
     if h = Absent then retE () else bindE (askE Failure) (\<lambda>_. effectE drop_handoff))) (\<lambda>_. gone_with s)"
    by (rule triple_getP, rule triple_pre [where P = "gone_with s"])
      (auto intro!: triple_ret triple_checked [OF triple_askE] drop)
  then have "triple cl tm (gone_with s) remove_handoff_attempt (\<lambda>_. gone_with s)"
    unfolding remove_handoff_attempt_def by (auto intro!: triple_checked [OF triple_askE] triple_ret)
  then show ?thesis
    unfolding remove_draft_claims_def by (intro triple_joinE triple_remove_claim_gone save)
qed

lemma triple_clear_gone:
  "triple cl tm (gone_with s) (joinE remove_draft_claims remove_lock) (\<lambda>_. gone_with s)"
  by (intro triple_joinE triple_remove_claims) (simp add: remove_lock_def triple_askE)

lemma triple_discard_files:
  "triple cl tm (with_receipt s) discard_draft_files
     (\<lambda>r w. with_receipt s w \<and> (r = Inr () \<longrightarrow> gone_with s w))"
  (is "triple _ _ _ _ ?Q")
proof -
  have lock: "triple cl tm P remove_lock (\<lambda>_. P)" if "stable P" for P
    using that by (simp add: remove_lock_def triple_askE)
  have missing: "triple cl tm (with_receipt s) (joinE (failE (OpError ''not_found'')) remove_lock) ?Q"
    unfolding joinE_def handleP_ret_Inl
    by (rule triple_handleP [OF lock]) (auto intro!: triple_ret simp: with_receipt_def)
  have drop: "triple cl tm (with_receipt s) (effectE drop_draft)
      (\<lambda>r w. with_receipt s w \<and> (r = Inr () \<longrightarrow> gone_with s w))"
    by (rule triple_effectE) (auto simp: with_receipt_def gone_with_def intro: protocol.discard moves_step)
  have rest: "triple cl tm (gone_with s) (joinE remove_draft_claims (joinE (askE Failure) remove_lock)) ?Q"
    by (rule triple_post [OF triple_joinE [OF triple_remove_claims triple_joinE]])
      (simp_all add: triple_askE remove_lock_def with_receipt_def gone_with_def)
  have all: "triple cl tm (with_receipt s) (bindE (effectE drop_draft) (\<lambda>_. bindE (askE Failure) (\<lambda>_.
      joinE remove_draft_claims (joinE (askE Failure) remove_lock)))) ?Q"
  proof (rule triple_handleP [OF drop])
    fix x :: unit
    have "triple cl tm (gone_with s) (bindE (askE Failure) (\<lambda>_.
      joinE remove_draft_claims (joinE (askE Failure) remove_lock))) ?Q"
      by (rule triple_checked [OF triple_askE _ rest]) (auto intro!: triple_ret simp: gone_with_def with_receipt_def)
    then show "triple cl tm (\<lambda>w. with_receipt s w \<and> (Inr x = Inr () \<longrightarrow> gone_with s w)) (bindE (askE Failure) (\<lambda>_.
      joinE remove_draft_claims (joinE (askE Failure) remove_lock))) ?Q"
      by (rule triple_pre) simp
  qed (simp add: triple_ret)
  have "triple cl tm (with_receipt s) (seqP (getP dw_draft) (\<lambda>d.
      if d = Absent then joinE (failE (OpError ''not_found'')) remove_lock
      else bindE (effectE drop_draft) (\<lambda>_. bindE (askE Failure) (\<lambda>_.
        joinE remove_draft_claims (joinE (askE Failure) remove_lock))))) ?Q"
    by (rule triple_getP, rule triple_pre [where P = "with_receipt s"]) (simp_all add: missing all)
  then show ?thesis
    unfolding discard_draft_files_def
    by (intro triple_checked [OF triple_read_keep(3)] triple_ret)
      (auto intro!: triple_ret triple_checked [OF triple_askE])
qed

lemma triple_discard_top: "triple cl tm top discard_draft_files (\<lambda>_ _. True)"
  by (rule triple_ghost [where f = dw_receipt], rule triple_pre [OF triple_top [OF triple_discard_files]])
    (simp add: with_receipt_def)

end
