(* ===== verification/Draft_Send_Proofs.thy ===== *)
theory Draft_Send_Proofs
  imports Draft_Triples
begin

text \<open>
  The operations of \<open>Draft_Send\<close> only make the transitions of \<open>Draft_Protocol\<close>, at every fault and crash
  point; the properties of sending follow from the invariant of the protocol.
\<close>

section \<open>Receipts and the end of a send\<close>

lemma stable_True [simp]: "stable (\<lambda>_. True)"
  by (simp add: stable_def)

lemma normalize_idem [simp]: "normalize_receipt (normalize_receipt r) = normalize_receipt r"
  by (auto simp: normalize_receipt_def Let_def)

text \<open>A result without an error: the draft is gone and its receipt is the one returned.\<close>

definition settled :: "outcome \<Rightarrow> draft_world \<Rightarrow> bool" where
  "settled r w \<longleftrightarrow> (snd r = None \<longrightarrow> dw_draft w = Absent
     \<and> (\<exists>rc. rs_receipt (fst r) = Some rc \<and> receipt_kept (Some (normalize_receipt rc)) w))"

lemma settled_error [simp]: "settled (r, Some e) w"
  by (simp add: settled_def)

lemma triple_error: "triple cl tm P (ret (r, Some e)) settled"
  by (simp add: triple_ret)

lemma triple_require_equal:
  assumes "stable P"
  shows "triple cl tm (\<lambda>w. P w \<and> receipt_kept x w) (require_equal_receipt x r)
    (\<lambda>q w. P w \<and> (q = Inr () \<longrightarrow> receipt_kept (Some r) w))"
  unfolding require_equal_receipt_def
  using triple_askE [OF stable_receipt_kept [OF assms, of "Some r"]]
  by (auto intro!: triple_ret intro: triple_post)

lemma triple_persist_receipt:
  "triple cl tm top (persist_send_receipt r)
    (\<lambda>q w. q = Inr () \<longrightarrow> receipt_kept (Some (normalize_receipt r)) w)"
proof (cases "valid_send_receipt (normalize_receipt r)")
  case True
  let ?n = "normalize_receipt r"
  let ?Q = "\<lambda>q w. q = Inr () \<longrightarrow> receipt_kept (Some ?n) w"
  have eq: "triple cl tm (\<lambda>w. top w \<and> receipt_kept x w) (require_equal_receipt x ?n) ?Q" for x
    by (rule triple_post [OF triple_require_equal]) simp_all
  have again: "triple cl tm top (bindE read_send_receipt (\<lambda>again. require_equal_receipt again ?n)) ?Q"
    by (rule triple_handleP [OF triple_read_send_receipt]) (auto intro!: triple_ret triple_pre [OF eq])
  have create: "triple cl tm (\<lambda>w. dw_receipt w = Absent) (effect (put_receipt ?n) tear_receipt)
      (\<lambda>ok w. ok \<longrightarrow> receipt_kept (Some ?n) w)"
    by (rule triple_effect) (use True in \<open>auto simp: stable_def receipt_kept_def intro: moves_step protocol.intros\<close>)
  have "triple cl tm (\<lambda>w. top w \<and> dw_receipt w = s) (case s of
      Absent \<Rightarrow> seqP (effect (put_receipt ?n) tear_receipt) (\<lambda>ok. ret (if ok then Created else NotCreated))
    | _ \<Rightarrow> ret Exists) (\<lambda>c w. c = Created \<longrightarrow> receipt_kept (Some ?n) w)" for s
    by (cases s) (auto intro!: triple_ret triple_seqP [OF triple_pre [OF create]])
  then have "triple cl tm top (create_exclusive dw_receipt (put_receipt ?n) tear_receipt)
      (\<lambda>c w. c = Created \<longrightarrow> receipt_kept (Some ?n) w)"
    unfolding create_exclusive_def by (rule triple_getP)
  then have creation: "triple cl tm top (seqP (create_exclusive dw_receipt (put_receipt ?n) tear_receipt) (\<lambda>c. case c of
           Created \<Rightarrow> retE () | NotCreated \<Rightarrow> failE Failure
         | Exists \<Rightarrow> bindE read_send_receipt (\<lambda>again. require_equal_receipt again ?n))) ?Q"
    by (rule triple_seqP) (auto intro!: triple_ret triple_pre [OF again] split: creation.splits)
  have "triple cl tm (\<lambda>w. top w \<and> (\<forall>y. Inr x = Inr y \<longrightarrow> receipt_kept y w))
      (if x \<noteq> None then require_equal_receipt x ?n
       else bindE (askE Validation) (\<lambda>_. seqP (create_exclusive dw_receipt (put_receipt ?n) tear_receipt) (\<lambda>c. case c of
           Created \<Rightarrow> retE () | NotCreated \<Rightarrow> failE Failure
         | Exists \<Rightarrow> bindE read_send_receipt (\<lambda>again. require_equal_receipt again ?n)))) ?Q" for x
  proof (cases x)
    case None
    have "triple cl tm top (bindE (askE Validation) (\<lambda>_. seqP (create_exclusive dw_receipt (put_receipt ?n) tear_receipt)
        (\<lambda>c. case c of Created \<Rightarrow> retE () | NotCreated \<Rightarrow> failE Failure
         | Exists \<Rightarrow> bindE read_send_receipt (\<lambda>again. require_equal_receipt again ?n)))) ?Q"
      by (rule triple_checked [OF triple_askE _ creation]) (simp_all add: triple_ret)
    then have "triple cl tm (\<lambda>w. top w \<and> (\<forall>y. Inr x = Inr y \<longrightarrow> receipt_kept y w)) (bindE (askE Validation)
       (\<lambda>_. seqP (create_exclusive dw_receipt (put_receipt ?n) tear_receipt)
        (\<lambda>c. case c of Created \<Rightarrow> retE () | NotCreated \<Rightarrow> failE Failure
         | Exists \<Rightarrow> bindE read_send_receipt (\<lambda>again. require_equal_receipt again ?n)))) ?Q"
      by (rule triple_pre) simp
    with None show ?thesis by simp
  next
    case (Some r)
    then have "triple cl tm (\<lambda>w. top w \<and> (\<forall>y. Inr x = Inr y \<longrightarrow> receipt_kept y w)) (require_equal_receipt x ?n) ?Q"
      by (intro triple_pre [OF eq]) simp
    with Some show ?thesis by simp
  qed
  then show ?thesis
    using True by (simp add: persist_send_receipt_def Let_def)
      (rule triple_handleP [OF triple_read_send_receipt], simp_all add: triple_ret)
qed (simp add: persist_send_receipt_def Let_def triple_ret)

lemma triple_ensure_receipt:
  "triple cl tm top (ensure_send_receipt a) (\<lambda>q w. \<forall>r. q = Inr r \<longrightarrow> receipt_kept (Some (normalize_receipt r)) w)"
proof -
  let ?Q = "\<lambda>q w. \<forall>r. q = Inr r \<longrightarrow> receipt_kept (Some (normalize_receipt r)) w"
  have kept: "receipt_kept (Some r) w \<Longrightarrow> receipt_kept (Some (normalize_receipt r)) w" for r w
    by (auto simp: receipt_kept_def)
  have "triple cl tm (\<lambda>w. top w \<and> (\<forall>y. Inr x = Inr y \<longrightarrow> receipt_kept y w)) (case x of
       Some r \<Rightarrow> bindE (askE (OpError ''send_receipt_expired'')) (\<lambda>_.
         if receipt_matches r (receipt_from_attempt a) then retE r else failE (OpError ''send_receipt_conflict''))
     | None \<Rightarrow> bindE (persist_send_receipt (receipt_from_attempt a)) (\<lambda>_. retE (receipt_from_attempt a))) ?Q" for x
  proof (cases x)
    case None
    have "triple cl tm top (bindE (persist_send_receipt (receipt_from_attempt a)) (\<lambda>_. retE (receipt_from_attempt a))) ?Q"
      by (rule triple_handleP [OF triple_persist_receipt]) (auto intro!: triple_ret)
    then show ?thesis using None by (auto intro: triple_pre)
  next
    case (Some r)
    have "triple cl tm (\<lambda>w. top w \<and> receipt_kept (Some r) w) (bindE (askE (OpError ''send_receipt_expired'')) (\<lambda>_.
         if receipt_matches r (receipt_from_attempt a) then retE r else failE (OpError ''send_receipt_conflict''))) ?Q"
      by (rule triple_checked [OF triple_askE [OF stable_receipt_kept]]) (auto intro!: triple_ret kept)
    then show ?thesis using Some by (auto intro: triple_pre)
  qed
  then show ?thesis
    unfolding ensure_send_receipt_def Let_def
    by (intro triple_checked [OF triple_askE] triple_handleP [OF triple_read_send_receipt]) (simp_all add: triple_ret)
qed

lemma triple_false: "(\<And>w. \<not> P w) \<Longrightarrow> triple cl tm P m Q"
  by (simp add: triple_def)

lemma triple_discard_settled:
  assumes "rs_receipt r' = Some rc"
  shows "triple cl tm (receipt_kept (Some (normalize_receipt rc)))
     (handleP discard_draft_files (\<lambda>_. ret (r, Some e)) (\<lambda>_. ret (r', None))) settled"
  (is "triple _ _ _ ?m _")
proof (rule triple_ghost [where f = dw_receipt])
  fix v
  show "triple cl tm (\<lambda>w. receipt_kept (Some (normalize_receipt rc)) w \<and> dw_receipt w = v) ?m settled"
  proof (cases "\<exists>q. v = Present q \<and> normalize_receipt q = normalize_receipt rc")
    case True
    then have "triple cl tm (with_receipt v) ?m settled"
      by (intro triple_handleP [OF triple_discard_files])
        (auto intro!: triple_ret simp: settled_def gone_with_def receipt_kept_def assms)
    then show ?thesis by (rule triple_pre) (simp add: with_receipt_def)
  qed (auto intro!: triple_false simp: receipt_kept_def)
qed

lemma triple_finish: "triple cl tm top (finish_observed_send a b) settled"
  unfolding finish_observed_send_def Let_def
  by (intro triple_handleP [OF triple_ensure_receipt] triple_error)
    (auto intro!: triple_pre [OF triple_discard_settled])

lemma triple_replay: "triple cl tm top (replay_send_attempt a) settled"
proof -
  have "triple cl tm top (handleP (ensure_send_receipt a) (\<lambda>_. ret (r, Some e)) (\<lambda>receipt.
         handleP discard_draft_files (\<lambda>_. ret (r\<lparr>rs_receipt := Some receipt\<rparr>, Some e'))
           (\<lambda>_. ret (r\<lparr>rs_receipt := Some receipt, rs_draft_retained := False\<rparr>, None)))) settled" for r e e'
    by (intro triple_handleP [OF triple_ensure_receipt] triple_error)
      (auto intro!: triple_pre [OF triple_discard_settled])
  then show ?thesis
    unfolding replay_send_attempt_def Let_def
    by (cases "sa_outcome a") (simp_all add: triple_error)
qed

lemma triple_finish_from_receipt:
  "triple cl tm (\<lambda>w. gone w \<and> receipt_kept (Some r) w) (finish_from_receipt r b) settled"
proof (rule triple_ghost [where f = dw_receipt])
  fix v
  show "triple cl tm (\<lambda>w. (gone w \<and> receipt_kept (Some r) w) \<and> dw_receipt w = v) (finish_from_receipt r b) settled"
  proof (cases "\<exists>q. v = Present q \<and> normalize_receipt q = r")
    case True
    then have "normalize_receipt r = r" by auto
    with True have "triple cl tm (gone_with v) (finish_from_receipt r b) settled"
      unfolding finish_from_receipt_def Let_def
      by (intro triple_handleP [OF triple_clear_gone])
        (auto intro!: triple_ret simp: settled_def gone_with_def receipt_kept_def result_for_receipt_def Let_def)
    then show ?thesis by (rule triple_pre) (simp add: gone_with_def gone_def)
  qed (auto intro!: triple_false simp: receipt_kept_def)
qed

section \<open>Claims and the mirror\<close>

lemma at_claimD: "at_claim a L w \<Longrightarrow> dw_draft w \<noteq> Absent" "at_claim a L w \<Longrightarrow> dw_claim w = Present a"
  "at_claim a L w \<Longrightarrow> L (dw_log w)"
  by (simp_all add: at_claim_def)

text \<open>A new state of the claim: it keeps its spool, and forbids a further APPEND once one may have happened.\<close>

lemma triple_replace:
  assumes "sa_spool a' = sa_spool a" "\<And>log. L log \<Longrightarrow> cl \<Longrightarrow> 0 < appends log \<Longrightarrow> append_blocked a'"
  shows "triple cl tm (at_claim a L) (replace_send_attempt a') (\<lambda>r w. \<forall>u. r = Inr u \<longrightarrow> at_claim a' L w)"
proof -
  have "moves cl tm w (put_claim a' w)" if "at_claim a L w" for w
    using that assms by (intro moves_step protocol.advance) (auto simp: at_claim_def)
  then have "triple cl tm (at_claim a L) (effectE (put_claim a')) (\<lambda>r w. \<forall>u. r = Inr u \<longrightarrow> at_claim a' L w)"
    by (intro triple_effectE) (auto simp: at_claim_def)
  then show ?thesis
    unfolding replace_send_attempt_def by (intro triple_checked [OF triple_askE]) (simp_all add: triple_ret)
qed

text \<open>As long as readers close, an APPEND that may have happened is unique.\<close>

definition no_append :: "bool \<Rightarrow> send_event list \<Rightarrow> bool" where
  "no_append cl log \<longleftrightarrow> (cl \<longrightarrow> appends log = 0)"

lemma at_claim_weaken: "at_claim a L w \<Longrightarrow> (\<And>log. L log \<Longrightarrow> L' log) \<Longrightarrow> at_claim a L' w"
  by (simp add: at_claim_def)

lemma not_blocked_no_append:
  "protocol_inv cl tm w \<Longrightarrow> at_claim a L w \<Longrightarrow> \<not> append_blocked a \<Longrightarrow> at_claim a (no_append cl) w"
  by (auto simp: protocol_inv_def claim_guards_def at_claim_def no_append_def)

lemma triple_append_stream:
  assumes "append_blocked a" "tm \<noteq> Rewrites \<Longrightarrow> claim_covers a m"
  shows "triple cl tm (at_claim a (no_append cl)) (append_stream m)
    (\<lambda>r w. at_claim a (\<lambda>log. \<forall>f. r = Inl f \<longrightarrow> \<not> mf_uncertain f \<longrightarrow> no_append cl log) w)"
  (is "triple _ _ ?P _ ?Q")
proof -
  have log: "moves cl tm w (log_event (Appended m v) w)" if "?P w" for v w
    using that assms by (intro moves_step protocol.append) (auto simp: at_claim_def no_append_def)
  have any: "triple cl tm ?P (update (log_event (Appended m v))) (\<lambda>_. at_claim a (\<lambda>log. v = Refused \<longrightarrow> no_append cl log))" for v
    by (rule triple_update) (auto simp: log at_claim_def no_append_def)
  have keep: "triple cl tm (at_claim a (\<lambda>log. v = Refused \<longrightarrow> no_append cl log)) (ret r) ?Q"
    if "\<And>f. r = Inl f \<Longrightarrow> mf_uncertain f \<or> v = Refused" for r v
    using that by (intro triple_ret) (auto simp: at_claim_def)
  have quiet: "triple cl tm ?P (ret r) ?Q" for r
    by (rule triple_ret) (auto simp: at_claim_def)
  have accepted: "triple cl tm (\<lambda>w. ?P w \<and> (cl \<longrightarrow> \<not> close_failure (MirrorReply Accepted b v u app closed)))
      (seqP (if app then update (log_event (Appended m Accepted)) else ret ()) (\<lambda>_.
          ret (if closed then Inr e else Inl f))) ?Q" for b v u app closed e f
  proof (cases "cl \<and> \<not> closed")
    case False
    have "triple cl tm ?P (if app then update (log_event (Appended m Accepted)) else ret ())
        (\<lambda>_. at_claim a (\<lambda>_. True))"
      using triple_post [OF any [of Accepted]] by (auto intro!: triple_ret simp: at_claim_def)
    then have "triple cl tm ?P (seqP (if app then update (log_event (Appended m Accepted)) else ret ()) (\<lambda>_.
          ret (if closed then Inr e else Inl f))) ?Q"
      by (rule triple_seqP) (use False in \<open>auto intro!: triple_ret simp: at_claim_def no_append_def\<close>)
    then show ?thesis by (rule triple_pre) simp
  qed (simp add: triple_false)
  show ?thesis
    unfolding append_stream_def
  proof (rule triple_seqP [OF triple_next_answer])
    fix x
    show "triple cl tm (\<lambda>w. ?P w \<and> (cl \<longrightarrow> \<not> close_failure x) \<and> (tm \<noteq> Rewrites \<longrightarrow> \<not> rewritten_file x)) (case x of
      MirrorReply Accepted mailbox validity uid appended closed \<Rightarrow>
        seqP (if appended then update (log_event (Appended m Accepted)) else ret ()) (\<lambda>_.
          ret (if closed
            then Inr \<lparr>ae_mailbox = mailbox, ae_validity = validity, ae_uid = uid, ae_appended = appended\<rparr>
            else Inl \<lparr>mf_code = [], mf_uncertain = False\<rparr>))
    | MirrorReply Uncertain code _ _ _ _ \<Rightarrow>
        seqP (update (log_event (Appended m Uncertain))) (\<lambda>_. ret (Inl \<lparr>mf_code = code, mf_uncertain = True\<rparr>))
    | MirrorReply Refused code _ _ _ _ \<Rightarrow>
        seqP (update (log_event (Appended m Refused))) (\<lambda>_. ret (Inl \<lparr>mf_code = code, mf_uncertain = False\<rparr>))
    | CrashTorn \<Rightarrow> seqP (update (log_event (Appended m Uncertain))) (\<lambda>_. crash)
    | CrashAfter \<Rightarrow> seqP (update (log_event (Appended m Uncertain))) (\<lambda>_. crash)
    | _ \<Rightarrow> ret (Inl \<lparr>mf_code = [], mf_uncertain = False\<rparr>)) ?Q"
    proof (cases x)
      case (MirrorReply v b val uid app closed)
      then show ?thesis
      proof (cases v)
        case Accepted
        show ?thesis unfolding MirrorReply Accepted answer.case verdict.case by (rule triple_pre [OF accepted]) simp
      qed (auto intro!: triple_seqP [OF triple_pre [OF any]] keep)
    qed (auto intro!: triple_crash triple_pre [OF quiet] triple_seqP [OF triple_pre [OF any]])
  qed simp
qed

lemma triple_mirror:
  assumes "append_blocked a" "claim_covers a m"
  shows "triple cl tm (at_claim a (no_append cl)) (mirror_message keep m)
    (\<lambda>r w. at_claim a (\<lambda>log. \<forall>f. r = Inl f \<longrightarrow> \<not> mf_uncertain f \<longrightarrow> no_append cl log) w)"
  unfolding mirror_message_def
proof (rule triple_handleP [OF triple_open_composed])
  fix x
  show "triple cl tm (\<lambda>w. at_claim a (no_append cl) w \<and> (\<forall>y. Inr x = Inr y \<and> tm \<noteq> Rewrites \<longrightarrow> y = m)) (append_stream x)
      (\<lambda>r w. at_claim a (\<lambda>log. \<forall>f. r = Inl f \<longrightarrow> \<not> mf_uncertain f \<longrightarrow> no_append cl log) w)"
  proof (cases "tm \<noteq> Rewrites \<longrightarrow> x = m")
    case True
    then have "triple cl tm (at_claim a (no_append cl)) (append_stream x)
      (\<lambda>r w. at_claim a (\<lambda>log. \<forall>f. r = Inl f \<longrightarrow> \<not> mf_uncertain f \<longrightarrow> no_append cl log) w)"
      using assms by (intro triple_append_stream) auto
    then show ?thesis by (rule triple_pre) simp
  qed (auto intro!: triple_false)
qed (auto intro!: triple_ret simp: at_claim_def)

section \<open>Reconciling\<close>

lemma triple_conclude:
  assumes "sa_spool a' = sa_spool a" "append_blocked a'"
    and "\<And>u. triple cl tm top (k u) settled" "\<And>e. triple cl tm top (h e) settled"
  shows "triple cl tm (at_claim a L) (handleP (replace_send_attempt a') h k) settled"
proof (rule triple_handleP [OF triple_replace])
  show "sa_spool a' = sa_spool a" "append_blocked a'" by fact+
qed (auto intro: triple_pre [OF assms(3)] triple_pre [OF assms(4)])

lemma adopted_blocked [simp]: "append_blocked (adopted_attempt a m u v)" "sa_spool (adopted_attempt a m u v) = sa_spool a"
  by (simp_all add: append_blocked_def adopted_attempt_def)

lemma sent_blocked [simp]: "append_blocked (sent_attempt a e)" "sa_spool (sent_attempt a e) = sa_spool a"
  by (simp_all add: append_blocked_def sent_attempt_def)

lemma located_blocked [simp]: "append_blocked (located_attempt a m u v)" "sa_spool (located_attempt a m u v) = sa_spool a"
  by (simp_all add: append_blocked_def located_attempt_def)

lemma observed_blocked [simp]: "append_blocked (observed_attempt a r)" "sa_spool (observed_attempt a r) = sa_spool a"
  by (simp_all add: append_blocked_def observed_attempt_def)

lemma armed_blocked [simp]: "append_blocked (arm_mirror a i)" "sa_spool (arm_mirror a i) = sa_spool a"
  by (simp_all add: append_blocked_def arm_mirror_def evidence_of_def)

lemma unknown_spool [simp]: "sa_spool (set_mirror_unknown a b) = sa_spool a"
  by (simp add: set_mirror_unknown_def)

lemma unknown_blocked [simp]: "append_blocked (set_mirror_unknown a True)"
  by (simp add: append_blocked_def set_mirror_unknown_def evidence_of_def)

lemma triple_adopt: "triple cl tm (at_claim a L) (adopt_observed a mailbox uid validity n) settled"
  unfolding adopt_observed_def Let_def
  by (auto intro!: triple_error triple_seq_keep [OF triple_lookup_text] triple_checked [OF triple_askE]
      triple_conclude triple_finish split: sum.splits)

lemma triple_arm:
  assumes "sa_spool a = sa_spool c"
  shows "triple cl tm (at_claim c L) (persist_mirror_attempt a)
    (\<lambda>r w. \<forall>b. r = Inr b \<longrightarrow> at_claim b L w \<and> append_blocked b \<and> sa_spool b = sa_spool c)"
proof -
  let ?Q = "\<lambda>r w. \<forall>b. r = Inr b \<longrightarrow> at_claim b L w \<and> append_blocked b \<and> sa_spool b = sa_spool c"
  have "triple cl tm (at_claim c L) (bindE (replace_send_attempt (arm_mirror a i)) (\<lambda>_. retE (arm_mirror a i))) ?Q" for i
    by (rule triple_handleP [OF triple_replace]) (auto intro!: triple_ret simp: assms)
  then show ?thesis
    unfolding persist_mirror_attempt_def new_send_attempt_id_def Let_def
    by (auto intro!: triple_ret triple_checked [OF triple_ask_text] triple_checked [where m = "bindE ask_text _"])
qed

lemma triple_record_failure:
  assumes "\<And>u. triple cl tm top (k u) settled" "\<And>e. triple cl tm top (h e) settled"
  shows "triple cl tm (at_claim a (\<lambda>log. \<not> mf_uncertain f \<longrightarrow> no_append cl log))
    (handleP (replace_send_attempt (set_mirror_unknown a (mf_uncertain f))) h k) settled"
proof (rule triple_handleP [OF triple_replace])
  fix log
  assume "\<not> mf_uncertain f \<longrightarrow> no_append cl log" "cl" "0 < appends log"
  then show "append_blocked (set_mirror_unknown a (mf_uncertain f))"
    by (cases "mf_uncertain f") (simp_all add: no_append_def)
qed (auto intro: triple_pre [OF assms(1)] triple_pre [OF assms(2)])

lemma triple_mirror_then:
  assumes "\<And>b f. sa_spool b = sa_spool a \<Longrightarrow>
      triple cl tm (at_claim b (\<lambda>log. \<not> mf_uncertain f \<longrightarrow> no_append cl log)) (failed b f) settled"
    and "\<And>b e. sa_spool b = sa_spool a \<Longrightarrow> triple cl tm (at_claim b (\<lambda>_. True)) (confirmed b e) settled"
    and "\<And>e. triple cl tm top (unarmed e) settled"
    and "claim_covers a m" "sa_spool a = sa_spool c"
  shows "triple cl tm (at_claim c (no_append cl))
    (handleP (persist_mirror_attempt a) unarmed
      (\<lambda>b. seqP (mirror_message keep m) (\<lambda>r. case r of Inl f \<Rightarrow> failed b f | Inr e \<Rightarrow> confirmed b e))) settled"
proof (rule triple_handleP [OF triple_arm [OF assms(5)]])
  fix b
  show "triple cl tm (\<lambda>w. \<forall>d. Inr b = Inr d \<longrightarrow> at_claim d (no_append cl) w \<and> append_blocked d \<and> sa_spool d = sa_spool c)
     (seqP (mirror_message keep m) (\<lambda>r. case r of Inl f \<Rightarrow> failed b f | Inr e \<Rightarrow> confirmed b e)) settled"
  proof (cases "append_blocked b \<and> sa_spool b = sa_spool c")
    case True
    then have "triple cl tm (at_claim b (no_append cl))
       (seqP (mirror_message keep m) (\<lambda>r. case r of Inl f \<Rightarrow> failed b f | Inr e \<Rightarrow> confirmed b e)) settled"
    proof (intro triple_seqP [OF triple_mirror])
      fix r
      show "triple cl tm (at_claim b (\<lambda>log. \<forall>f. r = Inl f \<longrightarrow> \<not> mf_uncertain f \<longrightarrow> no_append cl log))
         (case r of Inl f \<Rightarrow> failed b f | Inr e \<Rightarrow> confirmed b e) settled"
        using True by (cases r) (simp_all add: assms(1,2,5))
    qed (simp_all add: assms(4) [unfolded assms(5)])
    then show ?thesis by (rule triple_pre) simp
  qed (auto intro!: triple_false)
qed (auto intro: triple_pre [OF assms(3)])

lemma retry_mirror_handle:
  "retry_mirror a0 imap mailbox message = handleP (persist_mirror_attempt a0)
     (\<lambda>_. ret (result_for_reconcile a0, Some (OpError ''send_reconcile_state_failed'')))
     (\<lambda>a. seqP (mirror_message True message) (\<lambda>r. case r of
         Inl f \<Rightarrow>
           handleP (replace_send_attempt (set_mirror_unknown a (mf_uncertain f)))
             (\<lambda>_. ret (result_for_reconcile (set_mirror_unknown a (mf_uncertain f)), Some (OpError ''send_reconcile_state_failed'')))
             (\<lambda>_. ret (result_for_reconcile (set_mirror_unknown a (mf_uncertain f)), Some (mirror_pending_error (mf_code f))))
       | Inr e \<Rightarrow>
           if imap then
              seqP search_sent (\<lambda>found. case found of
                Inl code \<Rightarrow> ret (result_for_reconcile a0, Some (mirror_pending_error code))
              | Inr (uid, validity, matches) \<Rightarrow>
                  if 0 < matches then adopt_observed a mailbox uid validity matches
                  else ret (result_for_reconcile a0, Some mirror_unknown_error))
           else
              handleP (replace_send_attempt (sent_attempt a e))
                (\<lambda>_. ret (result_for_reconcile (sent_attempt a e), Some (OpError ''send_reconcile_state_failed'')))
                (\<lambda>_. finish_observed_send (sent_attempt a e) True)))"
  unfolding retry_mirror_def handleP_def Let_def ..

lemma triple_retry_mirror:
  assumes "claim_covers a m"
  shows "triple cl tm (at_claim a (no_append cl)) (retry_mirror a imap mailbox m) settled"
  unfolding retry_mirror_handle
proof (rule triple_mirror_then)
  fix b e
  show "triple cl tm (at_claim b (\<lambda>_. True)) (if imap then
              seqP search_sent (\<lambda>found. case found of
                Inl code \<Rightarrow> ret (result_for_reconcile a, Some (mirror_pending_error code))
              | Inr (uid, validity, matches) \<Rightarrow>
                  if 0 < matches then adopt_observed b mailbox uid validity matches
                  else ret (result_for_reconcile a, Some mirror_unknown_error))
           else
              handleP (replace_send_attempt (sent_attempt b e))
                (\<lambda>_. ret (result_for_reconcile (sent_attempt b e), Some (OpError ''send_reconcile_state_failed'')))
                (\<lambda>_. finish_observed_send (sent_attempt b e) True)) settled"
    by (auto intro!: triple_error triple_seq_keep [OF triple_search_sent] triple_adopt triple_conclude triple_finish
        split: sum.splits)
qed (simp_all add: triple_record_failure triple_error assms)

lemma triple_mirror_unless_unknown:
  assumes "sa_outcome a = SendMirrorPending"
  shows "triple cl tm (at_claim a L) (mirror_unless_unknown a imap mailbox) settled"
proof (cases "te_mirror_unknown (evidence_of a)")
  case False
  then have free: "\<not> append_blocked a" using assms by (simp add: append_blocked_def)
  have "triple cl tm (at_claim a (no_append cl))
      (handleP (open_accepted_spool a) (\<lambda>e. ret (result_for_reconcile a, Some e)) (retry_mirror a imap mailbox)) settled"
  proof (rule triple_handleP [OF triple_open_accepted_spool])
    fix m
    show "triple cl tm (\<lambda>w. at_claim a (no_append cl) w \<and> (\<forall>y. Inr m = Inr y \<longrightarrow> claim_covers a y))
        (retry_mirror a imap mailbox m) settled"
      using triple_retry_mirror [of a m]
      by (cases "claim_covers a m") (auto intro: triple_pre intro!: triple_false)
  qed (simp_all add: triple_error)
  then show ?thesis
    using False unfolding mirror_unless_unknown_def Let_def
    by (simp add: triple_pre [OF _ not_blocked_no_append [OF _ _ free]])
qed (simp add: mirror_unless_unknown_def Let_def triple_error)

lemma triple_resolve_target:
  "stable P \<Longrightarrow> triple cl tm P (resolve_recovery_target a) (\<lambda>_. P)"
  unfolding resolve_recovery_target_def
  by (auto intro!: triple_ret triple_checked [OF triple_ask_identity] split: option.splits)

lemma triple_load_credentials: "stable P \<Longrightarrow> triple cl tm P load_credentials (\<lambda>_. P)"
  unfolding load_credentials_def by (intro triple_checked [OF triple_askE] triple_askE triple_ret) simp_all

lemma triple_find_sent: "stable P \<Longrightarrow> triple cl tm P find_sent_mailbox (\<lambda>_. P)"
  unfolding find_sent_mailbox_def
  by (auto intro!: triple_ret triple_seq_keep [OF triple_lookup_text] triple_checked [OF triple_askE] split: sum.splits)

lemma triple_reconcile_pending:
  assumes "sa_outcome a = SendMirrorPending"
  shows "triple cl tm (at_claim a L) (reconcile_mirror_pending a) settled"
  unfolding reconcile_mirror_pending_def Let_def
  by (auto intro!: triple_error triple_checked [OF triple_askE] triple_checked [OF triple_resolve_target]
      triple_checked [OF triple_load_credentials] triple_seq_keep [OF triple_ask] triple_checked [OF triple_find_sent]
      triple_seq_keep [OF triple_search_sent] triple_adopt triple_mirror_unless_unknown [OF assms]
      split: option.splits sum.splits)

lemma triple_reconcile_unknown: "triple cl tm (at_claim a L) (reconcile_unknown a) settled"
  unfolding reconcile_unknown_def Let_def
  by (auto intro!: triple_error triple_checked [OF triple_askE] triple_checked [OF triple_resolve_target]
      triple_checked [OF triple_load_credentials] triple_seq_keep [OF triple_lookup_text]
      triple_seq_keep [OF triple_search_sent] triple_conclude triple_finish
      split: sum.splits)

lemma triple_reconcile_baseline: "triple cl tm (at_claim a L) (reconcile_baseline a) settled"
  unfolding reconcile_baseline_def Let_def
  by (auto intro!: triple_error triple_checked [OF triple_askE] triple_seq_keep [OF triple_lookup_text]
      triple_conclude triple_finish split: sum.splits)

lemma loaded_claim: "ld_send l = Some a \<Longrightarrow> loaded l w \<Longrightarrow> at_claim a (\<lambda>_. True) w"
  by (simp add: loaded_def at_claim_def)

lemma loaded_unclaimed: "ld_send l = None \<Longrightarrow> loaded l w \<Longrightarrow> unclaimed w"
  by (simp add: loaded_def unclaimed_def)

lemma triple_reconcile_attempt: "triple cl tm (at_claim a (\<lambda>_. True)) (reconcile_attempt a) settled"
proof -
  have "triple cl tm top (seqP (replay_send_attempt a) (\<lambda>r. ret ((fst r)\<lparr>rs_reconciled := True\<rparr>, snd r))) settled"
    by (rule triple_seqP [OF triple_replay]) (auto intro!: triple_ret simp: settled_def)
  then show ?thesis
    unfolding reconcile_attempt_def
    by (auto intro!: from_top triple_error triple_reconcile_pending triple_reconcile_unknown triple_reconcile_baseline)
qed

lemma result_for_receipt_receipt [simp]: "rs_receipt (result_for_receipt r) = Some (normalize_receipt r)"
  by (simp add: result_for_receipt_def Let_def)

text \<open>The receipt answers for a draft that is still there: the draft is removed.\<close>

lemma triple_active_receipt:
  assumes "stable P" "\<And>e. triple cl tm P (h e) settled" "triple cl tm P none settled"
    and "\<And>r. triple cl tm (\<lambda>w. P w \<and> receipt_kept (Some (normalize_receipt r)) w) (found r) settled"
  shows "triple cl tm P (handleP read_active_receipt h (\<lambda>r. case r of None \<Rightarrow> none | Some r \<Rightarrow> found r)) settled"
proof (rule triple_handleP [OF triple_read_active_receipt [OF assms(1)]])
  fix x
  have kept: "receipt_kept (Some r) w \<Longrightarrow> receipt_kept (Some (normalize_receipt r)) w" for r w
    by (auto simp: receipt_kept_def)
  show "triple cl tm (\<lambda>w. P w \<and> (\<forall>y. Inr x = Inr y \<longrightarrow> receipt_kept y w))
      (case x of None \<Rightarrow> none | Some r \<Rightarrow> found r) settled"
    by (cases x) (auto intro: triple_pre [OF assms(3)] triple_pre [OF assms(4)] kept)
qed (auto intro: triple_pre [OF assms(2)])

lemma triple_reconcile_loaded: "triple cl tm (loaded l) (reconcile_loaded l) settled"
proof (cases "ld_send l")
  case None
  have "triple cl tm top (handleP read_active_receipt (\<lambda>e. failR e) (\<lambda>r. case r of
        None \<Rightarrow> failR (OpError ''send_reconcile_unavailable'')
      | Some r \<Rightarrow> (let result = (result_for_receipt r)\<lparr>rs_reconciled := True\<rparr> in
          handleP discard_draft_files (\<lambda>_. ret (result, Some (OpError ''send_cleanup_failed'')))
            (\<lambda>_. ret (result\<lparr>rs_draft_retained := False\<rparr>, None))))) settled"
    unfolding Let_def
    by (rule triple_active_receipt) (auto intro!: triple_error triple_pre [OF triple_discard_settled])
  then show ?thesis using None unfolding reconcile_loaded_def by (simp add: triple_pre)
next
  case (Some a)
  then show ?thesis
    unfolding reconcile_loaded_def using triple_pre [OF triple_reconcile_attempt loaded_claim [OF Some]] by simp
qed

lemma triple_reconcile_unloaded: "triple cl tm (read_result (Inl e)) (reconcile_unloaded e) settled"
proof (cases "is_not_found e")
  case True
  have fin: "triple cl tm (\<lambda>w. gone w \<and> receipt_kept (Some (normalize_receipt r)) w) (finish_from_receipt r b) settled" for r b
    using triple_finish_from_receipt [of cl tm "normalize_receipt r" b]
    by (simp add: finish_from_receipt_def result_for_receipt_def Let_def)
  have "triple cl tm gone (handleP read_active_receipt (\<lambda>re. if is_not_found re then failR e else failR re) (\<lambda>r. case r of
         None \<Rightarrow> failR e | Some r \<Rightarrow> finish_from_receipt r True)) settled"
    by (rule triple_active_receipt) (auto intro!: triple_error fin)
  then have "triple cl tm (read_result (Inl e)) (handleP read_active_receipt (\<lambda>re. if is_not_found re then failR e else failR re) (\<lambda>r. case r of
         None \<Rightarrow> failR e | Some r \<Rightarrow> finish_from_receipt r True)) settled"
    by (rule triple_pre) (use True in simp)
  then show ?thesis using True by (simp add: reconcile_unloaded_def)
qed (simp add: reconcile_unloaded_def triple_error)

section \<open>Leases\<close>

lemma stable_settled [simp]: "stable (settled r)"
  by (simp add: stable_def settled_def receipt_kept_def split: option.splits)

lemma join_errors_None [simp]: "join_errors a b = None \<longleftrightarrow> a = None \<and> b = None"
  by (cases a; cases b) simp_all

lemma triple_release: "triple cl tm (settled r) (release_lease r) settled"
  unfolding release_lease_def
  by (rule triple_seq_keep [OF triple_ask]) (auto intro!: triple_ret simp: settled_def)

lemma triple_classify_error: "stable P \<Longrightarrow> triple cl tm P (classify_context_error e) (\<lambda>_. P)"
  unfolding classify_context_error_def by (auto intro!: triple_ret triple_seq_keep [OF triple_ask])

lemma triple_classify: "triple cl tm (settled r) (classify_result r) settled"
  unfolding classify_result_def
  by (auto intro!: triple_ret triple_error triple_seq_keep [OF triple_classify_error] split: option.splits)

lemma triple_with_lease:
  assumes "triple cl tm top m Q" "\<And>r e w. Q (r, Some e) w"
  shows "triple cl tm top (with_draft_lease m) Q"
  unfolding with_draft_lease_def
  by (auto intro!: triple_askE_handle triple_seq_keep [OF triple_classify_error] triple_ret assms)

lemma triple_reconcile: "triple cl tm top reconcile_draft settled"
  unfolding reconcile_draft_def
  by (auto intro!: triple_askE_handle triple_error triple_with_lease triple_seqP [OF _ triple_release]
      triple_handleP [OF triple_read_for_mutation] triple_reconcile_unloaded triple_reconcile_loaded
      simp: read_result_simps [abs_def])

section \<open>Updating and discarding\<close>

lemma triple_guardP:
  "(\<And>e. triple cl tm P (failR e) Q) \<Longrightarrow> triple cl tm P k Q \<Longrightarrow> triple cl tm P (guardP c k) Q"
  unfolding guardP_def by (auto split: option.splits)

lemma triple_guardP_None:
  "(\<And>e. triple cl tm P (failR e) Q) \<Longrightarrow> (c = None \<Longrightarrow> triple cl tm P k Q) \<Longrightarrow> triple cl tm P (guardP c k) Q"
  unfolding guardP_def by (auto split: option.splits)

lemma reject_claimed_None: "reject_claimed l = None \<Longrightarrow> ld_send l = None"
  by (auto simp: reject_claimed_def split: if_splits)

lemma triple_put_draft: "triple cl tm unclaimed (effectE (put_draft d)) (\<lambda>_ _. True)"
  by (rule triple_effectE) (auto simp: unclaimed_def intro: protocol.edit moves_step)

lemma triple_update_loaded: "triple cl tm (loaded l) (update_loaded expected d l) (\<lambda>_ _. True)"
proof -
  have "triple cl tm unclaimed (checkR (effectE (put_draft d)) (ret (no_result, None))) (\<lambda>_ _. True)"
    by (rule triple_handleP [OF triple_put_draft]) (auto intro!: triple_ret)
  then have "ld_send l = None \<Longrightarrow> triple cl tm (loaded l) (checkR (effectE (put_draft d)) (ret (no_result, None))) (\<lambda>_ _. True)"
    by (rule triple_pre) (rule loaded_unclaimed)
  then show ?thesis
    unfolding update_loaded_def
    by (auto intro!: triple_askE_handle triple_ret triple_guardP_None dest: reject_claimed_None)
qed

lemma triple_release_top: "triple cl tm (\<lambda>_. True) (release_lease r) (\<lambda>_ _. True)"
  unfolding release_lease_def by (auto intro!: triple_seq_keep [OF triple_ask] triple_ret)

lemma triple_update_draft: "triple cl tm top (update_draft expected d) (\<lambda>_ _. True)"
proof -
  have "triple cl tm top (handleP read_draft_for_mutation (\<lambda>e. failR e) (update_loaded expected d)) (\<lambda>_ _. True)"
    by (rule triple_handleP [OF triple_read_for_mutation])
      (auto intro!: triple_ret triple_update_loaded simp: read_result_simps [abs_def])
  then show ?thesis
    unfolding update_draft_def
    by (auto intro!: triple_askE_handle triple_ret triple_with_lease triple_seqP [OF _ triple_release_top])
qed

lemma triple_discard: "triple cl tm top discard_draft (\<lambda>_ _. True)"
proof -
  have "triple cl tm top (checkR discard_draft_files (ret (no_result, None))) (\<lambda>_ _. True)"
    by (rule triple_handleP [OF triple_discard_top]) (auto intro!: triple_ret)
  then show ?thesis
    unfolding discard_draft_def
    by (auto intro!: triple_askE_handle triple_ret triple_with_lease triple_seqP [OF _ triple_release_top])
qed

section \<open>Sending\<close>

text \<open>The claim of a message whose copy is retained, before anything left.\<close>

definition ready :: "send_attempt \<Rightarrow> string \<Rightarrow> draft_world \<Rightarrow> bool" where
  "ready a m w \<longleftrightarrow> at_claim a clean_log w \<and> fresh_claim a \<and> claim_covers a m \<and> dw_spool w = Present m"

lemma stable_ready [simp]: "stable (ready a m)"
  by (simp add: stable_def ready_def at_claim_def)

lemma unclaimed_clean: "protocol_inv cl tm w \<Longrightarrow> unclaimed w \<Longrightarrow> clean_log (dw_log w)"
  by (simp add: protocol_inv_def claim_guards_def unclaimed_def)

lemma triple_recover:
  assumes "stable P" "\<And>w. P w \<Longrightarrow> P (drop_spool w)"
  shows "triple cl tm P recover_unclaimed_spool (\<lambda>_. P)"
proof -
  let ?second = "handleP read_send_attempt (\<lambda>_. failE (OpError ''send_recovery_spool_changed'')) (\<lambda>a.
         if a \<noteq> None then failE (OpError ''send_retry_blocked'') else effectE drop_spool)"
  have drop: "triple cl tm (\<lambda>w. P w \<and> dw_claim w = Absent) (effectE drop_spool) (\<lambda>_. P)"
    by (rule triple_effectE) (use assms in \<open>auto simp: stable_def intro: protocol.forget moves_step\<close>)
  have second: "triple cl tm P ?second (\<lambda>_. P)"
  proof (rule triple_handleP [OF triple_read_send_attempt [OF assms(1)]])
    fix x
    show "triple cl tm (\<lambda>w. P w \<and> (case Inr x of Inl e \<Rightarrow> e = Failure
        | Inr None \<Rightarrow> dw_claim w = Absent | Inr (Some a) \<Rightarrow> dw_claim w = Present a))
      (if x \<noteq> None then failE (OpError ''send_retry_blocked'') else effectE drop_spool) (\<lambda>_. P)"
      by (cases x) (auto intro!: triple_ret intro: triple_pre [OF drop])
  qed (auto intro!: triple_ret)
  have first: "triple cl tm P (bindE (askE (OpError ''send_recovery_spool_changed'')) (\<lambda>_. ?second)) (\<lambda>_. P)"
    by (rule triple_askE_handle [OF assms(1) _ second]) (simp add: triple_ret)
  have "triple cl tm P (if s = Absent then retE () else
       handleP read_send_attempt (\<lambda>_. failE (OpError ''send_recovery_spool_changed'')) (\<lambda>a.
       if a \<noteq> None then failE (OpError ''send_retry_blocked'')
       else if s = Corrupt then failE (OpError ''send_recovery_spool_changed'')
       else bindE (askE (OpError ''send_recovery_spool_changed'')) (\<lambda>_. ?second))) (\<lambda>_. P)" for s
    by (auto intro!: triple_ret triple_checked [OF triple_read_keep(1) [OF assms(1)]] first simp del: not_None_eq)
  then have "triple cl tm P (seqP (getP dw_spool) (\<lambda>s. if s = Absent then retE () else
       handleP read_send_attempt (\<lambda>_. failE (OpError ''send_recovery_spool_changed'')) (\<lambda>a.
       if a \<noteq> None then failE (OpError ''send_retry_blocked'')
       else if s = Corrupt then failE (OpError ''send_recovery_spool_changed'')
       else bindE (askE (OpError ''send_recovery_spool_changed'')) (\<lambda>_. ?second)))) (\<lambda>_. P)"
    by (intro triple_getP) (rule triple_pre, assumption, simp)
  then show ?thesis
    unfolding recover_unclaimed_spool_def by (auto intro!: triple_askE_handle triple_ret assms(1))
qed

lemma triple_recover_unclaimed: "triple cl tm unclaimed recover_unclaimed_spool (\<lambda>_. unclaimed)"
  by (rule triple_recover) (simp_all add: unclaimed_def)

lemma triple_persist_spool:
  "triple cl tm unclaimed (persist_spool m)
    (\<lambda>r w. unclaimed w \<and> (\<forall>s. r = Inr s \<longrightarrow> dw_spool w = Present m \<and> spool_covers (Some s) m))"
  (is "triple _ _ _ _ ?Q")
proof -
  have link: "triple cl tm (\<lambda>w. unclaimed w \<and> dw_spool w = Absent) (effect (put_spool m) id)
      (\<lambda>ok w. unclaimed w \<and> (ok \<longrightarrow> dw_spool w = Present m))"
    by (rule triple_effect) (auto simp: stable_def unclaimed_def intro: protocol.retain moves_step)
  have "triple cl tm (\<lambda>w. unclaimed w \<and> dw_spool w = s) (case s of
      Absent \<Rightarrow> seqP (effect (put_spool m) id) (\<lambda>ok. ret (if ok then Created else NotCreated))
    | _ \<Rightarrow> ret Exists) (\<lambda>c w. unclaimed w \<and> (c = Created \<longrightarrow> dw_spool w = Present m))" for s
    by (cases s) (auto intro!: triple_ret triple_seqP [OF link])
  then have "triple cl tm unclaimed (create_exclusive dw_spool (put_spool m) id)
      (\<lambda>c w. unclaimed w \<and> (c = Created \<longrightarrow> dw_spool w = Present m))"
    unfolding create_exclusive_def by (rule triple_getP)
  then have "triple cl tm unclaimed (seqP (create_exclusive dw_spool (put_spool m) id) (\<lambda>c. case c of
         Created \<Rightarrow> retE \<lparr>sp_size = length m, sp_sha = encode_hex (sha256 m)\<rparr> | _ \<Rightarrow> failE Failure)) ?Q"
    by (rule triple_seqP) (auto intro!: triple_ret simp: spool_covers_def digest_matches_def split: creation.splits)
  then show ?thesis
    unfolding persist_spool_def by (auto intro!: triple_askE_handle triple_ret)
qed

lemma triple_begin:
  assumes "ao_spool options = Some s" "spool_covers (Some s) m"
  shows "triple cl tm (\<lambda>w. unclaimed w \<and> dw_spool w = Present m) (begin_send_attempt options)
    (\<lambda>r w. \<forall>a. r = Inr a \<longrightarrow> ready a m w)"
proof -
  let ?P = "\<lambda>w. unclaimed w \<and> dw_spool w = Present m"
  have P: "stable ?P" by (simp add: stable_def unclaimed_def)
  let ?a = "\<lambda>i. \<lparr>sa_id = i, sa_revision = ao_revision options, sa_message_id = ao_message_id options,
        sa_envelope_fingerprint = ao_envelope options, sa_mime_fingerprint = ao_mime options,
        sa_spool = ao_spool options, sa_identity = ao_identity options, sa_outcome = SendUnknown,
        sa_invocation_started = False, sa_accepted_by_mail = False, sa_sent_observed = False,
        sa_observed_ref = [], sa_baseline = ao_baseline options, sa_transport = None\<rparr>"
  have fresh: "fresh_claim (?a i)" "claim_covers (?a i) m" for i using assms by (simp_all add: fresh_claim_def)
  have create: "triple cl tm ?P (effect (put_claim (?a i)) tear_claim) (\<lambda>ok w. ok \<longrightarrow> ready (?a i) m w)" for i
  proof (rule triple_effect [OF P])
    fix w assume w: "protocol_inv cl tm w" "?P w"
    then have "moves cl tm w (put_claim (?a i) w)" "moves cl tm w (tear_claim w)"
      using fresh by (auto simp: unclaimed_def intro!: moves_step intro: protocol.claim protocol.tear)
    moreover have "ready (?a i) m (put_claim (?a i) w)"
      using w fresh unclaimed_clean [OF w(1)] by (simp add: ready_def at_claim_def unclaimed_def)
    ultimately show "moves cl tm w (put_claim (?a i) w) \<and> (True \<longrightarrow> ready (?a i) m (put_claim (?a i) w)) \<and>
        (False \<longrightarrow> ready (?a i) m (put_claim (?a i) w))"
      "moves cl tm w (tear_claim w) \<and> (False \<longrightarrow> ready (?a i) m (tear_claim w))" by simp_all
  qed simp
  have "triple cl tm (\<lambda>w. ?P w \<and> dw_claim w = c) (case c of
      Absent \<Rightarrow> seqP (effect (put_claim (?a i)) tear_claim) (\<lambda>ok. ret (if ok then Created else NotCreated))
    | _ \<Rightarrow> ret Exists) (\<lambda>r w. r = Created \<longrightarrow> ready (?a i) m w)" for c i
  proof (cases c)
    case Absent
    then show ?thesis by (auto intro!: triple_seqP [OF triple_pre [OF create]] triple_ret)
  qed (auto intro!: triple_ret)
  then have "triple cl tm ?P (create_exclusive dw_claim (put_claim (?a i)) tear_claim)
      (\<lambda>r w. r = Created \<longrightarrow> ready (?a i) m w)" for i
    unfolding create_exclusive_def by (rule triple_getP)
  then have "triple cl tm ?P (seqP (create_exclusive dw_claim (put_claim (?a i)) tear_claim) (\<lambda>c. case c of
          Created \<Rightarrow> retE (?a i)
        | Exists \<Rightarrow> failE (OpError ''send_retry_blocked'')
        | NotCreated \<Rightarrow> failE Failure)) (\<lambda>r w. \<forall>a. r = Inr a \<longrightarrow> ready a m w)" for i
    by (rule triple_seqP) (auto intro!: triple_ret split: creation.splits)
  then show ?thesis
    unfolding begin_send_attempt_def new_send_attempt_id_def Let_def
    by (intro triple_checked [where m = "bindE ask_text _"] triple_checked [OF triple_ask_text [OF P]]
        triple_askE_handle [OF P] triple_ret) (auto intro!: triple_ret)
qed

lemma triple_remove_claim_clean: "triple cl tm (at_claim a clean_log) remove_send_attempt (\<lambda>_ _. True)"
proof -
  let ?P = "at_claim a clean_log"
  have spool: "triple cl tm ?P (remove_accepted_spool b) (\<lambda>_. ?P)" for b
    by (rule triple_remove_accepted_spool) (auto simp: at_claim_def intro: protocol.forget)
  have drop: "triple cl tm ?P (effectE drop_claim) (\<lambda>_ _. True)"
    by (rule triple_effectE) (auto simp: at_claim_def intro: protocol.release moves_step)
  show ?thesis
    unfolding remove_send_attempt_def
    by (intro triple_checked [OF triple_read_keep(1)] triple_checked [OF _ _ drop] triple_ret)
      (auto intro!: triple_ret spool split: option.splits)
qed

text \<open>What a submission leaves: no APPEND yet, and nothing at all when the server refused it.\<close>

definition submitted :: "send_attempt \<Rightarrow> string \<Rightarrow> string \<times> bool \<times> send_error option \<Rightarrow> draft_world \<Rightarrow> bool" where
  "submitted a m r w \<longleftrightarrow> claim_covers a m \<and> at_claim a (\<lambda>log. appends log = 0) w
     \<and> (\<not> fst (snd r) \<longrightarrow> (\<exists>e. snd (snd r) = Some e \<and> (submission_stage e = None \<longrightarrow> at_claim a clean_log w)))"

lemma submission_stage_join [simp]:
  "\<exists>e. join_errors (Some (SubmissionUncertain s)) (close_error b) = Some e \<and> submission_stage e = Some s"
  "\<exists>e. join_errors (Some Failure) (close_error b) = Some e"
  by (cases b; simp add: close_error_def)+

lemma clean_snoc_refused: "clean_log log \<Longrightarrow> clean_log (log @ [Submitted m Refused])"
  by (auto simp: clean_log_def)

lemma triple_submit_stream:
  assumes "tm \<noteq> Rewrites \<longrightarrow> x = m"
  shows "triple cl tm (ready a m) (submit_stream x) (submitted a m)"
proof -
  have log: "triple cl tm (ready a m) (update (log_event (Submitted x v)))
      (\<lambda>_ w. claim_covers a m \<and> at_claim a (\<lambda>log. appends log = 0) w \<and> (v = Refused \<longrightarrow> at_claim a clean_log w))" for v
    by (rule triple_update)
      (use assms in \<open>auto simp: ready_def at_claim_def clean_log_counts
        intro!: moves_step protocol.submit intro: clean_snoc_refused\<close>)
  have failed: "submitted a m ([], False, Some Failure) w" if "ready a m w" for w
    using that by (auto simp: ready_def submitted_def at_claim_def clean_log_counts)
  have uncertain: "submitted a m ([], False, join_errors (Some (SubmissionUncertain s)) (close_error b)) w"
    if "claim_covers a m" "at_claim a (\<lambda>log. appends log = 0) w" for s b w
    using that by (cases b) (auto simp: submitted_def close_error_def)
  have refused: "submitted a m ([], False, join_errors (Some Failure) (close_error b)) w"
    if "claim_covers a m" "at_claim a (\<lambda>log. appends log = 0) w" "at_claim a clean_log w" for b w
    using that by (cases b) (auto simp: submitted_def close_error_def)
  show ?thesis
    unfolding submit_stream_def
  proof (rule triple_answered)
    fix r
    show "triple cl tm (ready a m) (case r of
      Yes \<Rightarrow> seqP (update (log_event (Submitted x Accepted))) (\<lambda>_. ret ([], True, None))
    | SubmitReply Accepted response closed \<Rightarrow>
        seqP (update (log_event (Submitted x Accepted))) (\<lambda>_. ret (response, True, close_error closed))
    | SubmitReply Uncertain stage closed \<Rightarrow>
        seqP (update (log_event (Submitted x Uncertain)))
          (\<lambda>_. ret ([], False, join_errors (Some (SubmissionUncertain stage)) (close_error closed)))
    | SubmitReply Refused _ closed \<Rightarrow>
        seqP (update (log_event (Submitted x Refused)))
          (\<lambda>_. ret ([], False, join_errors (Some Failure) (close_error closed)))
    | CrashTorn \<Rightarrow> seqP (update (log_event (Submitted x Uncertain))) (\<lambda>_. crash)
    | CrashAfter \<Rightarrow> seqP (update (log_event (Submitted x Uncertain))) (\<lambda>_. crash)
    | _ \<Rightarrow> ret ([], False, Some Failure)) (submitted a m)"
    proof (cases r)
      case (SubmitReply v q c)
      then show ?thesis
        by (cases v) (auto intro!: triple_seqP [OF log] triple_ret uncertain refused simp: submitted_def)
    qed (auto intro!: triple_seqP [OF log] triple_ret triple_crash failed simp: submitted_def)
  qed simp
qed

lemma triple_submit: "triple cl tm (ready a m) (submit_message m) (submitted a m)"
  unfolding submit_message_def
proof (rule triple_handleP [OF triple_open_composed])
  fix x
  show "triple cl tm (\<lambda>w. ready a m w \<and> (\<forall>y. Inr x = Inr y \<and> tm \<noteq> Rewrites \<longrightarrow> y = m)) (submit_stream x) (submitted a m)"
    using triple_submit_stream [of tm x m cl a]
    by (cases "tm \<noteq> Rewrites \<longrightarrow> x = m") (auto intro: triple_pre intro!: triple_false)
qed (auto intro!: triple_ret simp: ready_def submitted_def at_claim_def clean_log_counts)

lemma submitted_spool [simp]: "sa_spool (attempt_submitted a r) = sa_spool a" "sa_spool (attempt_uncertain a r) = sa_spool a"
  by (simp_all add: attempt_submitted_def attempt_uncertain_def)

lemma join_submission_Some: "\<exists>e'. join_submission_error s (Some e) = Some e'"
  by (cases s) (simp_all add: join_submission_error_def)

lemma triple_joined_error: "triple cl tm P (ret (r, join_submission_error s (Some e))) settled"
  using join_submission_Some [of s e] by (auto intro!: triple_error)

lemma triple_mirror_submitted:
  assumes "claim_covers a m" "sa_spool a = sa_spool c"
  shows "triple cl tm (at_claim c (no_append cl)) (mirror_submitted a m s) settled"
proof -
  have finish: "triple cl tm top (seqP (finish_observed_send b False)
       (\<lambda>r. ret (fst r, join_submission_error s (snd r)))) settled" for b
    by (rule triple_seqP [OF triple_finish])
      (auto intro!: triple_ret simp: settled_def join_submission_error_def split: option.splits)
  show ?thesis
    unfolding mirror_submitted_def Let_def
    by (rule triple_mirror_then [OF _ _ _ assms])
      (auto intro!: triple_joined_error triple_record_failure triple_conclude finish)
qed

lemma triple_submit_claimed: "triple cl tm (ready a m) (submit_claimed a m) settled"
  unfolding submit_claimed_def
proof (rule triple_seqP [OF triple_submit])
  fix r :: "string \<times> bool \<times> send_error option"
  obtain response accepted e where r: "r = (response, accepted, e)" by (cases r) auto
  have mirror: "triple cl tm (submitted a m r) (mirror_submitted (attempt_submitted a response) m e) settled"
  proof (cases "claim_covers a m")
    case True
    then show ?thesis
      by (intro triple_pre [OF triple_mirror_submitted [where c = a]])
        (auto simp: submitted_def at_claim_def no_append_def)
  qed (auto intro!: triple_false simp: submitted_def)
  have uncertain: "triple cl tm (submitted a m r) (handleP (replace_send_attempt (attempt_uncertain a stage))
        (\<lambda>_. ret (result_for_attempt (attempt_uncertain a stage) True, Some x))
        (\<lambda>_. ret (result_for_attempt (attempt_uncertain a stage) True, Some y))) settled" for stage x y
    by (rule triple_pre [where P = "at_claim a (\<lambda>log. appends log = 0)"], rule triple_handleP [OF triple_replace])
      (auto intro!: triple_error simp: submitted_def)
  have refused: "triple cl tm (submitted a m r) (handleP remove_send_attempt
        (\<lambda>_. ret (result_for_attempt a True, Some x)) (\<lambda>_. failR y)) settled"
    if "\<not> accepted" "e = Some z" "submission_stage z = None" for x y z
    by (rule triple_pre [where P = "at_claim a clean_log"], rule triple_handleP [OF triple_remove_claim_clean])
      (use that r in \<open>auto intro!: triple_error simp: submitted_def\<close>)
  show "triple cl tm (submitted a m r)
      (let response = fst r; accepted = fst (snd r); submission_error = snd (snd r) in
     case (if accepted then None else submission_error) of
       Some e \<Rightarrow>
         (case submission_stage e of
            Some stage \<Rightarrow>
              let a = attempt_uncertain a stage in
              handleP (replace_send_attempt a)
                (\<lambda>_. ret (result_for_attempt a True, Some (OpError ''send_state_unknown'')))
                (\<lambda>_. ret (result_for_attempt a True, Some e))
          | None \<Rightarrow>
              handleP remove_send_attempt
                (\<lambda>_. ret (result_for_attempt a True, Some (OpError ''send_state_cleanup_failed'')))
                (\<lambda>_. failR e))
     | None \<Rightarrow> mirror_submitted (attempt_submitted a response) m submission_error) settled"
    using mirror uncertain refused
    by (cases accepted; cases e) (auto simp: r Let_def split: option.splits)
qed

lemma triple_claim_and_submit:
  "triple cl tm unclaimed (claim_and_submit d identity message_id envelope mime m) settled"
proof -
  have claimed: "triple cl tm (\<lambda>w. unclaimed w \<and> (\<forall>s. Inr sp = Inr s \<longrightarrow> dw_spool w = Present m \<and> spool_covers (Some s) m))
     (handleP (begin_send_attempt \<lparr>ao_revision = dr_revision d, ao_baseline = None, ao_message_id = message_id,
         ao_envelope = envelope, ao_mime = mime, ao_spool = Some sp, ao_identity = Some identity\<rparr>)
       (\<lambda>e. handleP recover_unclaimed_spool (\<lambda>e'. failR (Joined e e')) (\<lambda>_. failR e))
       (\<lambda>a. submit_claimed a m)) settled" for sp
  proof (cases "spool_covers (Some sp) m")
    case True
    have begin_it: "triple cl tm (\<lambda>w. unclaimed w \<and> dw_spool w = Present m) (begin_send_attempt \<lparr>ao_revision = dr_revision d,
         ao_baseline = None, ao_message_id = message_id, ao_envelope = envelope, ao_mime = mime, ao_spool = Some sp,
         ao_identity = Some identity\<rparr>) (\<lambda>r w. \<forall>a. r = Inr a \<longrightarrow> ready a m w)"
      by (rule triple_begin [OF _ True]) simp
    have failed: "triple cl tm top (handleP recover_unclaimed_spool (\<lambda>e'. failR (Joined e e')) (\<lambda>_. failR e)) settled" for e
      by (rule triple_checked [OF triple_recover]) (simp_all add: triple_error)
    show ?thesis
      by (rule triple_pre, rule triple_handleP [OF begin_it])
        (simp_all add: from_top [OF failed] triple_submit_claimed)
  qed (auto intro!: triple_false)
  show ?thesis
    unfolding claim_and_submit_def
    by (intro triple_checked [OF triple_recover_unclaimed] triple_handleP [OF triple_persist_spool] triple_error claimed)
qed

lemma triple_composed: "triple cl tm P m settled \<Longrightarrow> triple cl tm P (with_composed_message m) settled"
  unfolding with_composed_message_def
  by (erule triple_seqP) (auto intro!: triple_seq_keep [OF triple_ask] triple_ret simp: settled_def)

lemma triple_send_unclaimed: "triple cl tm unclaimed (send_unclaimed d) settled"
  unfolding send_unclaimed_def
  by (auto intro!: triple_error triple_askE_handle triple_checked [OF triple_ask_identity] triple_checked [OF triple_ask_text]
      triple_composed triple_claim_and_submit)

lemma triple_send_loaded: "triple cl tm (loaded l) (send_loaded expected l) settled"
proof (cases "ld_send l")
  case None
  have receipt: "triple cl tm unclaimed (handleP read_active_receipt
      (\<lambda>e. if is_not_found e then send_unclaimed (ld_draft l) else failR e) (\<lambda>r. case r of
           None \<Rightarrow> send_unclaimed (ld_draft l)
         | Some r \<Rightarrow> guardP (require_revision expected (rc_revision r)) (
             let result = result_for_receipt r in
             handleP discard_draft_files (\<lambda>_. ret (result, Some (OpError ''send_cleanup_failed'')))
               (\<lambda>_. ret (result\<lparr>rs_draft_retained := False\<rparr>, None))))) settled"
    unfolding Let_def
    by (rule triple_active_receipt)
      (auto intro!: triple_error triple_send_unclaimed triple_guardP triple_pre [OF triple_discard_settled])
  have "triple cl tm unclaimed (send_loaded expected l) settled"
    unfolding send_loaded_def Let_def None option.case
    by (auto intro!: triple_error triple_askE_handle triple_guardP receipt [unfolded Let_def]
        simp: reject_claimed_def None)
  then show ?thesis by (rule triple_pre) (rule loaded_unclaimed [OF None])
next
  case (Some a)
  show ?thesis
    unfolding send_loaded_def Let_def Some option.case
    by (auto intro!: triple_error triple_askE_handle triple_guardP from_top [OF triple_replay]
        simp: reject_claimed_def Some)
qed

lemma finish_from_normal_receipt:
  "triple cl tm (\<lambda>w. gone w \<and> receipt_kept (Some (normalize_receipt r)) w) (finish_from_receipt r b) settled"
  using triple_finish_from_receipt [of cl tm "normalize_receipt r" b]
  by (simp add: finish_from_receipt_def result_for_receipt_def Let_def)

lemma triple_send_unloaded: "triple cl tm (read_result (Inl e)) (send_unloaded expected e) settled"
proof (cases "is_not_found e")
  case True
  have missing: "triple cl tm gone (send_draft_missing x) settled" for x
    unfolding send_draft_missing_def by (auto intro!: triple_error triple_checked [OF triple_remove_lock])
  have "triple cl tm gone (handleP read_active_receipt (\<lambda>re. if is_not_found re then send_draft_missing e else failR re)
      (\<lambda>r. case r of None \<Rightarrow> send_draft_missing e
       | Some r \<Rightarrow> guardP (require_revision expected (rc_revision r)) (finish_from_receipt r False))) settled"
    by (rule triple_active_receipt) (auto intro!: triple_error missing triple_guardP finish_from_normal_receipt)
  then have "triple cl tm (read_result (Inl e)) (handleP read_active_receipt (\<lambda>re. if is_not_found re then send_draft_missing e else failR re)
      (\<lambda>r. case r of None \<Rightarrow> send_draft_missing e
       | Some r \<Rightarrow> guardP (require_revision expected (rc_revision r)) (finish_from_receipt r False))) settled"
    by (rule triple_pre) (use True in simp)
  then show ?thesis using True by (simp add: send_unloaded_def)
qed (simp add: send_unloaded_def triple_error)

lemma triple_send: "triple cl tm top (send_draft expected) settled"
  unfolding send_draft_def
  by (auto intro!: triple_askE_handle triple_error triple_with_lease triple_seqP [OF _ triple_seqP [OF triple_classify triple_release]]
      triple_handleP [OF triple_read_draft] triple_send_unloaded triple_send_loaded
      simp: read_result_simps [abs_def])

section \<open>Sequences of operations\<close>

lemma triple_operation: "triple cl tm top (run_operation op) (\<lambda>_ _. True)"
  by (cases op)
    (simp_all add: triple_top [OF triple_send] triple_top [OF triple_reconcile] triple_update_draft triple_discard)

lemma operation_moves: "protocol_inv cl tm w \<Longrightarrow> moves cl tm w (snd (run_operation op w))"
  using tripleD [OF triple_operation] by simp

lemma operations_move: "protocol_inv cl tm w \<Longrightarrow> moves cl tm w (run_operations ops w)"
proof (induction ops arbitrary: w)
  case (Cons op ops)
  have "moves cl tm w (snd (run_operation op w))" using Cons.prems by (rule operation_moves)
  then show ?case
    using Cons.IH [OF moves_inv [OF _ Cons.prems]] by (auto simp: run_operations_def intro: moves_trans)
qed (simp add: run_operations_def)

end
