(* ===== verification/Draft_Send_Theorems.thy ===== *)
theory Draft_Send_Theorems
  imports Draft_Send_Proofs
begin

text \<open>
  What the protocol gives for the operations of the code: at most one submission and one APPEND, one
  message, a retained copy, immutable receipts, and what a result without an error means. A concrete
  send is run by simplification; it is the witness of the properties.
\<close>

section \<open>A send and a reconciliation, worked out\<close>

definition example_revision :: string where
  "example_revision = revision_prefix @ replicate 64 (CHR ''a'')"

definition example_draft :: stored_draft where
  "example_draft = \<lparr>dr_revision = example_revision, dr_kind = KindReply, dr_from = [], dr_to = 1, dr_cc = 0, dr_bcc = 0\<rparr>"

definition example_world :: "answer list \<Rightarrow> draft_world" where
  "example_world as = \<lparr>dw_draft = Present example_draft,
    dw_claim = Absent, dw_spool = Absent, dw_receipt = Absent, dw_save_claim = Absent, dw_handoff = Absent,
    dw_log = [], dw_oracle = as\<rparr>"

definition example_send :: "answer \<Rightarrow> answer list" where
  "example_send mirror = replicate 18 Yes @ [TextReply ''<id@host>'', Yes, TextReply ''mail'', Yes, Yes, TextReply ''fp'']
     @ replicate 9 Yes @ [SubmitReply Accepted ''250'' True, Yes, Yes, Yes, Yes, mirror]"

definition example_reconcile :: "answer list" where
  "example_reconcile = replicate 34 Yes @ [MirrorReply Accepted ''Sent'' 1 2 True True, SearchReply 2 1 1]"

text \<open>Rules that run a program on a concrete world, without looking into the rest of it.\<close>

lemma seqP_run: "seqP m f w = (case m w of (r, w') \<Rightarrow> (case r of Crashed \<Rightarrow> (Crashed, w') | Done x \<Rightarrow> f x w'))"
  by (simp add: seqP_def split: prod.split run.split)

lemma handleP_run: "handleP m h k w = (case m w of (r, w') \<Rightarrow> (case r of Crashed \<Rightarrow> (Crashed, w')
    | Done q \<Rightarrow> (case q of Inl e \<Rightarrow> h e w' | Inr x \<Rightarrow> k x w')))"
  by (simp add: handleP_def seqP_run split: prod.split run.split sum.split)

lemma program_cong: "seqP m f = seqP m f" "handleP m h k = handleP m h k"
  by (rule refl)+

lemma encode_hex_printable: "c \<in> set (encode_hex s) \<Longrightarrow> 33 \<le> byte_val c \<and> byte_val c < 127"
proof (induction s)
  case (Cons b s)
  have "33 \<le> byte_val (hex_digit n) \<and> byte_val (hex_digit n) < 127" if "n < 16" for n
    using that by (auto simp: hex_digit_def)
  then show ?case using Cons nibbles by auto
qed simp

lemma valid_spool_digest [simp]:
  "valid_spool (Some \<lparr>sp_size = n, sp_sha = encode_hex (sha256 m)\<rparr>) \<longleftrightarrow> 0 < n \<and> n \<le> maximum_spool_bytes"
  by (auto simp: valid_spool_def trim_space_printable encode_hex_printable length_sha256)

lemmas program_defs =
  seqP_run handleP_run ret_def getP_def next_answer_def ask_def askE_def ask_text_def update_def crash_def effect_def
  effectE_def joinE_def read_slot_def read_send_attempt_def read_save_attempt_def read_handoff_attempt_def
  read_send_receipt_def read_active_receipt_def load_draft_document_def attach_draft_attempts_def read_draft_def
  remove_lock_def read_draft_for_mutation_def create_exclusive_def new_send_attempt_id_def begin_send_attempt_def
  replace_send_attempt_def persist_spool_def recover_unclaimed_spool_def open_accepted_spool_def remove_accepted_spool_def
  remove_send_attempt_def require_equal_receipt_def persist_send_receipt_def ensure_send_receipt_def
  remove_handoff_attempt_def remove_draft_claims_def discard_draft_files_def
  guardP_def classify_context_error_def classify_result_def release_lease_def with_draft_lease_def
  open_composed_def submit_stream_def submit_message_def append_stream_def mirror_message_def search_sent_def lookup_text_def finish_observed_send_def replay_send_attempt_def
  persist_mirror_attempt_def mirror_submitted_def submit_claimed_def claim_and_submit_def ask_identity_def
  with_composed_message_def send_unclaimed_def send_loaded_def send_draft_missing_def finish_from_receipt_def
  send_unloaded_def send_draft_def

lemma replicate_steps: "replicate (numeral k) x = x # replicate (pred_numeral k) x"
  by (simp add: numeral_eq_Suc)

lemmas example_defs =
  run_operations_def program_defs example_world_def example_send_def example_draft_def example_reconcile_def
  require_revision_def put_claim_def put_spool_def recipient_count_def Let_def log_event_def maximum_spool_bytes_def
  close_error_def attempt_submitted_def arm_mirror_def set_mirror_unknown_def evidence_of_def
  no_evidence_def mirror_pending_error_def trim_prefix_def has_prefix_def join_submission_error_def sent_attempt_def
  result_for_attempt_def submission_accepted_for_def no_result_def
  put_receipt_def drop_claim_def drop_draft_def drop_spool_def drop_save_claim_def drop_handoff_def
  replicate_steps

lemma example_texts [simp]:
  "trim_space ''<id@host>'' = ''<id@host>''" "trim_space ''250'' = ''250''" "trim_space ''fp'' = ''fp''"
  by (simp_all add: trim_space_printable)

lemma example_revision_valid [simp]: "valid_stored_revision example_revision" "example_revision \<noteq> []"
  by (simp_all add: valid_stored_revision_def example_revision_def revision_prefix_def has_prefix_def replicate_steps
      Let_def lower_byte_def is_upper_def hex_value_def)

lemmas example_checks = valid_send_attempt_def valid_send_receipt_def normalize_receipt_def
    receipt_from_attempt_def valid_baseline_def valid_transport_evidence_def digest_matches_def

lemma example_pending:
  defines "w \<equiv> snd (send_draft example_revision (example_world (example_send (MirrorReply Refused ''x'' 0 0 True True))))"
  shows "dw_log w = [Submitted ''mail'' Accepted, Appended ''mail'' Refused] \<and> dw_draft w = Present example_draft
    \<and> dw_spool w = Present ''mail''"
  unfolding w_def by (simp add: example_defs cong: program_cong)

lemma example_sent:
  defines "p \<equiv> send_draft example_revision (example_world (example_send (MirrorReply Accepted ''Sent'' 1 2 True True)))"
  shows "(\<exists>r. fst p = Done (r, None)) \<and> dw_log (snd p) = [Submitted ''mail'' Accepted, Appended ''mail'' Accepted]
    \<and> dw_draft (snd p) = Absent \<and> dw_claim (snd p) = Absent \<and> dw_spool (snd p) = Absent"
  unfolding p_def by (simp add: example_defs example_checks cong: program_cong)

lemma example_receipt:
  "\<exists>r. dw_receipt (snd (send_draft example_revision
     (example_world (example_send (MirrorReply Accepted ''Sent'' 1 2 True True))))) = Present r"
  by (simp add: example_defs example_checks cong: program_cong)

section \<open>Histories\<close>

text \<open>
  A history of a draft: operations of this program, each under the lease and each possibly cut short,
  and changes of the recovery spool by anyone else.
\<close>

datatype history_step =
    Runs draft_operation
  | Changes_Spool "string slot"

fun take_step :: "history_step \<Rightarrow> draft_world \<Rightarrow> draft_world" where
  "take_step (Runs op) w = snd (run_operation op w)"
| "take_step (Changes_Spool s) w = w\<lparr>dw_spool := s\<rparr>"

definition run_history :: "history_step list \<Rightarrow> draft_world \<Rightarrow> draft_world" where
  "run_history steps w = fold take_step steps w"

fun changes_spool :: "history_step \<Rightarrow> bool" where
  "changes_spool (Changes_Spool _) = True"
| "changes_spool (Runs _) = False"

lemma history_step_moves:
  assumes "protocol_inv cl tm w" "changes_spool s \<longrightarrow> tm \<noteq> Undisturbed"
  shows "moves cl tm w (take_step s w)"
  using assms by (cases s) (auto intro: operation_moves moves_step protocol.tampered)

lemma history_moves:
  assumes "\<forall>s \<in> set steps. changes_spool s \<longrightarrow> tm \<noteq> Undisturbed" "protocol_inv cl tm w"
  shows "moves cl tm w (run_history steps w)"
  using assms
proof (induction steps arbitrary: w)
  case (Cons s steps)
  have "moves cl tm w (take_step s w)" using Cons.prems by (intro history_step_moves) auto
  then show ?case
    using Cons.IH [OF _ moves_inv [OF _ Cons.prems(2)]] Cons.prems(1)
    by (auto simp: run_history_def intro: moves_trans)
qed (simp add: run_history_def)

text \<open>A world before anything was sent, whose faults are those the switches admit.\<close>

definition starts :: "bool \<Rightarrow> interference \<Rightarrow> draft_world \<Rightarrow> bool" where
  "starts cl tm w \<longleftrightarrow> dw_log w = [] \<and> (cl \<longrightarrow> filter close_failure (dw_oracle w) = [])
     \<and> (tm \<noteq> Rewrites \<longrightarrow> filter rewritten_file (dw_oracle w) = [])"

lemma start_inv: "starts cl tm w \<Longrightarrow> protocol_inv cl tm w"
  by (auto simp: starts_def protocol_inv_def undisturbed_oracle_def at_most_once_def claim_guards_def one_message_def retained_def submissions_def
      appends_def carried_def filter_empty_conv)

interpretation draft_invariant: preserved_invariant "starts cl tm" "protocol cl tm" "protocol_inv cl tm" for cl tm
  by unfold_locales (auto intro: start_inv protocol_inv_step)

text \<open>Histories only reach states the protocol reaches.\<close>

lemma moves_reachable:
  "moves cl tm w w' \<Longrightarrow> reachable init (protocol cl tm) w \<Longrightarrow> reachable init (protocol cl tm) w'"
  unfolding moves_def by (induction rule: rtranclp_induct) (auto intro: reachable.move)

lemma history_inv:
  assumes "starts cl tm w" "\<forall>s \<in> set steps. changes_spool s \<longrightarrow> tm \<noteq> Undisturbed"
  shows "protocol_inv cl tm (run_history steps w)"
proof (rule draft_invariant.holds)
  show "reachable (starts cl tm) (protocol cl tm) (run_history steps w)"
    using assms by (intro moves_reachable [OF history_moves [OF assms(2) start_inv [OF assms(1)]]] reachable.start)
qed

text \<open>Nothing is assumed of the faults and of the other processes.\<close>

lemma any_history_inv: "dw_log w = [] \<Longrightarrow> protocol_inv False Rewrites (run_history steps w)"
  by (rule history_inv) (simp_all add: starts_def)

lemmas reconcile_defs = resolve_recovery_target_def load_credentials_def adopted_attempt_def adopt_observed_def
  retry_mirror_def mirror_unless_unknown_def find_sent_mailbox_def reconcile_mirror_pending_def reconcile_attempt_def
  reconcile_loaded_def reconcile_unloaded_def reconcile_draft_def result_for_reconcile_def

text \<open>A send whose mirror is refused, another process that removes the spool and puts it back, and a reconciliation.\<close>

definition retried_mirror :: "history_step list" where
  "retried_mirror = [Runs (Send example_revision), Changes_Spool Corrupt, Changes_Spool (Present ''mail''), Runs Reconcile]"

definition retried_answers :: "answer list" where
  "retried_answers = example_send (MirrorReply Refused ''x'' 0 0 True True) @ example_reconcile"

lemma example_retried:
  "dw_log (run_history retried_mirror (example_world retried_answers)) =
     [Submitted ''mail'' Accepted, Appended ''mail'' Refused, Appended ''mail'' Accepted]"
  by (simp add: retried_mirror_def retried_answers_def run_history_def example_defs example_checks reconcile_defs
      cong: program_cong)

section \<open>Properties\<close>

text \<open>C1. Whatever the servers answer, whatever fails and wherever a process dies, any sequence of
  sends, reconciliations, updates and discards of a draft leaves at most one SMTP submission that was
  not refused.\<close>

theorem submitted_at_most_once:
  "dw_log w = [] \<Longrightarrow> submissions (dw_log (run_history steps w)) \<le> 1"
  using any_history_inv [of w steps] by (simp add: protocol_inv_def at_most_once_def)

theorem submitted_at_most_once_witness:
  "dw_log (example_world (example_send No)) = [] \<and>
   submissions (dw_log (run_history [Runs (Send example_revision), Changes_Spool Corrupt, Runs Reconcile, Runs Discard]
     (example_world (example_send No)))) \<le> 1"
  using submitted_at_most_once [of "example_world (example_send No)"] by (simp add: example_world_def)

text \<open>C7. The mirror is at most once too, as long as closing the local reader after a confirmed APPEND
  does not fail: over any such sequence at most one APPEND to the Sent mailbox was not refused.\<close>

theorem appended_at_most_once:
  "dw_log w = [] \<Longrightarrow> filter close_failure (dw_oracle w) = [] \<Longrightarrow> appends (dw_log (run_history steps w)) \<le> 1"
  using history_inv [of True Rewrites w steps] by (simp add: starts_def protocol_inv_def at_most_once_def)

theorem appended_at_most_once_witness:
  "appends (dw_log (run_history [Runs (Send example_revision), Runs Reconcile]
     (example_world (example_send CrashAfter @ example_reconcile)))) \<le> 1"
  by (rule appended_at_most_once) (simp_all add: example_world_def example_send_def example_reconcile_def replicate_steps)

text \<open>C17. What is appended to Sent is what was submitted: the same length and the same SHA-256, even when
  another process replaces the recovery spool between the operations, as long as none rewrites the file
  of the message in place while it is streamed.\<close>

theorem mirrored_message_is_submitted:
  assumes "dw_log w = []" "filter rewritten_file (dw_oracle w) = []"
    and "{Submitted m v, Appended m' v'} \<subseteq> set (dw_log (run_history steps w))" "v \<noteq> Refused"
  shows "length m' = length m \<and> sha256 m' = sha256 m"
proof -
  have "one_message Replaces (run_history steps w)"
    using history_inv [of False Replaces w steps] assms(1,2) by (simp add: starts_def protocol_inv_def)
  moreover have "m \<in> carried (dw_log (run_history steps w))" "m' \<in> carried (dw_log (run_history steps w))"
    using assms(3,4) by (auto simp: carried_def)
  ultimately have "same_message m m'" unfolding one_message_def by blast
  then show ?thesis by (simp add: same_message_def)
qed

theorem mirrored_message_is_submitted_witness:
  "\<exists>m m'. dw_log (run_history retried_mirror (example_world retried_answers)) =
       [Submitted m Accepted, Appended m' Refused, Appended m' Accepted] \<and> length m' = length m \<and> sha256 m' = sha256 m"
proof -
  let ?w = "example_world retried_answers"
  have log: "dw_log (run_history retried_mirror ?w) =
      [Submitted ''mail'' Accepted, Appended ''mail'' Refused, Appended ''mail'' Accepted]"
    using example_retried by simp
  have "length ''mail'' = length ''mail'' \<and> sha256 ''mail'' = sha256 ''mail''"
    by (rule mirrored_message_is_submitted [where steps = retried_mirror and w = ?w and v = Accepted and v' = Refused])
      (simp_all add: log, simp_all add: example_world_def retried_answers_def example_send_def example_reconcile_def replicate_steps)
  with log show ?thesis by blast
qed

text \<open>C16. Once a message may have left, its exact copy stays in the recovery spool as long as the draft
  exists and no other process touches the files of the message.\<close>

theorem submitted_copy_retained:
  assumes "dw_log w = []" "filter changes_spool steps = []" "filter rewritten_file (dw_oracle w) = []"
    and "Submitted m v \<in> set (dw_log (run_history steps w))" "v \<noteq> Refused" "dw_draft (run_history steps w) \<noteq> Absent"
  shows "dw_spool (run_history steps w) = Present m"
proof -
  have "retained Undisturbed (run_history steps w)"
    using history_inv [of False Undisturbed w steps] assms(1-3)
    by (auto simp: starts_def protocol_inv_def filter_empty_conv)
  then show ?thesis using assms(4-6) by (auto simp: retained_def)
qed

theorem submitted_copy_retained_witness:
  "dw_spool (run_history [Runs (Send example_revision)]
     (example_world (example_send (MirrorReply Refused ''x'' 0 0 True True)))) = Present ''mail''"
  by (rule submitted_copy_retained [where v = Accepted])
    (use example_pending in \<open>simp_all add: run_history_def\<close>,
      simp_all add: example_world_def example_send_def replicate_steps)

text \<open>C18. A send or a reconciliation that returns no error has removed the draft, and the receipt it
  returns is the one on disk.\<close>

theorem success_is_settled:
  assumes "dw_log w = []" "op = Reconcile \<or> op = Send expected"
    and "fst (run_operation op (run_history steps w)) = Done (r, None)"
  shows "dw_draft (take_step (Runs op) (run_history steps w)) = Absent
    \<and> (\<exists>rc stored. rs_receipt r = Some rc \<and> dw_receipt (take_step (Runs op) (run_history steps w)) = Present stored
         \<and> normalize_receipt stored = normalize_receipt rc)"
proof -
  have inv: "protocol_inv False Rewrites (run_history steps w)" using any_history_inv assms(1) by simp
  have "triple False Rewrites top (run_operation op) settled"
    using assms(2) triple_send triple_reconcile by auto
  then have "settled (r, None) (snd (run_operation op (run_history steps w)))"
    using tripleD inv assms(3) by fastforce
  then show ?thesis by (auto simp: settled_def receipt_kept_def)
qed

theorem success_is_settled_witness:
  "dw_draft (run_history [Runs (Send example_revision)]
     (example_world (example_send (MirrorReply Accepted ''Sent'' 1 2 True True)))) = Absent"
proof -
  let ?w = "example_world (example_send (MirrorReply Accepted ''Sent'' 1 2 True True))"
  obtain r where "fst (run_operation (Send example_revision) (run_history [] ?w)) = Done (r, None)"
    using example_sent by (auto simp: run_history_def)
  then show ?thesis
    using success_is_settled [of ?w "Send example_revision" example_revision "[]" r]
    by (simp add: run_history_def) (simp add: example_world_def)
qed

lemma moves_receipt: "moves cl tm w w' \<Longrightarrow> dw_receipt w = Present r \<Longrightarrow> dw_receipt w' = Present r"
  unfolding moves_def by (induction rule: rtranclp_induct) (auto elim!: protocol.cases)

text \<open>C19. A receipt is immutable: no later send, reconciliation, update or discard of the draft, no fault or crash
  in them and no change of the recovery spool by another process changes or removes it. Pruning, which removes
  expired receipts, is outside the histories.\<close>

theorem receipt_immutable:
  assumes "dw_log w = []" "dw_receipt (run_history steps w) = Present r"
  shows "dw_receipt (run_history later (run_history steps w)) = Present r"
proof -
  have "protocol_inv False Rewrites (run_history steps w)" using any_history_inv assms(1) by simp
  then show ?thesis using history_moves [of later Rewrites False] assms(2) by (auto intro: moves_receipt)
qed

theorem receipt_immutable_witness:
  "\<exists>r. dw_receipt (run_history [Runs (Send example_revision), Runs Reconcile]
     (example_world (example_send (MirrorReply Accepted ''Sent'' 1 2 True True)))) = Present r"
proof -
  let ?w = "example_world (example_send (MirrorReply Accepted ''Sent'' 1 2 True True))"
  obtain r where "dw_receipt (run_history [Runs (Send example_revision)] ?w) = Present r"
    using example_receipt by (auto simp: run_history_def)
  then have "dw_receipt (run_history [Runs Reconcile] (run_history [Runs (Send example_revision)] ?w)) = Present r"
    by (rule receipt_immutable [rotated]) (simp add: example_world_def)
  then show ?thesis by (simp add: run_history_def)
qed

section \<open>The mirror and a reader that does not close\<close>

text \<open>
  The hypothesis of \<open>appended_at_most_once\<close> is needed: when closing the local reader fails after a
  confirmed APPEND, \<open>mirrorComposedMessage\<close> reports an error that is not recorded as an unknown
  outcome, and a reconciliation whose search does not yet see the copy appends it again.
\<close>

lemma close_failure_appends_twice:
  "appends (dw_log (run_history [Runs (Send example_revision), Runs Reconcile]
     (example_world (example_send (MirrorReply Accepted ''Sent'' 1 2 True False) @ example_reconcile)))) = 2"
  by (simp add: run_history_def example_defs example_checks reconcile_defs appends_def cong: program_cong)

text \<open>
  So is that of \<open>mirrored_message_is_submitted\<close>: the digest of the recovery spool is checked, the file
  closed and opened again by its name, and what is written into it in between is appended.
\<close>

lemma rewritten_spool_appended:
  "dw_log (run_history [Runs (Send example_revision), Runs Reconcile]
     (example_world (example_send (MirrorReply Refused ''x'' 0 0 True True) @ replicate 33 Yes
        @ [Rewritten ''evil'', MirrorReply Accepted ''Sent'' 1 2 True True, SearchReply 2 1 1]))) =
     [Submitted ''mail'' Accepted, Appended ''mail'' Refused, Appended ''evil'' Accepted]"
  by (simp add: run_history_def example_defs example_checks reconcile_defs cong: program_cong)

end
