(* ===== verification/Smtp_Submission.thy ===== *)
theory Smtp_Submission
  imports Transport_Errors Go_Strings
begin

text \<open>
  Submission of a message over SMTP (\<open>src/internal/transport/smtpclient/smtp.go\<close>, \<open>smtp_utf8.go\<close>): the
  dialogue up to the final reply, the reader of that reply, and the classification of every failure
  into one that leaves the outcome unknown and one after which the message was not accepted.

  The peer and the network are an oracle: each command and each write succeeds or fails with a cause,
  and the bytes after the terminator are any string with any end. The log records what was written, at
  the moment the write is attempted.
\<close>

section \<open>Failures\<close>

text \<open>Why a read or write of the connection failed; \<open>ServerReply\<close> is a \<open>textproto.Error\<close>.\<close>

datatype smtp_cause =
    NetTimeout
  | ServerReply nat string
  | BudgetExceeded
  | IoFailure

fun cause_error :: "smtp_cause \<Rightarrow> go_error" where
  "cause_error NetTimeout = NetworkErr"
| "cause_error (ServerReply _ _) = PlainErr"
| "cause_error BudgetExceeded = TransportErr ''smtp_rejected'' None (Some PlainErr)"
| "cause_error IoFailure = PlainErr"

definition timeout_error :: go_error where
  "timeout_error = TransportErr ''smtp_timeout'' None (Some PlainErr)"

text \<open>\<open>sessionError\<close>; the flag says whether the context is done.\<close>

definition session_error :: "bool \<Rightarrow> smtp_cause \<Rightarrow> go_error" where
  "session_error done_ctx c = (if done_ctx then timeout_error
     else (case c of
         NetTimeout \<Rightarrow> TransportErr ''smtp_timeout'' None (Some NetworkErr)
       | ServerReply _ _ \<Rightarrow> TransportErr ''smtp_rejected'' None (Some PlainErr)
       | _ \<Rightarrow> Wrapped (cause_error c)))"

definition start_tls_error :: "bool \<Rightarrow> smtp_cause \<Rightarrow> go_error" where
  "start_tls_error done_ctx c = (if done_ctx then timeout_error
     else (case c of
         NetTimeout \<Rightarrow> TransportErr ''smtp_timeout'' None (Some NetworkErr)
       | ServerReply _ _ \<Rightarrow> TransportErr ''smtp_tls_failed'' None None
       | _ \<Rightarrow> TransportErr ''smtp_tls_failed'' None (Some (cause_error c))))"

definition transfer_error :: "bool \<Rightarrow> smtp_cause \<Rightarrow> go_error" where
  "transfer_error done_ctx c = (if done_ctx then timeout_error
     else if c = NetTimeout then TransportErr ''smtp_transfer_timeout'' None (Some NetworkErr)
     else session_error done_ctx c)"

definition data_incomplete_error :: "go_error \<Rightarrow> go_error" where
  "data_incomplete_error e = TransportErr ''smtp_data_incomplete'' None (Some e)"

definition source_invalid_error :: go_error where
  "source_invalid_error = TransportErr ''smtp_source_invalid'' None (Some PlainErr)"

definition submission_unknown_error :: "string \<Rightarrow> go_error \<Rightarrow> go_error" where
  "submission_unknown_error stage e = SubmissionErr stage (Some e)"

section \<open>The final reply\<close>

datatype final_error =
    FinalReply nat string
  | FinalProtocol
  | FinalIo smtp_cause

definition reply_buffer_bytes :: nat where "reply_buffer_bytes = 4096"
definition max_final_reply_lines :: nat where "max_final_reply_lines = 128"
definition max_final_reply_bytes :: nat where "max_final_reply_bytes = 65536"

text \<open>
  \<open>readCRLFLine\<close> on the bytes received so far and the cause that ends them: \<open>bufio.Reader.ReadSlice\<close>
  fails when a line does not fit its buffer of 4096 bytes.
\<close>

definition read_crlf_line :: "smtp_cause \<Rightarrow> string \<Rightarrow> final_error + string \<times> string" where
  "read_crlf_line ended s = (case index_byte s (CHR 0x0A) of
      Some i \<Rightarrow>
        if reply_buffer_bytes < i + 1 then Inl (FinalIo IoFailure)
        else if i = 0 \<or> s ! (i - 1) \<noteq> CHR 0x0D then Inl FinalProtocol
        else Inr (take (i - 1) s, drop (i + 1) s)
    | None \<Rightarrow> if reply_buffer_bytes \<le> length s then Inl (FinalIo IoFailure) else Inl (FinalIo ended))"

text \<open>
  \<open>parseSMTPResponseLine\<close>: the code, whether the reply continues, and the text. \<open>strconv.Atoi\<close> accepts a
  sign, but three bytes with one stay below 100.
\<close>

definition parse_response_line :: "string \<Rightarrow> (nat \<times> bool \<times> string) option" where
  "parse_response_line line = (if length line < 4 \<or> line ! 3 \<notin> {CHR '' '', CHR ''-''} then None
     else if \<not> list_all is_digit (take 3 line) then None
     else let code = decimal_value (take 3 line) in
       if code < 100 \<or> 599 < code then None else Some (code, line ! 3 = CHR ''-'', drop 4 line))"

text \<open>The loop of \<open>readFinalSMTPResponse\<close>: the lines still allowed, the bytes and the text so far.\<close>

fun read_reply_lines :: "nat \<Rightarrow> smtp_cause \<Rightarrow> nat \<Rightarrow> nat \<Rightarrow> string \<Rightarrow> string \<Rightarrow> final_error + string" where
  "read_reply_lines 0 ended code bytes acc s = Inl FinalProtocol"
| "read_reply_lines (Suc k) ended code bytes acc s = (case read_crlf_line ended s of
     Inl e \<Rightarrow> Inl e
   | Inr (line, rest) \<Rightarrow>
       let bytes = bytes + (length line + 2) in
       if max_final_reply_bytes < bytes then Inl FinalProtocol
       else (case parse_response_line line of
           None \<Rightarrow> Inl FinalProtocol
         | Some (c, continued, message) \<Rightarrow>
             if c \<noteq> code then Inl FinalProtocol
             else let acc = acc @ CHR 0x0A # message in
               if continued then read_reply_lines k ended code bytes acc rest else Inr acc))"

definition read_final_response :: "smtp_cause \<Rightarrow> string \<Rightarrow> final_error + nat \<times> string" where
  "read_final_response ended s = (case read_crlf_line ended s of
     Inl e \<Rightarrow> Inl e
   | Inr (line, rest) \<Rightarrow>
       if max_final_reply_bytes < length line + 2 then Inl FinalProtocol
       else (case parse_response_line line of
           None \<Rightarrow> Inl FinalProtocol
         | Some (code, continued, message) \<Rightarrow>
             (case (if continued then read_reply_lines (max_final_reply_lines - 1) ended code (length line + 2) message rest
                    else Inr message) of
                Inl e \<Rightarrow> Inl e
              | Inr text \<Rightarrow> if code \<noteq> 250 then Inl (FinalReply code text) else Inr (code, text))))"

definition classify_final_reply_error :: "bool \<Rightarrow> final_error \<Rightarrow> go_error" where
  "classify_final_reply_error done_ctx e = (case e of
      FinalReply code text \<Rightarrow>
        if 400 \<le> code \<and> code < 600 then TransportErr ''smtp_rejected'' None (Some PlainErr)
        else submission_unknown_error ''final reply'' (session_error done_ctx (ServerReply code text))
    | FinalProtocol \<Rightarrow> submission_unknown_error ''final reply'' (session_error done_ctx IoFailure)
    | FinalIo c \<Rightarrow> submission_unknown_error ''final reply'' (session_error done_ctx c))"

section \<open>The dialogue\<close>

datatype smtp_event =
    Hello | Start_Tls | Authenticate | Mail_From bool bool | Rcpt_To string | Data_Command
  | Payload string | Terminator

text \<open>A step succeeds, or fails with a cause, with the context done or not. Exhausted, all succeed.\<close>

datatype smtp_answer = Succeeds | Fails bool smtp_cause

record smtp_world =
  sw_log :: "smtp_event list"
  sw_answers :: "smtp_answer list"

type_synonym 'a smtp = "smtp_world \<Rightarrow> (go_error + 'a) \<times> smtp_world"

definition smtp_return :: "'a \<Rightarrow> 'a smtp" where
  "smtp_return x w = (Inr x, w)"

definition smtp_fail :: "go_error \<Rightarrow> 'a smtp" where
  "smtp_fail e w = (Inl e, w)"

definition smtp_bind :: "'a smtp \<Rightarrow> ('a \<Rightarrow> 'b smtp) \<Rightarrow> 'b smtp" where
  "smtp_bind m f w = (case m w of (Inl e, w) \<Rightarrow> (Inl e, w) | (Inr x, w) \<Rightarrow> f x w)"

definition smtp_answer :: "(bool \<Rightarrow> smtp_cause \<Rightarrow> go_error) \<Rightarrow> unit smtp" where
  "smtp_answer classify w = (case sw_answers w of
      [] \<Rightarrow> (Inr (), w)
    | Succeeds # as \<Rightarrow> (Inr (), w\<lparr>sw_answers := as\<rparr>)
    | Fails done_ctx c # as \<Rightarrow> (Inl (classify done_ctx c), w\<lparr>sw_answers := as\<rparr>))"

definition smtp_write :: "smtp_event \<Rightarrow> (bool \<Rightarrow> smtp_cause \<Rightarrow> go_error) \<Rightarrow> unit smtp" where
  "smtp_write ev classify w = smtp_answer classify (w\<lparr>sw_log := sw_log w @ [ev]\<rparr>)"

text \<open>A command under a fresh deadline.\<close>

definition smtp_command :: "smtp_event \<Rightarrow> (bool \<Rightarrow> smtp_cause \<Rightarrow> go_error) \<Rightarrow> unit smtp" where
  "smtp_command ev classify = smtp_bind (smtp_answer session_error) (\<lambda>_. smtp_write ev classify)"

definition smtp_extension :: "bool smtp" where
  "smtp_extension w = (case smtp_answer session_error w of (Inl _, w) \<Rightarrow> (Inr False, w) | (Inr _, w) \<Rightarrow> (Inr True, w))"

text \<open>A message source: what its reads return, and whether it ends or fails after them.\<close>

record smtp_source =
  src_reads :: "string list"
  src_fails :: bool

text \<open>\<open>io.Copy\<close> of at most \<open>n\<close> bytes: the bytes written and the source left.\<close>

fun copy_payload :: "nat \<Rightarrow> string list \<Rightarrow> bool \<Rightarrow> nat \<Rightarrow> (nat \<times> string list) smtp" where
  "copy_payload n [] fails written = (if n = 0 \<or> \<not> fails then smtp_return (written, []) else smtp_fail source_invalid_error)"
| "copy_payload n (r # rs) fails written = (if n = 0 then smtp_return (written, r # rs)
     else smtp_bind (smtp_write (Payload (take n r)) (\<lambda>d c. data_incomplete_error (transfer_error d c))) (\<lambda>_.
       if n < length r then smtp_return (written + n, drop n r # rs)
       else copy_payload (n - length r) rs fails (written + length r)))"

text \<open>\<open>sendData\<close>, with the reply that follows the terminator.\<close>

definition send_data :: "nat \<Rightarrow> smtp_source \<Rightarrow> bool \<Rightarrow> smtp_cause \<Rightarrow> string \<Rightarrow> string smtp" where
  "send_data size_bytes source reply_done ended reply =
     smtp_bind (smtp_command Data_Command session_error) (\<lambda>_.
     smtp_bind (smtp_answer (\<lambda>d c. data_incomplete_error (session_error d c))) (\<lambda>_.
     smtp_bind (copy_payload size_bytes (src_reads source) (src_fails source) 0) (\<lambda>(written, rest).
       if written \<noteq> size_bytes then smtp_fail source_invalid_error
       else if concat rest \<noteq> [] \<or> src_fails source then smtp_fail source_invalid_error
       else smtp_bind (smtp_write Terminator (\<lambda>d c. submission_unknown_error ''DATA'' (transfer_error d c))) (\<lambda>_.
            smtp_bind (smtp_answer (\<lambda>d c. submission_unknown_error ''final reply'' (session_error d c))) (\<lambda>_.
              case read_final_response ended reply of
                Inl e \<Rightarrow> smtp_fail (classify_final_reply_error reply_done e)
              | Inr (code, text) \<Rightarrow> smtp_return (format_uint code @ CHR '' '' # text))))))"

text \<open>One \<open>RCPT\<close> for each recipient, the first time it appears.\<close>

fun send_recipients :: "string list \<Rightarrow> string list \<Rightarrow> unit smtp" where
  "send_recipients seen [] = smtp_return ()"
| "send_recipients seen (r # rs) = (if r \<in> set seen then send_recipients seen rs
     else smtp_bind (smtp_command (Rcpt_To r) session_error) (\<lambda>_. send_recipients (r # seen) rs))"

text \<open>
  \<open>SubmitReader\<close>. \<open>requires\<close> is the result of \<open>submissionRequiresUTF8\<close>; the first answer is the dial and
  the greeting. Credentials follow a successful STARTTLS.
\<close>

definition submit_reader ::
    "go_error + bool \<Rightarrow> string list \<Rightarrow> int \<Rightarrow> smtp_source \<Rightarrow> bool \<Rightarrow> smtp_cause \<Rightarrow> string \<Rightarrow> string smtp" where
  "submit_reader requires rcpts size_bytes source reply_done ended reply =
     (if size_bytes < 0 then smtp_fail (TransportErr ''smtp_rejected'' None None)
      else if rcpts = [] then smtp_fail (TransportErr ''smtp_rejected'' None None)
      else (case requires of Inl e \<Rightarrow> smtp_fail e | Inr utf8 \<Rightarrow>
        smtp_bind (smtp_answer session_error) (\<lambda>_.
        smtp_bind (smtp_command Hello session_error) (\<lambda>_.
        smtp_bind smtp_extension (\<lambda>tls.
        if \<not> tls then smtp_fail (TransportErr ''smtp_tls_failed'' None None)
        else smtp_bind (smtp_command Start_Tls start_tls_error) (\<lambda>_.
        smtp_bind smtp_extension (\<lambda>utf8_supported.
        smtp_bind smtp_extension (\<lambda>eight_bit.
        if utf8 \<and> (\<not> utf8_supported \<or> \<not> eight_bit) then smtp_fail (TransportErr ''smtp_utf8_unsupported'' None None)
        else smtp_bind (smtp_command Authenticate
            (\<lambda>d c. if d then timeout_error else TransportErr ''smtp_auth_failed'' None (Some (cause_error c)))) (\<lambda>_.
        smtp_bind (smtp_command (Mail_From utf8 eight_bit) session_error) (\<lambda>_.
        smtp_bind (send_recipients [] rcpts) (\<lambda>_.
          send_data (nat size_bytes) source reply_done ended reply)))))))))))"

end
