(* ===== verification/Smtp_Proofs.thy ===== *)
theory Smtp_Proofs
  imports Smtp_Submission "HOL-Library.Sublist"
begin

text \<open>
  What an SMTP submission guarantees: a Hoare logic of the dialogue monad, the meaning of its failures
  and of its success, the order of what is written, and the reader of the final reply.
\<close>

section \<open>A logic of the dialogue\<close>

text \<open>From a log with \<open>P\<close>: \<open>Q\<close> of the value and the log on success, \<open>E\<close> of the error and the log on failure.\<close>

definition dialogue ::
    "(smtp_event list \<Rightarrow> bool) \<Rightarrow> 'a smtp \<Rightarrow> ('a \<Rightarrow> smtp_event list \<Rightarrow> bool) \<Rightarrow> (go_error \<Rightarrow> smtp_event list \<Rightarrow> bool) \<Rightarrow> bool" where
  "dialogue P m Q E \<longleftrightarrow> (\<forall>w. P (sw_log w) \<longrightarrow>
     (case fst (m w) of Inl e \<Rightarrow> E e (sw_log (snd (m w))) | Inr x \<Rightarrow> Q x (sw_log (snd (m w)))))"

lemma dialogue_return: "(\<And>l. P l \<Longrightarrow> Q x l) \<Longrightarrow> dialogue P (smtp_return x) Q E"
  by (simp add: dialogue_def smtp_return_def)

lemma dialogue_fail: "(\<And>l. P l \<Longrightarrow> E e l) \<Longrightarrow> dialogue P (smtp_fail e) Q E"
  by (simp add: dialogue_def smtp_fail_def)

lemma dialogue_bind:
  assumes "dialogue P m R E" "\<And>x. dialogue (R x) (f x) Q E"
  shows "dialogue P (smtp_bind m f) Q E"
  unfolding dialogue_def
proof (intro allI impI)
  fix w :: smtp_world assume p: "P (sw_log w)"
  obtain q w1 where m: "m w = (q, w1)" by (cases "m w")
  note first = assms(1) [unfolded dialogue_def, rule_format, OF p, unfolded m, simplified]
  show "case fst (smtp_bind m f w) of Inl e \<Rightarrow> E e (sw_log (snd (smtp_bind m f w)))
      | Inr x \<Rightarrow> Q x (sw_log (snd (smtp_bind m f w)))"
  proof (cases q)
    case (Inr x)
    then have "R x (sw_log w1)" using first by simp
    have eq: "smtp_bind m f w = f x w1" using Inr m by (simp add: smtp_bind_def)
    show ?thesis unfolding eq using assms(2) [unfolded dialogue_def, rule_format, of x w1] \<open>R x (sw_log w1)\<close> by blast
  qed (use first m in \<open>simp add: smtp_bind_def\<close>)
qed

lemma dialogue_answer: "(\<And>d c l. P l \<Longrightarrow> E (f d c) l) \<Longrightarrow> dialogue P (smtp_answer f) (\<lambda>_. P) E"
  by (auto simp: dialogue_def smtp_answer_def split: list.splits smtp_answer.splits)

lemma dialogue_write:
  assumes "\<And>d c l. P l \<Longrightarrow> E (f d c) (l @ [ev])" "\<And>l. P l \<Longrightarrow> Q () (l @ [ev])"
  shows "dialogue P (smtp_write ev f) Q E"
  unfolding dialogue_def
proof (intro allI impI)
  fix w :: smtp_world assume "P (sw_log w)"
  then show "case fst (smtp_write ev f w) of Inl e \<Rightarrow> E e (sw_log (snd (smtp_write ev f w)))
      | Inr x \<Rightarrow> Q x (sw_log (snd (smtp_write ev f w)))"
    using assms by (auto simp: smtp_write_def smtp_answer_def split: list.splits smtp_answer.splits)
qed

lemma dialogue_command:
  assumes "\<And>d c l. P l \<Longrightarrow> E (session_error d c) l" "\<And>d c l. P l \<Longrightarrow> E (f d c) (l @ [ev])" "\<And>l. P l \<Longrightarrow> Q () (l @ [ev])"
  shows "dialogue P (smtp_command ev f) Q E"
  unfolding smtp_command_def
  by (rule dialogue_bind [OF dialogue_answer]) (auto intro: dialogue_write assms)

lemma dialogue_extension: "dialogue P smtp_extension (\<lambda>_. P) E"
  by (auto simp: dialogue_def smtp_extension_def smtp_answer_def split: list.splits smtp_answer.splits)

lemma dialogue_pre: "dialogue P m Q E \<Longrightarrow> (\<And>l. P' l \<Longrightarrow> P l) \<Longrightarrow> dialogue P' m Q E"
  by (simp add: dialogue_def)

section \<open>Definite failures\<close>

lemma submission_unknown [simp]: "is_submission_outcome_unknown (Some (submission_unknown_error s e))"
  by (simp add: is_submission_outcome_unknown_def submission_unknown_error_def error_code_def uncertain_codes_def
      errors_is_code_def)

text \<open>The message cannot have been accepted: the terminator was not attempted, or the server refused it.\<close>

definition not_accepted :: "smtp_cause \<Rightarrow> string \<Rightarrow> smtp_event list \<Rightarrow> bool" where
  "not_accepted ended reply log \<longleftrightarrow> Terminator \<notin> set log
     \<or> (\<exists>code text. read_final_response ended reply = Inl (FinalReply code text) \<and> 400 \<le> code \<and> code < 600)"

definition honest_failure :: "smtp_cause \<Rightarrow> string \<Rightarrow> go_error \<Rightarrow> smtp_event list \<Rightarrow> bool" where
  "honest_failure ended reply e log \<longleftrightarrow> is_submission_outcome_unknown (Some e) \<or> not_accepted ended reply log"

abbreviation unterminated :: "smtp_event list \<Rightarrow> bool" where
  "unterminated log \<equiv> Terminator \<notin> set log"

lemma honest_unterminated: "unterminated log \<Longrightarrow> honest_failure ended reply e log"
  by (simp add: honest_failure_def not_accepted_def)

definition payload_of :: "smtp_event list \<Rightarrow> string" where
  "payload_of log = concat (map (\<lambda>ev. case ev of Payload p \<Rightarrow> p | _ \<Rightarrow> []) log)"

lemma payload_of_simps [simp]:
  "payload_of [] = []" "payload_of (l @ l') = payload_of l @ payload_of l'"
  "payload_of [ev] = (case ev of Payload p \<Rightarrow> p | _ \<Rightarrow> [])"
  by (simp_all add: payload_of_def)

text \<open>The copy writes a prefix of the source, and all of it when the sizes agree.\<close>

lemma dialogue_copy:
  "dialogue (\<lambda>l. unterminated l \<and> payload_of l = sent) (copy_payload n reads fails k)
     (\<lambda>r l. unterminated l \<and> (\<exists>p. payload_of l = sent @ p \<and> concat reads = p @ concat (snd r) \<and> fst r = k + length p))
     (honest_failure ended reply)"
proof (induction n reads fails k arbitrary: sent rule: copy_payload.induct)
  case (1 n fails k)
  then show ?case by (auto intro!: dialogue_return dialogue_fail simp: honest_unterminated)
next
  case (2 n r rs fails k)
  show ?case
  proof (cases "n = 0")
    case False
    let ?Q = "\<lambda>q l. unterminated l \<and> (\<exists>p. payload_of l = sent @ p \<and> concat (r # rs) = p @ concat (snd q) \<and> fst q = k + length p)"
    have "dialogue (\<lambda>l. unterminated l \<and> payload_of l = sent @ take n r)
        (if n < length r then smtp_return (k + n, drop n r # rs)
         else copy_payload (n - length r) rs fails (k + length r)) ?Q (honest_failure ended reply)"
    proof (cases "n < length r")
      case True
      then show ?thesis by (auto intro!: dialogue_return exI [of _ "take n r"])
    next
      case False
      have "dialogue (\<lambda>l. unterminated l \<and> payload_of l = sent @ r) (copy_payload (n - length r) rs fails (k + length r))
         (\<lambda>q l. unterminated l \<and> (\<exists>p. payload_of l = (sent @ r) @ p \<and> concat rs = p @ concat (snd q) \<and> fst q = k + length r + length p))
         (honest_failure ended reply)"
        using "2.IH" [OF \<open>n \<noteq> 0\<close> False, of "sent @ r"] by (simp only: append_assoc)
      then have "dialogue (\<lambda>l. unterminated l \<and> payload_of l = sent @ r) (copy_payload (n - length r) rs fails (k + length r)) ?Q
         (honest_failure ended reply)"
        unfolding dialogue_def by (fastforce split: sum.splits)
      then show ?thesis using False by simp
    qed
    then have "dialogue (\<lambda>l. unterminated l \<and> payload_of l = sent)
      (smtp_bind (smtp_write (Payload (take n r)) (\<lambda>d c. data_incomplete_error (transfer_error d c))) (\<lambda>_.
        if n < length r then smtp_return (k + n, drop n r # rs)
         else copy_payload (n - length r) rs fails (k + length r))) ?Q (honest_failure ended reply)"
      by (intro dialogue_bind [OF dialogue_write [where Q = "\<lambda>_ l. unterminated l \<and> payload_of l = sent @ take n r"]])
        (simp_all add: honest_unterminated)
    then show ?thesis using False by simp
  qed (auto intro!: dialogue_return)
qed

text \<open>\<open>sendData\<close>: a definite failure means not accepted; success means the whole source, the terminator
  and a complete reply with code 250.\<close>

lemma dialogue_send_data:
  "dialogue (\<lambda>l. unterminated l \<and> payload_of l = []) (send_data n source d ended reply)
     (\<lambda>resp l. \<exists>text. read_final_response ended reply = Inr (250, text) \<and> resp = ''250 '' @ text
        \<and> payload_of l = concat (src_reads source) \<and> length (payload_of l) = n \<and> \<not> src_fails source
        \<and> Terminator \<in> set l)
     (honest_failure ended reply)"
  (is "dialogue _ _ ?Q _")
proof -
  let ?P = "\<lambda>l. unterminated l \<and> payload_of l = []"
  have final: "dialogue (\<lambda>l. Terminator \<in> set l \<and> payload_of l = concat (src_reads source) \<and> length (payload_of l) = n \<and> \<not> src_fails source)
      (case read_final_response ended reply of Inl e \<Rightarrow> smtp_fail (classify_final_reply_error d e)
       | Inr (code, text) \<Rightarrow> smtp_return (format_uint code @ CHR '' '' # text)) ?Q (honest_failure ended reply)"
  proof (cases "read_final_response ended reply")
    case (Inl e)
    then show ?thesis
      by (cases e) (auto intro!: dialogue_fail simp: honest_failure_def not_accepted_def classify_final_reply_error_def)
  next
    case (Inr r)
    then have "fst r = 250"
      by (auto simp: read_final_response_def split: sum.splits option.splits if_splits prod.splits)
    moreover have "format_uint 250 = ''250''" by code_simp
    ultimately show ?thesis using Inr by (cases r) (auto intro!: dialogue_return)
  qed
  have terminated: "dialogue (\<lambda>l. unterminated l \<and> payload_of l = concat (src_reads source) \<and> length (payload_of l) = n \<and> \<not> src_fails source)
      (smtp_bind (smtp_write Terminator (\<lambda>d c. submission_unknown_error ''DATA'' (transfer_error d c))) (\<lambda>_.
       smtp_bind (smtp_answer (\<lambda>d c. submission_unknown_error ''final reply'' (session_error d c))) (\<lambda>_.
         case read_final_response ended reply of Inl e \<Rightarrow> smtp_fail (classify_final_reply_error d e)
         | Inr (code, text) \<Rightarrow> smtp_return (format_uint code @ CHR '' '' # text)))) ?Q (honest_failure ended reply)"
    by (rule dialogue_bind [OF dialogue_write dialogue_bind [OF dialogue_answer final]]) (auto simp: honest_failure_def)
  have copied: "dialogue (\<lambda>l. unterminated l \<and> (\<exists>p. payload_of l = [] @ p \<and> concat (src_reads source) = p @ concat (snd r) \<and> fst r = 0 + length p))
      (case r of (written, rest) \<Rightarrow>
       if written \<noteq> n then smtp_fail source_invalid_error
       else if concat rest \<noteq> [] \<or> src_fails source then smtp_fail source_invalid_error
       else smtp_bind (smtp_write Terminator (\<lambda>d c. submission_unknown_error ''DATA'' (transfer_error d c))) (\<lambda>_.
            smtp_bind (smtp_answer (\<lambda>d c. submission_unknown_error ''final reply'' (session_error d c))) (\<lambda>_.
              case read_final_response ended reply of
                Inl e \<Rightarrow> smtp_fail (classify_final_reply_error d e)
              | Inr (code, text) \<Rightarrow> smtp_return (format_uint code @ CHR '' '' # text)))) ?Q (honest_failure ended reply)" for r
  proof (cases "fst r = n \<and> concat (snd r) = [] \<and> \<not> src_fails source")
    case True
    then obtain b where r: "r = (n, b)" and b: "concat b = []" and ok: "src_fails source = False" by (cases r) auto
    show ?thesis
      unfolding r prod.case b ok simp_thms if_False
      by (rule dialogue_pre [OF terminated [unfolded ok simp_thms]]) (use b in auto)
  qed (cases r; auto intro!: dialogue_fail simp: honest_unterminated)
  show ?thesis
    unfolding send_data_def
    apply (rule dialogue_bind [OF dialogue_command [where Q = "\<lambda>_. ?P"]])
       apply (simp add: honest_unterminated)
      apply (simp add: honest_unterminated)
     apply (simp add: honest_unterminated)
    apply (rule dialogue_bind [OF dialogue_answer])
     apply (simp add: honest_unterminated)
    apply (rule dialogue_bind [OF dialogue_copy [where sent = "[]"]])
    apply (rule copied)
    done
qed

lemma dialogue_if:
  "(b \<Longrightarrow> dialogue P m Q E) \<Longrightarrow> (\<not> b \<Longrightarrow> dialogue P m' Q E) \<Longrightarrow> dialogue P (if b then m else m') Q E"
  by simp

lemma dialogue_case_sum:
  "(\<And>e. dialogue P (f e) Q E) \<Longrightarrow> (\<And>x. dialogue P (g x) Q E) \<Longrightarrow> dialogue P (case r of Inl e \<Rightarrow> f e | Inr x \<Rightarrow> g x) Q E"
  by (cases r) simp_all

lemma dialogue_recipients:
  assumes "\<And>l. P l \<Longrightarrow> unterminated l \<and> payload_of l = []" "\<And>l r. P l \<Longrightarrow> P (l @ [Rcpt_To r])"
  shows "dialogue P (send_recipients seen rs) (\<lambda>_. P) (honest_failure ended reply)"
proof (induction rs arbitrary: seen)
  case Nil
  then show ?case by (auto intro: dialogue_return)
next
  case (Cons r rs)
  have "dialogue P (smtp_command (Rcpt_To r) session_error) (\<lambda>_. P) (honest_failure ended reply)"
    by (rule dialogue_command) (auto intro: honest_unterminated dest: assms)
  then show ?case using Cons.IH by (auto intro: dialogue_bind)
qed

lemma dialogue_submit:
  "dialogue (\<lambda>l. unterminated l \<and> payload_of l = []) (submit_reader requires rcpts n source d ended reply)
     (\<lambda>resp l. \<exists>text. read_final_response ended reply = Inr (250, text) \<and> resp = ''250 '' @ text
        \<and> payload_of l = concat (src_reads source) \<and> length (payload_of l) = nat n \<and> \<not> src_fails source
        \<and> Terminator \<in> set l \<and> 0 \<le> n)
     (honest_failure ended reply)"
  (is "dialogue ?P _ ?Q ?E")
proof -
  have fail: "dialogue ?P (smtp_fail e) ?Q ?E" for e
    by (rule dialogue_fail) (simp add: honest_unterminated)
  have answer: "dialogue ?P (smtp_answer f) (\<lambda>_. ?P) ?E" for f
    by (rule dialogue_answer) (simp add: honest_unterminated)
  have command: "dialogue ?P (smtp_command ev f) (\<lambda>_. ?P) ?E" if "ev \<in> {Hello, Start_Tls, Authenticate} \<union> range (case_prod Mail_From)" for ev f
    by (rule dialogue_command) (use that in \<open>auto intro!: honest_unterminated\<close>)
  have data: "dialogue ?P (send_data (nat n) source d ended reply) ?Q ?E" if "0 \<le> n"
    using dialogue_send_data [of "nat n" source d ended reply] that unfolding dialogue_def by (fastforce split: sum.splits)
  have recipients: "dialogue ?P (send_recipients [] rcpts) (\<lambda>_. ?P) ?E" by (rule dialogue_recipients) simp_all
  show ?thesis
    unfolding submit_reader_def
    apply (rule dialogue_if, rule fail)
    apply (rule dialogue_if, rule fail)
    apply (rule dialogue_case_sum, rule fail)
    apply (rule dialogue_bind [OF answer])
    apply (rule dialogue_bind [OF command], simp)
    apply (rule dialogue_bind [OF dialogue_extension])
    apply (rule dialogue_if, rule fail)
    apply (rule dialogue_bind [OF command], simp)
    apply (rule dialogue_bind [OF dialogue_extension])
    apply (rule dialogue_bind [OF dialogue_extension])
    apply (rule dialogue_if, rule fail)
    apply (rule dialogue_bind [OF command], simp)
    apply (rule dialogue_bind [OF command], force)
    apply (rule dialogue_bind [OF recipients])
    apply (rule data, simp)
    done
qed

text \<open>C5. When a submission fails with an error that is not classified as an unknown outcome, the message
  was not accepted: the end-of-data terminator was never written, or the server answered it with a
  complete reply of a code from 400 to 599. This holds for every network, server and source.\<close>

theorem definite_failure_not_accepted:
  assumes "sw_log w = []" "submit_reader requires rcpts n source d ended reply w = (Inl e, w')"
    "\<not> is_submission_outcome_unknown (Some e)"
  shows "not_accepted ended reply (sw_log w')"
  using dialogue_submit [of requires rcpts n source d ended reply, unfolded dialogue_def, rule_format, of w] assms
  by (simp add: honest_failure_def)

text \<open>C27. A submission that succeeds has written exactly the declared number of bytes, which are the
  whole message source, and the terminator, and the server confirmed it with a complete 250 reply.\<close>

theorem submission_success_complete:
  assumes "sw_log w = []" "submit_reader requires rcpts n source d ended reply w = (Inr resp, w')"
  shows "payload_of (sw_log w') = concat (src_reads source) \<and> int (length (concat (src_reads source))) = n
    \<and> \<not> src_fails source \<and> Terminator \<in> set (sw_log w')
    \<and> (\<exists>text. read_final_response ended reply = Inr (250, text) \<and> resp = ''250 '' @ text)"
  using dialogue_submit [of requires rcpts n source d ended reply, unfolded dialogue_def, rule_format, of w] assms
  by auto

section \<open>The final reply\<close>

definition crlf :: string where "crlf = [CHR 0x0D, CHR 0x0A]"

definition reply_line :: "nat \<Rightarrow> bool \<Rightarrow> string \<Rightarrow> string" where
  "reply_line code continued m = format_uint code @ (if continued then CHR ''-'' else CHR '' '') # m"

text \<open>A reply as RFC 5321 writes it: every line but the last is marked as continued.\<close>

fun render_reply :: "nat \<Rightarrow> string list \<Rightarrow> string" where
  "render_reply code [] = []"
| "render_reply code [m] = reply_line code False m @ crlf"
| "render_reply code (m # ms) = reply_line code True m @ crlf @ render_reply code ms"

definition reply_code :: "nat \<Rightarrow> bool" where
  "reply_code code \<longleftrightarrow> 100 \<le> code \<and> code \<le> 599"

definition reply_text_ok :: "string \<Rightarrow> bool" where
  "reply_text_ok m \<longleftrightarrow> CHR 0x0A \<notin> set m \<and> length m + 6 \<le> reply_buffer_bytes"

definition well_formed_reply :: "nat \<Rightarrow> string list \<Rightarrow> bool" where
  "well_formed_reply code ms \<longleftrightarrow> reply_code code \<and> list_all reply_text_ok ms \<and> 1 \<le> length ms
     \<and> length ms \<le> max_final_reply_lines \<and> length (render_reply code ms) \<le> max_final_reply_bytes"

lemma format_uint_three:
  assumes "100 \<le> n" "n \<le> 999"
  shows "format_uint n = [byte_of (48 + n div 100), byte_of (48 + n div 10 mod 10), byte_of (48 + n mod 10)]"
proof -
  have "n div 10 div 10 = n div 100" by (simp add: div_mult2_eq [symmetric])
  moreover have "n div 100 < 10" using assms by simp
  ultimately show ?thesis using assms by (simp add: format_uint.simps [of n] format_uint.simps [of "n div 10"] format_uint.simps [of "n div 100"])
qed

lemma length_reply_line [simp]: "reply_code code \<Longrightarrow> length (reply_line code c m) = length m + 4"
  by (simp add: reply_line_def reply_code_def format_uint_three)

lemma is_digit_char: "is_digit c \<Longrightarrow> byte_of (48 + (byte_val c - 48)) = c \<and> byte_val c - 48 < 10"
  by (auto simp: is_digit_def)

lemma three_digits:
  assumes "length ds = 3" "list_all is_digit ds" "100 \<le> decimal_value ds"
  shows "ds = format_uint (decimal_value ds)"
proof -
  obtain a b c where ds: "ds = [a, b, c]" using assms(1) by (auto simp: length_Suc_conv eval_nat_numeral)
  define x y z where "x = byte_val a - 48" and "y = byte_val b - 48" and "z = byte_val c - 48"
  have d: "byte_of (48 + x) = a" "byte_of (48 + y) = b" "byte_of (48 + z) = c" "x < 10" "y < 10" "z < 10"
    using assms(2) is_digit_char by (simp_all add: ds x_def y_def z_def)
  have v: "decimal_value ds = x * 100 + y * 10 + z" by (simp add: decimal_value_def ds x_def y_def z_def)
  have q: "decimal_value ds = z + (y + x * 10) * 10" by (simp add: v)
  have "decimal_value ds mod 10 = z" unfolding q mod_mult_self1 using d(6) by simp
  moreover have ten: "decimal_value ds div 10 = y + x * 10" unfolding q using d(6) by simp
  moreover have "decimal_value ds div 10 mod 10 = y" unfolding ten mod_mult_self1 using d(5) by simp
  moreover have "decimal_value ds div 100 = x"
    using d(5) ten div_mult2_eq [of "decimal_value ds" 10 10] by simp
  moreover have "decimal_value ds \<le> 999" unfolding v using d(4-6) by linarith
  ultimately show ?thesis using format_uint_three [of "decimal_value ds"] assms(3) d by (simp add: ds)
qed

lemma reply_line_parse:
  "parse_response_line line = Some (code, continued, m) \<longleftrightarrow> reply_code code \<and> line = reply_line code continued m"
proof
  assume p: "parse_response_line line = Some (code, continued, m)"
  then have l: "4 \<le> length line" "line ! 3 \<in> {CHR '' '', CHR ''-''}" "list_all is_digit (take 3 line)"
    "code = decimal_value (take 3 line)" "reply_code code" "continued \<longleftrightarrow> line ! 3 = CHR ''-''" "m = drop 4 line"
    by (auto simp: parse_response_line_def reply_code_def Let_def split: if_splits)
  have "take 3 line = format_uint code" using three_digits [of "take 3 line"] l by (simp add: reply_code_def)
  moreover have "line = take 3 line @ line ! 3 # drop 4 line"
    using l(1) id_take_nth_drop [of 3 line] by (simp add: eval_nat_numeral)
  ultimately show "reply_code code \<and> line = reply_line code continued m"
    using l by (auto simp: reply_line_def)
next
  assume a: "reply_code code \<and> line = reply_line code continued m"
  then have f: "length (format_uint code) = 3" by (simp add: reply_code_def format_uint_three)
  then have "take 3 line = format_uint code" "line ! 3 = (if continued then CHR ''-'' else CHR '' '')" "drop 4 line = m"
    "\<not> length line < 4" using a by (simp_all add: reply_line_def nth_append)
  then show "parse_response_line line = Some (code, continued, m)"
    using a by (auto simp: parse_response_line_def reply_code_def format_uint_digits)
qed

lemma find_index_here: "x \<notin> set l \<Longrightarrow> index_byte (l @ x # r) x = Some (length l)"
  by (induction l) (auto simp: index_byte_def)

lemma index_byte_SomeE:
  "index_byte s c = Some i \<Longrightarrow> i < length s \<and> s ! i = c \<and> c \<notin> set (take i s) \<and> s = take i s @ c # drop (Suc i) s"
  by (induction s arbitrary: i) (auto simp: index_byte_def split: if_splits)

lemma crlf_line:
  "read_crlf_line ended s = Inr (line, rest) \<longleftrightarrow>
     s = line @ crlf @ rest \<and> CHR 0x0A \<notin> set line \<and> length line + 2 \<le> reply_buffer_bytes"
proof
  assume r: "read_crlf_line ended s = Inr (line, rest)"
  then obtain i where i: "index_byte s (CHR 0x0A) = Some i" "i + 1 \<le> reply_buffer_bytes" "i \<noteq> 0" "s ! (i - 1) = CHR 0x0D"
      "line = take (i - 1) s" "rest = drop (i + 1) s"
    by (auto simp: read_crlf_line_def split: option.splits if_splits)
  note at = index_byte_SomeE [OF i(1)]
  have "take i s = line @ [CHR 0x0D]" 
  proof -
    have "take (Suc (i - 1)) s = take (i - 1) s @ [s ! (i - 1)]" by (rule take_Suc_conv_app_nth) (use at i(3) in linarith)
    then show ?thesis using i(3,4,5) by simp
  qed
  then show "s = line @ crlf @ rest \<and> CHR 0x0A \<notin> set line \<and> length line + 2 \<le> reply_buffer_bytes"
    using at i by (auto simp: crlf_def)
next
  assume a: "s = line @ crlf @ rest \<and> CHR 0x0A \<notin> set line \<and> length line + 2 \<le> reply_buffer_bytes"
  then have "index_byte s (CHR 0x0A) = Some (length line + 1)"
    using find_index_here [of "CHR 0x0A" "line @ [CHR 0x0D]" rest] by (simp add: crlf_def)
  then show "read_crlf_line ended s = Inr (line, rest)" using a by (simp add: read_crlf_line_def crlf_def nth_append)
qed

lemma render_reply_Cons:
  "render_reply code (m # ms) = reply_line code (ms \<noteq> []) m @ crlf @ render_reply code ms"
  by (cases ms) simp_all

lemma reply_line_fits:
  "reply_code code \<Longrightarrow> CHR 0x0A \<notin> set (reply_line code c m) \<and> length (reply_line code c m) + 2 \<le> reply_buffer_bytes
     \<longleftrightarrow> reply_text_ok m"
proof -
  assume c: "reply_code code"
  have "CHR 0x0A \<notin> set (format_uint code)"
    using format_uint_digits [of code] by (auto simp: list_all_iff is_digit_def)
  then show ?thesis using c by (auto simp: reply_line_def reply_text_ok_def reply_code_def format_uint_three)
qed

lemma length_crlf [simp]: "length crlf = 2"
  by (simp add: crlf_def)

text \<open>One line of a reply, of any code: what reading and parsing it yields.\<close>

lemma reply_line_read:
  "(\<exists>line. read_crlf_line ended s = Inr (line, rest) \<and> parse_response_line line = Some (code, continued, m)) \<longleftrightarrow>
     reply_code code \<and> reply_text_ok m \<and> s = reply_line code continued m @ crlf @ rest"
  using reply_line_fits [of code continued m] by (auto simp: crlf_line reply_line_parse)

lemma read_reply_lines_iff:
  assumes "reply_code code"
  shows "read_reply_lines k ended code bytes acc s = Inr text \<longleftrightarrow>
    (\<exists>ms rest. s = render_reply code ms @ rest \<and> 1 \<le> length ms \<and> length ms \<le> k \<and> list_all reply_text_ok ms
       \<and> bytes + length (render_reply code ms) \<le> max_final_reply_bytes \<and> text = acc @ concat (map ((#) (CHR 0x0A)) ms))"
    (is "_ \<longleftrightarrow> ?R k bytes acc s")
proof (induction k arbitrary: bytes acc s)
  case 0
  then show ?case by simp
next
  case (Suc k)
  show ?case
  proof
    assume r: "read_reply_lines (Suc k) ended code bytes acc s = Inr text"
    then obtain line rest continued m where l: "read_crlf_line ended s = Inr (line, rest)"
        "parse_response_line line = Some (code, continued, m)" "bytes + (length line + 2) \<le> max_final_reply_bytes"
        and tail: "(if continued then read_reply_lines k ended code (bytes + (length line + 2)) (acc @ CHR 0x0A # m) rest
          else Inr (acc @ CHR 0x0A # m)) = Inr text"
      by (auto simp: Let_def split: sum.splits prod.splits option.splits if_split_asm)
    have s: "reply_text_ok m" "s = reply_line code continued m @ crlf @ rest" "line = reply_line code continued m"
      using l(1,2) reply_line_read [of ended s rest code continued m] reply_line_parse by blast+
    show "?R (Suc k) bytes acc s"
    proof (cases continued)
      case True
      then obtain ms rest' where "rest = render_reply code ms @ rest'" "1 \<le> length ms" "length ms \<le> k" "list_all reply_text_ok ms"
          "bytes + (length line + 2) + length (render_reply code ms) \<le> max_final_reply_bytes"
          "text = (acc @ CHR 0x0A # m) @ concat (map ((#) (CHR 0x0A)) ms)"
        using tail Suc.IH by auto
      moreover have "ms \<noteq> []" using calculation by auto
      ultimately show ?thesis
        using s True by (intro exI [of _ "m # ms"] exI [of _ rest']) (auto simp: render_reply_Cons)
    next
      case False
      then show ?thesis
        using s l(3) tail by (intro exI [of _ "[m]"] exI [of _ rest]) auto
    qed
  next
    assume "?R (Suc k) bytes acc s"
    then obtain m ms rest where s: "s = render_reply code (m # ms) @ rest" "length ms \<le> k" "reply_text_ok m" "list_all reply_text_ok ms"
        "bytes + length (render_reply code (m # ms)) \<le> max_final_reply_bytes" "text = acc @ concat (map ((#) (CHR 0x0A)) (m # ms))"
      by (auto simp: Suc_le_length_iff)
    let ?line = "reply_line code (ms \<noteq> []) m" and ?rest = "render_reply code ms @ rest"
    have l: "read_crlf_line ended s = Inr (?line, ?rest)" "parse_response_line ?line = Some (code, ms \<noteq> [], m)"
      using s assms reply_line_read [of ended s ?rest code "ms \<noteq> []" m] by (auto simp: render_reply_Cons reply_line_parse crlf_line reply_line_fits)
    have b: "bytes + (length ?line + 2) + length (render_reply code ms) \<le> max_final_reply_bytes"
      using s(5) by (simp add: render_reply_Cons)
    show "read_reply_lines (Suc k) ended code bytes acc s = Inr text"
    proof (cases "ms = []")
      case True
      then show ?thesis using l b s(6) by simp
    next
      case False
      then have "read_reply_lines k ended code (bytes + (length ?line + 2)) (acc @ CHR 0x0A # m) ?rest = Inr text"
        unfolding Suc.IH using s b by (intro exI [of _ ms] exI [of _ rest]) (simp add: Suc_le_eq)
      then show ?thesis using l b False by simp
    qed
  qed
qed

lemma join_lines: "join_with [c] (m # ms) = m @ concat (map ((#) c) ms)"
  by (induction ms arbitrary: m) simp_all

lemma read_reply_lines_error: "read_reply_lines k ended code bytes acc s = Inl e \<Longrightarrow> e \<noteq> FinalReply c t"
  by (induction k ended code bytes acc s rule: read_reply_lines.induct)
    (auto simp: Let_def read_crlf_line_def split: sum.splits prod.splits option.splits if_split_asm)

lemma crlf_line_error: "read_crlf_line ended s = Inl e \<Longrightarrow> e \<noteq> FinalReply c t"
  by (auto simp: read_crlf_line_def split: option.splits if_splits)

lemma final_reply_iff:
  "read_final_response ended s = (if code = 250 then Inr (code, text) else Inl (FinalReply code text)) \<longleftrightarrow>
     (\<exists>ms rest. well_formed_reply code ms \<and> s = render_reply code ms @ rest \<and> text = join_with [CHR 0x0A] ms)"
    (is "?L \<longleftrightarrow> ?R")
proof
  assume ?L
  then obtain line rest continued m where l: "read_crlf_line ended s = Inr (line, rest)"
      "parse_response_line line = Some (code, continued, m)" "length line + 2 \<le> max_final_reply_bytes"
      and tail: "(if continued then read_reply_lines (max_final_reply_lines - 1) ended code (length line + 2) m rest else Inr m) = Inr text"
    by (auto simp: read_final_response_def dest: crlf_line_error read_reply_lines_error
        split: sum.splits prod.splits option.splits if_split_asm)
  have s: "reply_code code" "reply_text_ok m" "s = reply_line code continued m @ crlf @ rest" "line = reply_line code continued m"
    using l(1,2) reply_line_read [of ended s rest code continued m] reply_line_parse by blast+
  show ?R
  proof (cases continued)
    case True
    then obtain ms rest' where "rest = render_reply code ms @ rest'" "1 \<le> length ms" "length ms \<le> max_final_reply_lines - 1"
        "list_all reply_text_ok ms" "length line + 2 + length (render_reply code ms) \<le> max_final_reply_bytes"
        "text = m @ concat (map ((#) (CHR 0x0A)) ms)"
      using tail read_reply_lines_iff [OF s(1)] by auto
    moreover have "ms \<noteq> []" using calculation by auto
    ultimately show ?thesis
      using s True by (intro exI [of _ "m # ms"] exI [of _ rest']) (auto simp: render_reply_Cons join_lines well_formed_reply_def)
  next
    case False
    then show ?thesis
      using s l(3) tail by (intro exI [of _ "[m]"] exI [of _ rest]) (auto simp: well_formed_reply_def max_final_reply_lines_def)
  qed
next
  assume ?R
  then obtain m ms rest where s: "s = render_reply code (m # ms) @ rest" "reply_code code" "length ms \<le> max_final_reply_lines - 1"
      "reply_text_ok m" "list_all reply_text_ok ms"
      "length (render_reply code (m # ms)) \<le> max_final_reply_bytes" "text = m @ concat (map ((#) (CHR 0x0A)) ms)"
    by (auto simp: well_formed_reply_def Suc_le_length_iff join_lines)
  let ?line = "reply_line code (ms \<noteq> []) m" and ?rest = "render_reply code ms @ rest"
  have l: "read_crlf_line ended s = Inr (?line, ?rest)" "parse_response_line ?line = Some (code, ms \<noteq> [], m)"
    using s reply_line_read [of ended s ?rest code "ms \<noteq> []" m] by (auto simp: render_reply_Cons reply_line_parse crlf_line reply_line_fits)
  have b: "length ?line + 2 + length (render_reply code ms) \<le> max_final_reply_bytes"
    using s(6) by (simp add: render_reply_Cons)
  have "(if ms \<noteq> [] then read_reply_lines (max_final_reply_lines - 1) ended code (length ?line + 2) m ?rest else Inr m) = Inr text"
  proof (cases "ms = []")
    case False
    then have "read_reply_lines (max_final_reply_lines - 1) ended code (length ?line + 2) m ?rest = Inr text"
      unfolding read_reply_lines_iff [OF s(2)] using s b by (intro exI [of _ ms] exI [of _ rest]) (simp add: Suc_le_eq)
    then show ?thesis using False by simp
  qed (simp add: s(7))
  then show ?L using l b by (simp add: read_final_response_def)
qed

text \<open>C30. The final reply is taken as a code and a message exactly when the bytes received begin with
  a well-formed reply of that code and message: every line complete, of the same code from 100 to
  599 and below 4096 bytes, at most 128 lines and 64 KiB. A truncated, mixed or oversized reply is
  never taken as an acceptance or a refusal.\<close>

theorem final_reply_complete:
  "read_final_response ended s = (if code = 250 then Inr (code, text) else Inl (FinalReply code text)) \<longleftrightarrow>
     (\<exists>ms rest. well_formed_reply code ms \<and> s = render_reply code ms @ rest \<and> text = join_with [CHR 0x0A] ms)"
  by (rule final_reply_iff)

section \<open>The order of the dialogue\<close>

definition first_occurrences :: "'a list \<Rightarrow> 'a list" where
  "first_occurrences xs = rev (remdups (rev xs))"

definition submission_script :: "string list \<Rightarrow> bool \<Rightarrow> bool \<Rightarrow> string list \<Rightarrow> smtp_event list" where
  "submission_script rcpts utf8 eight_bit ps = [Hello, Start_Tls, Authenticate, Mail_From utf8 eight_bit]
     @ map Rcpt_To (first_occurrences rcpts) @ [Data_Command] @ map Payload ps @ [Terminator]"

definition in_script :: "string list \<Rightarrow> smtp_event list \<Rightarrow> bool" where
  "in_script rcpts l \<longleftrightarrow> (\<exists>u e ps. prefix l (submission_script rcpts u e ps))"

lemma remdups_snoc: "remdups (xs @ [x]) = filter (\<lambda>y. y \<noteq> x) (remdups xs) @ [x]"
  by (induction xs) auto

lemma first_occurrences_Cons: "first_occurrences (x # xs) = x # filter (\<lambda>y. y \<noteq> x) (first_occurrences xs)"
  by (simp add: first_occurrences_def remdups_snoc rev_filter)

lemma first_occurrences_simps [simp]:
  "first_occurrences [] = []" "set (first_occurrences xs) = set xs" "distinct (first_occurrences xs)"
  by (simp_all add: first_occurrences_def)

lemma dialogue_post: "dialogue P m Q E \<Longrightarrow> (\<And>x l. Q x l \<Longrightarrow> Q' x l) \<Longrightarrow> dialogue P m Q' E"
  by (fastforce simp: dialogue_def split: sum.splits)

lemma dialogue_command_at:
  assumes "\<And>e. E e l" "\<And>e. E e (l @ [ev])"
  shows "dialogue ((=) l) (smtp_command ev f) (\<lambda>_. (=) (l @ [ev])) E"
  by (rule dialogue_command) (use assms in auto)

lemma dialogue_recipients_at:
  assumes "\<And>e ts. prefix ts (map Rcpt_To (filter (\<lambda>r. r \<notin> set seen) (first_occurrences rs))) \<Longrightarrow> E e (l @ ts)"
  shows "dialogue ((=) l) (send_recipients seen rs)
    (\<lambda>_. (=) (l @ map Rcpt_To (filter (\<lambda>r. r \<notin> set seen) (first_occurrences rs)))) E"
  using assms
proof (induction rs arbitrary: seen l)
  case Nil
  then show ?case by (auto intro: dialogue_return)
next
  case (Cons r rs)
  have f: "filter (\<lambda>x. x \<notin> set seen) (filter (\<lambda>y. y \<noteq> r) xs) = filter (\<lambda>x. x \<notin> set (r # seen)) xs" for xs
    by (induction xs) auto
  show ?case
  proof (cases "r \<in> set seen")
    case True
    then have "filter (\<lambda>x. x \<notin> set seen) (first_occurrences (r # rs)) = filter (\<lambda>x. x \<notin> set seen) (first_occurrences rs)"
      by (auto simp: first_occurrences_Cons intro: filter_cong)
    then show ?thesis using Cons True by simp
  next
    case False
    have e: "E e l" "E e (l @ [Rcpt_To r])" for e
      using Cons.prems [of "[]" e] Cons.prems [of "[Rcpt_To r]" e] False by (simp_all add: first_occurrences_Cons)
    have "dialogue ((=) (l @ [Rcpt_To r])) (send_recipients (r # seen) rs)
      (\<lambda>_. (=) ((l @ [Rcpt_To r]) @ map Rcpt_To (filter (\<lambda>x. x \<notin> set (r # seen)) (first_occurrences rs)))) E"
    proof (rule Cons.IH)
      fix e ts assume "prefix ts (map Rcpt_To (filter (\<lambda>x. x \<notin> set (r # seen)) (first_occurrences rs)))"
      then have "E e (l @ Rcpt_To r # ts)"
        using Cons.prems [of "Rcpt_To r # ts" e] False by (simp add: first_occurrences_Cons f)
      then show "E e ((l @ [Rcpt_To r]) @ ts)" by simp
    qed
    then show ?thesis
      using dialogue_bind [OF dialogue_command_at [OF e]] False by (simp add: first_occurrences_Cons f)
  qed
qed

lemma dialogue_copy_at:
  assumes "\<And>e ps. E e (l @ map Payload ps)"
  shows "dialogue (\<lambda>k. \<exists>ps. k = l @ map Payload ps) (copy_payload n reads fails w)
    (\<lambda>_ k. \<exists>ps. k = l @ map Payload ps) E"
proof (induction n reads fails w rule: copy_payload.induct)
  case (1 n fails w)
  then show ?case by (auto intro!: dialogue_return dialogue_fail simp: assms)
next
  case (2 n r rs fails w)
  let ?P = "\<lambda>k. \<exists>ps. k = l @ map Payload ps"
  have w: "dialogue ?P (smtp_write (Payload p) f) (\<lambda>_. ?P) E" for p f
  proof (rule dialogue_write)
    have snoc: "(l @ map Payload ps) @ [Payload p] = l @ map Payload (ps @ [p])" for ps by simp
    show "E (f d c) (k @ [Payload p])" if "?P k" for d c k using that assms snoc by metis
    show "?P (k @ [Payload p])" if "?P k" for k using that snoc by metis
  qed
  show ?case
  proof (cases "n = 0")
    case False
    have "dialogue ?P (if n < length r then smtp_return (w + n, drop n r # rs)
        else copy_payload (n - length r) rs fails (w + length r)) (\<lambda>_. ?P) E"
      by (rule dialogue_if) (auto intro: dialogue_return 2 [OF False])
    then show ?thesis unfolding copy_payload.simps if_not_P [OF False] by (rule dialogue_bind [OF w])
  qed (auto intro!: dialogue_return)
qed

lemma dialogue_data_at:
  assumes e: "\<And>e ps k. prefix k (Data_Command # map Payload ps @ [Terminator]) \<Longrightarrow> E e (l @ k)"
  shows "dialogue ((=) l) (send_data n source d ended reply) (\<lambda>_ k. \<exists>ps. k = l @ Data_Command # map Payload ps @ [Terminator]) E"
proof -
  let ?P = "\<lambda>k. \<exists>ps. k = (l @ [Data_Command]) @ map Payload ps"
  let ?T = "\<lambda>k. \<exists>ps. k = l @ Data_Command # map Payload ps @ [Terminator]"
  have p: "E x k" if at: "?P k" for x k
  proof -
    obtain ps where k: "k = l @ Data_Command # map Payload ps" using at by auto
    show ?thesis unfolding k by (rule e [of _ ps]) simp
  qed
  have t: "E x k" if "?T k" for x k
    using that e [of "Data_Command # map Payload ps @ [Terminator]" ps for ps] by auto
  have d: "?T (k @ [Terminator])" if "?P k" for k using that by auto
  have start: "E x l" "E x (l @ [Data_Command])" for x
    using e [of "[]" "[]" x] p [of "l @ [Data_Command]" x] by simp_all
  show ?thesis
    unfolding send_data_def
    apply (rule dialogue_bind [OF dialogue_command_at [OF start]])
    apply (rule dialogue_bind [OF dialogue_answer], simp add: start)
    apply (rule dialogue_bind [OF dialogue_pre [OF dialogue_copy_at [where l = "l @ [Data_Command]"]]])
      apply (rule p, blast)
     apply (rule exI [of _ "[]"], simp)
    apply (simp only: split_beta)
    apply (rule dialogue_if, rule dialogue_fail, erule p)
    apply (rule dialogue_if, rule dialogue_fail, erule p)
    apply (rule dialogue_bind [OF dialogue_write [where Q = "\<lambda>_. ?T"]])
      apply (rule t, erule d)
     apply (erule d)
    apply (rule dialogue_bind [OF dialogue_answer], erule t)
    apply (rule dialogue_case_sum, rule dialogue_fail, erule t)
    apply (simp only: split_beta)
    apply (rule dialogue_return, assumption)
    done
qed

lemma in_script_prefix: "prefix k (submission_script rcpts u e ps) \<Longrightarrow> in_script rcpts k"
  by (auto simp: in_script_def)

lemma dialogue_submit_order:
  "dialogue ((=) []) (submit_reader requires rcpts n source d ended reply)
     (\<lambda>_ l. \<exists>u e ps. l = submission_script rcpts u e ps) (\<lambda>_. in_script rcpts)"
  (is "dialogue _ _ ?Q ?E")
proof -
  have pre: "in_script rcpts k" if "prefix k [Hello, Start_Tls, Authenticate]" for k
  proof (rule in_script_prefix)
    show "prefix k (submission_script rcpts True True [])"
      using prefix_order.trans [OF that] by (simp add: submission_script_def)
  qed
  have env: "in_script rcpts ([Hello, Start_Tls, Authenticate, Mail_From u e] @ k)"
    if "prefix k (map Rcpt_To (first_occurrences rcpts))" for u e k
  proof (rule in_script_prefix)
    show "prefix ([Hello, Start_Tls, Authenticate, Mail_From u e] @ k) (submission_script rcpts u e [])"
      unfolding submission_script_def same_prefix_prefix using that by (rule prefix_prefix)
  qed
  have data: "in_script rcpts (([Hello, Start_Tls, Authenticate, Mail_From u e] @ map Rcpt_To (first_occurrences rcpts)) @ k)"
    if "prefix k (Data_Command # map Payload ps @ [Terminator])" for u e k ps
  proof (rule in_script_prefix)
    show "prefix (([Hello, Start_Tls, Authenticate, Mail_From u e] @ map Rcpt_To (first_occurrences rcpts)) @ k)
        (submission_script rcpts u e ps)"
      unfolding submission_script_def append_assoc same_prefix_prefix using that by simp
  qed
  have fail: "dialogue ((=) k) (smtp_fail e) ?Q ?E" if "prefix k [Hello, Start_Tls, Authenticate]" for k e
    by (rule dialogue_fail) (use pre [OF that] in auto)
  have answer: "dialogue ((=) []) (smtp_answer f) (\<lambda>_. (=) []) ?E" for f
    by (rule dialogue_answer) (use pre [of "[]"] in auto)
  have command: "dialogue ((=) k) (smtp_command ev f) (\<lambda>_. (=) (k @ [ev])) ?E"
    if "prefix (k @ [ev]) [Hello, Start_Tls, Authenticate]" for k ev f
    by (rule dialogue_command_at) (use pre that append_prefixD in blast)+
  have mail: "dialogue ((=) [Hello, Start_Tls, Authenticate]) (smtp_command (Mail_From u e) f)
      (\<lambda>_. (=) [Hello, Start_Tls, Authenticate, Mail_From u e]) ?E" for u e f
    using dialogue_command_at [where l = "[Hello, Start_Tls, Authenticate]" and E = ?E and ev = "Mail_From u e"]
      pre env [of "[]"] by simp
  have recipients: "dialogue ((=) [Hello, Start_Tls, Authenticate, Mail_From u e]) (send_recipients [] rcpts)
      (\<lambda>_. (=) ([Hello, Start_Tls, Authenticate, Mail_From u e] @ map Rcpt_To (first_occurrences rcpts))) ?E" for u e
    using dialogue_recipients_at [of "[]" rcpts ?E "[Hello, Start_Tls, Authenticate, Mail_From u e]"] env by simp
  show ?thesis
    unfolding submit_reader_def
    apply (rule dialogue_if, rule fail, simp)
    apply (rule dialogue_if, rule fail, simp)
    apply (rule dialogue_case_sum, rule fail, simp)
    apply (rule dialogue_bind [OF answer])
    apply (rule dialogue_bind [OF command], simp)
    apply (rule dialogue_bind [OF dialogue_extension])
    apply (rule dialogue_if, rule fail, simp)
    apply (rule dialogue_bind [OF command], simp)
    apply (rule dialogue_bind [OF dialogue_extension])
    apply (rule dialogue_bind [OF dialogue_extension])
    apply (rule dialogue_if, rule fail, simp)
    apply (rule dialogue_bind [OF command], simp)
    apply (simp only: append.simps)
    apply (rule dialogue_bind [OF mail])
    apply (rule dialogue_bind [OF recipients])
    apply (rule dialogue_post [OF dialogue_data_at])
     apply (erule data)
    apply (auto simp: submission_script_def)
    done
qed

text \<open>C29. Every submission writes a prefix of one script: EHLO, STARTTLS, the credentials, the sender, each
  recipient once in the order given, DATA, the payload and the terminator; a success has written all
  of it. So credentials, addresses and content never precede STARTTLS, and no command is repeated.\<close>

theorem submission_order:
  assumes "sw_log w = []" "submit_reader requires rcpts n source d ended reply w = (r, w')"
  shows "in_script rcpts (sw_log w')"
  using dialogue_submit_order [of requires rcpts n source d ended reply, unfolded dialogue_def, rule_format, of w] assms
  by (cases r) (auto intro: in_script_prefix)

lemma smtp_bindE:
  assumes "smtp_bind m f w = (r, w')"
  obtains e where "m w = (Inl e, w')" | x w1 where "m w = (Inr x, w1)" "f x w1 = (r, w')"
  using assms by (auto simp: smtp_bind_def split: prod.splits sum.splits)

abbreviation all_succeed :: "nat \<Rightarrow> smtp_world \<Rightarrow> bool" where
  "all_succeed k w \<equiv> list_all (\<lambda>a. a = Succeeds) (take k (sw_answers w))"

lemma answer_log: "smtp_answer c w = (q, w1) \<Longrightarrow> sw_log w1 = sw_log w"
  by (auto simp: smtp_answer_def split: list.splits smtp_answer.splits)

lemma answer_succeeds: "smtp_answer c w = (Inr x, w1) \<Longrightarrow> all_succeed (Suc k) w = all_succeed k w1"
  by (auto simp: smtp_answer_def split: list.splits smtp_answer.splits)

lemma answer_step:
  assumes "smtp_bind (smtp_answer c) f w = (r, w')" "A \<in> set (sw_log w')" "A \<notin> set (sw_log w)"
  obtains w1 where "f () w1 = (r, w')" "A \<notin> set (sw_log w1)" "\<And>k. all_succeed (Suc k) w = all_succeed k w1"
  using assms(1)
proof (rule smtp_bindE)
  fix e assume "smtp_answer c w = (Inl e, w')"
  then show ?thesis using assms(2,3) by (auto dest: answer_log)
next
  fix x w1 assume a: "smtp_answer c w = (Inr x, w1)" "f x w1 = (r, w')"
  then show ?thesis using that [of w1] assms(3) answer_succeeds [OF a(1)] answer_log [OF a(1)] by simp
qed

lemma command_step:
  assumes "smtp_bind (smtp_command ev c) f w = (r, w')" "A \<in> set (sw_log w')" "A \<notin> set (sw_log w)" "A \<noteq> ev"
  obtains w1 where "f () w1 = (r, w')" "A \<notin> set (sw_log w1)" "\<And>k. all_succeed (Suc (Suc k)) w = all_succeed k w1"
proof -
  have "smtp_bind (smtp_answer session_error) (\<lambda>_. smtp_bind (smtp_write ev c) f) w = (r, w')"
    using assms(1) by (simp add: smtp_command_def smtp_bind_def split: prod.splits sum.splits)
  then obtain w1 where w1: "smtp_bind (smtp_write ev c) f w1 = (r, w')" "A \<notin> set (sw_log w1)"
      "\<And>k. all_succeed (Suc k) w = all_succeed k w1"
    using answer_step assms(2,3) by metis
  then have "smtp_bind (smtp_answer c) f (w1\<lparr>sw_log := sw_log w1 @ [ev]\<rparr>) = (r, w')"
    by (simp add: smtp_bind_def smtp_write_def)
  then obtain w2 where "f () w2 = (r, w')" "A \<notin> set (sw_log w2)" "\<And>k. all_succeed (Suc k) w1 = all_succeed k w2"
    using answer_step [of c f "w1\<lparr>sw_log := sw_log w1 @ [ev]\<rparr>" r w' A] assms(2,4) w1(2) by auto
  then show ?thesis using that w1(3) by metis
qed

lemma extension_step:
  assumes "smtp_bind smtp_extension f w = (r, w')" "A \<notin> set (sw_log w)"
  obtains b w1 where "f b w1 = (r, w')" "A \<notin> set (sw_log w1)" "\<And>k. b \<Longrightarrow> all_succeed (Suc k) w = all_succeed k w1"
  using assms that unfolding smtp_bind_def smtp_extension_def smtp_answer_def
  by (auto split: list.splits smtp_answer.splits)

lemma prefix_three:
  assumes "prefix l (a # b # c # r)" "c \<in> set l" "c \<noteq> a" "c \<noteq> b"
  shows "prefix [a, b, c] l"
  using assms by (cases l; cases "tl l"; cases "tl (tl l)") auto

text \<open>C28. When the credentials are written, the connection, the greeting, EHLO, the announcement of
  STARTTLS and the TLS handshake have all succeeded.\<close>

theorem credentials_after_tls:
  assumes "submit_reader requires rcpts n source d ended reply w = (r, w')" "sw_log w = []"
    "Authenticate \<in> set (sw_log w')"
  shows "list_all (\<lambda>a. a = Succeeds) (take 6 (sw_answers w)) \<and> prefix [Hello, Start_Tls, Authenticate] (sw_log w')"
proof
  obtain u e ps where "prefix (sw_log w') (submission_script rcpts u e ps)"
    using dialogue_submit_order [of requires rcpts n source d ended reply, unfolded dialogue_def, rule_format, of w] assms
    by (cases r) (force simp: in_script_def)+
  then show "prefix [Hello, Start_Tls, Authenticate] (sw_log w')"
    unfolding submission_script_def append.simps by (rule prefix_three) (use assms in simp_all)
  obtain rest where "smtp_bind (smtp_answer session_error) (\<lambda>_.
        smtp_bind (smtp_command Hello session_error) (\<lambda>_.
        smtp_bind smtp_extension (\<lambda>tls.
        if \<not> tls then smtp_fail (TransportErr ''smtp_tls_failed'' None None)
        else smtp_bind (smtp_command Start_Tls start_tls_error) rest))) w = (r, w')"
    using assms by (auto simp: submit_reader_def smtp_fail_def split: if_splits sum.splits)
  then obtain w1 where w1: "smtp_bind (smtp_command Hello session_error) (\<lambda>_.
        smtp_bind smtp_extension (\<lambda>tls.
        if \<not> tls then smtp_fail (TransportErr ''smtp_tls_failed'' None None)
        else smtp_bind (smtp_command Start_Tls start_tls_error) rest)) w1 = (r, w')"
      "Authenticate \<notin> set (sw_log w1)" "\<And>k. all_succeed (Suc k) w = all_succeed k w1"
    by (rule answer_step [where A = Authenticate]) (use assms in simp_all)
  from w1(1) obtain w2 where w2: "smtp_bind smtp_extension (\<lambda>tls.
        if \<not> tls then smtp_fail (TransportErr ''smtp_tls_failed'' None None)
        else smtp_bind (smtp_command Start_Tls start_tls_error) rest) w2 = (r, w')"
      "Authenticate \<notin> set (sw_log w2)" "\<And>k. all_succeed (Suc (Suc k)) w1 = all_succeed k w2"
    by (rule command_step [where A = Authenticate]) (use assms w1(2) in simp_all)
  from w2(1) obtain tls w3 where w3: "(if \<not> tls then smtp_fail (TransportErr ''smtp_tls_failed'' None None)
        else smtp_bind (smtp_command Start_Tls start_tls_error) rest) w3 = (r, w')"
      "Authenticate \<notin> set (sw_log w3)" "\<And>k. tls \<Longrightarrow> all_succeed (Suc k) w2 = all_succeed k w3"
    by (rule extension_step [where A = Authenticate]) (use w2(2) in simp_all)
  have tls using w3(1,2) assms(3) by (cases tls) (auto simp: smtp_fail_def)
  then have "smtp_bind (smtp_command Start_Tls start_tls_error) rest w3 = (r, w')" using w3(1) by simp
  then obtain w4 where "\<And>k. all_succeed (Suc (Suc k)) w3 = all_succeed k w4"
    by (rule command_step [where A = Authenticate]) (use assms w3(2) in simp_all)
  from this [of 0] have "all_succeed (Suc (Suc (Suc (Suc (Suc (Suc 0)))))) w"
    using w1(3) w2(3) w3(3) \<open>tls\<close> by simp
  then show "all_succeed 6 w" by (simp add: eval_nat_numeral)
qed

lemma final_reply_of:
  "well_formed_reply code ms \<Longrightarrow> read_final_response ended (render_reply code ms @ rest) =
     (if code = 250 then Inr (code, join_with [CHR 0x0A] ms) else Inl (FinalReply code (join_with [CHR 0x0A] ms)))"
  using final_reply_iff by blast

section \<open>An example\<close>

text \<open>A submission of seven bytes to one recipient given twice, everything but the final reply succeeding.\<close>

definition example_submission :: "string \<Rightarrow> string smtp" where
  "example_submission reply = submit_reader (Inr False) [''a@b'', ''a@b''] 7 \<lparr>src_reads = [''abc'', ''defg''], src_fails = False\<rparr>
     False IoFailure reply"

definition example_log :: "smtp_event list" where
  "example_log = [Hello, Start_Tls, Authenticate, Mail_From False True, Rcpt_To ''a@b'', Data_Command,
     Payload ''abc'', Payload ''defg'', Terminator]"

definition idle_world :: smtp_world where
  "idle_world = \<lparr>sw_log = [], sw_answers = []\<rparr>"

lemmas smtp_run = smtp_bind_def smtp_return_def smtp_fail_def smtp_answer_def smtp_write_def smtp_command_def smtp_extension_def

lemmas reply_limits = reply_buffer_bytes_def max_final_reply_lines_def max_final_reply_bytes_def

lemma format_250 [simp]: "format_uint 250 = ''250''" "format_uint 550 = ''550''"
  by (simp_all add: format_uint_three, code_simp+)

lemma well_formed_examples: "well_formed_reply 550 [''no'']" "well_formed_reply 250 [''queued'', ''ok'']"
  by (simp_all add: well_formed_reply_def reply_code_def reply_text_ok_def reply_line_def crlf_def reply_limits)

lemma refused_reply: "read_final_response IoFailure (render_reply 550 [''no'']) = Inl (FinalReply 550 ''no'')"
  using final_reply_of [of 550 "[''no'']" IoFailure "[]"] well_formed_examples by simp

lemma accepted_reply: "read_final_response IoFailure (render_reply 250 [''queued'', ''ok'']) = Inr (250, ''queued'' @ CHR 0x0A # ''ok'')"
  using final_reply_of [of 250 "[''queued'', ''ok'']" IoFailure "[]"] well_formed_examples by simp

lemma example_dialogue:
  "example_submission reply idle_world = (case read_final_response IoFailure reply of
      Inl e \<Rightarrow> smtp_fail (classify_final_reply_error False e)
    | Inr (code, text) \<Rightarrow> smtp_return (format_uint code @ CHR '' '' # text)) \<lparr>sw_log = example_log, sw_answers = []\<rparr>"
  by (simp add: example_submission_def submit_reader_def send_data_def smtp_run example_log_def idle_world_def)

lemma example_refused:
  "example_submission (render_reply 550 [''no'']) idle_world
     = (Inl (TransportErr ''smtp_rejected'' None (Some PlainErr)), \<lparr>sw_log = example_log, sw_answers = []\<rparr>)"
  by (simp add: example_dialogue refused_reply [simplified] classify_final_reply_error_def smtp_fail_def)

lemma example_accepted:
  "example_submission (render_reply 250 [''queued'', ''ok'']) idle_world
     = (Inr (''250 queued'' @ CHR 0x0A # ''ok''), \<lparr>sw_log = example_log, sw_answers = []\<rparr>)"
  by (simp add: example_dialogue accepted_reply [simplified] smtp_return_def)

theorem definite_failure_not_accepted_witness: "not_accepted IoFailure (render_reply 550 [''no'']) example_log"
proof -
  have "\<not> is_submission_outcome_unknown (Some (TransportErr ''smtp_rejected'' None (Some PlainErr)))" by code_simp
  then show ?thesis
    using definite_failure_not_accepted [OF _ example_refused [unfolded example_submission_def]] by (simp add: idle_world_def)
qed

theorem submission_success_complete_witness: "payload_of example_log = ''abcdefg'' \<and> Terminator \<in> set example_log"
  using submission_success_complete [OF _ example_accepted [unfolded example_submission_def]] by (simp add: idle_world_def)

theorem submission_order_witness: "in_script [''a@b'', ''a@b''] example_log"
  using submission_order [OF _ example_accepted [unfolded example_submission_def]] by (simp add: idle_world_def)

theorem credentials_after_tls_witness: "prefix [Hello, Start_Tls, Authenticate] example_log"
  using credentials_after_tls [OF example_accepted [unfolded example_submission_def]] by (simp add: idle_world_def example_log_def)

end
