(* ===== verification/Spec2Isabelle.thy ===== *)
theory Spec2Isabelle
  imports Mail_Transfer_Proofs Batch_Validation Modified_UTF7 Imap_Flag_Proofs Imap_Transfer_Proofs Imap_Append Session_Pool_Proofs Draft_Send_Theorems Smtp_Proofs
begin

text \<open>
  \<^bold>\<open>Verification of the core of MailCLI.\<close>

  MailCLI is a command line client that reads Apple Mail's local store, talks IMAP and SMTP to the
  servers of its accounts, and sends drafts. What must not go wrong is in the effects: a message sent
  twice, a message lost by a move, flags changed on the wrong message, a reference that names another
  message than the one it was issued for, a fault reported as success. The development models the
  packages where these effects are decided and proves that they do not go wrong, whichever call fails and,
  but for the provisos below, whatever the servers answer.

  \<^bold>\<open>Parts of the program and the theories that model them.\<close>

  \<^item> \<open>src/internal/mailref\<close>, the opaque references users pass around. \<open>Mailref_Binary\<close> is \<open>binary.go\<close>: the
  payload writers and readers, flag bytes, UUIDs and canonical decimals, with \<open>int64\<close> and \<open>uint32\<close>
  fields as words. \<open>Mailref_Reference\<close> is \<open>reference.go\<close>, \<open>server.go\<close> and \<open>identity.go\<close>: tokens, the
  dispatch between the legacy and the compact payloads, message validation, server references, search
  cursors and the identity keys.
  \<^item> \<open>src/internal/transport/imapclient\<close>, the IMAP client. \<open>Modified_UTF7\<close>: mailbox names on the wire
  (\<open>modified_utf7.go\<close>). \<open>Imap_Values\<close>: quoting and the values of responses (\<open>parse.go\<close>). \<open>Imap_Wire\<close>: lines
  and literals under limits, response budgets, tagged completions (\<open>wire.go\<close>, \<open>response_budget.go\<close>).
  \<open>Imap_Fetch\<close>: FETCH responses (\<open>fetch.go\<close>). \<open>Imap_Flags\<close> and \<open>Imap_Flag_Proofs\<close>: flag changes
  (\<open>flags.go\<close>, \<open>flag_permissions.go\<close>). \<open>Imap_Commands\<close>: greeting, login, capabilities, SELECT, LIST, SEARCH,
  STATUS and FETCH (\<open>imap.go\<close>, \<open>commands.go\<close>, \<open>search.go\<close>, \<open>status.go\<close>). \<open>Imap_Append\<close>: the sent copy
  (\<open>append.go\<close>). \<open>Imap_Transfer\<close> and \<open>Imap_Transfer_Proofs\<close>: copy, move and delete (\<open>mutations.go\<close>).
  \<open>Session_Pool\<close> and \<open>Session_Pool_Proofs\<close>: the pool of authenticated sessions and the gate in front of
  it (\<open>pool.go\<close>).
  \<^item> \<open>src/internal/transport\<close>. \<open>Transport_Errors\<close>: the error tree, \<open>ErrorCode\<close> and the predicates callers
  decide by, the transfer budget (\<open>errors.go\<close>, \<open>classification.go\<close>, \<open>transfer_budget.go\<close>).
  \<open>Mailbox_Resolution\<close>: which listed mailbox a path or a role means (\<open>mailbox_resolution.go\<close>).
  \<^item> \<open>src/internal/transport/smtpclient\<close>, in \<open>Smtp_Submission\<close> and \<open>Smtp_Proofs\<close>: the dialogue, the copy of
  the message, the final reply and the classification of every failure (\<open>smtp.go\<close>).
  \<^item> \<open>src/internal/mail\<close>, the drafts. \<open>Send_Evidence\<close>: claims, receipts and results (\<open>model.go\<close>,
  \<open>draft_claims.go\<close>, \<open>draft_revision.go\<close>). \<open>Draft_Store\<close>: the files of a draft and the operations on them
  (\<open>draft_storage.go\<close>, \<open>draft_persistence.go\<close>, \<open>draft_recovery_spool.go\<close>, \<open>draft_state.go\<close>, the opening of a
  composed message in \<open>mime_composer.go\<close>). \<open>Draft_Send\<close>:
  sending, reconciling, updating and discarding (\<open>draft_send.go\<close>, \<open>draft_composition.go\<close>,
  \<open>draft_store.go\<close>, \<open>draft_context.go\<close>). \<open>Draft_Protocol\<close> is the abstract specification of a draft,
  \<open>Draft_Triples\<close> the logic, \<open>Draft_Send_Proofs\<close> the simulation and \<open>Draft_Send_Theorems\<close> its consequences.
  \<^item> \<open>src/internal/mail\<close>, what the user is told and batches. \<open>Operation_Guidance\<close>: the guidance derived from an
  error, whether a command may be run again and what effect it had (\<open>guidance.go\<close>, \<open>guidance_pre_effect.go\<close>).
  \<open>Batch_Execution\<close> and \<open>Batch_Proofs\<close>: the dispatcher and the workers of a batch (\<open>batch.go\<close>), and the guidance
  for a result too large to print (\<open>batchOutputFailureEnvelope\<close> of \<open>src/internal/cli/batch_commands.go\<close>).
  \<open>Batch_Validation\<close>: the requests it accepts (\<open>batch.go\<close>, the validation of \<open>attachment.go\<close>).
  \<^item> \<open>src/internal/mailstore\<close>, mutations by reference. \<open>Mail_Target\<close>: from a reference to a proved UID and
  mailbox (\<open>imap_resolve.go\<close>). \<open>Mail_Transfer\<close> and \<open>Mail_Transfer_Proofs\<close>: moving, copying and deleting, with
  the attempts the process remembers (\<open>imap_copy_move.go\<close>, \<open>imap_delete.go\<close>).
  \<^item> Go's standard library, as far as these use it. \<open>Go_Strings\<close> and \<open>Go_Utf8\<close>: \<open>strings\<close>, \<open>strconv\<close>,
  \<open>unicode/utf8\<close>, \<open>unicode/utf16\<close>. \<open>Go_Encoding\<close>: varints, hex, base64. \<open>Go_Sha256\<close>: SHA-256.
  \<open>Go_Mail_Header\<close>: the header reader of \<open>net/mail\<close>. A Go string is its list of bytes.

  The parts meet where the code calls across packages. A send (\<open>Draft_Send\<close>) submits through SMTP and then
  stores the sent copy through IMAP; it sees both through the verdict their errors give, which
  \<open>Transport_Errors\<close> classifies, and \<open>Smtp_Proofs\<close> and \<open>Imap_Append\<close> show that the verdicts the real
  dialogues produce deserve the trust the protocol of drafts puts in them: a failure that does not
  claim an unknown outcome means that nothing was accepted. The IMAP commands run on the wire layer, on
  sessions the pool hands out one borrower at a time; flag changes and transfers run on a SELECTed
  mailbox that \<open>Mailbox_Resolution\<close> chose. \<open>Mail_Transfer\<close> decodes references with \<open>Mailref_Reference\<close>, chooses
  mailboxes with \<open>Mailbox_Resolution\<close> and runs the commands of \<open>Imap_Transfer\<close> in their world, so its theorems rest
  on what those commands guarantee. A batch identifies messages by the identity keys of \<open>Mailref_Reference\<close>, and
  guidance reads the error trees of \<open>Transport_Errors\<close>.

  \<^bold>\<open>Conventions.\<close> A fallible Go function returns a sum, \<open>Inl\<close> the error, or, where the caller also reads
  the partial value, a pair (\<open>Prelude\<close>). A method that mutates its receiver returns it updated. Loops over
  an index are recursion on the rest of the data. A loop that reads from a connection has the fuel
  \<open>rl_limit\<close> of its budget, which the code counts down itself (1,024 responses, and 4 MiB of
  bytes, for an ordinary command), so running out of fuel is a branch of the code and not an artifact; the
  step lemmas (\<open>response_count_steps\<close>) expose it. The environment is quantified over: \<open>Imap_Wire\<close> runs
  against every byte stream and every list of call results, \<open>Smtp_Submission\<close>, \<open>Imap_Transfer\<close> and
  \<open>Draft_Store\<close> against every oracle, which may fail a call before, during or after its effect and, for
  drafts, kill the process at every point; batches run under every interleaving and every answer of the
  service, targets are resolved from every combination of answers. A theorem about every oracle is a theorem about every fault and
  every crash. Where a result rests on what a server or another process does, the theorem says so: moves and
  deletes assume \<open>truthful\<close> (a COPYUID only for an executed command, completed reads that report the state of the
  server; \<open>false_copyuid_loses\<close> shows that the assumption is needed), and drafts are told by \<open>interference\<close> whether
  another process leaves the files of a message alone, replaces them, or rewrites one in place while it is
  streamed, which the digest check before it cannot notice (\<open>rewritten_spool_appended\<close>). Callers of the pool interleave as an inductive step relation (\<open>State_Machine\<close>).

  \<^bold>\<open>Interfaces.\<close> \<open>canonical_codec\<close> (\<open>Prelude\<close>) is the contract of an encoder and a decoder; it is interpreted
  on tokens, on the account, mailbox and message payloads and on server references, so that a round trip
  and the uniqueness of the encoding follow once. \<open>preserved_invariant\<close> (\<open>State_Machine\<close>) is the contract
  under which an invariant holds in all reachable states; it is interpreted on the session pool, on the
  protocol of drafts and on batches.

  \<^bold>\<open>What the lemmas show.\<close>

  \<^item> Drafts: at most one submission and one APPEND of a draft was not refused, across every sequence of
  operations, fault and crash; what is appended is what was submitted, unless its file is rewritten in place
  while it is streamed; the exact copy stays until the draft is settled, if no other process touches it; no
  send, reconciliation, update or discard changes a receipt; a result without an error is settled.
  \<^item> SMTP: a failure that is not unknown was not accepted; a success was complete and confirmed; recipients
  are written once and in order; credentials follow the TLS handshake; the reader of the final reply is
  equivalent to a grammar of replies.
  \<^item> Errors: an uncertain code anywhere in an error tree wins.
  \<^item> Pool: exclusive mutations, one borrower per session, the connection limit, no deadlock, and reuse only of
  sessions that no fault has touched and no watcher or \<open>Close\<close> has closed.
  \<^item> IMAP: the limits of the wire layer and the framing of literals; a flag change writes at most one STORE
  per phase, and its evidence is what was observed, which simulates an honest mailbox; a message is never
  lost by a move or delete on a truthful server; what SEARCH and STATUS report; APPEND failures; quoting.
  \<^item> Mutations by reference: the target is proved to be the message of the reference; no transfer loses it or
  writes two transfer commands, over the repetition after a rebuilt mailbox; a copy whose outcome is unknown is
  not sent again by the process, as long as no mailbox is rebuilt and resolved anew
  (\<open>repetition_ignores_attempt\<close>).
  \<^item> Guidance and batches: the guidance for a send or reconciliation without a mutation report, and for an error
  that reports an unsettled mutation, offers no replay of an uncertain outcome (\<open>bare_uncertainty_replayed\<close> shows
  the scope); a replay is offered only for a command without effect, or for a read batch too large to print; a
  batch executes an identity key once, has one result per item and ends.
  \<^item> References and names: round trips of tokens, server references, mailbox names; canonicity; the choice
  of a mailbox is unambiguous for mutations.

  \<^bold>\<open>Parameters.\<close> Code outside the repository is an argument: the NFC normalisation of
  \<open>golang.org/x/text\<close>, full Unicode case folding, \<open>strings.ToLower\<close>, the JSON codec of legacy payloads and
  cursors, and the one test of \<open>guidance.go\<close> on the text of an error. What is assumed of them is a named hypothesis of the theorem that needs it, with a witness.
  \<open>net/smtp\<close>, TLS, the file system and the servers are the oracles.

  \<^bold>\<open>Not modelled.\<close> The command line (\<open>src/internal/cli\<close>, \<open>src/cmd\<close>) parses, formats and dispatches; of it only the
  guidance above is modelled. The keychain,
  the Mail.app scripts and the compose handoff call the operating system. The local store (\<open>src/internal/mailstore\<close>
  but for the mutations above) is SQL over Apple Mail's index and the decoding of its files, on SQLite and on
  character set and MIME libraries. Rendering of bodies and HTML (\<open>mime_composer.go\<close>, \<open>content*.go\<close>) rests on HTML
  and MIME libraries; a send sees a message by its length and digest. Creation, saving, adoption and pruning of
  drafts are not modelled; what they leave behind is an arbitrary first state of \<open>Draft_Store\<close>. \<open>MarkMessage\<close>
  is not modelled beyond its flag change. Of \<open>smtpclient\<close> the scan of headers for SMTPUTF8 is a parameter, of
  \<open>imapclient\<close> the listing of recent messages, excerpts and the spooling of large bodies are left out.
\<close>

end
